(* ===== verification/Prelude.thy ===== *)
theory Prelude
  imports Main "HOL-Library.Word" "HOL-Library.Finite_Map" "HOL-Library.List_Lexorder"
    "HOL-Library.Char_ord" "HOL-Library.Multiset"
begin

text \<open>
  The Go values the Cache-Pot sources compute with, and the facts on them that the component
  theories share: byte slices with their nil value, two's complement \<^verbatim>\<open>int64\<close>,
  instants and durations, the arbitrary iteration order of a Go map, and ASCII case mapping.

  A Go map is a finite map (\<open>fmap\<close>); \<^verbatim>\<open>len(m)\<close> is \<open>fsize m\<close>, and a
  \<^verbatim>\<open>for k := range m\<close> loop runs over \<open>range_keys env m\<close>: some permutation of the
  keys, chosen by the environment.
\<close>

section \<open>Proof collections\<close>

named_theorems go_simps \<comment> \<open>evaluation of the Go primitives below\<close>
named_theorems inv_intros \<comment> \<open>operations keep their component's invariant\<close>
named_theorems evolve_intros \<comment> \<open>operations bump the WATCH version of what they change\<close>

section \<open>Byte slices\<close>

text \<open>
  A \<^verbatim>\<open>[]byte\<close> is nil or a sequence of bytes, and the protocol layer tells nil and empty
  apart (\<^verbatim>\<open>WriteBulk\<close> writes the null bulk string for nil), so the model does too.
  A Go \<^verbatim>\<open>string\<close> is a sequence of bytes, one \<open>char\<close> each.
\<close>

type_synonym bytes = "string option"

definition bytes_of :: "string \<Rightarrow> bytes" \<comment> \<open>\<^verbatim>\<open>[]byte(s)\<close>, never nil\<close>
  where "bytes_of s = Some s"

definition content :: "bytes \<Rightarrow> string" \<comment> \<open>\<^verbatim>\<open>string(b)\<close>, the bytes read by loops and \<^verbatim>\<open>len\<close>\<close>
  where "content b = (case b of None \<Rightarrow> [] | Some s \<Rightarrow> s)"

definition copy_bytes :: "bytes \<Rightarrow> bytes" \<comment> \<open>\<^verbatim>\<open>append([]byte(nil), b...)\<close>: nil when nothing is appended\<close>
  where "copy_bytes b = (if content b = [] then None else Some (content b))"

definition bytes_equal :: "bytes \<Rightarrow> bytes \<Rightarrow> bool" \<comment> \<open>\<^verbatim>\<open>bytes.Equal\<close>\<close>
  where "bytes_equal a b \<longleftrightarrow> content a = content b"

lemma content_simps [simp, go_simps]:
  "content None = []" "content (Some s) = s"
  by (simp_all add: content_def)

lemma content_bytes_of [simp, go_simps]: "content (bytes_of s) = s"
  by (simp add: bytes_of_def)

lemma content_copy [simp, go_simps]: "content (copy_bytes b) = content b"
  by (simp add: copy_bytes_def)

lemma copy_nil [simp]: "copy_bytes None = None"
  by (simp add: copy_bytes_def)

lemma copy_copy [simp]: "copy_bytes (copy_bytes b) = copy_bytes b"
  by (simp add: copy_bytes_def)

lemma copy_bytes_nil_iff [simp]: "copy_bytes b = None \<longleftrightarrow> content b = []"
  by (simp add: copy_bytes_def)

lemma copy_bytes_of_nonempty: "s \<noteq> [] \<Longrightarrow> copy_bytes (bytes_of s) = bytes_of s"
  by (simp add: copy_bytes_def bytes_of_def)

section \<open>64-bit integers\<close>

text \<open>
  Go's \<^verbatim>\<open>int64\<close> (and \<^verbatim>\<open>int\<close>, 64 bits on the targets the project builds for) is
  an integer kept in two's complement range by \<open>int64\<close> after every operation that can leave it.
\<close>

definition int64 :: "int \<Rightarrow> int"
  where "int64 x = signed_take_bit 63 x"

abbreviation MaxInt64 :: int where "MaxInt64 \<equiv> 9223372036854775807"
abbreviation MinInt64 :: int where "MinInt64 \<equiv> - 9223372036854775808"

definition is_int64 :: "int \<Rightarrow> bool"
  where "is_int64 x \<longleftrightarrow> MinInt64 \<le> x \<and> x \<le> MaxInt64"

lemma int64_range: "is_int64 (int64 x)"
proof -
  have "- (2 ^ 63) \<le> signed_take_bit 63 x" "signed_take_bit 63 x < 2 ^ 63"
    by (rule signed_take_bit_int_greater_eq_minus_exp, rule signed_take_bit_int_less_exp)
  then show ?thesis by (simp add: is_int64_def int64_def)
qed

lemma int64_id [simp]: "is_int64 x \<Longrightarrow> int64 x = x"
  unfolding int64_def is_int64_def by (rule signed_take_bit_int_eq_self) simp_all

lemma int64_idem [simp]: "int64 (int64 x) = int64 x"
  by (simp add: int64_range)

lemma int64_add_left [simp]: "int64 (int64 x + y) = int64 (x + y)"
  unfolding int64_def
  by (metis signed_take_bit_add signed_take_bit_signed_take_bit min.idem)

lemma int64_add_right [simp]: "int64 (x + int64 y) = int64 (x + y)"
  by (metis add.commute int64_add_left)

lemma int64_diff_left [simp]: "int64 (int64 x - y) = int64 (x - y)"
  using int64_add_left [of x "- y"] by simp

lemma int64_cong: "int64 x = int64 y \<longleftrightarrow> x mod 2 ^ 64 = y mod 2 ^ 64"
proof -
  have "int64 x = int64 y \<longleftrightarrow> take_bit 64 x = take_bit 64 y"
    unfolding int64_def using signed_take_bit_eq_iff_take_bit_eq [of 63 x y] by simp
  then show ?thesis by (simp add: take_bit_eq_mod)
qed

lemma int64_as_mod: "int64 x = (x + 9223372036854775808) mod 18446744073709551616 - 9223372036854775808"
proof -
  let ?y = "(x + 9223372036854775808) mod 18446744073709551616 - (9223372036854775808 :: int)"
  have "is_int64 ?y" by (simp add: is_int64_def)
  moreover have "int64 x = int64 ?y"
    by (simp add: int64_cong mod_diff_left_eq)
  ultimately show ?thesis by simp
qed

section \<open>Instants and durations\<close>

text \<open>
  An instant (\<^verbatim>\<open>time.Time\<close>) is its number of nanoseconds since the Unix epoch; a
  \<^verbatim>\<open>time.Duration\<close> is an \<^verbatim>\<open>int64\<close> number of nanoseconds.
  \<^verbatim>\<open>Time.Sub\<close> saturates at the ends of the duration range.
\<close>

type_synonym instant = int
type_synonym duration = int

abbreviation Millisecond :: duration where "Millisecond \<equiv> 1000000"
abbreviation Second :: duration where "Second \<equiv> 1000000000"

definition zero_time :: instant \<comment> \<open>\<^verbatim>\<open>time.Time{}\<close>: year 1, UTC\<close>
  where "zero_time = - 62135596800 * Second"

definition time_add :: "instant \<Rightarrow> duration \<Rightarrow> instant"
  where "time_add t d = t + d"

definition time_sub :: "instant \<Rightarrow> instant \<Rightarrow> duration"
  where "time_sub t u = max MinInt64 (min MaxInt64 (t - u))"

lemma time_sub_id: "is_int64 (t - u) \<Longrightarrow> time_sub t u = t - u"
  by (auto simp: time_sub_def is_int64_def)

lemma time_sub_mono: "u \<le> v \<Longrightarrow> time_sub t v \<le> time_sub t u"
  by (auto simp: time_sub_def)

text \<open>Go's \<^verbatim>\<open>/\<close> and \<^verbatim>\<open>%\<close> on integers truncate towards zero.\<close>

definition quot :: "int \<Rightarrow> int \<Rightarrow> int"
  where "quot a b = sgn a * sgn b * (\<bar>a\<bar> div \<bar>b\<bar>)"

definition rem :: "int \<Rightarrow> int \<Rightarrow> int"
  where "rem a b = a - b * quot a b"

lemma quot_nonneg: "0 \<le> a \<Longrightarrow> 0 < b \<Longrightarrow> quot a b = a div b"
  by (cases "a = 0") (simp_all add: quot_def)

lemma rem_nonneg: "0 \<le> a \<Longrightarrow> 0 < b \<Longrightarrow> rem a b = a mod b"
  by (simp add: rem_def quot_nonneg minus_mult_div_eq_mod)

section \<open>Go maps and their iteration order\<close>

text \<open>
  What an operation takes from its environment: the current time (\<^verbatim>\<open>s.now()\<close>) and
  the order in which Go happens to range over a map. Go leaves that order unspecified, so
  \<open>order\<close> is any function that permutes its argument (\<open>env_ok\<close>).
\<close>

record goenv =
  now :: instant
  order :: "string list \<Rightarrow> string list"

definition env_ok :: "goenv \<Rightarrow> bool"
  where "env_ok env \<longleftrightarrow> (\<forall>xs. mset (order env xs) = mset xs)"

definition fsize :: "('k, 'v) fmap \<Rightarrow> nat" \<comment> \<open>\<^verbatim>\<open>len(m)\<close>\<close>
  where "fsize m = fcard (fmdom m)"

definition fkeys :: "('k::linorder, 'v) fmap \<Rightarrow> 'k list"
  where "fkeys m = sorted_list_of_fset (fmdom m)"

definition range_keys :: "goenv \<Rightarrow> (string, 'v) fmap \<Rightarrow> string list"
  where "range_keys env m = order env (fkeys m)"

definition range_set :: "goenv \<Rightarrow> string fset \<Rightarrow> string list"
  where "range_set env A = order env (sorted_list_of_fset A)"

lemma order_mset [simp]: "env_ok env \<Longrightarrow> mset (order env xs) = mset xs"
  by (simp add: env_ok_def)

lemma order_set [simp]: "env_ok env \<Longrightarrow> set (order env xs) = set xs"
  by (metis order_mset set_mset_mset)

lemma order_distinct [simp]: "env_ok env \<Longrightarrow> distinct (order env xs) = distinct xs"
  by (metis order_mset mset_eq_imp_distinct_iff)

lemma order_length [simp]: "env_ok env \<Longrightarrow> length (order env xs) = length xs"
  by (metis order_mset size_mset)

lemma set_sorted_list_of_fset [simp]: "set (sorted_list_of_fset A) = fset A"
  by (simp add: sorted_list_of_fset.rep_eq)

lemma distinct_sorted_list_of_fset [simp]: "distinct (sorted_list_of_fset A)"
  by (simp add: sorted_list_of_fset.rep_eq)

lemma length_sorted_list_of_fset [simp]: "length (sorted_list_of_fset A) = fcard A"
  by (simp add: sorted_list_of_fset.rep_eq fcard.rep_eq)

lemma set_fkeys [simp]: "set (fkeys m) = fmdom' m"
  by (simp add: fkeys_def fmdom'_alt_def)

lemma distinct_fkeys [simp]: "distinct (fkeys m)"
  by (simp add: fkeys_def)

lemma sorted_fkeys [simp]: "sorted (fkeys m)"
  by (simp add: fkeys_def sorted_list_of_fset.rep_eq)

lemma length_fkeys [simp]: "length (fkeys m) = fsize m"
  by (simp add: fkeys_def fsize_def)

lemma set_range_keys [simp]: "env_ok env \<Longrightarrow> set (range_keys env m) = fmdom' m"
  by (simp add: range_keys_def)

lemma distinct_range_keys [simp]: "env_ok env \<Longrightarrow> distinct (range_keys env m)"
  by (simp add: range_keys_def)

lemma length_range_keys [simp]: "env_ok env \<Longrightarrow> length (range_keys env m) = fsize m"
  by (simp add: range_keys_def)

lemma set_range_set [simp]: "env_ok env \<Longrightarrow> set (range_set env A) = fset A"
  by (simp add: range_set_def)

lemma distinct_range_set [simp]: "env_ok env \<Longrightarrow> distinct (range_set env A)"
  by (simp add: range_set_def)

lemma length_range_set [simp]: "env_ok env \<Longrightarrow> length (range_set env A) = fcard A"
  by (simp add: range_set_def)

lemma fmdom'_lookup: "k \<in> fmdom' m \<longleftrightarrow> fmlookup m k \<noteq> None"
  by (auto simp: fmlookup_dom'_iff)

lemma fmdom_lookup: "k |\<in>| fmdom m \<longleftrightarrow> fmlookup m k \<noteq> None"
  by (auto simp: fmlookup_dom_iff)

lemma fsize_empty [simp]: "fsize fmempty = 0"
  by (simp add: fsize_def)

lemma fsize_eq_0 [simp]: "fsize m = 0 \<longleftrightarrow> m = fmempty"
proof
  assume "fsize m = 0"
  then have "fmdom m = {||}" by (simp add: fsize_def)
  then show "m = fmempty"
    by (metis fempty_iff fmap_ext fmdom_notD fmempty_lookup)
qed simp

lemma fsize_upd: "fsize (fmupd k v m) = (if fmlookup m k = None then Suc (fsize m) else fsize m)"
  by (simp add: fsize_def fcard_finsert_if fmdom_lookup)

lemma fsize_drop: "fsize (fmdrop k m) = (if fmlookup m k = None then fsize m else fsize m - 1)"
proof (cases "fmlookup m k")
  case None
  then have "fmdrop k m = m" by (simp add: fmdrop_idle fmdom_lookup)
  with None show ?thesis by simp
next
  case (Some v)
  then have "k |\<in>| fmdom m" by (rule fmdomI)
  with Some show ?thesis by (simp add: fsize_def fcard_fminus_finsert)
qed

lemma fsize_pos: "fmlookup m k = Some v \<Longrightarrow> 0 < fsize m"
  by (metis fmempty_lookup fsize_eq_0 gr0I option.distinct(1))

lemma take_nat_Cons: "\<not> n \<le> i \<Longrightarrow> take (nat (n - i)) (x # xs) = x # take (nat (n - (i + 1))) xs"
proof -
  assume "\<not> n \<le> i"
  then have "nat (n - i) = Suc (nat (n - (i + 1)))" by arith
  then show ?thesis by simp
qed

section \<open>Case mapping\<close>

text \<open>
  \<^verbatim>\<open>strings.ToUpper\<close> and \<^verbatim>\<open>strings.ToLower\<close> as the sources use them: the
  result is compared with ASCII names. Beside the ASCII letters, exactly two runes have an ASCII
  upper case (U+0131 and U+017F, the bytes C4 B1 and C5 BF) and two an ASCII lower case (U+0130
  and U+212A, the bytes C4 B0 and E2 84 AA); every other rune stays outside ASCII, so a
  comparison with an ASCII name sees it as different either way.
\<close>

definition upper_char :: "char \<Rightarrow> char"
  where "upper_char c =
    (if CHR ''a'' \<le> c \<and> c \<le> CHR ''z'' then char_of (of_char c - 32 :: nat) else c)"

definition lower_char :: "char \<Rightarrow> char"
  where "lower_char c =
    (if CHR ''A'' \<le> c \<and> c \<le> CHR ''Z'' then char_of (of_char c + 32 :: nat) else c)"

fun to_upper :: "string \<Rightarrow> string" where
  "to_upper (c # d # ds) =
    (if c = CHR 0xC4 \<and> d = CHR 0xB1 then CHR ''I'' # to_upper ds
     else if c = CHR 0xC5 \<and> d = CHR 0xBF then CHR ''S'' # to_upper ds
     else upper_char c # to_upper (d # ds))"
| "to_upper [c] = [upper_char c]"
| "to_upper [] = []"

fun to_lower :: "string \<Rightarrow> string" where
  "to_lower (c # d # ds) =
    (if c = CHR 0xC4 \<and> d = CHR 0xB0 then CHR ''i'' # to_lower ds
     else if c = CHR 0xE2 \<and> d = CHR 0x84 \<and> ds \<noteq> [] \<and> hd ds = CHR 0xAA
          then CHR ''k'' # to_lower (tl ds)
     else lower_char c # to_lower (d # ds))"
| "to_lower [c] = [lower_char c]"
| "to_lower [] = []"

text \<open>On ASCII text both map the bytes one by one.\<close>

definition ascii :: "string \<Rightarrow> bool"
  where "ascii s \<longleftrightarrow> list_all (\<lambda>c. of_char c < (128 :: nat)) s"

lemma to_upper_ascii: "ascii s \<Longrightarrow> to_upper s = map upper_char s"
  by (induction s rule: to_upper.induct) (auto simp: ascii_def)

lemma to_lower_ascii: "ascii s \<Longrightarrow> to_lower s = map lower_char s"
  by (induction s rule: to_lower.induct) (auto simp: ascii_def)

end
