(* ===== verification/Float64.thy ===== *)
theory Float64
  imports Prelude "HOL-Library.Log_Nat"
begin

text \<open>
  Go's \<^verbatim>\<open>float64\<close>: IEEE 754 binary64 with round-to-nearest, ties-to-even. A value is
  NaN, a signed infinity, or a sign and a magnitude (so that the two zeros differ). Arithmetic is
  exact rational arithmetic followed by one rounding, as the standard prescribes. Comparison
  operators are false as soon as an operand is NaN.
\<close>

section \<open>Values and comparison\<close>

datatype float64 = NaN | Inf bool | Fin bool rat

fun fval :: "float64 \<Rightarrow> rat" where
  "fval (Fin s q) = (if s then - q else q)"
| "fval _ = 0"

fun is_nan :: "float64 \<Rightarrow> bool" where
  "is_nan NaN = True"
| "is_nan _ = False"

fun f64_lt :: "float64 \<Rightarrow> float64 \<Rightarrow> bool" where
  "f64_lt NaN y = False"
| "f64_lt x NaN = False"
| "f64_lt (Inf s) (Inf t) = (s \<and> \<not> t)"
| "f64_lt (Inf s) (Fin _ _) = s"
| "f64_lt (Fin _ _) (Inf t) = (\<not> t)"
| "f64_lt (Fin s p) (Fin t q) = (fval (Fin s p) < fval (Fin t q))"

fun f64_eq :: "float64 \<Rightarrow> float64 \<Rightarrow> bool" where
  "f64_eq (Inf s) (Inf t) = (s = t)"
| "f64_eq (Fin s p) (Fin t q) = (fval (Fin s p) = fval (Fin t q))"
| "f64_eq _ _ = False"

definition f64_le :: "float64 \<Rightarrow> float64 \<Rightarrow> bool"
  where "f64_le x y \<longleftrightarrow> f64_lt x y \<or> f64_eq x y"

abbreviation f64_zero :: float64 where "f64_zero \<equiv> Fin False 0"
abbreviation f64_one :: float64 where "f64_one \<equiv> Fin False 1"

lemma f64_lt_irrefl [simp]: "\<not> f64_lt x x"
  by (cases x) auto

lemma f64_lt_trans: "f64_lt x y \<Longrightarrow> f64_lt y z \<Longrightarrow> f64_lt x z"
  by (cases x; cases y; cases z) (auto split: if_splits)

lemma f64_lt_asym: "f64_lt x y \<Longrightarrow> \<not> f64_lt y x"
  using f64_lt_irrefl f64_lt_trans by blast

lemma f64_lt_not_nan: "f64_lt x y \<Longrightarrow> \<not> is_nan x \<and> \<not> is_nan y"
  by (cases x; cases y) auto

lemma f64_trichotomy:
  "\<not> is_nan x \<Longrightarrow> \<not> is_nan y \<Longrightarrow> f64_lt x y \<or> f64_eq x y \<or> f64_lt y x"
  by (cases x; cases y) auto

lemma f64_eq_refl [simp]: "f64_eq x x \<longleftrightarrow> \<not> is_nan x"
  by (cases x) auto

lemma f64_eq_sym: "f64_eq x y \<longleftrightarrow> f64_eq y x"
  by (cases x; cases y) auto

lemma f64_eq_trans: "f64_eq x y \<Longrightarrow> f64_eq y z \<Longrightarrow> f64_eq x z"
  by (cases x; cases y; cases z) (auto split: if_splits)

lemma f64_eq_lt: "f64_eq x y \<Longrightarrow> f64_lt y z \<Longrightarrow> f64_lt x z"
  by (cases x; cases y; cases z) (auto split: if_splits)

lemma f64_lt_eq: "f64_lt x y \<Longrightarrow> f64_eq y z \<Longrightarrow> f64_lt x z"
  by (cases x; cases y; cases z) (auto split: if_splits)

lemma f64_not_lt: "\<not> is_nan x \<Longrightarrow> \<not> is_nan y \<Longrightarrow> \<not> f64_lt x y \<longleftrightarrow> f64_le y x"
  by (metis f64_trichotomy f64_le_def f64_eq_sym f64_lt_asym f64_eq_lt f64_lt_irrefl)

lemma f64_le_trans: "f64_le x y \<Longrightarrow> f64_le y z \<Longrightarrow> f64_le x z"
  by (meson f64_le_def f64_lt_trans f64_eq_trans f64_eq_lt f64_lt_eq)

section \<open>Rounding\<close>

text \<open>The exponent of the leading bit of a positive rational.\<close>

definition ilog2 :: "rat \<Rightarrow> int"
  where "ilog2 q = (let (n, d) = quotient_of q; k = bitlen n - bitlen d
                    in if 2 powi k \<le> q then k else k - 1)"

text \<open>Round to the nearest integer, ties to even.\<close>

definition round_even :: "rat \<Rightarrow> int"
  where "round_even x =
    (let f = \<lfloor>x\<rfloor>; r = x - of_int f
     in if r < 1 / 2 then f else if r > 1 / 2 then f + 1 else if even f then f else f + 1)"

text \<open>
  A positive magnitude is rounded to a multiple of \<open>2 ^ quantum\<close>: 53 significant bits, or the
  subnormal spacing \<open>2 ^ -1074\<close>.
\<close>

definition quantum :: "rat \<Rightarrow> int"
  where "quantum q = max (ilog2 q - 52) (- 1074)"

definition round_mag :: "rat \<Rightarrow> rat"
  where "round_mag q =
    (if q \<le> 0 then 0 else of_int (round_even (q / 2 powi quantum q)) * 2 powi quantum q)"

definition f64_round :: "bool \<Rightarrow> rat \<Rightarrow> float64"
  where "f64_round s q = (let r = round_mag q in if 2 powi 1024 \<le> r then Inf s else Fin s r)"

definition f64_of_rat :: "rat \<Rightarrow> float64"
  where "f64_of_rat v = f64_round (v < 0) \<bar>v\<bar>"

definition f64_of_int :: "int \<Rightarrow> float64" \<comment> \<open>\<^verbatim>\<open>float64(n)\<close>\<close>
  where "f64_of_int n = f64_of_rat (of_int n)"

section \<open>Arithmetic\<close>

fun f64_neg :: "float64 \<Rightarrow> float64" where
  "f64_neg NaN = NaN"
| "f64_neg (Inf s) = Inf (\<not> s)"
| "f64_neg (Fin s q) = Fin (\<not> s) q"

fun f64_add :: "float64 \<Rightarrow> float64 \<Rightarrow> float64" where
  "f64_add (Inf s) (Inf t) = (if s = t then Inf s else NaN)"
| "f64_add (Inf s) (Fin _ _) = Inf s"
| "f64_add (Fin _ _) (Inf t) = Inf t"
| "f64_add (Fin s p) (Fin t q) =
    (let v = fval (Fin s p) + fval (Fin t q)
     in if v = 0 then Fin (s \<and> t) 0 else f64_of_rat v)"
| "f64_add _ _ = NaN"

definition f64_sub :: "float64 \<Rightarrow> float64 \<Rightarrow> float64"
  where "f64_sub x y = f64_add x (f64_neg y)"

fun f64_mul :: "float64 \<Rightarrow> float64 \<Rightarrow> float64" where
  "f64_mul (Inf s) (Inf t) = Inf (s \<noteq> t)"
| "f64_mul (Inf s) (Fin t q) = (if q = 0 then NaN else Inf (s \<noteq> t))"
| "f64_mul (Fin s p) (Inf t) = (if p = 0 then NaN else Inf (s \<noteq> t))"
| "f64_mul (Fin s p) (Fin t q) = f64_round (s \<noteq> t) (p * q)"
| "f64_mul _ _ = NaN"

fun f64_div :: "float64 \<Rightarrow> float64 \<Rightarrow> float64" where
  "f64_div (Inf s) (Inf t) = NaN"
| "f64_div (Inf s) (Fin t q) = Inf (s \<noteq> t)"
| "f64_div (Fin s p) (Inf t) = Fin (s \<noteq> t) 0"
| "f64_div (Fin s p) (Fin t q) =
    (if q = 0 then (if p = 0 then NaN else Inf (s \<noteq> t)) else f64_round (s \<noteq> t) (p / q))"
| "f64_div _ _ = NaN"

section \<open>Rounding is monotone and exact on integers below \<open>2 ^ 53\<close>\<close>

lemma bitlen_powi:
  assumes "0 < x"
  shows "2 powi (bitlen x - 1) \<le> (of_int x :: rat)" and "(of_int x :: rat) < 2 powi (bitlen x)"
proof -
  have b: "1 \<le> bitlen x" using assms bitlen_ge_iff_power [of 1 x] by simp
  have "of_int (2 ^ nat (bitlen x - 1)) \<le> (of_int x :: rat)"
    using bitlen_bounds [OF assms] by (simp only: of_int_le_iff)
  then show "2 powi (bitlen x - 1) \<le> (of_int x :: rat)" using b by (simp add: power_int_def)
  have "(of_int x :: rat) < of_int (2 ^ nat (bitlen x))"
    using bitlen_bounds [OF assms] by (simp only: of_int_less_iff)
  then show "(of_int x :: rat) < 2 powi (bitlen x)" using b by (simp add: power_int_def)
qed

lemma ilog2_bounds:
  assumes "0 < q"
  shows "2 powi ilog2 q \<le> q" and "q < 2 powi (ilog2 q + 1)"
proof -
  obtain n d where nd: "quotient_of q = (n, d)" by fastforce
  have d: "0 < d" and q: "q = of_int n / of_int d"
    using nd quotient_of_denom_pos quotient_of_div by blast+
  with assms have n: "0 < n" by (simp add: zero_less_divide_iff)
  let ?k = "bitlen n - bitlen d"
  have "2 powi (bitlen n - 1) / (2 powi (bitlen d) :: rat) < of_int n / of_int d"
    using bitlen_powi [OF n] bitlen_powi [OF d] n d by (intro frac_less2) auto
  moreover have "2 powi (?k - 1) = 2 powi (bitlen n - 1) / (2 powi (bitlen d) :: rat)"
    by (subst power_int_diff [symmetric]) (simp_all add: algebra_simps)
  ultimately have lo: "2 powi (?k - 1) < q" using q by simp
  have "of_int n / of_int d < 2 powi (bitlen n) / (2 powi (bitlen d - 1) :: rat)"
    using bitlen_powi [OF n] bitlen_powi [OF d] n d by (intro frac_less) auto
  moreover have "2 powi (?k + 1) = 2 powi (bitlen n) / (2 powi (bitlen d - 1) :: rat)"
    by (subst power_int_diff [symmetric]) (simp_all add: algebra_simps)
  ultimately have hi: "q < 2 powi (?k + 1)" using q by simp
  show "2 powi ilog2 q \<le> q" and "q < 2 powi (ilog2 q + 1)"
    using lo hi by (auto simp: ilog2_def nd Let_def)
qed

lemma ilog2_mono:
  assumes "0 < x" "x \<le> y"
  shows "ilog2 x \<le> ilog2 y"
proof (rule ccontr)
  assume "\<not> ?thesis"
  then have "(2 :: rat) powi (ilog2 y + 1) \<le> 2 powi (ilog2 x)"
    by (intro power_int_increasing) auto
  with ilog2_bounds(1) [of x] ilog2_bounds(2) [of y] assms show False by simp
qed

lemma round_even_of_int [simp]: "round_even (of_int n) = n"
  by (simp add: round_even_def)

lemma round_even_bounds: "\<lfloor>x\<rfloor> \<le> round_even x" "round_even x \<le> \<lfloor>x\<rfloor> + 1"
  by (simp_all add: round_even_def Let_def)

lemma round_even_mono:
  assumes "x \<le> y"
  shows "round_even x \<le> round_even y"
proof (cases "\<lfloor>x\<rfloor> = \<lfloor>y\<rfloor>")
  case True
  with assms show ?thesis by (auto simp: round_even_def Let_def)
next
  case False
  with floor_mono [OF assms] have "\<lfloor>x\<rfloor> + 1 \<le> \<lfloor>y\<rfloor>" by simp
  with round_even_bounds [of x] round_even_bounds [of y] show ?thesis by simp
qed

lemma powi_two_pos [simp]: "(0 :: rat) < 2 powi e"
  by simp

lemma quantum_mono: "0 < x \<Longrightarrow> x \<le> y \<Longrightarrow> quantum x \<le> quantum y"
  using ilog2_mono [of x y] by (auto simp: quantum_def)

text \<open>A magnitude stays below the next binade's start when its quantum is smaller.\<close>

lemma round_mag_upper:
  assumes "0 < x"
  shows "round_mag x \<le> 2 powi (quantum x + 53)"
proof -
  have "x < 2 powi (ilog2 x + 1)" using ilog2_bounds(2) [OF assms] .
  also have "\<dots> \<le> (2 :: rat) powi (53 + quantum x)"
    by (intro power_int_increasing) (auto simp: quantum_def)
  also have "\<dots> = of_int (2 ^ 53) * 2 powi quantum x" by (simp add: power_int_add)
  finally have "x / 2 powi quantum x \<le> of_int (2 ^ 53)"
    by (simp add: pos_divide_le_eq)
  then have "round_even (x / 2 powi quantum x) \<le> 2 ^ 53"
    using round_even_mono round_even_of_int by metis
  then have "(of_int (round_even (x / 2 powi quantum x)) :: rat) \<le> of_int (2 ^ 53)"
    by (simp only: of_int_le_iff)
  then have "round_mag x \<le> of_int (2 ^ 53) * 2 powi quantum x"
    using assms by (simp add: round_mag_def)
  then show ?thesis by (simp add: power_int_add mult.commute)
qed

lemma round_mag_lower:
  assumes "0 < x" "quantum x = ilog2 x - 52"
  shows "2 powi (quantum x + 52) \<le> round_mag x"
proof -
  have "of_int (2 ^ 52) * 2 powi quantum x = (2 :: rat) powi (ilog2 x)"
    using assms(2) power_int_add [of "2 :: rat" 52 "quantum x"] by simp
  also have "\<dots> \<le> x" using ilog2_bounds(1) [OF assms(1)] .
  finally have "of_int (2 ^ 52) \<le> x / 2 powi quantum x"
    by (simp add: pos_le_divide_eq)
  then have "2 ^ 52 \<le> round_even (x / 2 powi quantum x)"
    using round_even_mono round_even_of_int by metis
  then have "(of_int (2 ^ 52) :: rat) \<le> of_int (round_even (x / 2 powi quantum x))"
    by (simp only: of_int_le_iff)
  then have "of_int (2 ^ 52) * 2 powi quantum x \<le> round_mag x"
    using assms(1) by (simp add: round_mag_def)
  then show ?thesis by (simp add: power_int_add mult.commute)
qed

lemma round_mag_nonneg [simp]: "0 \<le> round_mag x"
proof (cases "x \<le> 0")
  case False
  then have "0 \<le> \<lfloor>x / 2 powi quantum x\<rfloor>" by simp
  with round_even_bounds(1) [of "x / 2 powi quantum x"] have "0 \<le> round_even (x / 2 powi quantum x)"
    by linarith
  then show ?thesis by (simp add: round_mag_def)
qed (simp add: round_mag_def)

lemma round_mag_mono:
  assumes "x \<le> y"
  shows "round_mag x \<le> round_mag y"
proof (cases "x \<le> 0")
  case True
  then show ?thesis by (simp add: round_mag_def [of x])
next
  case False
  then have x: "0 < x" and y: "0 < y" using assms by simp_all
  show ?thesis
  proof (cases "quantum x = quantum y")
    case True
    have "x / 2 powi quantum y \<le> y / 2 powi quantum y" using assms by (simp add: divide_right_mono)
    from round_even_mono [OF this] True x y show ?thesis by (simp add: round_mag_def)
  next
    case False
    with quantum_mono [OF x assms] have lt: "quantum x < quantum y" by simp
    then have qy: "quantum y = ilog2 y - 52" by (auto simp: quantum_def)
    have "round_mag x \<le> 2 powi (quantum x + 53)" by (rule round_mag_upper [OF x])
    also have "\<dots> \<le> (2 :: rat) powi (quantum y + 52)" using lt by (intro power_int_increasing) auto
    also have "\<dots> \<le> round_mag y" by (rule round_mag_lower [OF y qy])
    finally show ?thesis .
  qed
qed

text \<open>Integers of magnitude up to \<open>2 ^ 53\<close> are represented exactly.\<close>

lemma round_mag_int:
  assumes "0 \<le> n" "n \<le> 2 ^ 53"
  shows "round_mag (of_int n) = of_int n"
proof (cases "n = 0")
  case True
  then show ?thesis by (simp add: round_mag_def)
next
  case False
  with assms have n: "0 < (of_int n :: rat)" by simp
  show ?thesis
  proof (cases "n = 2 ^ 53")
    case True
    show ?thesis unfolding True by code_simp
  next
    case False
    have "ilog2 (of_int n) < 53"
    proof (rule ccontr)
      assume "\<not> ?thesis"
      then have "(2 :: rat) powi 53 \<le> 2 powi (ilog2 (of_int n))"
        by (intro power_int_increasing) auto
      also have "\<dots> \<le> of_int n" using ilog2_bounds(1) [OF n] .
      finally have "(of_int (2 ^ 53) :: rat) \<le> of_int n" by simp
      then have "2 ^ 53 \<le> n" by (simp only: of_int_le_iff)
      with assms False show False by simp
    qed
    then have q0: "quantum (of_int n) \<le> 0" by (simp add: quantum_def)
    then obtain k :: nat where k: "quantum (of_int n) = - int k"
      by (metis minus_minus neg_0_le_iff_le zero_le_imp_eq_int)
    have "(of_int n :: rat) / 2 powi quantum (of_int n) = of_int (n * 2 ^ k)"
      by (simp add: k power_int_minus divide_inverse)
    then have "round_even (of_int n / 2 powi quantum (of_int n)) = n * 2 ^ k"
      by (simp only: round_even_of_int)
    then show ?thesis
      using n by (simp add: round_mag_def k power_int_minus)
  qed
qed

section \<open>Evaluation\<close>

text \<open>A rounded value is known from the binade of its argument and the nearest integer multiple.\<close>

lemma ilog2_eqI:
  assumes "2 powi e \<le> q" "q < 2 powi (e + 1)"
  shows "ilog2 q = e"
proof -
  have q: "0 < q" using assms(1) powi_two_pos [of e] by linarith
  have "\<not> e + 1 \<le> ilog2 q"
  proof
    assume "e + 1 \<le> ilog2 q"
    then have "(2 :: rat) powi (e + 1) \<le> 2 powi (ilog2 q)" by (intro power_int_increasing) auto
    with ilog2_bounds(1) [OF q] assms(2) show False by linarith
  qed
  moreover have "\<not> ilog2 q + 1 \<le> e"
  proof
    assume "ilog2 q + 1 \<le> e"
    then have "(2 :: rat) powi (ilog2 q + 1) \<le> 2 powi e" by (intro power_int_increasing) auto
    with ilog2_bounds(2) [OF q] assms(1) show False by linarith
  qed
  ultimately show ?thesis by linarith
qed

lemma round_even_eqI:
  assumes "of_int n - 1 / 2 < x" "x < of_int n + 1 / 2"
  shows "round_even x = n"
proof (cases "of_int n \<le> x")
  case True
  with assms(2) have "\<lfloor>x\<rfloor> = n" by (intro floor_unique) auto
  with assms(2) show ?thesis by (simp add: round_even_def Let_def)
next
  case False
  with assms(1) have "\<lfloor>x\<rfloor> = n - 1" by (intro floor_unique) auto
  with assms(1) show ?thesis by (simp add: round_even_def Let_def)
qed

lemma f64_roundI:
  assumes "2 powi e \<le> q" "q < 2 powi (e + 1)" "- 1022 \<le> e" "e \<le> 1022"
    and "of_int n - 1 / 2 < q / 2 powi (e - 52)" "q / 2 powi (e - 52) < of_int n + 1 / 2"
  shows "f64_round s q = Fin s (of_int n * 2 powi (e - 52))"
proof -
  have q: "0 < q" using assms(1) powi_two_pos [of e] by linarith
  have e: "quantum q = e - 52" using ilog2_eqI [OF assms(1,2)] assms(3) by (simp add: quantum_def)
  have r: "round_mag q = of_int n * 2 powi (e - 52)"
    using q round_even_eqI [OF assms(5,6)] by (simp add: round_mag_def e)
  have "round_mag q \<le> 2 powi (e + 1)" using round_mag_upper [OF q] by (simp add: e add.commute)
  also have "\<dots> < (2 :: rat) powi 1024" using assms(4) by (intro power_int_strict_increasing) auto
  finally show ?thesis using r by (simp add: f64_round_def)
qed

lemma f64_round_nat: "n \<le> 2 ^ 53 \<Longrightarrow> f64_round s (of_int (int n)) = Fin s (of_int (int n))"
proof -
  assume n: "n \<le> 2 ^ 53"
  then have "int n \<le> 2 ^ 53" by (metis of_nat_le_iff of_nat_numeral of_nat_power)
  then have "round_mag (of_int (int n)) = of_int (int n)" by (intro round_mag_int) auto
  moreover have "\<not> (2 :: rat) powi 1024 \<le> of_int (int n)"
  proof -
    have "(of_int (int n) :: rat) \<le> of_int (2 ^ 53)" using \<open>int n \<le> 2 ^ 53\<close> by (simp only: of_int_le_iff)
    also have "\<dots> = 2 powi 53" by simp
    also have "\<dots> < (2 :: rat) powi 1024" by (intro power_int_strict_increasing) auto
    finally show ?thesis by linarith
  qed
  ultimately show ?thesis by (simp add: f64_round_def)
qed

end
