(* ===== verification/Eviction.thy ===== *)
theory Eviction
  imports Float64
begin

text \<open>
  \<^verbatim>\<open>internal/eviction\<close>: the signals a policy scores, the default LRU policy and the
  composite Weighted policy. A policy is a function from signals to \<^verbatim>\<open>float64\<close>; the
  entry with the highest score is evicted first. The locale \<open>eviction_policy\<close> is what the
  store relies on (a score is never NaN, so that \<^verbatim>\<open>>\<close> picks a maximum);
  \<open>recency_policy\<close> adds that an older entry never scores lower.
\<close>

section \<open>Signals and policies\<close>

record Signals =
  LastAccess :: instant
  Now :: instant
  AccessCount :: int
  CostHint :: float64
  Importance :: float64

type_synonym policy = "Signals \<Rightarrow> float64"

text \<open>\<^verbatim>\<open>Duration.Seconds\<close> and \<^verbatim>\<open>Time.Unix\<close> of the standard library.\<close>

definition Seconds :: "duration \<Rightarrow> float64"
  where "Seconds d = f64_add (f64_of_int (quot d Second))
                             (f64_div (f64_of_int (rem d Second)) (f64_of_int Second))"

definition Unix :: "instant \<Rightarrow> int"
  where "Unix t = t div Second"

definition LRU_Score :: policy
  where "LRU_Score s =
    (if LastAccess s = zero_time then f64_of_int (Unix (Now s))
     else Seconds (time_sub (Now s) (LastAccess s)))"

type_synonym weights = "(string, float64) fmap"

definition DefaultWeights :: weights
  where "DefaultWeights =
    fmap_of_list [(''recency'', f64_of_rat (6 / 10)), (''frequency'', f64_of_rat (4 / 10))]"

definition weight :: "weights \<Rightarrow> string \<Rightarrow> float64" \<comment> \<open>\<^verbatim>\<open>weights[k]\<close>, zero when missing\<close>
  where "weight w k = (case fmlookup w k of None \<Rightarrow> f64_zero | Some x \<Rightarrow> x)"

definition weighted_age :: "Signals \<Rightarrow> float64"
  where "weighted_age s =
    (let age = (if LastAccess s = zero_time then f64_of_int (Unix (Now s))
                else Seconds (time_sub (Now s) (LastAccess s)))
     in if f64_lt age f64_zero then f64_zero else age)"

definition Weighted_Score :: "weights \<Rightarrow> policy"
  where "Weighted_Score ws s =
    (let weights = (if fsize ws = 0 then DefaultWeights else ws);
         age = weighted_age s;
         recencyContrib = f64_div age (f64_add f64_one age);
         frequencyContrib = f64_div f64_one (f64_add f64_one (f64_of_int (AccessCount s)));
         costContrib = f64_div f64_one (f64_add f64_one (CostHint s));
         importanceContrib = f64_div f64_one (f64_add f64_one (Importance s))
     in f64_add (f64_add (f64_add
          (f64_mul (weight weights ''recency'') recencyContrib)
          (f64_mul (weight weights ''frequency'') frequencyContrib))
          (f64_mul (weight weights ''cost'') costContrib))
          (f64_mul (weight weights ''importance'') importanceContrib))"

text \<open>The signals the store fills in (\<^verbatim>\<open>pickEvictionVictimLocked\<close>): no cost, no importance.\<close>

definition store_signals :: "instant \<Rightarrow> instant \<Rightarrow> int \<Rightarrow> Signals"
  where "store_signals la t ac =
    \<lparr>LastAccess = la, Now = t, AccessCount = ac, CostHint = f64_zero, Importance = f64_zero\<rparr>"

section \<open>What the store relies on\<close>

locale eviction_policy =
  fixes score :: policy
  assumes score_not_nan: "is_int64 ac \<Longrightarrow> 0 \<le> ac \<Longrightarrow> 0 \<le> t \<Longrightarrow> t \<le> 2 ^ 53 * Second
    \<Longrightarrow> \<not> is_nan (score (store_signals la t ac))"

locale recency_policy = eviction_policy +
  assumes score_mono: "la \<le> la' \<Longrightarrow> la' \<le> t \<Longrightarrow> la \<noteq> zero_time \<Longrightarrow> la' \<noteq> zero_time
    \<Longrightarrow> f64_le (score (store_signals la' t ac')) (score (store_signals la t ac))"

section \<open>Rounded seconds grow with the duration\<close>

lemma round_mag_le_64: "q \<le> 2 ^ 64 \<Longrightarrow> round_mag q \<le> 2 ^ 64"
proof -
  have "round_mag (2 ^ 64) = 2 ^ 64" by code_simp
  then show "q \<le> 2 ^ 64 \<Longrightarrow> round_mag q \<le> 2 ^ 64" using round_mag_mono [of q "2 ^ 64"] by simp
qed

lemma f64_round_small: "q \<le> 2 ^ 64 \<Longrightarrow> f64_round s q = Fin s (round_mag q)"
  using order.strict_trans1 [OF round_mag_le_64, of q "2 powi 1024"] by (auto simp: f64_round_def)

lemma f64_of_int_exact:
  assumes "0 \<le> n" "n \<le> 2 ^ 53"
  shows "f64_of_int n = Fin False (of_int n)"
proof -
  have "(of_int n :: rat) \<le> of_int (2 ^ 53)" using assms(2) by (simp only: of_int_le_iff)
  then have "f64_round False (of_int n) = Fin False (round_mag (of_int n))"
    by (intro f64_round_small) simp
  then show ?thesis
    using assms by (simp add: f64_of_int_def f64_of_rat_def round_mag_int)
qed

lemma f64_add_nonneg:
  assumes "0 \<le> p" "0 \<le> q" "p + q \<le> 2 ^ 64"
  shows "f64_add (Fin False p) (Fin False q) = Fin False (round_mag (p + q))"
proof (cases "p + q = 0")
  case True
  then show ?thesis by (simp add: round_mag_def)
next
  case False
  with assms show ?thesis by (simp add: f64_of_rat_def f64_round_small)
qed

abbreviation sec_frac :: "int \<Rightarrow> rat"
  where "sec_frac d \<equiv> round_mag (of_int (d mod Second) / of_int Second)"

lemma sec_frac_le_1: "sec_frac d \<le> 1"
proof -
  have "(of_int (d mod Second) :: rat) \<le> of_int Second"
    by (simp add: order.strict_implies_order)
  then have "of_int (d mod Second) / of_int Second \<le> (1 :: rat)" by simp
  from round_mag_mono [OF this] show ?thesis using round_mag_int [of 1] by simp
qed

lemma Seconds_eq:
  assumes "0 \<le> d" "d \<le> MaxInt64"
  shows "Seconds d = Fin False (round_mag (of_int (d div Second) + sec_frac d))"
    and "of_int (d div Second) + sec_frac d \<le> (2 ^ 53 :: rat)"
proof -
  have s0: "0 \<le> d div Second" using assms by simp
  have "d div Second \<le> MaxInt64 div Second" using assms by (intro zdiv_mono1) auto
  then have s1: "d div Second \<le> 9223372036" by simp
  then have sr: "(of_int (d div Second) :: rat) \<le> of_int 9223372036" by (simp only: of_int_le_iff)
  show bnd: "of_int (d div Second) + sec_frac d \<le> (2 ^ 53 :: rat)"
    using sr sec_frac_le_1 [of d] by simp
  have f: "f64_div (f64_of_int (d mod Second)) (f64_of_int Second) = Fin False (sec_frac d)"
  proof -
    have m: "0 \<le> d mod Second" "d mod Second \<le> Second"
      by (simp_all add: order.strict_implies_order)
    have "(of_int (d mod Second) :: rat) \<le> of_int Second" using m by (simp only: of_int_le_iff)
    then have "of_int (d mod Second) / of_int Second \<le> (2 ^ 64 :: rat)" by simp
    from f64_round_small [OF this] show ?thesis
      using f64_of_int_exact [of "d mod Second"] f64_of_int_exact [of Second] m by simp
  qed
  have "f64_of_int (d div Second) = Fin False (of_int (d div Second))"
    using s0 s1 by (intro f64_of_int_exact) simp_all
  then show "Seconds d = Fin False (round_mag (of_int (d div Second) + sec_frac d))"
    unfolding Seconds_def quot_nonneg [OF assms(1), of Second, simplified]
      rem_nonneg [OF assms(1), of Second, simplified]
    using f bnd s0 by (simp del: f64_add.simps add: f64_add_nonneg)
qed

lemma Seconds_mono:
  assumes "0 \<le> d" "d \<le> d'" "d' \<le> MaxInt64"
  shows "f64_le (Seconds d) (Seconds d')"
proof -
  have "of_int (d div Second) + sec_frac d \<le> of_int (d' div Second) + sec_frac d'"
  proof (cases "d div Second = d' div Second")
    case True
    then have "d mod Second \<le> d' mod Second"
      using assms(2) div_mult_mod_eq [of d Second] div_mult_mod_eq [of d' Second] by linarith
    then have "(of_int (d mod Second) :: rat) \<le> of_int (d' mod Second)" by (simp only: of_int_le_iff)
    then have "of_int (d mod Second) / of_int Second \<le> of_int (d' mod Second) / (of_int Second :: rat)"
      by (simp add: divide_right_mono)
    from round_mag_mono [OF this] True show ?thesis by simp
  next
    case False
    with zdiv_mono1 [OF assms(2), of Second] have "d div Second + 1 \<le> d' div Second" by simp
    then have "(of_int (d div Second) :: rat) + 1 \<le> of_int (d' div Second)"
      by (metis of_int_1 of_int_add of_int_le_iff)
    with sec_frac_le_1 [of d] round_mag_nonneg [of "of_int (d' mod Second) / of_int Second"]
    show ?thesis by linarith
  qed
  from round_mag_mono [OF this] show ?thesis
    using assms Seconds_eq(1) [of d] Seconds_eq(1) [of d'] by (auto simp: f64_le_def)
qed

section \<open>LRU\<close>

lemma f64_of_int_fin:
  assumes "\<bar>n\<bar> \<le> 2 ^ 53"
  shows "f64_of_int n = Fin (n < 0) (of_int \<bar>n\<bar>)"
proof -
  have "(of_int \<bar>n\<bar> :: rat) \<le> of_int (2 ^ 53)" using assms by (simp only: of_int_le_iff)
  then have "f64_round (n < 0) (of_int \<bar>n\<bar>) = Fin (n < 0) (round_mag (of_int \<bar>n\<bar>))"
    by (intro f64_round_small) simp
  moreover have "round_mag (of_int \<bar>n\<bar>) = of_int \<bar>n\<bar>"
    using assms by (intro round_mag_int) simp_all
  ultimately show ?thesis by (simp add: f64_of_int_def f64_of_rat_def of_int_abs)
qed

lemma f64_round_not_nan [simp]: "\<not> is_nan (f64_round s q)"
  by (simp add: f64_round_def Let_def)

lemma f64_add_fin_not_nan: "\<not> is_nan y \<Longrightarrow> \<not> is_nan (f64_add (Fin s p) y)"
  by (cases y) (simp_all add: Let_def f64_of_rat_def)

lemma f64_div_fin_not_nan: "q \<noteq> 0 \<Longrightarrow> \<not> is_nan (f64_div (Fin s p) (Fin t q))"
  by simp

lemma quot_bound:
  assumes "MinInt64 \<le> d" "d \<le> MaxInt64"
  shows "\<bar>quot d Second\<bar> \<le> 2 ^ 53"
proof -
  have "\<bar>d\<bar> div Second \<le> 9223372036854775808 div Second"
    using assms by (intro zdiv_mono1) auto
  moreover have "0 \<le> \<bar>d\<bar> div Second" by simp
  ultimately have "\<bar>\<bar>d\<bar> div Second\<bar> \<le> 2 ^ 53" by simp
  then show ?thesis by (simp add: quot_def abs_mult abs_sgn_eq split: if_splits)
qed

lemma rem_bound: "\<bar>rem d Second\<bar> \<le> 2 ^ 53"
proof -
  have "rem d Second = sgn d * (\<bar>d\<bar> mod Second)"
  proof (cases "d < 0")
    case True
    have "Second * (- d div Second) = - d - (- d mod Second)"
      using mult_div_mod_eq [of Second "- d"] by linarith
    with True show ?thesis by (simp add: rem_def quot_def)
  next
    case False
    then show ?thesis using rem_nonneg [of d Second] by (cases "d = 0") simp_all
  qed
  moreover have "\<bar>d\<bar> mod Second \<le> 2 ^ 53"
    using pos_mod_bound [of Second "\<bar>d\<bar>"] by simp
  ultimately show ?thesis by (simp add: abs_mult abs_sgn_eq)
qed

lemma Seconds_not_nan: "\<not> is_nan (Seconds (time_sub t u))"
proof -
  have b: "MinInt64 \<le> time_sub t u" "time_sub t u \<le> MaxInt64" by (simp_all add: time_sub_def)
  show ?thesis
    unfolding Seconds_def f64_of_int_fin [OF quot_bound [OF b]] f64_of_int_fin [OF rem_bound]
    by (intro f64_add_fin_not_nan) (simp add: f64_of_int_fin)
qed

lemma Unix_bounds: "0 \<le> t \<Longrightarrow> t \<le> 2 ^ 53 * Second \<Longrightarrow> 0 \<le> Unix t \<and> Unix t \<le> 2 ^ 53"
  using zdiv_mono1 [of t "2 ^ 53 * Second" Second] by (simp add: Unix_def)

lemma time_sub_nonneg: "u \<le> t \<Longrightarrow> 0 \<le> time_sub t u \<and> time_sub t u \<le> MaxInt64"
  by (simp add: time_sub_def)

interpretation lru: recency_policy LRU_Score
proof
  fix ac t la :: int
  assume "0 \<le> t" "t \<le> 2 ^ 53 * Second"
  with Unix_bounds [of t] show "\<not> is_nan (LRU_Score (store_signals la t ac))"
    by (simp add: LRU_Score_def store_signals_def Seconds_not_nan f64_of_int_fin)
next
  fix la la' t ac ac' :: int
  assume "la \<le> la'" "la' \<le> t" and nz: "la \<noteq> zero_time" "la' \<noteq> zero_time"
  then have "f64_le (Seconds (time_sub t la')) (Seconds (time_sub t la))"
    by (intro Seconds_mono) (simp_all add: time_sub_mono time_sub_nonneg)
  with nz show "f64_le (LRU_Score (store_signals la' t ac')) (LRU_Score (store_signals la t ac))"
    by (simp add: LRU_Score_def store_signals_def)
qed

section \<open>Weighted\<close>

text \<open>Finite non-negative values far below overflow: all the contributions of a score are.\<close>

fun small :: "float64 \<Rightarrow> bool" where
  "small (Fin s q) = (0 \<le> q \<and> q \<le> 2 ^ 63 \<and> (s \<longrightarrow> q = 0))"
| "small _ = False"

lemma round_mag_ge_1: "1 \<le> q \<Longrightarrow> 1 \<le> round_mag q"
  using round_mag_mono [of 1 q] round_mag_int [of 1] by simp

lemma round_mag_le_63: "q \<le> 2 ^ 63 \<Longrightarrow> round_mag q \<le> 2 ^ 63"
proof -
  have "round_mag (2 ^ 63) = 2 ^ 63" by code_simp
  then show "q \<le> 2 ^ 63 \<Longrightarrow> round_mag q \<le> 2 ^ 63" using round_mag_mono [of q "2 ^ 63"] by simp
qed

lemma round_mag_0 [simp]: "round_mag 0 = 0"
  by (simp add: round_mag_def)

lemma one_plus_small:
  assumes "small x"
  shows "\<exists>q. f64_add f64_one x = Fin False q \<and> 1 \<le> q"
proof -
  obtain s p where x: "x = Fin s p" "0 \<le> p" "p \<le> 2 ^ 63" "s \<longrightarrow> p = 0"
    using assms by (cases x) auto
  then have "f64_add f64_one x = Fin False (round_mag (1 + p))"
    by (cases s) (simp_all add: f64_of_rat_def f64_round_small)
  with x(2) round_mag_ge_1 [of "1 + p"] show ?thesis by simp
qed

lemma ratio_small:
  assumes "small x" "1 \<le> q"
  shows "small (f64_div x (Fin False q))"
proof -
  obtain s p where x: "x = Fin s p" "0 \<le> p" "p \<le> 2 ^ 63" "s \<longrightarrow> p = 0"
    using assms by (cases x) auto
  have "p / q \<le> p / 1" using x assms by (intro divide_left_mono) simp_all
  with x have "p / q \<le> 2 ^ 63" by simp
  with x assms(2) show ?thesis
    using round_mag_le_63 [of "p / q"] by (auto simp: f64_round_small)
qed

lemma scaled_small:
  assumes "small x" "0 \<le> w" "w \<le> 1"
  shows "\<exists>s q. f64_mul (Fin False w) x = Fin s q"
proof -
  obtain s p where x: "x = Fin s p" "0 \<le> p" "p \<le> 2 ^ 63" "s \<longrightarrow> p = 0"
    using assms by (cases x) auto
  have "w * p \<le> 1 * p" using x assms by (intro mult_right_mono) simp_all
  with x show ?thesis by (simp add: f64_round_small)
qed

lemma f64_of_rat_unit:
  assumes "0 \<le> v" "v \<le> 1"
  shows "\<exists>w. f64_of_rat v = Fin False w \<and> 0 \<le> w \<and> w \<le> 1"
  using assms round_mag_mono [of v 1] round_mag_int [of 1]
  by (simp add: f64_of_rat_def f64_round_small)

lemma f64_add_not_nan: "\<not> is_nan x \<Longrightarrow> \<not> is_nan (f64_add x (Fin s p))"
  by (cases x) (simp_all add: Let_def f64_of_rat_def)

lemma f64_of_int_small: "0 \<le> n \<Longrightarrow> n \<le> MaxInt64 \<Longrightarrow> small (f64_of_int n)"
proof -
  assume n: "0 \<le> n" "n \<le> MaxInt64"
  then have "(of_int n :: rat) \<le> of_int MaxInt64" by (simp only: of_int_le_iff)
  then have "(of_int n :: rat) \<le> 2 ^ 63" by simp
  with n round_mag_le_63 [of "of_int n"] show ?thesis
    by (simp add: f64_of_int_def f64_of_rat_def f64_round_small)
qed

lemma fval_add_bound:
  "0 \<le> p \<Longrightarrow> 0 \<le> q \<Longrightarrow> \<bar>fval (Fin s p) + fval (Fin t q)\<bar> \<le> p + q"
  by (auto simp: abs_le_iff)

lemma Seconds_fin: "\<exists>s q. Seconds (time_sub t u) = Fin s q \<and> 0 \<le> q \<and> q \<le> 2 ^ 63"
proof -
  have b: "MinInt64 \<le> time_sub t u" "time_sub t u \<le> MaxInt64" by (simp_all add: time_sub_def)
  let ?s = "quot (time_sub t u) Second" and ?r = "rem (time_sub t u) Second"
  have s: "(of_int \<bar>?s\<bar> :: rat) \<le> of_int (2 ^ 53)"
    using quot_bound [OF b] by (simp only: of_int_le_iff)
  have r: "(of_int \<bar>?r\<bar> :: rat) \<le> of_int (2 ^ 53)"
    using rem_bound by (simp only: of_int_le_iff)
  let ?q = "round_mag (of_int \<bar>?r\<bar> / of_int Second)"
  have q: "?q \<le> 2 ^ 53"
    using round_mag_mono [of "of_int \<bar>?r\<bar> / of_int Second" "2 ^ 53"] round_mag_int [of "2 ^ 53"] r
    by simp
  have "Seconds (time_sub t u) =
      f64_add (Fin (?s < 0) (of_int \<bar>?s\<bar>)) (Fin (?r < 0) ?q)"
    unfolding Seconds_def f64_of_int_fin [OF quot_bound [OF b]] f64_of_int_fin [OF rem_bound]
    using r by (simp add: f64_of_int_fin f64_round_small)
  moreover let ?v = "fval (Fin (?s < 0) (of_int \<bar>?s\<bar>)) + fval (Fin (?r < 0) ?q)"
  have "\<bar>?v\<bar> \<le> of_int \<bar>?s\<bar> + ?q" by (rule fval_add_bound) simp_all
  with s q have v: "\<bar>?v\<bar> \<le> 2 ^ 63" by simp
  ultimately show ?thesis
    using round_mag_le_63 [OF v]
    by (auto simp: Let_def f64_of_rat_def f64_round_small simp del: fval.simps)
qed

lemma weighted_age_small:
  assumes "0 \<le> t" "t \<le> 2 ^ 53 * Second"
  shows "small (weighted_age (store_signals la t ac))"
proof -
  obtain s q where S: "Seconds (time_sub t la) = Fin s q" "0 \<le> q" "q \<le> 2 ^ 63"
    using Seconds_fin by blast
  then have "\<not> f64_lt (Seconds (time_sub t la)) f64_zero \<Longrightarrow> small (Seconds (time_sub t la))"
    by (auto split: if_splits)
  moreover have "small (f64_of_int (Unix t))"
    using Unix_bounds [OF assms] by (intro f64_of_int_small) simp_all
  moreover have "small f64_zero" by simp
  ultimately show ?thesis
    by (simp add: weighted_age_def store_signals_def Let_def)
qed

lemma default_weights:
  "weight DefaultWeights ''recency'' = f64_of_rat (6 / 10)"
  "weight DefaultWeights ''frequency'' = f64_of_rat (4 / 10)"
  "weight DefaultWeights ''cost'' = f64_zero"
  "weight DefaultWeights ''importance'' = f64_zero"
  by (simp_all add: weight_def DefaultWeights_def)

interpretation weighted: eviction_policy "Weighted_Score fmempty"
proof
  fix ac t la :: int
  assume ac: "is_int64 ac" "0 \<le> ac" and t: "0 \<le> t" "t \<le> 2 ^ 53 * Second"
  let ?s = "store_signals la t ac"
  have one: "small f64_one" and zero: "small f64_zero" by simp_all
  have rec: "small (f64_div (weighted_age ?s) (f64_add f64_one (weighted_age ?s)))"
    using one_plus_small [OF weighted_age_small [OF t]] ratio_small weighted_age_small [OF t]
    by metis
  have frq: "small (f64_div f64_one (f64_add f64_one (f64_of_int ac)))"
    using one_plus_small [OF f64_of_int_small, of ac] ac ratio_small [OF one]
    by (metis is_int64_def)
  have hint: "small (f64_div f64_one (f64_add f64_one f64_zero))"
    using one_plus_small [OF zero] ratio_small [OF one] by metis
  obtain w1 w2 where w: "f64_of_rat (6 / 10) = Fin False w1" "0 \<le> w1" "w1 \<le> 1"
      "f64_of_rat (4 / 10) = Fin False w2" "0 \<le> w2" "w2 \<le> 1"
    using f64_of_rat_unit [of "6 / 10"] f64_of_rat_unit [of "4 / 10"] by auto
  have "\<exists>s q. f64_mul (f64_of_rat (6 / 10))
      (f64_div (weighted_age ?s) (f64_add f64_one (weighted_age ?s))) = Fin s q"
    unfolding w(1) by (rule scaled_small [OF rec w(2,3)])
  then obtain s1 q1 where p1: "f64_mul (f64_of_rat (6 / 10))
      (f64_div (weighted_age ?s) (f64_add f64_one (weighted_age ?s))) = Fin s1 q1" by blast
  have "\<exists>s q. f64_mul (f64_of_rat (4 / 10))
      (f64_div f64_one (f64_add f64_one (f64_of_int ac))) = Fin s q"
    unfolding w(4) by (rule scaled_small [OF frq w(5,6)])
  then obtain s2 q2 where p2: "f64_mul (f64_of_rat (4 / 10))
      (f64_div f64_one (f64_add f64_one (f64_of_int ac))) = Fin s2 q2" by blast
  have "\<exists>s q. f64_mul f64_zero (f64_div f64_one (f64_add f64_one f64_zero)) = Fin s q"
    by (rule scaled_small [OF hint]) simp_all
  then obtain s3 q3 where
    p3: "f64_mul f64_zero (f64_div f64_one (f64_add f64_one f64_zero)) = Fin s3 q3" by blast
  have "Weighted_Score fmempty ?s =
      f64_add (f64_add (f64_add (Fin s1 q1) (Fin s2 q2)) (Fin s3 q3)) (Fin s3 q3)"
    by (simp only: Weighted_Score_def Let_def default_weights fsize_empty if_True simp_thms p1)
      (simp only: p2 p3 store_signals_def Signals.simps)
  then show "\<not> is_nan (Weighted_Score fmempty ?s)"
    using f64_add_not_nan [OF f64_add_not_nan [OF f64_add_not_nan [of "Fin s1 q1"]]]
    by (simp del: f64_add.simps)
qed

end
