(* ===== verification/Shard.thy ===== *)
theory Shard
  imports Eviction
begin

text \<open>
  One shard of the store, \<^verbatim>\<open>internal/storage/memstore/shard.go\<close>, and the entries it
  holds, \<^verbatim>\<open>types.go\<close>. The functions named \<^verbatim>\<open>...Locked\<close> run with the shard's
  lock held: their state \<open>lshard\<close> is the shard extended with the two server-wide counters that
  such a section can reach, the cell behind the \<^verbatim>\<open>entryCount\<close> pointer and the number of
  calls of the \<^verbatim>\<open>onEvict\<close> callback.

  A map iteration runs over the keys in the order the environment picks. A write through the
  pointer to a stored entry (\<^verbatim>\<open>e.List = ...\<close>) is \<open>poke\<close>.
\<close>

section \<open>Entries\<close>

datatype Kind = KindNone | KindString | KindHash | KindList | KindSet | KindZSet

fun Kind_String :: "Kind \<Rightarrow> string" where
  "Kind_String KindString = ''string''"
| "Kind_String KindHash = ''hash''"
| "Kind_String KindList = ''list''"
| "Kind_String KindSet = ''set''"
| "Kind_String KindZSet = ''zset''"
| "Kind_String KindNone = ''none''"

record Entry =
  eKind :: Kind
  eStringVal :: bytes
  eHash :: "(string, bytes) fmap"
  eList :: "bytes list"
  eSet :: "string fset"
  eZSet :: "(string, float64) fmap"
  eExpiresAt :: "instant option"
  eLastAccess :: instant
  eAccessCount :: int

definition expired :: "Entry \<Rightarrow> instant \<Rightarrow> bool"
  where "expired e t = (case eExpiresAt e of None \<Rightarrow> False | Some due \<Rightarrow> \<not> t < due)"

definition newEntry :: "Kind \<Rightarrow> instant \<Rightarrow> Entry" \<comment> \<open>\<^verbatim>\<open>&Entry{Kind: kind, LastAccess: now}\<close>\<close>
  where "newEntry kind t =
    \<lparr>eKind = kind, eStringVal = None, eHash = fmempty, eList = [], eSet = {||}, eZSet = fmempty,
     eExpiresAt = None, eLastAccess = t, eAccessCount = 0\<rparr>"

definition touch :: "instant \<Rightarrow> Entry \<Rightarrow> Entry" \<comment> \<open>\<^verbatim>\<open>e.LastAccess = now; e.AccessCount++\<close>\<close>
  where "touch t e = e\<lparr>eLastAccess := t, eAccessCount := int64 (eAccessCount e + 1)\<rparr>"

section \<open>Shards\<close>

record shard =
  data :: "(string, Entry) fmap"
  ttlKeys :: "string fset"
  versions :: "(string, 64 word) fmap"

record lshard = shard +
  entryCountp :: int \<comment> \<open>\<^verbatim>\<open>*s.entryCount\<close>\<close>
  evictionsp :: nat \<comment> \<open>calls of \<^verbatim>\<open>onEvict\<close>\<close>

definition newShard :: shard
  where "newShard = \<lparr>data = fmempty, ttlKeys = {||}, versions = fmempty\<rparr>"

definition getLocked :: "string \<Rightarrow> instant \<Rightarrow> 'a shard_scheme \<Rightarrow> Entry option"
  where "getLocked key t s =
    (case fmlookup (data s) key of
       None \<Rightarrow> None
     | Some e \<Rightarrow> if expired e t then None else Some e)"

definition versionLocked :: "string \<Rightarrow> 'a shard_scheme \<Rightarrow> 64 word"
  where "versionLocked key s = (case fmlookup (versions s) key of None \<Rightarrow> 0 | Some v \<Rightarrow> v)"

definition bumpVersionLocked :: "string \<Rightarrow> lshard \<Rightarrow> lshard"
  where "bumpVersionLocked key s =
    s\<lparr>versions := fmupd key (versionLocked key s + 1) (versions s)\<rparr>"

definition deleteEntryLocked :: "string \<Rightarrow> lshard \<Rightarrow> lshard"
  where "deleteEntryLocked key s =
    (let s1 = (if fmlookup (data s) key \<noteq> None
               then s\<lparr>entryCountp := int64 (entryCountp s - 1)\<rparr> else s)
     in s1\<lparr>data := fmdrop key (data s1), ttlKeys := ttlKeys s1 |-| {|key|}\<rparr>)"

definition getForWriteLocked :: "string \<Rightarrow> instant \<Rightarrow> lshard \<Rightarrow> Entry option \<times> lshard"
  where "getForWriteLocked key t s =
    (case fmlookup (data s) key of
       None \<Rightarrow> (None, s)
     | Some e \<Rightarrow>
         if expired e t then (None, bumpVersionLocked key (deleteEntryLocked key s))
         else (Some e, s))"

definition setEntryLocked :: "string \<Rightarrow> Entry \<Rightarrow> lshard \<Rightarrow> lshard"
  where "setEntryLocked key e s =
    (let s1 = (if fmlookup (data s) key = None
               then s\<lparr>entryCountp := int64 (entryCountp s + 1)\<rparr> else s);
         s2 = s1\<lparr>data := fmupd key e (data s1)\<rparr>;
         s3 = (if eExpiresAt e \<noteq> None then s2\<lparr>ttlKeys := finsert key (ttlKeys s2)\<rparr>
               else s2\<lparr>ttlKeys := ttlKeys s2 |-| {|key|}\<rparr>)
     in bumpVersionLocked key s3)"

definition poke :: "string \<Rightarrow> Entry \<Rightarrow> lshard \<Rightarrow> lshard" \<comment> \<open>a write through the entry pointer\<close>
  where "poke key e s = s\<lparr>data := fmupd key e (data s)\<rparr>"

definition setExpiryLocked :: "string \<Rightarrow> Entry \<Rightarrow> instant option \<Rightarrow> lshard \<Rightarrow> lshard"
  where "setExpiryLocked key e due s =
    (let s1 = poke key (e\<lparr>eExpiresAt := due\<rparr>) s;
         s2 = (if due \<noteq> None then s1\<lparr>ttlKeys := finsert key (ttlKeys s1)\<rparr>
               else s1\<lparr>ttlKeys := ttlKeys s1 |-| {|key|}\<rparr>)
     in bumpVersionLocked key s2)"

fun sweepLoop :: "int \<Rightarrow> instant \<Rightarrow> string list \<Rightarrow> int \<Rightarrow> int \<Rightarrow> lshard \<Rightarrow> int \<times> lshard" where
  "sweepLoop sampleSize t [] examined removed s = (removed, s)"
| "sweepLoop sampleSize t (key # keys) examined removed s =
    (if examined \<ge> sampleSize then (removed, s)
     else
       (case fmlookup (data s) key of
          Some e \<Rightarrow>
            if expired e t
            then sweepLoop sampleSize t keys (examined + 1) (removed + 1)
                   (bumpVersionLocked key (deleteEntryLocked key s))
            else sweepLoop sampleSize t keys (examined + 1) removed s
        | None \<Rightarrow> sweepLoop sampleSize t keys (examined + 1) removed s))"

definition sweepSampleLocked :: "goenv \<Rightarrow> int \<Rightarrow> lshard \<Rightarrow> int \<times> lshard"
  where "sweepSampleLocked env sampleSize s =
    sweepLoop sampleSize (now env) (range_set env (ttlKeys s)) 0 0 s"

text \<open>
  The victim loop keeps \<^verbatim>\<open>victimKey\<close> and \<^verbatim>\<open>victimScore\<close>; \<open>None\<close> is
  \<^verbatim>\<open>haveVictim == false\<close>.
\<close>

fun victimLoop :: "policy \<Rightarrow> instant \<Rightarrow> int \<Rightarrow> (string, Entry) fmap \<Rightarrow> string list \<Rightarrow> int
    \<Rightarrow> (string \<times> float64) option \<Rightarrow> (string \<times> float64) option" where
  "victimLoop pol t sampleSize m [] examined victim = victim"
| "victimLoop pol t sampleSize m (key # keys) examined victim =
    (if examined \<ge> sampleSize then victim
     else
       (case fmlookup m key of
          None \<Rightarrow> victimLoop pol t sampleSize m keys examined victim
        | Some e \<Rightarrow>
            let score = pol (store_signals (eLastAccess e) t (eAccessCount e));
                victim' = (case victim of
                    None \<Rightarrow> Some (key, score)
                  | Some (vk, vs) \<Rightarrow> if f64_lt vs score then Some (key, score) else victim)
            in victimLoop pol t sampleSize m keys (examined + 1) victim'))"

definition pickEvictionVictimLocked :: "goenv \<Rightarrow> policy \<Rightarrow> int \<Rightarrow> 'a shard_scheme \<Rightarrow> string"
  where "pickEvictionVictimLocked env pol sampleSize s =
    (case victimLoop pol (now env) sampleSize (data s) (range_keys env (data s)) 0 None of
       None \<Rightarrow> [] | Some (key, _) \<Rightarrow> key)"

section \<open>Abstract cells\<close>

text \<open>
  What a key holds, as a client sees it: a value of one of the five kinds and its expiry. The
  access tracking fields of an entry are not part of it. \<open>raw\<close> reads the cell of a key whether
  or not it is past its expiry, \<open>live\<close> hides an expired one.
\<close>

datatype avalue =
    VNone
  | VString bytes
  | VHash "(string, bytes) fmap"
  | VList "bytes list"
  | VSet "string fset"
  | VZSet "(string, float64) fmap"

type_synonym cell = "avalue \<times> instant option"

definition avalue_of :: "Entry \<Rightarrow> avalue"
  where "avalue_of e =
    (case eKind e of
       KindNone \<Rightarrow> VNone
     | KindString \<Rightarrow> VString (eStringVal e)
     | KindHash \<Rightarrow> VHash (eHash e)
     | KindList \<Rightarrow> VList (eList e)
     | KindSet \<Rightarrow> VSet (eSet e)
     | KindZSet \<Rightarrow> VZSet (eZSet e))"

definition acell :: "Entry \<Rightarrow> cell"
  where "acell e = (avalue_of e, eExpiresAt e)"

definition raw :: "'a shard_scheme \<Rightarrow> string \<Rightarrow> cell option"
  where "raw s k = map_option acell (fmlookup (data s) k)"

definition live :: "instant \<Rightarrow> cell option \<Rightarrow> cell option"
  where "live t c = (case c of Some (v, Some due) \<Rightarrow> if t < due then c else None | _ \<Rightarrow> c)"

text \<open>Exactly the field that the kind selects is populated.\<close>

definition wf_entry :: "Entry \<Rightarrow> bool"
  where "wf_entry e \<longleftrightarrow>
    eKind e \<noteq> KindNone \<and>
    (eKind e \<noteq> KindString \<longrightarrow> eStringVal e = None) \<and>
    (eKind e \<noteq> KindHash \<longrightarrow> eHash e = fmempty) \<and>
    (eKind e \<noteq> KindList \<longrightarrow> eList e = []) \<and>
    (eKind e \<noteq> KindSet \<longrightarrow> eSet e = {||}) \<and>
    (eKind e \<noteq> KindZSet \<longrightarrow> eZSet e = fmempty)"

lemma wf_newEntry [simp]: "wf_entry (newEntry kind t) \<longleftrightarrow> kind \<noteq> KindNone"
  by (simp add: wf_entry_def newEntry_def)

lemma touch_simps [simp]:
  "eKind (touch t e) = eKind e" "eStringVal (touch t e) = eStringVal e"
  "eHash (touch t e) = eHash e" "eList (touch t e) = eList e" "eSet (touch t e) = eSet e"
  "eZSet (touch t e) = eZSet e" "eExpiresAt (touch t e) = eExpiresAt e"
  "eLastAccess (touch t e) = t"
  by (simp_all add: touch_def)

lemma wf_touch [simp]: "wf_entry (touch t e) = wf_entry e"
  by (simp add: wf_entry_def)

lemma acell_touch [simp]: "acell (touch t e) = acell e"
  by (simp add: acell_def avalue_of_def cong: Kind.case_cong)

lemma newEntry_simps [simp]:
  "eKind (newEntry kind t) = kind" "eStringVal (newEntry kind t) = None"
  "eHash (newEntry kind t) = fmempty" "eList (newEntry kind t) = []" "eSet (newEntry kind t) = {||}"
  "eZSet (newEntry kind t) = fmempty" "eExpiresAt (newEntry kind t) = None"
  by (simp_all add: newEntry_def)

text \<open>Two well-formed entries with the same cell differ in their access tracking only.\<close>

lemma acell_inj:
  assumes "wf_entry e" "wf_entry e'" "acell e = acell e'"
  shows "e' = e\<lparr>eLastAccess := eLastAccess e', eAccessCount := eAccessCount e'\<rparr>"
  using assms by (cases e; cases e') (auto simp: wf_entry_def acell_def avalue_of_def split: Kind.splits)

lemma raw_lookup: "fmlookup (data l) k = Some e \<Longrightarrow> raw l k = Some (acell e)"
  by (simp add: raw_def)

lemma live_None [simp]: "live t None = None"
  by (simp add: live_def)

lemma live_persistent [simp]: "live t (Some (v, None)) = Some (v, None)"
  by (simp add: live_def)

lemma live_idem [simp]: "live t (live t c) = live t c"
  by (auto simp: live_def split: option.splits prod.splits)

lemma live_later: "t \<le> u \<Longrightarrow> live u (live t c) = live u c"
  by (auto simp: live_def split: option.splits prod.splits)

lemma live_SomeD: "live t c = Some a \<Longrightarrow> c = Some a"
  by (auto simp: live_def split: option.splits prod.splits if_splits)

lemma live_acell: "live t (Some (acell e)) = (if expired e t then None else Some (acell e))"
  by (auto simp: live_def acell_def expired_def split: option.splits)

lemma getLocked_live: "map_option acell (getLocked k t s) = live t (raw s k)"
  by (auto simp: getLocked_def raw_def live_acell split: option.splits)

section \<open>Effects of the locked primitives\<close>

lemma version_upd [simp]:
  "versionLocked k (l\<lparr>data := d\<rparr>) = versionLocked k l"
  "versionLocked k (l\<lparr>ttlKeys := ks\<rparr>) = versionLocked k l"
  "versionLocked k (m\<lparr>entryCountp := c\<rparr>) = versionLocked k m"
  "raw (l\<lparr>ttlKeys := ks\<rparr>) = raw l" "raw (m\<lparr>entryCountp := c\<rparr>) = raw m"
  "raw (l\<lparr>data := fmupd k e (data l)\<rparr>) = (raw l)(k \<mapsto> acell e)"
  "raw (l\<lparr>data := fmdrop k (data l)\<rparr>) = (raw l)(k := None)"
  by (auto simp: versionLocked_def raw_def)

lemma bump_simps [simp]:
  "data (bumpVersionLocked k l) = data l" "ttlKeys (bumpVersionLocked k l) = ttlKeys l"
  "entryCountp (bumpVersionLocked k l) = entryCountp l"
  "evictionsp (bumpVersionLocked k l) = evictionsp l"
  "raw (bumpVersionLocked k l) = raw l"
  by (auto simp: bumpVersionLocked_def raw_def)

lemma version_bump [simp]:
  "versionLocked k' (bumpVersionLocked k l) = versionLocked k' l + (if k' = k then 1 else 0)"
  by (simp add: bumpVersionLocked_def versionLocked_def)

lemma delete_simps [simp]:
  "data (deleteEntryLocked k l) = fmdrop k (data l)"
  "ttlKeys (deleteEntryLocked k l) = ttlKeys l |-| {|k|}"
  "versionLocked k' (deleteEntryLocked k l) = versionLocked k' l"
  "evictionsp (deleteEntryLocked k l) = evictionsp l"
  "raw (deleteEntryLocked k l) = (raw l)(k := None)"
  by (auto simp: deleteEntryLocked_def Let_def raw_def)

lemma delete_count:
  "entryCountp (deleteEntryLocked k l) =
    (if fmlookup (data l) k = None then entryCountp l else int64 (entryCountp l - 1))"
  by (simp add: deleteEntryLocked_def Let_def)

lemma poke_simps [simp]:
  "data (poke k e l) = fmupd k e (data l)" "ttlKeys (poke k e l) = ttlKeys l"
  "versionLocked k' (poke k e l) = versionLocked k' l" "entryCountp (poke k e l) = entryCountp l"
  "evictionsp (poke k e l) = evictionsp l" "raw (poke k e l) = (raw l)(k \<mapsto> acell e)"
  by (auto simp: poke_def versionLocked_def raw_def)

lemma set_simps [simp]:
  "data (setEntryLocked k e l) = fmupd k e (data l)"
  "ttlKeys (setEntryLocked k e l) =
    (if eExpiresAt e \<noteq> None then finsert k (ttlKeys l) else ttlKeys l |-| {|k|})"
  "versionLocked k' (setEntryLocked k e l) = versionLocked k' l + (if k' = k then 1 else 0)"
  "evictionsp (setEntryLocked k e l) = evictionsp l"
  "raw (setEntryLocked k e l) = (raw l)(k \<mapsto> acell e)"
  by (auto simp: setEntryLocked_def Let_def raw_def)

lemma set_count:
  "entryCountp (setEntryLocked k e l) =
    (if fmlookup (data l) k = None then int64 (entryCountp l + 1) else entryCountp l)"
  by (simp add: setEntryLocked_def Let_def)

lemma expiry_simps [simp]:
  "data (setExpiryLocked k e due l) = fmupd k (e\<lparr>eExpiresAt := due\<rparr>) (data l)"
  "ttlKeys (setExpiryLocked k e due l) =
    (if due \<noteq> None then finsert k (ttlKeys l) else ttlKeys l |-| {|k|})"
  "versionLocked k' (setExpiryLocked k e due l) = versionLocked k' l + (if k' = k then 1 else 0)"
  "entryCountp (setExpiryLocked k e due l) = entryCountp l"
  "evictionsp (setExpiryLocked k e due l) = evictionsp l"
  "raw (setExpiryLocked k e due l) = (raw l)(k \<mapsto> acell (e\<lparr>eExpiresAt := due\<rparr>))"
  by (auto simp: setExpiryLocked_def Let_def raw_def)

section \<open>Invariant\<close>

text \<open>
  \<open>shard_wf P s\<close>: the TTL index holds exactly the keys with an expiry, every key belongs to
  this shard (\<open>P\<close>, the routing) and every entry is well formed. \<open>counted base l\<close>: the counter
  cell is the number of entries, of this shard and of the others (\<open>base\<close>).
\<close>

definition shard_wf :: "(string \<Rightarrow> bool) \<Rightarrow> 'a shard_scheme \<Rightarrow> bool"
  where "shard_wf P s \<longleftrightarrow>
    (\<forall>k. k |\<in>| ttlKeys s \<longleftrightarrow> (\<exists>e. fmlookup (data s) k = Some e \<and> eExpiresAt e \<noteq> None)) \<and>
    (\<forall>k e. fmlookup (data s) k = Some e \<longrightarrow> P k \<and> wf_entry e)"

definition counted :: "int \<Rightarrow> lshard \<Rightarrow> bool"
  where "counted base l \<longleftrightarrow> entryCountp l = int64 (base + int (fsize (data l)))"

lemma shard_wf_new [simp]: "shard_wf P newShard"
  by (simp add: shard_wf_def newShard_def)

lemma shard_wf_entry: "shard_wf P s \<Longrightarrow> fmlookup (data s) k = Some e \<Longrightarrow> wf_entry e"
  by (auto simp: shard_wf_def)

lemma shard_wf_bump [simp]: "shard_wf P (bumpVersionLocked k l) = shard_wf P l"
  by (simp add: shard_wf_def)

lemma shard_wf_delete [inv_intros]: "shard_wf P l \<Longrightarrow> shard_wf P (deleteEntryLocked k l)"
  by (auto simp: shard_wf_def)

lemma shard_wf_set [inv_intros]:
  "shard_wf P l \<Longrightarrow> P k \<Longrightarrow> wf_entry e \<Longrightarrow> shard_wf P (setEntryLocked k e l)"
  by (auto simp: shard_wf_def)

lemma shard_wf_poke [inv_intros]:
  "shard_wf P l \<Longrightarrow> fmlookup (data l) k = Some e \<Longrightarrow> eExpiresAt e' = eExpiresAt e \<Longrightarrow> wf_entry e'
   \<Longrightarrow> shard_wf P (poke k e' l)"
  by (auto simp: shard_wf_def)

lemma shard_wf_expiry [inv_intros]:
  "shard_wf P l \<Longrightarrow> fmlookup (data l) k = Some e \<Longrightarrow> shard_wf P (setExpiryLocked k e due l)"
  by (auto simp: shard_wf_def wf_entry_def)

lemma counted_bump [simp]: "counted b (bumpVersionLocked k l) = counted b l"
  by (simp add: counted_def)

lemma counted_delete [inv_intros]: "counted b l \<Longrightarrow> counted b (deleteEntryLocked k l)"
  by (auto simp: counted_def delete_count fsize_drop of_nat_diff Suc_le_eq fsize_pos algebra_simps)

lemma counted_set [inv_intros]: "counted b l \<Longrightarrow> counted b (setEntryLocked k e l)"
  by (auto simp: counted_def set_count fsize_upd algebra_simps)

lemma counted_poke [inv_intros]:
  "counted b l \<Longrightarrow> fmlookup (data l) k = Some e \<Longrightarrow> counted b (poke k e' l)"
  by (auto simp: counted_def fsize_upd)

lemma counted_expiry [inv_intros]:
  "counted b l \<Longrightarrow> fmlookup (data l) k = Some e \<Longrightarrow> counted b (setExpiryLocked k e due l)"
  by (auto simp: counted_def fsize_upd)

section \<open>Versions record every change\<close>

text \<open>
  \<open>evolves n l l'\<close>: the version of every key moved by at most \<open>n\<close> bumps, and a key whose
  version did not move holds the same cell.
\<close>

definition evolves :: "nat \<Rightarrow> 'a shard_scheme \<Rightarrow> 'a shard_scheme \<Rightarrow> bool"
  where "evolves n l l' \<longleftrightarrow>
    (\<forall>k. \<exists>j\<le>n. versionLocked k l' = versionLocked k l + of_nat j \<and> (j = 0 \<longrightarrow> raw l' k = raw l k))"

lemma evolves_refl [evolve_intros]: "evolves n l l"
  by (auto simp: evolves_def)

lemma evolves_trans: "evolves n l m \<Longrightarrow> evolves n' m l' \<Longrightarrow> evolves (n + n') l l'"
  unfolding evolves_def
proof (intro allI)
  fix k
  assume a: "\<forall>k. \<exists>j\<le>n. versionLocked k m = versionLocked k l + of_nat j \<and> (j = 0 \<longrightarrow> raw m k = raw l k)"
    and b: "\<forall>k. \<exists>j\<le>n'. versionLocked k l' = versionLocked k m + of_nat j \<and> (j = 0 \<longrightarrow> raw l' k = raw m k)"
  from a obtain i where "i \<le> n" "versionLocked k m = versionLocked k l + of_nat i"
    "i = 0 \<longrightarrow> raw m k = raw l k" by blast
  moreover from b obtain j where "j \<le> n'" "versionLocked k l' = versionLocked k m + of_nat j"
    "j = 0 \<longrightarrow> raw l' k = raw m k" by blast
  ultimately show "\<exists>j\<le>n + n'. versionLocked k l' = versionLocked k l + of_nat j \<and> (j = 0 \<longrightarrow> raw l' k = raw l k)"
    by (intro exI [of _ "i + j"]) auto
qed

lemma evolves_mono: "evolves n l l' \<Longrightarrow> n \<le> m \<Longrightarrow> evolves m l l'"
  unfolding evolves_def by (meson le_trans)

lemma evolves_one [evolve_intros]:
  assumes "\<And>k'. versionLocked k' l' = versionLocked k' l + (if k' = k then 1 else 0)"
    and "\<And>k'. k' \<noteq> k \<Longrightarrow> raw l' k' = raw l k'" "0 < n"
  shows "evolves n l l'"
  unfolding evolves_def using assms
  by (intro allI, rename_tac k', case_tac "k' = k") (auto intro: exI [of _ 1] simp: Suc_le_eq)

lemma evolves_silent:
  assumes "\<And>k. versionLocked k l' = versionLocked k l" "raw l' = raw l"
  shows "evolves n l l'"
  unfolding evolves_def using assms by auto

section \<open>Steps of a locked section\<close>

text \<open>
  \<open>lstep ck n v l l'\<close>: a locked section working for key \<open>ck\<close> took \<open>l\<close> to \<open>l'\<close>. Other keys
  are untouched but for \<open>v\<close> evicted ones, each reported to \<^verbatim>\<open>onEvict\<close> once; versions
  moved by at most \<open>n\<close> and recorded every change; the invariants are kept.
\<close>

definition lstep :: "string \<Rightarrow> nat \<Rightarrow> nat \<Rightarrow> lshard \<Rightarrow> lshard \<Rightarrow> bool"
  where "lstep ck n v l l' \<longleftrightarrow>
    (\<exists>V. V \<subseteq> fmdom' (data l) - {ck} \<and> card V = v \<and> evictionsp l' = evictionsp l + v \<and>
       (\<forall>k. k \<noteq> ck \<longrightarrow> fmlookup (data l') k = (if k \<in> V then None else fmlookup (data l) k))) \<and>
    evolves n l l' \<and>
    (\<forall>P. P ck \<longrightarrow> shard_wf P l \<longrightarrow> shard_wf P l') \<and>
    (\<forall>b. counted b l \<longrightarrow> counted b l')"

lemma lstepI:
  assumes "\<And>k. k \<noteq> ck \<Longrightarrow> fmlookup (data l') k = fmlookup (data l) k"
    and "evictionsp l' = evictionsp l" "evolves n l l'"
    and "\<And>P. P ck \<Longrightarrow> shard_wf P l \<Longrightarrow> shard_wf P l'" "\<And>b. counted b l \<Longrightarrow> counted b l'"
  shows "lstep ck n 0 l l'"
  unfolding lstep_def using assms by (auto intro!: exI [of _ "{}"])

lemma lstep_wf: "lstep ck n v l l' \<Longrightarrow> P ck \<Longrightarrow> shard_wf P l \<Longrightarrow> shard_wf P l'"
  by (simp add: lstep_def)

lemma lstep_counted: "lstep ck n v l l' \<Longrightarrow> counted b l \<Longrightarrow> counted b l'"
  by (simp add: lstep_def)

lemma lstep_refl: "lstep ck n 0 l l"
  by (rule lstepI) (auto intro: evolves_refl)

lemma lstep_mono: "lstep ck n v l l' \<Longrightarrow> n \<le> m \<Longrightarrow> lstep ck m v l l'"
  unfolding lstep_def using evolves_mono by blast

lemma lstep_trans:
  assumes "lstep ck n v l m" "lstep ck n' v' m l'"
  shows "lstep ck (n + n') (v + v') l l'"
proof -
  from assms obtain V V' where
    V: "V \<subseteq> fmdom' (data l) - {ck}" "card V = v" "evictionsp m = evictionsp l + v"
      "\<And>k. k \<noteq> ck \<Longrightarrow> fmlookup (data m) k = (if k \<in> V then None else fmlookup (data l) k)" and
    V': "V' \<subseteq> fmdom' (data m) - {ck}" "card V' = v'" "evictionsp l' = evictionsp m + v'"
      "\<And>k. k \<noteq> ck \<Longrightarrow> fmlookup (data l') k = (if k \<in> V' then None else fmlookup (data m) k)"
    unfolding lstep_def by metis
  have "finite V" "finite V'"
    using V(1) V'(1) by (auto intro: finite_subset [OF _ finite_fmdom'] simp: subset_iff)
  moreover have sub: "V' \<subseteq> fmdom' (data l) - {ck}" and dis: "V \<inter> V' = {}"
    using V' V(1) V(4) by (auto simp: fmdom'_lookup subset_iff split: if_splits)
  ultimately have "card (V \<union> V') = v + v'"
    using V(2) V'(2) by (simp add: card_Un_disjoint)
  moreover have "V \<union> V' \<subseteq> fmdom' (data l) - {ck}" using V(1) sub by blast
  moreover have "\<forall>k. k \<noteq> ck \<longrightarrow> fmlookup (data l') k = (if k \<in> V \<union> V' then None else fmlookup (data l) k)"
    using V(4) V'(4) by simp
  moreover have "evictionsp l' = evictionsp l + (v + v')" using V(3) V'(3) by simp
  moreover have "evolves (n + n') l l'"
    using assms unfolding lstep_def by (auto intro: evolves_trans)
  moreover have "\<forall>P. P ck \<longrightarrow> shard_wf P l \<longrightarrow> shard_wf P l'" "\<forall>b. counted b l \<longrightarrow> counted b l'"
    using assms unfolding lstep_def by auto
  ultimately show ?thesis unfolding lstep_def by blast
qed

text \<open>The primitives as steps.\<close>

lemma evolves_touchlike: "evolves n l (bumpVersionLocked k l')"
  if "0 < n" "\<And>k'. versionLocked k' l' = versionLocked k' l" "\<And>k'. k' \<noteq> k \<Longrightarrow> raw l' k' = raw l k'"
  using that by (intro evolves_one [where k = k]) auto

lemma lstep_delete: "0 < n \<Longrightarrow> lstep ck n 0 l (bumpVersionLocked ck (deleteEntryLocked ck l))"
  by (rule lstepI) (auto intro!: evolves_touchlike inv_intros)

lemma lstep_poke:
  assumes "0 < n"
    and "fmlookup (data l) ck = Some e" "eExpiresAt e' = eExpiresAt e" "wf_entry e \<Longrightarrow> wf_entry e'"
  shows "lstep ck n 0 l (bumpVersionLocked ck (poke ck e' l))"
  using assms
  by (intro lstepI) (auto intro!: evolves_touchlike inv_intros dest: shard_wf_entry)

lemma lstep_touch:
  assumes "fmlookup (data l) ck = Some e" "acell e' = acell e" "wf_entry e \<Longrightarrow> wf_entry e'"
  shows "lstep ck n 0 l (poke ck e' l)"
proof -
  have "eExpiresAt e' = eExpiresAt e" "raw l ck = Some (acell e)"
    using assms by (simp_all add: acell_def raw_def)
  with assms show ?thesis
    by (intro lstepI evolves_silent)
      (auto intro: shard_wf_poke counted_poke dest: shard_wf_entry)
qed

lemma lstep_set: "0 < n \<Longrightarrow> wf_entry e \<Longrightarrow> lstep ck n 0 l (setEntryLocked ck e l)"
  by (rule lstepI) (auto intro!: evolves_one [where k = ck] inv_intros)

lemma lstep_expiry:
  "0 < n \<Longrightarrow> fmlookup (data l) ck = Some e \<Longrightarrow> lstep ck n 0 l (setExpiryLocked ck e due l)"
  by (rule lstepI) (auto intro!: evolves_one [where k = ck] intro: shard_wf_expiry counted_expiry)

lemma getForWrite_cases:
  obtains (absent) l1 where "getForWriteLocked ck t l = (None, l1)" "live t (raw l ck) = None"
      "fmlookup (data l1) ck = None" "raw l1 = (raw l)(ck := None)" "lstep ck 1 0 l l1"
  | (present) e where "getForWriteLocked ck t l = (Some e, l)" "live t (raw l ck) = Some (acell e)"
      "fmlookup (data l) ck = Some e" "raw l ck = Some (acell e)" "\<not> expired e t"
proof (cases "fmlookup (data l) ck")
  case None
  then show ?thesis
    by (intro absent [of l]) (auto simp: getForWriteLocked_def raw_def lstep_refl)
next
  case (Some e)
  show ?thesis
  proof (cases "expired e t")
    case True
    with Some show ?thesis
      by (intro absent [of "bumpVersionLocked ck (deleteEntryLocked ck l)"])
        (auto simp: getForWriteLocked_def raw_def live_acell lstep_delete)
  next
    case False
    with Some show ?thesis
      by (intro present [of e]) (auto simp: getForWriteLocked_def raw_def live_acell)
  qed
qed

section \<open>Bulk removal and the sweep\<close>

definition dropAll :: "string list \<Rightarrow> lshard \<Rightarrow> lshard" \<comment> \<open>delete and bump, key by key\<close>
  where "dropAll ks l = fold (\<lambda>k l. bumpVersionLocked k (deleteEntryLocked k l)) ks l"

lemma dropAll_simps [simp]:
  "dropAll [] l = l"
  "dropAll (k # ks) l = dropAll ks (bumpVersionLocked k (deleteEntryLocked k l))"
  by (simp_all add: dropAll_def)

lemma dropAll_lookup:
  "fmlookup (data (dropAll ks l)) k = (if k \<in> set ks then None else fmlookup (data l) k)"
  by (induction ks arbitrary: l) auto

lemma dropAll_raw: "raw (dropAll ks l) k = (if k \<in> set ks then None else raw l k)"
  by (simp add: raw_def dropAll_lookup)

lemma dropAll_version:
  "distinct ks \<Longrightarrow>
   versionLocked k (dropAll ks l) = versionLocked k l + (if k \<in> set ks then 1 else 0)"
  by (induction ks arbitrary: l) auto

lemma dropAll_evictions [simp]: "evictionsp (dropAll ks l) = evictionsp l"
  by (induction ks arbitrary: l) auto

lemma dropAll_wf [inv_intros]: "shard_wf P l \<Longrightarrow> shard_wf P (dropAll ks l)"
  by (induction ks arbitrary: l) (simp_all add: shard_wf_delete)

lemma dropAll_counted [inv_intros]: "counted b l \<Longrightarrow> counted b (dropAll ks l)"
  by (induction ks arbitrary: l) (simp_all add: counted_delete)

lemma dropAll_evolves: "distinct ks \<Longrightarrow> evolves 1 l (dropAll ks l)"
  unfolding evolves_def
  by (intro allI, rename_tac k, case_tac "k \<in> set ks")
    (auto simp: dropAll_version dropAll_raw intro: exI [of _ 1])

definition expired_in :: "instant \<Rightarrow> 'a shard_scheme \<Rightarrow> string \<Rightarrow> bool"
  where "expired_in t l k = (case fmlookup (data l) k of None \<Rightarrow> False | Some e \<Rightarrow> expired e t)"

lemma sweepLoop_Cons:
  "sweepLoop n t (key # keys) i r l =
    (if n \<le> i then (r, l)
     else if expired_in t l key
     then sweepLoop n t keys (i + 1) (r + 1) (bumpVersionLocked key (deleteEntryLocked key l))
     else sweepLoop n t keys (i + 1) r l)"
  by (auto simp: expired_in_def split: option.splits)

declare sweepLoop.simps(2) [simp del]

lemma sweepLoop_eq:
  assumes "distinct keys"
  shows "sweepLoop n t keys i r l =
    (let xs = filter (expired_in t l) (take (nat (n - i)) keys)
     in (r + int (length xs), dropAll xs l))"
  using assms
proof (induction keys arbitrary: i r l)
  case (Cons key keys)
  show ?case
  proof (cases "n \<le> i")
    case False
    let ?l' = "bumpVersionLocked key (deleteEntryLocked key l)"
    have same: "filter (expired_in t ?l') (take (nat (n - (i + 1))) keys)
        = filter (expired_in t l) (take (nat (n - (i + 1))) keys)"
      using Cons.prems by (intro filter_cong) (auto simp: expired_in_def dest: in_set_takeD)
    from Cons False same show ?thesis
      by (simp add: sweepLoop_Cons take_nat_Cons Let_def)
  qed (simp add: sweepLoop_Cons)
qed simp

text \<open>Expired keys are always in the TTL index, so a large enough sample removes them all.\<close>

lemma expired_in_ttl: "shard_wf P l \<Longrightarrow> expired_in t l k \<Longrightarrow> k |\<in>| ttlKeys l"
  by (auto simp: shard_wf_def expired_in_def expired_def split: option.splits)

lemma sweepSample_eq:
  assumes "env_ok env"
  shows "sweepSampleLocked env n l =
    (let xs = filter (expired_in (now env) l) (take (nat n) (range_set env (ttlKeys l)))
     in (int (length xs), dropAll xs l))"
  using assms by (simp add: sweepSampleLocked_def sweepLoop_eq)

section \<open>The eviction victim\<close>

definition score_of :: "policy \<Rightarrow> instant \<Rightarrow> (string, Entry) fmap \<Rightarrow> string \<Rightarrow> float64"
  where "score_of pol t m k = (case fmlookup m k of
     Some e \<Rightarrow> pol (store_signals (eLastAccess e) t (eAccessCount e)) | None \<Rightarrow> NaN)"

definition better :: "(string \<Rightarrow> float64) \<Rightarrow> string \<Rightarrow> (string \<times> float64) option \<Rightarrow> string \<times> float64"
  where "better f key v = (case v of
     None \<Rightarrow> (key, f key)
   | Some (vk, vs) \<Rightarrow> if f64_lt vs (f key) then (key, f key) else (vk, vs))"

lemma victimLoop_Cons:
  "victimLoop pol t n m (key # keys) i v =
    (if n \<le> i then v
     else if fmlookup m key = None then victimLoop pol t n m keys i v
     else victimLoop pol t n m keys (i + 1) (Some (better (score_of pol t m) key v)))"
  by (auto simp: Let_def better_def score_of_def split: option.splits)

declare victimLoop.simps(2) [simp del]

lemma victimLoop_dom:
  assumes "victimLoop pol t n m ks i v = Some (k, sc)" "\<And>vk vs. v = Some (vk, vs) \<Longrightarrow> vk \<in> fmdom' m"
  shows "k \<in> fmdom' m"
  using assms
proof (induction ks arbitrary: i v)
  case (Cons key keys)
  show ?case
  proof (cases "n \<le> i \<or> fmlookup m key = None")
    case True
    with Cons show ?thesis by (auto simp: victimLoop_Cons split: if_splits)
  next
    case False
    have "vk \<in> fmdom' m" if "Some (better (score_of pol t m) key v) = Some (vk, vs)" for vk vs
      using that Cons.prems(2) False
      by (auto simp: better_def fmdom'_lookup split: option.splits if_splits)
    moreover obtain e where "fmlookup m key = Some e" using False by blast
    ultimately show ?thesis
      using False Cons.prems(1) Cons.IH [of "i + 1" "Some (better (score_of pol t m) key v)"]
      by (simp add: victimLoop_Cons)
  qed
qed simp

text \<open>With scores that are never NaN the loop returns a maximum of the sample.\<close>

lemma victimLoop_max:
  assumes "victimLoop pol t n m ks i v = Some (k, sc)"
    and "set ks \<subseteq> fmdom' m" "\<And>k'. k' \<in> fmdom' m \<Longrightarrow> \<not> is_nan (score_of pol t m k')"
    and "\<And>vk vs. v = Some (vk, vs) \<Longrightarrow> vs = score_of pol t m vk \<and> vk \<in> fmdom' m"
  shows "sc = score_of pol t m k \<and>
    (\<forall>k' \<in> set (take (nat (n - i)) ks) \<union> {vk. \<exists>vs. v = Some (vk, vs)}.
       f64_le (score_of pol t m k') sc)"
  using assms
proof (induction ks arbitrary: i v)
  case Nil
  then show ?case by (auto simp: f64_le_def simp flip: fmdom'_lookup)
next
  case (Cons key keys)
  let ?f = "score_of pol t m"
  show ?case
  proof (cases "n \<le> i")
    case True
    with Cons.prems show ?thesis by (auto simp: victimLoop_Cons f64_le_def)
  next
    case False
    obtain wk ws where w: "better ?f key v = (wk, ws)" by fastforce
    have key: "key \<in> fmdom' m" and kn: "fmlookup m key \<noteq> None"
      using Cons.prems(2) by (auto simp: fmdom'_lookup)
    have step: "victimLoop pol t n m keys (i + 1) (Some (wk, ws)) = Some (k, sc)"
      using Cons.prems(1) False kn w by (simp add: victimLoop_Cons)
    have ok: "ws = ?f wk" "wk \<in> fmdom' m"
      using w Cons.prems(4) key by (auto simp: better_def split: option.splits if_splits prod.splits)
    have IH: "sc = ?f k \<and> (\<forall>k' \<in> set (take (nat (n - (i + 1))) keys) \<union> {wk}. f64_le (?f k') sc)"
    proof -
      have "sc = ?f k \<and> (\<forall>k' \<in> set (take (nat (n - (i + 1))) keys) \<union> {vk. \<exists>vs. Some (wk, ws) = Some (vk, vs)}.
          f64_le (?f k') sc)"
        by (rule Cons.IH [OF step _ Cons.prems(3)]) (use Cons.prems(2) ok in simp_all)
      then show ?thesis by blast
    qed
    have above: "f64_le (?f k') ws" if "k' = key \<or> (\<exists>vs. v = Some (k', vs))" for k'
    proof (cases v)
      case None
      with that w Cons.prems(3) [OF key] show ?thesis by (auto simp: better_def f64_le_def)
    next
      case (Some u)
      obtain uk us where u: "u = (uk, us)" by fastforce
      have "us = ?f uk" "uk \<in> fmdom' m" using Cons.prems(4) Some u by auto
      then show ?thesis
        using that w Some u Cons.prems(3) [OF key] Cons.prems(3) [of uk] f64_not_lt [of us "?f key"]
        by (auto simp: better_def f64_le_def split: if_splits)
    qed
    have tk: "set (take (nat (n - i)) (key # keys)) = insert key (set (take (nat (n - (i + 1))) keys))"
      by (simp add: take_nat_Cons [OF False])
    have "f64_le ws sc" using IH ok(1) by blast
    then have "f64_le (?f k') sc" if "k' = key \<or> (\<exists>vs. v = Some (k', vs))" for k'
      using above [OF that] f64_le_trans by blast
    with IH show ?thesis unfolding tk by blast
  qed
qed

lemma pickVictim_dom: "pickEvictionVictimLocked env pol n l \<noteq> [] \<Longrightarrow>
    pickEvictionVictimLocked env pol n l \<in> fmdom' (data l)"
  by (auto simp: pickEvictionVictimLocked_def dest: victimLoop_dom split: option.splits prod.splits)

end
