(* ===== verification/Glob.thy ===== *)
theory Glob
  imports Prelude
begin

text \<open>
  Redis-style glob matching, \<^verbatim>\<open>internal/storage/memstore/pattern.go\<close> (KEYS and SCAN) and
  its copy \<^verbatim>\<open>internal/server/resp/glob.go\<close> (PSUBSCRIBE). The two copies differ in one
  branch only: the store's matcher treats a backslash as an escape, the protocol layer's copy has
  no such case. The flag \<open>esc\<close> of \<open>globMatchBytes\<close> selects the copy.

  The reference semantics reads a pattern as a list of tokens and a match as an inductive
  relation; \<open>globMatchBytes_iff\<close> shows that the backtracking loop decides it.
\<close>

section \<open>The matcher\<close>

fun matchClass :: "string \<Rightarrow> char \<Rightarrow> bool" where
  "matchClass (x # y # z # r) c =
    (if y = CHR ''-''
     then (if x \<le> c \<and> c \<le> z then True else matchClass r c)
     else (if x = c then True else matchClass (y # z # r) c))"
| "matchClass (x # r) c = (if x = c then True else matchClass r c)"
| "matchClass [] c = False"

fun indexByte :: "string \<Rightarrow> char \<Rightarrow> nat option" where
  "indexByte [] c = None"
| "indexByte (b # bs) c = (if b = c then Some 0 else map_option Suc (indexByte bs c))"

definition classMatches :: "string \<Rightarrow> char \<Rightarrow> bool" \<comment> \<open>a bracket class with its optional \<^verbatim>\<open>^\<close>\<close>
  where "classMatches class c =
    (let neg = (class \<noteq> [] \<and> hd class = CHR ''^'');
         class' = (if neg then tl class else class)
     in matchClass class' c \<noteq> neg)"

text \<open>
  \<open>globMatchBytes esc p s\<close> is the loop over the pattern; \<open>globStar esc p s\<close> is the inner loop
  of the star case, which tries the rest of the pattern at every suffix of \<open>s\<close>.
\<close>

lemma indexByte_less: "indexByte bs c = Some i \<Longrightarrow> i < length bs"
  by (induction bs arbitrary: i) (auto split: if_splits)

function (sequential)
  globMatchBytes :: "bool \<Rightarrow> string \<Rightarrow> string \<Rightarrow> bool" and
  globStar :: "bool \<Rightarrow> string \<Rightarrow> string \<Rightarrow> bool"
where
  "globMatchBytes esc [] s = (s = [])"
| "globMatchBytes esc (p # ps) s =
    (if p = CHR ''*'' then
       (let rest = dropWhile (\<lambda>c. c = CHR ''*'') ps
        in if rest = [] then True else globStar esc rest s)
     else if p = CHR ''?'' then
       (case s of [] \<Rightarrow> False | c # cs \<Rightarrow> globMatchBytes esc ps cs)
     else if p = CHR ''['' then
       (case s of
          [] \<Rightarrow> False
        | c # cs \<Rightarrow>
            (case indexByte ps (CHR '']'') of
               None \<Rightarrow> if c \<noteq> CHR ''['' then False else globMatchBytes esc ps cs
             | Some e \<Rightarrow> if classMatches (take e ps) c
                          then globMatchBytes esc (drop (Suc e) ps) cs else False))
     else if esc \<and> p = CHR 0x5C then
       (case ps of
          q # qs \<Rightarrow> (case s of [] \<Rightarrow> False
                     | c # cs \<Rightarrow> if c \<noteq> q then False else globMatchBytes esc qs cs)
        | [] \<Rightarrow> (case s of [] \<Rightarrow> False
                 | c # cs \<Rightarrow> if c \<noteq> CHR 0x5C then False else globMatchBytes esc ps cs))
     else
       (case s of [] \<Rightarrow> False
        | c # cs \<Rightarrow> if c \<noteq> p then False else globMatchBytes esc ps cs))"
| "globStar esc rest s =
    (if globMatchBytes esc rest s then True
     else (case s of [] \<Rightarrow> False | _ # cs \<Rightarrow> globStar esc rest cs))"
  by pat_completeness auto
termination
  by (relation "measures [\<lambda>x. case x of Inl (_, p, _) \<Rightarrow> 2 * length p | Inr (_, p, _) \<Rightarrow> 2 * length p + 1,
                          \<lambda>x. case x of Inl (_, _, s) \<Rightarrow> length s | Inr (_, _, s) \<Rightarrow> length s]")
    (auto dest: indexByte_less simp: le_imp_less_Suc length_dropWhile_le)

declare globStar.simps [simp del]

definition globMatch :: "string \<Rightarrow> string \<Rightarrow> bool" \<comment> \<open>the store's matcher\<close>
  where "globMatch pattern s = globMatchBytes True pattern s"

definition resp_globMatch :: "string \<Rightarrow> string \<Rightarrow> bool" \<comment> \<open>the protocol layer's copy\<close>
  where "resp_globMatch pattern s = globMatchBytes False pattern s"

section \<open>Reference semantics\<close>

datatype tok = Star | Any | Class string | Lit char

fun tok_ok :: "tok \<Rightarrow> char \<Rightarrow> bool" where
  "tok_ok Any c = True"
| "tok_ok (Class cl) c = classMatches cl c"
| "tok_ok (Lit d) c = (c = d)"
| "tok_ok Star c = False"

function (sequential) tokens :: "bool \<Rightarrow> string \<Rightarrow> tok list" where
  "tokens esc [] = []"
| "tokens esc (p # ps) =
    (if p = CHR ''*'' then Star # tokens esc ps
     else if p = CHR ''?'' then Any # tokens esc ps
     else if p = CHR ''['' then
       (case indexByte ps (CHR '']'') of
          None \<Rightarrow> Lit p # tokens esc ps
        | Some e \<Rightarrow> Class (take e ps) # tokens esc (drop (Suc e) ps))
     else if esc \<and> p = CHR 0x5C then
       (case ps of [] \<Rightarrow> [Lit p] | q # qs \<Rightarrow> Lit q # tokens esc qs)
     else Lit p # tokens esc ps)"
  by pat_completeness auto
termination
  by (relation "measure (\<lambda>(_, p). length p)") (auto dest: indexByte_less)

inductive matches :: "tok list \<Rightarrow> string \<Rightarrow> bool" where
  nil: "matches [] []"
| star: "matches ts s \<Longrightarrow> matches (Star # ts) (s' @ s)"
| one: "tok_ok t c \<Longrightarrow> matches ts s \<Longrightarrow> matches (t # ts) (c # s)"

inductive_cases matches_NilE [elim!]: "matches [] s"
inductive_cases matches_StarE: "matches (Star # ts) s"
inductive_cases matches_ConsE: "matches (t # ts) s"

lemma matches_Nil [simp]: "matches [] s \<longleftrightarrow> s = []"
  by (auto intro: matches.nil)

lemma matches_Star: "matches (Star # ts) s \<longleftrightarrow> (\<exists>s1 s2. s = s1 @ s2 \<and> matches ts s2)"
  by (auto elim!: matches_StarE intro: matches.star)

lemma matches_one: "t \<noteq> Star \<Longrightarrow>
    matches (t # ts) s \<longleftrightarrow> (case s of [] \<Rightarrow> False | c # cs \<Rightarrow> tok_ok t c \<and> matches ts cs)"
  by (auto elim!: matches_ConsE intro: matches.one split: list.splits)

lemma matches_Star_step:
  "matches (Star # ts) s \<longleftrightarrow>
     matches ts s \<or> (case s of [] \<Rightarrow> False | _ # cs \<Rightarrow> matches (Star # ts) cs)"
proof (cases s)
  case Nil
  then show ?thesis by (auto simp: matches_Star)
next
  case (Cons c cs)
  have "(\<exists>s1 s2. c # cs = s1 @ s2 \<and> matches ts s2) \<longleftrightarrow>
      matches ts (c # cs) \<or> (\<exists>s1 s2. cs = s1 @ s2 \<and> matches ts s2)"
    by (metis append_Cons append_Nil list.exhaust list.inject)
  with Cons show ?thesis by (simp add: matches_Star)
qed

lemma matches_Star_Star: "matches (Star # Star # ts) s \<longleftrightarrow> matches (Star # ts) s"
  by (auto simp: matches_Star) (metis append_assoc)

lemma matches_only_Star [simp]: "matches [Star] s"
  by (simp add: matches_Star)

lemma matches_collapse:
  "matches (Star # tokens esc ps) s \<longleftrightarrow>
   matches (Star # tokens esc (dropWhile (\<lambda>c. c = CHR ''*'') ps)) s"
proof (induction ps)
  case (Cons p ps)
  show ?case
  proof (cases "p = CHR ''*''")
    case True
    then have "matches (Star # tokens esc (p # ps)) s \<longleftrightarrow> matches (Star # tokens esc ps) s"
      by (simp add: matches_Star_Star)
    with Cons True show ?thesis by simp
  qed simp
qed simp

text \<open>The two loops decide the reference relation.\<close>

lemma glob_iff:
  "globMatchBytes esc p s \<longleftrightarrow> matches (tokens esc p) s"
  "globStar esc p s \<longleftrightarrow> matches (Star # tokens esc p) s"
proof (induction esc p s and esc p s rule: globMatchBytes_globStar.induct)
  case (1 esc s)
  then show ?case by simp
next
  case (2 esc p ps s)
  show ?case
  proof (cases "p = CHR ''*''")
    case True
    with 2(1) show ?thesis
      by (cases "dropWhile (\<lambda>c. c = CHR ''*'') ps = []") 
        (simp_all add: matches_collapse [of esc ps] del: dropWhile_eq_Nil_conv)
  next
    case notStar: False
    show ?thesis
    proof (cases s)
      case Nil
      with notStar show ?thesis by (auto simp: matches_one split: list.splits option.splits)
    next
      case (Cons c cs)
      consider (any) "p = CHR ''?''"
        | (open_lit) "p = CHR ''[''" "indexByte ps (CHR '']'') = None"
        | (open_class) e where "p = CHR ''[''" "indexByte ps (CHR '']'') = Some e"
        | (escape) "esc" "p = CHR 0x5C"
        | (lit) "p \<noteq> CHR ''?''" "p \<noteq> CHR ''[''" "\<not> (esc \<and> p = CHR 0x5C)"
        by (cases "indexByte ps (CHR '']'')") blast+
      then show ?thesis
      proof cases
        case any
        with 2(2) Cons show ?thesis by (simp add: matches_one)
      next
        case open_lit
        with 2(3) Cons show ?thesis by (auto simp: matches_one)
      next
        case open_class
        with 2(4) Cons show ?thesis by (auto simp: matches_one)
      next
        case escape
        with 2(5,6) Cons show ?thesis by (cases ps) (auto simp: matches_one)
      next
        case lit
        with 2(7) Cons notStar show ?thesis by (auto simp: matches_one)
      qed
    qed
  qed
next
  case (3 esc rest s)
  then show ?case
    by (subst matches_Star_step) (auto simp: globStar.simps [of esc rest s] split: list.splits)
qed

lemma tokens_no_backslash: "CHR 0x5C \<notin> set p \<Longrightarrow> tokens True p = tokens False p"
proof (induction "True" p rule: tokens.induct)
  case (2 p ps)
  then show ?case by (auto dest: in_set_dropD split: option.splits)
qed simp

end
