(* ===== verification/Store.thy ===== *)
theory Store
  imports Shard Glob
begin

text \<open>
  The sharded store, \<^verbatim>\<open>internal/storage/memstore/store.go\<close>: construction, key routing,
  the eviction trigger, \<^verbatim>\<open>ensureKind\<close>, and the generic key operations of
  \<^verbatim>\<open>storage.Engine\<close>. An operation reads the clock once (\<open>now env\<close>), takes the lock of the
  shard its key is routed to and runs its body on the locked view of that shard (\<open>onShard\<close>).
  The operations on hashes, lists, sets and sorted sets are in the theories \<open>StoreHash\<close>,
  \<open>StoreList\<close>, \<open>StoreSet\<close> and \<open>StoreZSet\<close>.

  Each operation on one key is shown to implement a function on that key's abstract cell
  (\<open>implements\<close>): the result and the new cell are those of the function applied to the live
  cell, other keys keep their entries except at most one evicted one, and every change bumps the
  WATCH version of the key it changes.
\<close>

section \<open>State and construction\<close>

datatype storage_error =
  ErrWrongType | ErrNotInteger | ErrNotFloat | ErrIndexOutOfRange | ErrNoSuchKey

fun storage_error_text :: "storage_error \<Rightarrow> string" where
  "storage_error_text ErrWrongType = ''WRONGTYPE''"
| "storage_error_text ErrNotInteger = ''value is not an integer or out of range''"
| "storage_error_text ErrNotFloat = ''value is not a valid float''"
| "storage_error_text ErrIndexOutOfRange = ''index out of range''"
| "storage_error_text ErrNoSuchKey = ''no such key''"

record SetOpts =
  oTTL :: duration
  OnlyIfNX :: bool
  OnlyIfXX :: bool
  GetOld :: bool

record Store =
  shards :: "shard list"
  n_shards :: int
  entryCount :: int
  evictions :: nat \<comment> \<open>calls of the \<^verbatim>\<open>onEvict\<close> callback\<close>
  maxEntries :: int
  policy_of :: policy

abbreviation defaultNumShards :: int where "defaultNumShards \<equiv> 32"
abbreviation evictionSampleSize :: int where "evictionSampleSize \<equiv> 20"

text \<open>The options of \<^verbatim>\<open>New\<close>: \<^verbatim>\<open>WithMaxEntries\<close> and \<^verbatim>\<open>WithEvictionPolicy\<close> (nil keeps the default).\<close>

datatype Option = WithMaxEntries int | WithEvictionPolicy "policy option"

fun applyOption :: "Option \<Rightarrow> Store \<Rightarrow> Store" where
  "applyOption (WithMaxEntries m) s = s\<lparr>maxEntries := m\<rparr>"
| "applyOption (WithEvictionPolicy None) s = s"
| "applyOption (WithEvictionPolicy (Some p)) s = s\<lparr>policy_of := p\<rparr>"

definition newStore :: "int \<Rightarrow> Option list \<Rightarrow> Store"
  where "newStore num opts =
    (let numShards = (if num \<le> 0 then defaultNumShards else num);
         s = \<lparr>shards = [], n_shards = numShards, entryCount = 0, evictions = 0,
              maxEntries = 0, policy_of = LRU_Score\<rparr>;
         s1 = fold applyOption opts s
     in s1\<lparr>shards := replicate (nat numShards) newShard\<rparr>)"

definition EntryCount :: "Store \<Rightarrow> int"
  where "EntryCount s = entryCount s"

definition NumShards :: "Store \<Rightarrow> int"
  where "NumShards s = n_shards s"

section \<open>Routing and locking\<close>

definition nsKey :: "string \<Rightarrow> string \<Rightarrow> string"
  where "nsKey workspace key = workspace @ CHR 0x00 # key"

definition fnv32a :: "string \<Rightarrow> 32 word"
  where "fnv32a bs = fold (\<lambda>c h. xor h (of_char c) * 16777619) bs 2166136261"

definition shardIndex :: "Store \<Rightarrow> string \<Rightarrow> nat"
  where "shardIndex s ck = unat (fnv32a ck mod word_of_int (n_shards s))"

definition shardFor :: "Store \<Rightarrow> string \<Rightarrow> shard"
  where "shardFor s ck = shards s ! shardIndex s ck"

text \<open>The locked view of shard \<open>i\<close>, and writing it back.\<close>

definition lockShard :: "Store \<Rightarrow> nat \<Rightarrow> lshard"
  where "lockShard s i =
    (let sh = shards s ! i
     in \<lparr>data = data sh, ttlKeys = ttlKeys sh, versions = versions sh,
         entryCountp = entryCount s, evictionsp = evictions s\<rparr>)"

definition unlockShard :: "Store \<Rightarrow> nat \<Rightarrow> lshard \<Rightarrow> Store"
  where "unlockShard s i l =
    s\<lparr>shards := (shards s)[i := \<lparr>data = data l, ttlKeys = ttlKeys l, versions = versions l\<rparr>],
      entryCount := entryCountp l, evictions := evictionsp l\<rparr>"

definition withShard :: "nat \<Rightarrow> (lshard \<Rightarrow> 'r \<times> lshard) \<Rightarrow> Store \<Rightarrow> 'r \<times> Store"
  where "withShard i f s = (case f (lockShard s i) of (r, l) \<Rightarrow> (r, unlockShard s i l))"

definition onShard :: "string \<Rightarrow> (lshard \<Rightarrow> 'r \<times> lshard) \<Rightarrow> Store \<Rightarrow> 'r \<times> Store"
  where "onShard ck f s = withShard (shardIndex s ck) f s"

definition normalizeIndex :: "int \<Rightarrow> int \<Rightarrow> int" \<comment> \<open>\<open>n\<close> is a length: the sum cannot leave the range\<close>
  where "normalizeIndex idx n = (if idx < 0 then n + idx else idx)"

definition evictIfNeededLocked :: "goenv \<Rightarrow> Store \<Rightarrow> lshard \<Rightarrow> lshard"
  where "evictIfNeededLocked env s l =
    (if maxEntries s \<le> 0 then l
     else if int64 (entryCountp l + 1) \<le> maxEntries s then l
     else
       let victim = pickEvictionVictimLocked env (policy_of s) evictionSampleSize l
       in if victim = [] then l
          else (bumpVersionLocked victim (deleteEntryLocked victim l))
                 \<lparr>evictionsp := Suc (evictionsp l)\<rparr>)"

definition newEmptyEntry :: "Kind \<Rightarrow> instant \<Rightarrow> Entry"
  where "newEmptyEntry kind t = newEntry kind t" \<comment> \<open>the maps made by the switch are empty\<close>

definition ensureKind ::
    "goenv \<Rightarrow> Store \<Rightarrow> string \<Rightarrow> Kind \<Rightarrow> lshard \<Rightarrow> (storage_error + Entry) \<times> lshard"
  where "ensureKind env s ck kind l =
    (case getForWriteLocked ck (now env) l of
       (None, l1) \<Rightarrow>
         (let l2 = evictIfNeededLocked env s l1;
              e = newEmptyEntry kind (now env)
          in (Inr e, setEntryLocked ck e l2))
     | (Some e, l1) \<Rightarrow> if eKind e \<noteq> kind then (Inl ErrWrongType, l1) else (Inr e, l1))"

section \<open>Generic key operations\<close>

definition Get :: "goenv \<Rightarrow> string \<Rightarrow> string \<Rightarrow> Store \<Rightarrow> (storage_error + bytes \<times> bool) \<times> Store"
  where "Get env workspace key s =
    (let ck = nsKey workspace key in
     onShard ck (\<lambda>l.
       case getForWriteLocked ck (now env) l of
         (None, l1) \<Rightarrow> (Inr (None, False), l1)
       | (Some e, l1) \<Rightarrow>
           if eKind e \<noteq> KindString then (Inl ErrWrongType, l1)
           else (Inr (copy_bytes (eStringVal e), True), poke ck (touch (now env) e) l1)) s)"

definition Set :: "goenv \<Rightarrow> string \<Rightarrow> string \<Rightarrow> bytes \<Rightarrow> SetOpts \<Rightarrow> Store
    \<Rightarrow> (storage_error + bool \<times> bytes \<times> bool) \<times> Store"
  where "Set env workspace key val opts s =
    (let ck = nsKey workspace key in
     onShard ck (\<lambda>l.
       case getForWriteLocked ck (now env) l of
         (existing, l1) \<Rightarrow>
           if GetOld opts \<and> existing \<noteq> None \<and> eKind (the existing) \<noteq> KindString
           then (Inl ErrWrongType, l1)
           else
             (let hadPrev = (GetOld opts \<and> existing \<noteq> None);
                  prevVal = (if hadPrev then copy_bytes (eStringVal (the existing)) else None)
              in if OnlyIfNX opts \<and> existing \<noteq> None then (Inr (False, prevVal, hadPrev), l1)
                 else if OnlyIfXX opts \<and> existing = None then (Inr (False, prevVal, hadPrev), l1)
                 else
                   (let expiresAt = (if 0 < oTTL opts then Some (time_add (now env) (oTTL opts)) else None);
                        l2 = (if existing = None then evictIfNeededLocked env s l1 else l1);
                        e = (newEntry KindString (now env))
                              \<lparr>eStringVal := copy_bytes val, eExpiresAt := expiresAt, eAccessCount := 1\<rparr>
                    in (Inr (True, prevVal, hadPrev), setEntryLocked ck e l2)))) s)"

definition Del1 :: "goenv \<Rightarrow> string \<Rightarrow> string \<Rightarrow> Store \<Rightarrow> int \<times> Store" \<comment> \<open>one turn of the loop of \<^verbatim>\<open>Del\<close>\<close>
  where "Del1 env workspace key s =
    (let ck = nsKey workspace key in
     onShard ck (\<lambda>l.
       case getForWriteLocked ck (now env) l of
         (None, l1) \<Rightarrow> (0, l1)
       | (Some _, l1) \<Rightarrow> (1, bumpVersionLocked ck (deleteEntryLocked ck l1))) s)"

fun Del :: "goenv \<Rightarrow> string \<Rightarrow> string list \<Rightarrow> Store \<Rightarrow> int \<times> Store" where
  "Del env workspace [] s = (0, s)"
| "Del env workspace (key # keys) s =
    (case Del1 env workspace key s of
       (d, s1) \<Rightarrow> (case Del env workspace keys s1 of (ds, s2) \<Rightarrow> (d + ds, s2)))"

definition shard_get :: "string \<Rightarrow> instant \<Rightarrow> Store \<Rightarrow> Entry option" \<comment> \<open>\<^verbatim>\<open>shard.get\<close> under the read lock\<close>
  where "shard_get ck t s = getLocked ck t (shardFor s ck)"

definition Exists :: "goenv \<Rightarrow> string \<Rightarrow> string list \<Rightarrow> Store \<Rightarrow> int"
  where "Exists env workspace keys s =
    int (length (filter (\<lambda>key. shard_get (nsKey workspace key) (now env) s \<noteq> None) keys))"

definition Expire :: "goenv \<Rightarrow> string \<Rightarrow> string \<Rightarrow> duration \<Rightarrow> Store \<Rightarrow> bool \<times> Store"
  where "Expire env workspace key ttlDur s =
    (let ck = nsKey workspace key in
     onShard ck (\<lambda>l.
       case getForWriteLocked ck (now env) l of
         (None, l1) \<Rightarrow> (False, l1)
       | (Some e, l1) \<Rightarrow>
           if ttlDur \<le> 0 then (True, bumpVersionLocked ck (deleteEntryLocked ck l1))
           else (True, setExpiryLocked ck e (Some (time_add (now env) ttlDur)) l1)) s)"

definition TTL :: "goenv \<Rightarrow> string \<Rightarrow> string \<Rightarrow> Store \<Rightarrow> (duration \<times> bool \<times> bool) \<times> Store"
  where "TTL env workspace key s =
    (let ck = nsKey workspace key in
     onShard ck (\<lambda>l.
       case getForWriteLocked ck (now env) l of
         (None, l1) \<Rightarrow> ((0, False, False), l1)
       | (Some e, l1) \<Rightarrow>
           (case eExpiresAt e of
              None \<Rightarrow> ((0, False, True), l1)
            | Some due \<Rightarrow>
                let remaining = time_sub due (now env)
                in ((if remaining < 0 then 0 else remaining, True, True), l1))) s)"

definition Persist :: "goenv \<Rightarrow> string \<Rightarrow> string \<Rightarrow> Store \<Rightarrow> bool \<times> Store"
  where "Persist env workspace key s =
    (let ck = nsKey workspace key in
     onShard ck (\<lambda>l.
       case getForWriteLocked ck (now env) l of
         (None, l1) \<Rightarrow> (False, l1)
       | (Some e, l1) \<Rightarrow>
           if eExpiresAt e = None then (False, l1)
           else (True, setExpiryLocked ck e None l1)) s)"

definition Type :: "goenv \<Rightarrow> string \<Rightarrow> string \<Rightarrow> Store \<Rightarrow> string \<times> bool"
  where "Type env workspace key s =
    (case shard_get (nsKey workspace key) (now env) s of
       None \<Rightarrow> ([], False)
     | Some e \<Rightarrow> (Kind_String (eKind e), True))"

text \<open>
  \<^verbatim>\<open>Rename\<close> locks one shard, or two in ascending order; both locks are held to the end, so
  the body runs on the two shards one after the other.
\<close>

definition Rename :: "goenv \<Rightarrow> string \<Rightarrow> string \<Rightarrow> string \<Rightarrow> Store \<Rightarrow> bool \<times> Store"
  where "Rename env workspace oldKey newKey s =
    (let ock = nsKey workspace oldKey;
         nck = nsKey workspace newKey;
         oi = shardIndex s ock;
         ni = shardIndex s nck
     in if oi = ni
        then withShard oi (\<lambda>l.
               case getForWriteLocked ock (now env) l of
                 (None, l1) \<Rightarrow> (False, l1)
               | (Some e, l1) \<Rightarrow>
                   (True, bumpVersionLocked ock (setEntryLocked nck e (deleteEntryLocked ock l1)))) s
        else
          (case withShard oi (getForWriteLocked ock (now env)) s of
             (None, s1) \<Rightarrow> (False, s1)
           | (Some e, s1) \<Rightarrow>
               (let s2 = snd (withShard oi (\<lambda>l. ((), deleteEntryLocked ock l)) s1);
                    s3 = snd (withShard ni (\<lambda>l. ((), setEntryLocked nck e l)) s2);
                    s4 = snd (withShard oi (\<lambda>l. ((), bumpVersionLocked ock l)) s3)
                in (True, s4))))"

definition hasPrefix :: "string \<Rightarrow> string \<Rightarrow> bool" \<comment> \<open>\<^verbatim>\<open>strings.HasPrefix(s, prefix)\<close>\<close>
  where "hasPrefix s prefix \<longleftrightarrow> take (length prefix) s = prefix"

definition keysForWorkspace :: "goenv \<Rightarrow> string \<Rightarrow> Store \<Rightarrow> string list"
  where "keysForWorkspace env workspace s =
    (let prefix = nsKey workspace [] in
     concat (map (\<lambda>sh.
       map (drop (length prefix))
         (filter (\<lambda>ck. hasPrefix ck prefix \<and>
             (case fmlookup (data sh) ck of None \<Rightarrow> False | Some e \<Rightarrow> \<not> expired e (now env)))
           (range_keys env (data sh)))) (shards s)))"

definition Keys :: "goenv \<Rightarrow> string \<Rightarrow> string \<Rightarrow> Store \<Rightarrow> string list"
  where "Keys env workspace pattern s =
    (let all_keys = keysForWorkspace env workspace s in
     if pattern = [] \<or> pattern = ''*'' then sort all_keys
     else sort (filter (globMatch pattern) all_keys))"

text \<open>The cursor arithmetic of \<^verbatim>\<open>Scan\<close> is on \<^verbatim>\<open>uint64\<close>.\<close>

definition scanPage :: "string list \<Rightarrow> 64 word \<Rightarrow> string \<Rightarrow> int \<Rightarrow> 64 word \<times> string list"
  where "scanPage all_keys cursor match cnt =
    (let cnt1 = (if cnt \<le> 0 then 10 else cnt);
         len = (of_nat (length all_keys) :: 64 word)
     in if cursor \<ge> len then (0, [])
        else
          let end0 = cursor + word_of_int cnt1;
              end1 = (if end0 > len then len else end0);
              page = drop (unat cursor) (take (unat end1) all_keys);
              out = filter (\<lambda>k. match = [] \<or> match = ''*'' \<or> globMatch match k) page;
              next = (if end1 \<ge> len then 0 else end1)
          in (next, out))"

definition Scan :: "goenv \<Rightarrow> string \<Rightarrow> 64 word \<Rightarrow> string \<Rightarrow> int \<Rightarrow> Store \<Rightarrow> 64 word \<times> string list"
  where "Scan env workspace cursor match cnt s =
    scanPage (sort (keysForWorkspace env workspace s)) cursor match cnt"

definition FlushShard :: "goenv \<Rightarrow> string \<Rightarrow> lshard \<Rightarrow> lshard"
  where "FlushShard env workspace l =
    dropAll (filter (\<lambda>ck. hasPrefix ck (nsKey workspace [])) (range_keys env (data l))) l"

definition FlushDB :: "goenv \<Rightarrow> string \<Rightarrow> Store \<Rightarrow> Store"
  where "FlushDB env workspace s =
    fold (\<lambda>i s. snd (withShard i (\<lambda>l. ((), FlushShard env workspace l)) s))
      [0..<length (shards s)] s"

definition SweepShard :: "goenv \<Rightarrow> nat \<Rightarrow> int \<Rightarrow> Store \<Rightarrow> int \<times> Store"
  where "SweepShard env i sampleSize s = withShard i (sweepSampleLocked env sampleSize) s"

definition WatchVersion :: "string \<Rightarrow> string \<Rightarrow> Store \<Rightarrow> 64 word"
  where "WatchVersion workspace key s =
    (let ck = nsKey workspace key in versionLocked ck (shardFor s ck))"

section \<open>The store's invariant\<close>

definition entry :: "Store \<Rightarrow> string \<Rightarrow> Entry option"
  where "entry s ck = fmlookup (data (shardFor s ck)) ck"

definition sraw :: "Store \<Rightarrow> string \<Rightarrow> cell option"
  where "sraw s ck = raw (shardFor s ck) ck"

definition sversion :: "Store \<Rightarrow> string \<Rightarrow> 64 word"
  where "sversion s ck = versionLocked ck (shardFor s ck)"

definition total :: "Store \<Rightarrow> int"
  where "total s = sum_list (map (\<lambda>sh. int (fsize (data sh))) (shards s))"

definition same_config :: "Store \<Rightarrow> Store \<Rightarrow> bool"
  where "same_config s s' \<longleftrightarrow> n_shards s' = n_shards s \<and> length (shards s') = length (shards s) \<and>
    maxEntries s' = maxEntries s \<and> policy_of s' = policy_of s"

definition store_wf :: "Store \<Rightarrow> bool"
  where "store_wf s \<longleftrightarrow>
    n_shards s = int (length (shards s)) \<and> 0 < n_shards s \<and> n_shards s < 2 ^ 32 \<and>
    (\<forall>i < length (shards s). shard_wf (\<lambda>ck. shardIndex s ck = i) (shards s ! i)) \<and>
    entryCount s = int64 (total s)"

lemma sraw_entry: "sraw s ck = map_option acell (entry s ck)"
  by (simp add: sraw_def entry_def raw_def)

lemma shardIndex_bound: "store_wf s \<Longrightarrow> shardIndex s ck < length (shards s)"
proof -
  assume wf: "store_wf s"
  then have "0 < n_shards s" "n_shards s < 2 ^ 32" by (auto simp: store_wf_def)
  then have "unat (word_of_int (n_shards s) :: 32 word) = nat (n_shards s)"
    by (simp add: unat_eq_nat_uint uint_word_of_int)
  then have "shardIndex s ck = unat (fnv32a ck) mod nat (n_shards s)"
    by (simp add: shardIndex_def unat_mod)
  with wf show ?thesis by (auto simp: store_wf_def)
qed

lemma shardIndex_cong: "n_shards s' = n_shards s \<Longrightarrow> shardIndex s' = shardIndex s"
  by (rule ext) (simp add: shardIndex_def)

lemma same_config_refl [simp]: "same_config s s"
  by (simp add: same_config_def)

lemma same_config_trans: "same_config s s' \<Longrightarrow> same_config s' s'' \<Longrightarrow> same_config s s''"
  by (simp add: same_config_def)

lemma same_config_index: "same_config s s' \<Longrightarrow> shardIndex s' = shardIndex s"
  by (rule shardIndex_cong) (simp add: same_config_def)

lemma same_config_unlock [simp]: "same_config s (unlockShard s i l)"
  by (simp add: same_config_def unlockShard_def)

lemma lock_simps [simp]:
  "data (lockShard s i) = data (shards s ! i)" "ttlKeys (lockShard s i) = ttlKeys (shards s ! i)"
  "versions (lockShard s i) = versions (shards s ! i)" "entryCountp (lockShard s i) = entryCount s"
  "evictionsp (lockShard s i) = evictions s"
  "raw (lockShard s i) = raw (shards s ! i)"
  "versionLocked k (lockShard s i) = versionLocked k (shards s ! i)"
  by (auto simp: lockShard_def Let_def raw_def versionLocked_def)

lemma shard_wf_lock [simp]: "shard_wf P (lockShard s i) = shard_wf P (shards s ! i)"
  by (simp add: shard_wf_def)

lemma unlock_simps [simp]:
  "entryCount (unlockShard s i l) = entryCountp l" "evictions (unlockShard s i l) = evictionsp l"
  "n_shards (unlockShard s i l) = n_shards s" "maxEntries (unlockShard s i l) = maxEntries s"
  "policy_of (unlockShard s i l) = policy_of s"
  "length (shards (unlockShard s i l)) = length (shards s)"
  "shardIndex (unlockShard s i l) = shardIndex s"
  by (simp_all add: unlockShard_def shardIndex_def fun_eq_iff)

lemma unlock_at:
  assumes "shardIndex s k < length (shards s)"
  shows "entry (unlockShard s i l) k = (if shardIndex s k = i then fmlookup (data l) k else entry s k)"
    and "sraw (unlockShard s i l) k = (if shardIndex s k = i then raw l k else sraw s k)"
    and "sversion (unlockShard s i l) k = (if shardIndex s k = i then versionLocked k l else sversion s k)"
  using assms
  by (auto simp: unlockShard_def entry_def sraw_def sversion_def shardFor_def shardIndex_def
      raw_def versionLocked_def nth_list_update)

lemma total_update:
  assumes "i < length (shards s)"
  shows "total (unlockShard s i l) = total s - int (fsize (data (shards s ! i))) + int (fsize (data l))"
proof -
  let ?f = "\<lambda>sh. int (fsize (data sh))"
  have "shards s = take i (shards s) @ shards s ! i # drop (Suc i) (shards s)"
    using assms by (rule id_take_nth_drop)
  then have "total s = sum_list (map ?f (take i (shards s))) + ?f (shards s ! i)
      + sum_list (map ?f (drop (Suc i) (shards s)))"
    unfolding total_def by (metis (no_types, lifting) add.assoc list.simps(9) map_append sum_list.append sum_list.Cons)
  then show ?thesis
    using assms by (simp add: total_def unlockShard_def upd_conv_take_nth_drop)
qed

lemma store_wf_unlock:
  assumes wf: "store_wf s" and i: "i < length (shards s)"
    and l: "shard_wf (\<lambda>ck. shardIndex s ck = i) l"
    and c: "counted (total s - int (fsize (data (shards s ! i)))) l"
  shows "store_wf (unlockShard s i l)"
proof -
  let ?sh = "\<lparr>data = data l, ttlKeys = ttlKeys l, versions = versions l\<rparr>"
  have "shards (unlockShard s i l) = (shards s)[i := ?sh]" by (simp add: unlockShard_def)
  moreover have "shard_wf (\<lambda>ck. shardIndex s ck = i) ?sh" using l by (simp add: shard_wf_def)
  ultimately have "shard_wf (\<lambda>ck. shardIndex s ck = j) (shards (unlockShard s i l) ! j)"
    if "j < length (shards s)" for j
    using wf that by (cases "i = j") (auto simp: store_wf_def)
  moreover have "entryCountp l = int64 (total (unlockShard s i l))"
    using c i by (simp add: counted_def total_update)
  moreover have "shards s \<noteq> []" using i by auto
  ultimately show ?thesis using wf unfolding store_wf_def by simp
qed

lemma counted_lock: "store_wf s \<Longrightarrow> counted (total s - int (fsize (data (shards s ! i)))) (lockShard s i)"
  by (simp add: counted_def store_wf_def)

section \<open>Steps of the store\<close>

definition sevolves :: "nat \<Rightarrow> Store \<Rightarrow> Store \<Rightarrow> bool"
  where "sevolves n s s' \<longleftrightarrow>
    (\<forall>k. \<exists>j\<le>n. sversion s' k = sversion s k + of_nat j \<and> (j = 0 \<longrightarrow> sraw s' k = sraw s k))"

definition sstep :: "string set \<Rightarrow> nat \<Rightarrow> string set \<Rightarrow> Store \<Rightarrow> Store \<Rightarrow> bool"
  where "sstep C n V s s' \<longleftrightarrow>
    store_wf s' \<and> same_config s s' \<and> finite V \<and> V \<subseteq> {k. entry s k \<noteq> None} - C \<and>
    evictions s' = evictions s + card V \<and>
    (\<forall>k. k \<notin> C \<longrightarrow> entry s' k = (if k \<in> V then None else entry s k)) \<and>
    sevolves n s s'"

lemma sevolves_refl: "sevolves n s s"
  by (auto simp: sevolves_def)

lemma sevolves_mono: "sevolves n l l' \<Longrightarrow> n \<le> m \<Longrightarrow> sevolves m l l'"
  unfolding sevolves_def by (meson le_trans)

lemma sevolves_trans: "sevolves n l m \<Longrightarrow> sevolves n' m l' \<Longrightarrow> sevolves (n + n') l l'"
  unfolding sevolves_def
proof (intro allI)
  fix k
  assume a: "\<forall>k. \<exists>j\<le>n. sversion m k = sversion l k + of_nat j \<and> (j = 0 \<longrightarrow> sraw m k = sraw l k)"
    and b: "\<forall>k. \<exists>j\<le>n'. sversion l' k = sversion m k + of_nat j \<and> (j = 0 \<longrightarrow> sraw l' k = sraw m k)"
  from a obtain i where "i \<le> n" "sversion m k = sversion l k + of_nat i"
    "i = 0 \<longrightarrow> sraw m k = sraw l k" by blast
  moreover from b obtain j where "j \<le> n'" "sversion l' k = sversion m k + of_nat j"
    "j = 0 \<longrightarrow> sraw l' k = sraw m k" by blast
  ultimately show "\<exists>j\<le>n + n'. sversion l' k = sversion l k + of_nat j \<and> (j = 0 \<longrightarrow> sraw l' k = sraw l k)"
    by (intro exI [of _ "i + j"]) auto
qed

lemma sstep_refl: "store_wf s \<Longrightarrow> sstep C n {} s s"
  by (auto simp: sstep_def sevolves_refl)

text \<open>Steps without evictions compose.\<close>

lemma sstep_trans:
  "sstep C n {} s s' \<Longrightarrow> sstep C' n' {} s' s'' \<Longrightarrow> sstep (C \<union> C') (n + n') {} s s''"
  by (auto simp: sstep_def intro: same_config_trans sevolves_trans)

lemma sstep_mono: "sstep C n V s s' \<Longrightarrow> n \<le> m \<Longrightarrow> sstep C m V s s'"
  by (auto simp: sstep_def intro: sevolves_mono)

lemma sstep_shard:
  assumes wf: "store_wf s" and ck: "shardIndex s ck = i" and step: "lstep ck n v (lockShard s i) l'"
  shows "\<exists>V. card V = v \<and> sstep {ck} n V s (unlockShard s i l')"
proof -
  let ?l = "lockShard s i" and ?s' = "unlockShard s i l'"
  have bound: "shardIndex s k < length (shards s)" for k by (rule shardIndex_bound [OF wf])
  then have i: "i < length (shards s)" using ck by blast
  from step obtain V where V: "V \<subseteq> fmdom' (data ?l) - {ck}" "card V = v"
      "evictionsp l' = evictionsp ?l + v"
      "\<And>k. k \<noteq> ck \<Longrightarrow> fmlookup (data l') k = (if k \<in> V then None else fmlookup (data ?l) k)"
    unfolding lstep_def by blast
  have home: "shard_wf (\<lambda>ck. shardIndex s ck = i) ?l" using wf i by (simp add: store_wf_def)
  then have routed: "shardIndex s k = i" if "k \<in> V" for k
    using that V(1) by (auto simp: shard_wf_def fmdom'_lookup subset_iff)
  have "shard_wf (\<lambda>ck. shardIndex s ck = i) l'"
    by (rule lstep_wf [OF step _ home]) (rule ck)
  moreover have "counted (total s - int (fsize (data (shards s ! i)))) l'"
    by (rule lstep_counted [OF step counted_lock [OF wf]])
  ultimately have wf': "store_wf ?s'" by (rule store_wf_unlock [OF wf i])
  have at_i: "entry s k = fmlookup (data ?l) k" "sraw s k = raw ?l k" "sversion s k = versionLocked k ?l"
    if "shardIndex s k = i" for k
    using that by (simp_all add: entry_def sraw_def sversion_def shardFor_def)
  have "entry ?s' k = (if k \<in> V then None else entry s k)" if "k \<noteq> ck" for k
  proof (cases "shardIndex s k = i")
    case True
    with that V(4) [of k] at_i(1) [of k] show ?thesis by (simp add: unlock_at [OF bound])
  next
    case False
    with routed [of k] show ?thesis by (auto simp: unlock_at [OF bound])
  qed
  moreover have "V \<subseteq> {k. entry s k \<noteq> None} - {ck}"
  proof
    fix k
    assume k: "k \<in> V"
    then have "entry s k = fmlookup (data ?l) k" using at_i(1) routed by blast
    with k V(1) show "k \<in> {k. entry s k \<noteq> None} - {ck}" by (auto simp: fmdom'_lookup)
  qed
  moreover have "finite V" using V(1) by (rule finite_subset) simp
  moreover have "sevolves n s ?s'"
    unfolding sevolves_def
  proof
    fix k
    show "\<exists>j\<le>n. sversion ?s' k = sversion s k + of_nat j \<and> (j = 0 \<longrightarrow> sraw ?s' k = sraw s k)"
    proof (cases "shardIndex s k = i")
      case True
      have "evolves n ?l l'" using step by (simp add: lstep_def)
      with True at_i(2,3) [OF True] show ?thesis by (simp add: evolves_def unlock_at [OF bound])
    next
      case False
      then show ?thesis by (auto simp: unlock_at [OF bound])
    qed
  qed
  ultimately have "sstep {ck} n V s ?s'"
    using wf' V(2,3) by (simp add: sstep_def)
  with V(2) show ?thesis by blast
qed

section \<open>Operations on one key implement a function on its cell\<close>

text \<open>
  \<open>limpl\<close> and \<open>implements\<close>: what a body run at instant \<open>t\<close> for key \<open>ck\<close> must do, given the function \<open>g\<close> on
  the live cell of the key; \<open>m\<close> bounds the evictions, \<open>n\<close> the version bumps.
\<close>

definition limpl :: "string \<Rightarrow> instant \<Rightarrow> nat \<Rightarrow> nat \<Rightarrow> (cell option \<Rightarrow> 'r \<times> cell option)
    \<Rightarrow> lshard \<Rightarrow> 'r \<times> lshard \<Rightarrow> bool"
  where "limpl ck t n m g l res \<longleftrightarrow>
    fst res = fst (g (live t (raw l ck))) \<and>
    raw (snd res) ck = snd (g (live t (raw l ck))) \<and>
    (\<exists>v\<le>m. lstep ck n v l (snd res))"

definition implements :: "string \<Rightarrow> instant \<Rightarrow> nat \<Rightarrow> nat \<Rightarrow> (cell option \<Rightarrow> 'r \<times> cell option)
    \<Rightarrow> Store \<Rightarrow> 'r \<times> Store \<Rightarrow> bool"
  where "implements ck t n m g s res \<longleftrightarrow>
    fst res = fst (g (live t (sraw s ck))) \<and>
    sraw (snd res) ck = snd (g (live t (sraw s ck))) \<and>
    (\<exists>V. card V \<le> m \<and> sstep {ck} n V s (snd res))"

abbreviation max_evict :: "Store \<Rightarrow> nat"
  where "max_evict s \<equiv> (if maxEntries s \<le> 0 then 0 else 1)"

lemma implements_onShard:
  assumes wf: "store_wf s" and f: "\<And>l. limpl ck t n m g l (f l)"
  shows "implements ck t n m g s (onShard ck f s)"
proof -
  let ?i = "shardIndex s ck"
  obtain r l' where res: "f (lockShard s ?i) = (r, l')" by fastforce
  then have on: "onShard ck f s = (r, unlockShard s ?i l')"
    by (simp add: onShard_def withShard_def)
  have impl: "limpl ck t n m g (lockShard s ?i) (r, l')" using f res by metis
  then obtain v where "v \<le> m" "lstep ck n v (lockShard s ?i) l'"
    by (auto simp: limpl_def)
  then have "\<exists>V. card V \<le> m \<and> sstep {ck} n V s (unlockShard s ?i l')"
    using sstep_shard [OF wf refl] by metis
  with impl on show ?thesis
    by (simp add: limpl_def implements_def unlock_at [OF shardIndex_bound [OF wf]]
        sraw_def [of s ck] shardFor_def)
qed

text \<open>Introduction rules for the shapes the bodies have.\<close>

lemma limplI:
  assumes "lstep ck n v l l'" "v \<le> m" "r = fst (g (live t (raw l ck)))"
    "raw l' ck = snd (g (live t (raw l ck)))"
  shows "limpl ck t n m g l (r, l')"
  using assms by (auto simp: limpl_def)

lemma evict_cases:
  assumes "fmlookup (data l) ck = None"
  obtains v where "v \<le> max_evict s" "lstep ck 1 v l (evictIfNeededLocked env s l)"
    "fmlookup (data (evictIfNeededLocked env s l)) ck = None"
    "raw (evictIfNeededLocked env s l) ck = None"
proof (cases "evictIfNeededLocked env s l = l")
  case True
  then show ?thesis using assms that [of 0] by (simp add: lstep_refl raw_def)
next
  case False
  define k where "k = pickEvictionVictimLocked env (policy_of s) evictionSampleSize l"
  let ?l' = "(bumpVersionLocked k (deleteEntryLocked k l))\<lparr>evictionsp := Suc (evictionsp l)\<rparr>"
  from False have ev: "evictIfNeededLocked env s l = ?l'" and pos: "\<not> maxEntries s \<le> 0" "k \<noteq> []"
    by (auto simp: evictIfNeededLocked_def k_def Let_def split: if_splits)
  have k: "k \<in> fmdom' (data l)" using pos(2) unfolding k_def by (rule pickVictim_dom)
  with assms have "k \<noteq> ck" by (auto simp: fmdom'_lookup)
  have "evolves 1 l ?l'"
    by (rule evolves_one [where k = k])
      (simp_all add: versionLocked_def bumpVersionLocked_def raw_def deleteEntryLocked_def Let_def)
  moreover have "shard_wf P ?l'" if "shard_wf P l" for P
    using shard_wf_delete [OF that] by (simp add: shard_wf_def)
  moreover have "counted b ?l'" if "counted b l" for b
    using counted_delete [OF that] by (simp add: counted_def)
  ultimately have "lstep ck 1 1 l ?l'"
    unfolding lstep_def using k \<open>k \<noteq> ck\<close> by (auto intro!: exI [of _ "{k}"])
  then show ?thesis
    using that [of 1] assms pos ev by (simp add: raw_def)
qed

lemma ensureKind_cases:
  assumes "kind \<noteq> KindNone"
  obtains (wrong) e where "ensureKind env s ck kind l = (Inl ErrWrongType, l)"
      "live (now env) (raw l ck) = Some (acell e)" "raw l ck = Some (acell e)" "eKind e \<noteq> kind"
  | (found) e where "ensureKind env s ck kind l = (Inr e, l)"
      "live (now env) (raw l ck) = Some (acell e)" "raw l ck = Some (acell e)"
      "fmlookup (data l) ck = Some e" "eKind e = kind"
  | (fresh) v l1 where "ensureKind env s ck kind l = (Inr (newEntry kind (now env)), l1)"
      "live (now env) (raw l ck) = None" "fmlookup (data l1) ck = Some (newEntry kind (now env))"
      "v \<le> max_evict s" "lstep ck 3 v l l1"
proof (cases rule: getForWrite_cases [of ck "now env" l])
  case (absent l1)
  obtain v where v: "v \<le> max_evict s" "lstep ck 1 v l1 (evictIfNeededLocked env s l1)"
    using evict_cases [OF absent(3)] by blast
  let ?e = "newEntry kind (now env)"
  have "lstep ck (1 + 1) (0 + v) l (evictIfNeededLocked env s l1)"
    by (rule lstep_trans [OF absent(5) v(2)])
  from lstep_trans [OF this lstep_set [of 1 ?e]] assms
  have "lstep ck 3 v l (setEntryLocked ck ?e (evictIfNeededLocked env s l1))"
    by (simp add: numeral_3_eq_3)
  then show ?thesis
    by (rule fresh [rotated 4])
      (use absent v in \<open>simp_all add: ensureKind_def newEmptyEntry_def Let_def\<close>)
next
  case (present e)
  show ?thesis
  proof (cases "eKind e = kind")
    case True
    with present show ?thesis by (intro found [of e]) (simp_all add: ensureKind_def)
  next
    case False
    with present show ?thesis by (intro wrong [of e]) (simp_all add: ensureKind_def)
  qed
qed

text \<open>
  The body of an operation that starts with \<^verbatim>\<open>getForWriteLocked\<close>: \<open>A\<close> runs when the key is
  absent, \<open>B\<close> on the live entry.
\<close>

lemma limpl_get:
  assumes "0 < n" "\<And>l. A l = (fst (g None), l)" "snd (g None) = None"
    and "\<And>e l. fmlookup (data l) ck = Some e \<Longrightarrow> \<not> expired e t \<Longrightarrow>
      fst (B e l) = fst (g (Some (acell e))) \<and> raw (snd (B e l)) ck = snd (g (Some (acell e))) \<and>
      lstep ck n 0 l (snd (B e l))"
  shows "limpl ck t n m g l
    (case getForWriteLocked ck t l of (eo, l1) \<Rightarrow> (case eo of None \<Rightarrow> A l1 | Some e \<Rightarrow> B e l1))"
proof (cases rule: getForWrite_cases [of ck t l])
  case (absent l1)
  have "lstep ck n 0 l l1" using absent(5) by (rule lstep_mono) (use assms(1) in simp)
  with absent assms(2,3) show ?thesis by (auto simp: limpl_def)
next
  case (present e)
  with assms(4) [OF present(3,5)] show ?thesis by (auto simp: limpl_def)
qed

text \<open>
  The body of a read-modify-write operation: \<^verbatim>\<open>ensureKind\<close>, then either an error or an update
  through the entry pointer and a version bump. \<open>upd\<close> is the update of the entry, \<open>g\<close> the
  function on cells it implements.
\<close>

lemma limpl_ensure:
  assumes kind: "kind \<noteq> KindNone"
    and wrong: "\<And>e l. eKind e \<noteq> kind \<Longrightarrow>
      body (Inl ErrWrongType) l = (fst (g (Some (acell e))), l) \<and> snd (g (Some (acell e))) = Some (acell e)"
    and update: "\<And>e l. eKind e = kind \<Longrightarrow> 
      body (Inr e) l = (fst (g (Some (acell e))), l) \<and> snd (g (Some (acell e))) = Some (acell e) \<or>
      (\<exists>e'. body (Inr e) l = (fst (g (Some (acell e))), bumpVersionLocked ck (poke ck e' l)) \<and>
        snd (g (Some (acell e))) = Some (acell e') \<and>
        eExpiresAt e' = eExpiresAt e \<and> (wf_entry e \<longrightarrow> wf_entry e'))"
    and fresh: "g None = g (Some (acell (newEntry kind (now env))))"
  shows "limpl ck (now env) 4 (max_evict s) g l (case ensureKind env s ck kind l of (r, l1) \<Rightarrow> body r l1)"
proof (cases rule: ensureKind_cases [OF kind, of env s ck l, case_names wrong found fresh])
  case (wrong e)
  then show ?thesis
    using assms(2) [of e l] by (auto simp: limpl_def intro: exI [of _ 0] lstep_refl)
next
  case (found e)
  consider (err) "body (Inr e) l = (fst (g (Some (acell e))), l)" "snd (g (Some (acell e))) = Some (acell e)"
    | (upd) e' where "body (Inr e) l = (fst (g (Some (acell e))), bumpVersionLocked ck (poke ck e' l))"
        "snd (g (Some (acell e))) = Some (acell e')"
        "eExpiresAt e' = eExpiresAt e" "wf_entry e \<longrightarrow> wf_entry e'"
    using update [OF found(5), of l] by blast
  then show ?thesis
  proof cases
    case err
    with found show ?thesis by (auto simp: limpl_def intro: exI [of _ 0] lstep_refl)
  next
    case upd
    with found show ?thesis by (auto simp: limpl_def intro!: exI [of _ 0] lstep_poke)
  qed
next
  case (fresh v l1)
  let ?e = "newEntry kind (now env)"
  consider (err) "body (Inr ?e) l1 = (fst (g (Some (acell ?e))), l1)" "snd (g (Some (acell ?e))) = Some (acell ?e)"
    | (upd) e' where "body (Inr ?e) l1 = (fst (g (Some (acell ?e))), bumpVersionLocked ck (poke ck e' l1))"
        "snd (g (Some (acell ?e))) = Some (acell e')"
        "eExpiresAt e' = eExpiresAt ?e" "wf_entry ?e \<longrightarrow> wf_entry e'"
    using update [of ?e l1] by auto
  then show ?thesis
  proof cases
    case err
    have "lstep ck 4 v l l1" using fresh(5) by (rule lstep_mono) simp
    with err fresh assms(4) show ?thesis by (auto simp: limpl_def raw_def)
  next
    case upd
    have "lstep ck (3 + 1) (v + 0) l (bumpVersionLocked ck (poke ck e' l1))"
      by (rule lstep_trans [OF fresh(5) lstep_poke [OF _ fresh(3)]]) (use upd in auto)
    then have "lstep ck 4 v l (bumpVersionLocked ck (poke ck e' l1))" by simp
    with upd fresh assms(4) show ?thesis by (auto simp: limpl_def simp del: One_nat_def)
  qed
qed

section \<open>The generic operations on one cell\<close>

definition cGet :: "cell option \<Rightarrow> (storage_error + bytes \<times> bool) \<times> cell option"
  where "cGet c = (case c of
     None \<Rightarrow> (Inr (None, False), None)
   | Some (VString b, x) \<Rightarrow> (Inr (copy_bytes b, True), c)
   | Some _ \<Rightarrow> (Inl ErrWrongType, c))"

definition cSet :: "instant \<Rightarrow> bytes \<Rightarrow> SetOpts \<Rightarrow> cell option
    \<Rightarrow> (storage_error + bool \<times> bytes \<times> bool) \<times> cell option"
  where "cSet t val opts c =
    (let new = Some (VString (copy_bytes val),
                     if 0 < oTTL opts then Some (time_add t (oTTL opts)) else None);
         result = (\<lambda>old had.
           if OnlyIfNX opts \<and> c \<noteq> None \<or> OnlyIfXX opts \<and> c = None then (Inr (False, old, had), c)
           else (Inr (True, old, had), new))
     in if GetOld opts then
          (case c of
             None \<Rightarrow> result None False
           | Some (VString b, _) \<Rightarrow> result (copy_bytes b) True
           | Some _ \<Rightarrow> (Inl ErrWrongType, c))
        else result None False)"

definition cDel :: "cell option \<Rightarrow> int \<times> cell option"
  where "cDel c = (if c = None then 0 else 1, None)"

definition cExpire :: "instant \<Rightarrow> duration \<Rightarrow> cell option \<Rightarrow> bool \<times> cell option"
  where "cExpire t d c = (case c of
     None \<Rightarrow> (False, None)
   | Some (v, _) \<Rightarrow> (True, if d \<le> 0 then None else Some (v, Some (time_add t d))))"

definition cTTL :: "instant \<Rightarrow> cell option \<Rightarrow> (duration \<times> bool \<times> bool) \<times> cell option"
  where "cTTL t c = (case c of
     None \<Rightarrow> ((0, False, False), None)
   | Some (v, None) \<Rightarrow> ((0, False, True), c)
   | Some (v, Some due) \<Rightarrow> ((max 0 (time_sub due t), True, True), c))"

definition cPersist :: "cell option \<Rightarrow> bool \<times> cell option"
  where "cPersist c = (case c of
     Some (v, Some due) \<Rightarrow> (True, Some (v, None))
   | _ \<Rightarrow> (False, c))"

lemmas acell_simps = acell_def avalue_of_def

lemma Get_implements:
  "store_wf s \<Longrightarrow> implements (nsKey ws key) (now env) 1 0 cGet s (Get env ws key s)"
  unfolding Get_def Let_def
  by (rule implements_onShard, assumption, rule limpl_get)
    (auto simp: cGet_def acell_simps raw_def lstep_refl split: Kind.splits intro: lstep_touch)

lemma Del1_implements:
  "store_wf s \<Longrightarrow> implements (nsKey ws key) (now env) 1 0 cDel s (Del1 env ws key s)"
  unfolding Del1_def Let_def
  by (rule implements_onShard, assumption, rule limpl_get)
    (auto simp: cDel_def intro: lstep_delete)

lemma Expire_implements:
  "store_wf s \<Longrightarrow> implements (nsKey ws key) (now env) 1 0 (cExpire (now env) d) s (Expire env ws key d s)"
  unfolding Expire_def Let_def
  by (rule implements_onShard, assumption, rule limpl_get)
    (auto simp: cExpire_def acell_simps split: Kind.splits intro: lstep_delete lstep_expiry)

lemma TTL_implements:
  "store_wf s \<Longrightarrow> implements (nsKey ws key) (now env) 1 0 (cTTL (now env)) s (TTL env ws key s)"
  unfolding TTL_def Let_def
  by (rule implements_onShard, assumption, rule limpl_get)
    (auto simp: cTTL_def acell_simps raw_def lstep_refl split: Kind.splits option.splits)

lemma Persist_implements:
  "store_wf s \<Longrightarrow> implements (nsKey ws key) (now env) 1 0 cPersist s (Persist env ws key s)"
  unfolding Persist_def Let_def
  by (rule implements_onShard, assumption, rule limpl_get)
    (auto simp: cPersist_def acell_simps raw_def lstep_refl split: Kind.splits option.splits intro: lstep_expiry)

lemma Set_implements:
  assumes "store_wf s"
  shows "implements (nsKey ws key) (now env) 3 (max_evict s) (cSet (now env) val opts) s (Set env ws key val opts s)"
  unfolding Set_def Let_def
proof (rule implements_onShard [OF assms])
  fix l
  let ?ck = "nsKey ws key"
  let ?due = "if 0 < oTTL opts then Some (time_add (now env) (oTTL opts)) else None"
  let ?e = "(newEntry KindString (now env))\<lparr>eStringVal := copy_bytes val, eExpiresAt := ?due, eAccessCount := 1\<rparr>"
  have e: "wf_entry ?e" "acell ?e = (VString (copy_bytes val), ?due)"
    by (simp_all add: wf_entry_def acell_simps)
  show "limpl ?ck (now env) 3 (max_evict s) (cSet (now env) val opts) l
     (case getForWriteLocked ?ck (now env) l of
        (existing, l1) \<Rightarrow>
          if GetOld opts \<and> existing \<noteq> None \<and> eKind (the existing) \<noteq> KindString
          then (Inl ErrWrongType, l1)
          else if OnlyIfNX opts \<and> existing \<noteq> None
          then (Inr (False, if GetOld opts \<and> existing \<noteq> None then copy_bytes (eStringVal (the existing)) else None,
                  GetOld opts \<and> existing \<noteq> None), l1)
          else if OnlyIfXX opts \<and> existing = None
          then (Inr (False, if GetOld opts \<and> existing \<noteq> None then copy_bytes (eStringVal (the existing)) else None,
                  GetOld opts \<and> existing \<noteq> None), l1)
          else (Inr (True, if GetOld opts \<and> existing \<noteq> None then copy_bytes (eStringVal (the existing)) else None,
                  GetOld opts \<and> existing \<noteq> None),
                setEntryLocked ?ck ?e (if existing = None then evictIfNeededLocked env s l1 else l1)))"
  proof (cases rule: getForWrite_cases [of ?ck "now env" l])
    case (absent l1)
    obtain v where v: "v \<le> max_evict s" "lstep ?ck 1 v l1 (evictIfNeededLocked env s l1)"
      using evict_cases [OF absent(3)] by blast
    have "lstep ?ck (1 + 1 + 1) (0 + v + 0) l (setEntryLocked ?ck ?e (evictIfNeededLocked env s l1))"
      by (intro lstep_trans [OF lstep_trans [OF absent(5) v(2)]] lstep_set e) simp
    then have "\<exists>v\<le>max_evict s. lstep ?ck 3 v l (setEntryLocked ?ck ?e (evictIfNeededLocked env s l1))"
      using v(1) by (auto simp: numeral_3_eq_3)
    moreover have "lstep ?ck 3 0 l l1" using absent(5) by (rule lstep_mono) simp
    ultimately show ?thesis
      using absent e(2) by (auto simp: limpl_def cSet_def Let_def)
  next
    case (present e0)
    then show ?thesis
      using e lstep_set [OF _ e(1), of 3 ?ck l]
      by (auto simp: limpl_def cSet_def Let_def lstep_refl acell_simps [of e0] split: Kind.splits)
  qed
qed

section \<open>Operations on several keys\<close>

lemma implements_step0:
  "implements ck t n 0 g s res \<Longrightarrow> sstep {ck} n {} s (snd res)"
  by (auto simp: implements_def sstep_def)

lemma sstep_wf: "sstep C n V s s' \<Longrightarrow> store_wf s'"
  by (simp add: sstep_def)

lemma Del_step:
  assumes "store_wf s"
  shows "sstep (nsKey ws ` set keys) (length keys) {} s (snd (Del env ws keys s))"
  using assms
proof (induction keys arbitrary: s)
  case (Cons key keys)
  have one: "sstep {nsKey ws key} 1 {} s (snd (Del1 env ws key s))"
    by (rule implements_step0 [OF Del1_implements [OF Cons.prems]])
  from sstep_trans [OF this Cons.IH [OF sstep_wf [OF one]]]
  show ?case by (simp add: split_beta)
qed (simp add: sstep_refl)

lemma nsKey_inj_key [simp]: "nsKey ws k = nsKey ws k' \<longleftrightarrow> k = k'"
  by (simp add: nsKey_def)

lemma sraw_None: "sraw s k = None \<longleftrightarrow> entry s k = None"
  by (simp add: sraw_entry)

lemma sstep_sraw: "sstep C n V s s' \<Longrightarrow> k \<notin> C \<Longrightarrow> sraw s' k = (if k \<in> V then None else sraw s k)"
  by (simp add: sstep_def sraw_entry)

lemma Del_result:
  assumes "store_wf s"
  shows "fst (Del env ws keys s) = int (card {k \<in> set keys. live (now env) (sraw s (nsKey ws k)) \<noteq> None})
    \<and> (\<forall>k \<in> set keys. entry (snd (Del env ws keys s)) (nsKey ws k) = None)"
  using assms
proof (induction keys arbitrary: s)
  case (Cons key keys)
  let ?s1 = "snd (Del1 env ws key s)" and ?t = "now env"
  have impl: "implements (nsKey ws key) ?t 1 0 cDel s (Del1 env ws key s)"
    by (rule Del1_implements [OF Cons.prems])
  have step: "sstep {nsKey ws key} 1 {} s ?s1" by (rule implements_step0 [OF impl])
  have rest: "sstep (nsKey ws ` set keys) (length keys) {} ?s1 (snd (Del env ws keys ?s1))"
    by (rule Del_step [OF sstep_wf [OF step]])
  have gone: "sraw ?s1 (nsKey ws key) = None" using impl by (simp add: implements_def cDel_def)
  have other: "sraw ?s1 (nsKey ws k) = sraw s (nsKey ws k)" if "k \<noteq> key" for k
    using sstep_sraw [OF step] that by simp
  let ?L = "\<lambda>s ks. {k \<in> set ks. live ?t (sraw s (nsKey ws k)) \<noteq> None}"
  have "?L s (key # keys) = (if live ?t (sraw s (nsKey ws key)) = None then {} else {key}) \<union> ?L ?s1 keys"
    using gone other by (auto; metis live_None)
  moreover have "key \<notin> ?L ?s1 keys" using gone by simp
  ultimately have "int (card (?L s (key # keys))) = fst (Del1 env ws key s) + int (card (?L ?s1 keys))"
    using impl by (simp add: implements_def cDel_def)
  moreover have "entry (snd (Del env ws keys ?s1)) (nsKey ws key) = None"
  proof (cases "key \<in> set keys")
    case True
    with Cons.IH [OF sstep_wf [OF step]] show ?thesis by blast
  next
    case False
    then have "nsKey ws key \<notin> nsKey ws ` set keys" by auto
    with sstep_sraw [OF rest] gone show ?thesis by (metis sraw_None)
  qed
  ultimately show ?case
    using Cons.IH [OF sstep_wf [OF step]] by (simp add: split_beta)
qed simp

text \<open>A run of a function on one shard, in terms of the entries of the store.\<close>

lemma withShard_snd: "snd (withShard i f s) = unlockShard s i (snd (f (lockShard s i)))"
  by (simp add: withShard_def split_beta)

lemma at_shard:
  "shardIndex s k = i \<Longrightarrow> entry s k = fmlookup (data (lockShard s i)) k"
  "shardIndex s k = i \<Longrightarrow> sversion s k = versionLocked k (lockShard s i)"
  by (simp_all add: entry_def sversion_def shardFor_def)

lemma dropAll_store:
  assumes wf: "store_wf s" and i: "i < length (shards s)" and ks: "distinct ks"
    and home: "\<And>k. k \<in> set ks \<Longrightarrow> shardIndex s k = i"
  defines "s' \<equiv> unlockShard s i (dropAll ks (lockShard s i))"
  shows "store_wf s'" "evictions s' = evictions s"
    "entry s' k = (if k \<in> set ks then None else entry s k)"
    "sversion s' k = sversion s k + (if k \<in> set ks then 1 else 0)"
proof -
  have bound: "shardIndex s k < length (shards s)" for k by (rule shardIndex_bound [OF wf])
  have "shard_wf (\<lambda>ck. shardIndex s ck = i) (lockShard s i)" using wf i by (simp add: store_wf_def)
  then show "store_wf s'"
    unfolding s'_def by (intro store_wf_unlock wf i dropAll_wf dropAll_counted counted_lock)
  show "evictions s' = evictions s" by (simp add: s'_def)
  show "entry s' k = (if k \<in> set ks then None else entry s k)"
    using home [of k] at_shard(1) [of s k i]
    by (auto simp: s'_def unlock_at [OF bound] dropAll_lookup)
  show "sversion s' k = sversion s k + (if k \<in> set ks then 1 else 0)"
    using home [of k] at_shard(2) [of s k i]
    by (auto simp: s'_def unlock_at [OF bound] dropAll_version [OF ks])
qed

lemma sevolves_bumped:
  assumes "\<And>k. sversion s' k = sversion s k + (if k \<in> B then 1 else 0)"
    and "\<And>k. k \<notin> B \<Longrightarrow> entry s' k = entry s k"
  shows "sevolves 1 s s'"
  unfolding sevolves_def
proof
  fix k
  show "\<exists>j\<le>1. sversion s' k = sversion s k + of_nat j \<and> (j = 0 \<longrightarrow> sraw s' k = sraw s k)"
    using assms [of k] by (intro exI [of _ "if k \<in> B then 1 else 0"]) (auto simp: sraw_entry)
qed

lemma distinct_flush [simp]: "env_ok env \<Longrightarrow> distinct (filter P (range_keys env m))"
  by simp

lemma FlushDB_upto:
  fixes ws :: string
  assumes wf: "store_wf s" and env: "env_ok env" and j: "j \<le> length (shards s)"
  defines "s' \<equiv> fold (\<lambda>i s. snd (withShard i (\<lambda>l. ((), FlushShard env ws l)) s)) [0..<j] s"
  defines "B \<equiv> {k. hasPrefix k (nsKey ws []) \<and> shardIndex s k < j \<and> entry s k \<noteq> None}"
  shows "store_wf s' \<and> same_config s s' \<and> evictions s' = evictions s \<and>
    (\<forall>k. entry s' k = (if k \<in> B then None else entry s k) \<and>
         sversion s' k = sversion s k + (if k \<in> B then 1 else 0))"
  using j unfolding s'_def B_def
proof (induction j)
  case 0
  then show ?case using wf by simp
next
  case (Suc j)
  let ?F = "\<lambda>j. fold (\<lambda>i s. snd (withShard i (\<lambda>l. ((), FlushShard env ws l)) s)) [0..<j] s"
  let ?B = "\<lambda>j. {k. hasPrefix k (nsKey ws []) \<and> shardIndex s k < j \<and> entry s k \<noteq> None}"
  let ?m = "?F j"
  define ks where "ks = filter (\<lambda>ck. hasPrefix ck (nsKey ws [])) (range_keys env (data (lockShard ?m j)))"
  have IH: "store_wf ?m" "same_config s ?m" "evictions ?m = evictions s"
    "\<And>k. entry ?m k = (if k \<in> ?B j then None else entry s k)"
    "\<And>k. sversion ?m k = sversion s k + (if k \<in> ?B j then 1 else 0)"
    using Suc by auto
  have idx: "shardIndex ?m = shardIndex s" by (rule same_config_index [OF IH(2)])
  have j: "j < length (shards ?m)" using Suc.prems IH(2) by (simp add: same_config_def)
  have step: "?F (Suc j) = unlockShard ?m j (dropAll ks (lockShard ?m j))"
    by (simp add: withShard_snd FlushShard_def ks_def)
  have routed: "shardIndex s k = j" if "fmlookup (data (lockShard ?m j)) k \<noteq> None" for k
    using that IH(1) j idx by (auto simp: store_wf_def shard_wf_def)
  have home: "shardIndex ?m k = j" if "k \<in> set ks" for k
    using that routed [of k] env by (auto simp: ks_def idx fmdom'_lookup)
  have ks: "k \<in> set ks \<longleftrightarrow> hasPrefix k (nsKey ws []) \<and> shardIndex s k = j \<and> entry s k \<noteq> None" for k
  proof -
    have "entry s k = fmlookup (data (lockShard ?m j)) k" if "shardIndex s k = j"
      using that at_shard(1) [of ?m k j] IH(4) [of k] by (simp add: idx del: lock_simps)
    then have "fmlookup (data (lockShard ?m j)) k \<noteq> None \<longleftrightarrow> shardIndex s k = j \<and> entry s k \<noteq> None"
      using routed [of k] by metis
    then show ?thesis using env unfolding ks_def by (simp add: fmdom'_lookup del: lock_simps) blast
  qed
  have "distinct ks" using env by (simp add: ks_def)
  note D = dropAll_store [OF IH(1) j this home]
  have "?B (Suc j) = ?B j \<union> set ks" using ks by (auto simp: less_Suc_eq)
  moreover have "?B j \<inter> set ks = {}" using ks by auto
  ultimately show ?case
    unfolding step using D IH(2,3) IH(4,5) same_config_trans [OF IH(2) same_config_unlock]
    by (auto simp: disjoint_iff)
qed

lemma FlushDB_step:
  assumes wf: "store_wf s" and env: "env_ok env"
  shows "sstep {k. hasPrefix k (nsKey ws [])} 1 {} s (FlushDB env ws s)"
    and "entry (FlushDB env ws s) k = (if hasPrefix k (nsKey ws []) then None else entry s k)"
proof -
  note F = FlushDB_upto [OF wf env order_refl, of ws, folded FlushDB_def]
  let ?B = "{k. hasPrefix k (nsKey ws []) \<and> shardIndex s k < length (shards s) \<and> entry s k \<noteq> None}"
  have B: "k \<in> ?B \<longleftrightarrow> hasPrefix k (nsKey ws []) \<and> entry s k \<noteq> None" for k
    using shardIndex_bound [OF wf] by simp
  show "entry (FlushDB env ws s) k = (if hasPrefix k (nsKey ws []) then None else entry s k)" for k
    using F B by auto
  have "sevolves 1 s (FlushDB env ws s)"
    by (rule sevolves_bumped [where B = ?B]) (use F B in auto)
  then show "sstep {k. hasPrefix k (nsKey ws [])} 1 {} s (FlushDB env ws s)"
    using F B by (auto simp: sstep_def)
qed

lemma SweepShard_effect:
  assumes wf: "store_wf s" and env: "env_ok env" and i: "i < length (shards s)"
  obtains ks where "distinct ks" "fst (SweepShard env i n s) = int (length ks)"
    "\<And>k. k \<in> set ks \<Longrightarrow> shardIndex s k = i \<and> (\<exists>e. entry s k = Some e \<and> expired e (now env))"
    "ks = filter (expired_in (now env) (shards s ! i)) (take (nat n) (range_set env (ttlKeys (shards s ! i))))"
    "\<And>k. entry (snd (SweepShard env i n s)) k = (if k \<in> set ks then None else entry s k)"
    "sstep (set ks) 1 {} s (snd (SweepShard env i n s))"
proof -
  let ?l = "lockShard s i"
  define ks where "ks = filter (expired_in (now env) ?l) (take (nat n) (range_set env (ttlKeys ?l)))"
  have ks': "ks = filter (expired_in (now env) (shards s ! i)) (take (nat n) (range_set env (ttlKeys (shards s ! i))))"
    by (simp add: ks_def expired_in_def [abs_def])
  have eq: "SweepShard env i n s = (int (length ks), unlockShard s i (dropAll ks ?l))"
    using env by (simp add: SweepShard_def withShard_def sweepSample_eq Let_def ks_def)
  have routed: "shardIndex s k = i" if "fmlookup (data ?l) k \<noteq> None" for k
    using that wf i by (auto simp: store_wf_def shard_wf_def)
  have exp: "shardIndex s k = i \<and> (\<exists>e. entry s k = Some e \<and> expired e (now env))" if "k \<in> set ks" for k
    using that routed [of k] at_shard(1) [of s k i]
    by (auto simp: ks_def expired_in_def split: option.splits)
  have d: "distinct ks" using env by (simp add: ks_def)
  note D = dropAll_store [OF wf i d]
  have "sevolves 1 s (unlockShard s i (dropAll ks ?l))"
    by (rule sevolves_bumped [where B = "set ks"]) (use D exp in auto)
  then have "sstep (set ks) 1 {} s (snd (SweepShard env i n s))"
    using D exp by (simp add: sstep_def eq)
  with d ks' eq exp D(3) show ?thesis by (intro that) auto
qed

section \<open>Rename\<close>

lemma sevolves_counts:
  assumes "\<And>k. sversion s' k = sversion s k + of_nat (f k)" "\<And>k. f k \<le> n"
    and "\<And>k. f k = 0 \<Longrightarrow> entry s' k = entry s k"
  shows "sevolves n s s'"
  unfolding sevolves_def using assms by (metis sraw_entry)

lemma unlock_wf_entries:
  assumes wf: "store_wf s" and i: "i < length (shards s)"
    and l: "\<And>P. P = (\<lambda>ck. shardIndex s ck = i) \<Longrightarrow> shard_wf P (lockShard s i) \<Longrightarrow> shard_wf P l"
    and c: "\<And>b. counted b (lockShard s i) \<Longrightarrow> counted b l"
  shows "store_wf (unlockShard s i l)"
proof -
  have "shard_wf (\<lambda>ck. shardIndex s ck = i) (lockShard s i)" using wf i by (simp add: store_wf_def)
  then show ?thesis by (intro store_wf_unlock wf i l [OF refl] c counted_lock)
qed

lemma unlock_lock [simp]: "unlockShard s i (lockShard s i) = s"
proof -
  have "\<lparr>data = data (shards s ! i), ttlKeys = ttlKeys (shards s ! i), versions = versions (shards s ! i)\<rparr>
      = shards s ! i"
    by (rule shard.equality) simp_all
  then have "(shards s)[i := \<lparr>data = data (shards s ! i), ttlKeys = ttlKeys (shards s ! i),
      versions = versions (shards s ! i)\<rparr>] = shards s"
    by (simp only: list_update_id)
  then show ?thesis by (simp add: unlockShard_def)
qed

lemma Rename_absent:
  assumes wf: "store_wf s" and gone: "live (now env) (sraw s (nsKey ws old)) = None"
  shows "fst (Rename env ws old new s) = False \<and> sraw (snd (Rename env ws old new s)) (nsKey ws old) = None \<and>
    sstep {nsKey ws old} 1 {} s (snd (Rename env ws old new s))"
proof -
  let ?o = "nsKey ws old" and ?l = "lockShard s (shardIndex s (nsKey ws old))"
  have "live (now env) (raw ?l ?o) = None" using gone by (simp add: sraw_def shardFor_def)
  then obtain l1 where l1: "getForWriteLocked ?o (now env) ?l = (None, l1)"
      "raw l1 = (raw ?l)(?o := None)" "lstep ?o 1 0 ?l l1"
    by (cases rule: getForWrite_cases [of ?o "now env" ?l]) auto
  then have eq: "Rename env ws old new s = (False, unlockShard s (shardIndex s ?o) l1)"
    by (auto simp: Rename_def withShard_def Let_def)
  obtain V where V: "card V = 0" "sstep {?o} 1 V s (unlockShard s (shardIndex s ?o) l1)"
    using sstep_shard [OF wf refl l1(3)] by blast
  then have "V = {}" by (simp add: sstep_def)
  with V eq l1(2) show ?thesis by (simp add: unlock_at [OF shardIndex_bound [OF wf]])
qed

lemma Rename_present:
  fixes new :: string
  assumes wf: "store_wf s" and e: "entry s (nsKey ws old) = Some e" "\<not> expired e (now env)"
  defines "s' \<equiv> snd (Rename env ws old new s)"
  shows "fst (Rename env ws old new s) = True"
    and "entry s' k = (if k = nsKey ws new then Some e else if k = nsKey ws old then None else entry s k)"
    and "sversion s' k = sversion s k + (if k = nsKey ws old then 1 else 0) + (if k = nsKey ws new then 1 else 0)"
    and "store_wf s' \<and> same_config s s' \<and> evictions s' = evictions s"
proof -
  let ?o = "nsKey ws old" and ?n = "nsKey ws new"
  let ?oi = "shardIndex s ?o" and ?ni = "shardIndex s ?n"
  note bound = shardIndex_bound [OF wf]
  let ?l = "lockShard s ?oi"
  have lk: "fmlookup (data ?l) ?o = Some e" using e(1) at_shard(1) [of s ?o ?oi] by simp
  then have g: "getForWriteLocked ?o (now env) ?l = (Some e, ?l)"
    using e(2) by (simp add: getForWriteLocked_def)
  have "shard_wf (\<lambda>ck. shardIndex s ck = ?oi) (shards s ! ?oi)"
    using wf bound [of ?o] unfolding store_wf_def by blast
  then have we: "wf_entry e" by (rule shard_wf_entry) (use lk in simp)
  note unl = unlock_lock [of s ?oi]
  show all: "fst (Rename env ws old new s) = True"
    "entry s' k = (if k = ?n then Some e else if k = ?o then None else entry s k)"
    "sversion s' k = sversion s k + (if k = ?o then 1 else 0) + (if k = ?n then 1 else 0)"
    "store_wf s' \<and> same_config s s' \<and> evictions s' = evictions s"
  proof -
    show "fst (Rename env ws old new s) = True"
      using g unl by (cases "?oi = ?ni") (simp_all add: Rename_def withShard_def Let_def)
    have "store_wf s' \<and> same_config s s' \<and> evictions s' = evictions s \<and>
      entry s' k = (if k = ?n then Some e else if k = ?o then None else entry s k) \<and>
      sversion s' k = sversion s k + (if k = ?o then 1 else 0) + (if k = ?n then 1 else 0)"
    proof (cases "?oi = ?ni")
      case True
      let ?l' = "bumpVersionLocked ?o (setEntryLocked ?n e (deleteEntryLocked ?o ?l))"
      have s': "s' = unlockShard s ?oi ?l'"
        using True g by (simp add: s'_def Rename_def withShard_def Let_def)
      have "store_wf s'"
        unfolding s' using True we
        by (intro unlock_wf_entries wf bound) (auto intro!: shard_wf_set shard_wf_delete counted_set counted_delete)
      moreover have "entry s k = fmlookup (data ?l) k \<and> sversion s k = versionLocked k ?l" if "shardIndex s k = ?oi"
        using at_shard [OF that] by blast
      ultimately show ?thesis
        using True by (auto simp: s' unlock_at [OF bound])
    next
      case False
      let ?s2 = "unlockShard s ?oi (deleteEntryLocked ?o ?l)"
      let ?l2 = "lockShard ?s2 ?ni"
      let ?s3 = "unlockShard ?s2 ?ni (setEntryLocked ?n e ?l2)"
      let ?s4 = "unlockShard ?s3 ?oi (bumpVersionLocked ?o (lockShard ?s3 ?oi))"
      have s': "s' = ?s4"
        using False g unl by (simp add: s'_def Rename_def withShard_def Let_def)
      have wf2: "store_wf ?s2"
        by (intro unlock_wf_entries wf bound) (auto intro: shard_wf_delete counted_delete)
      have wf3: "store_wf ?s3"
        by (rule unlock_wf_entries [OF wf2]) (use bound we in \<open>auto intro: shard_wf_set counted_set\<close>)
      have wf4: "store_wf ?s4"
        by (rule unlock_wf_entries [OF wf3]) (use bound in \<open>auto\<close>)
      have b: "shardIndex ?s2 j < length (shards ?s2)" "shardIndex ?s3 j < length (shards ?s3)" for j
        using bound by simp_all
      note at2 = unlock_at [OF bound, where i = ?oi and l = "deleteEntryLocked ?o ?l"]
      note at3 = unlock_at [OF b(1), where i = ?ni and l = "setEntryLocked ?n e ?l2"]
      note at4 = unlock_at [OF b(2), where i = ?oi and l = "bumpVersionLocked ?o (lockShard ?s3 ?oi)"]
      have 2: "entry ?s2 k = (if k = ?o then None else entry s k)" "sversion ?s2 k = sversion s k" for k
        using at_shard [of s k ?oi] unfolding at2 by (auto simp del: lock_simps)
      have 3: "entry ?s3 k = (if k = ?n then Some e else entry ?s2 k)"
        "sversion ?s3 k = sversion ?s2 k + (if k = ?n then 1 else 0)" for k
        using at_shard [of ?s2 k ?ni] unfolding at3 by (auto simp del: lock_simps)
      have 4: "entry ?s4 k = entry ?s3 k" "sversion ?s4 k = sversion ?s3 k + (if k = ?o then 1 else 0)" for k
        using at_shard [of ?s3 k ?oi] unfolding at4 by (auto simp del: lock_simps)
      have "same_config s ?s4" "evictions ?s4 = evictions s"
        by (simp_all add: same_config_def)
      with wf4 show ?thesis unfolding s' by (simp add: 4 3 2)
    qed
    then show "entry s' k = (if k = ?n then Some e else if k = ?o then None else entry s k)"
      "sversion s' k = sversion s k + (if k = ?o then 1 else 0) + (if k = ?n then 1 else 0)"
      "store_wf s' \<and> same_config s s' \<and> evictions s' = evictions s" by blast+
  qed
qed

lemma Rename_step:
  assumes wf: "store_wf s"
  shows "sstep {nsKey ws old, nsKey ws new} 2 {} s (snd (Rename env ws old new s))"
proof (cases "live (now env) (sraw s (nsKey ws old))")
  case None
  have "sstep {nsKey ws old} 1 {} s (snd (Rename env ws old new s))"
    using Rename_absent [OF wf None] by blast
  then show ?thesis by (auto simp: sstep_def intro: sevolves_mono)
next
  case (Some c)
  then obtain e where e: "entry s (nsKey ws old) = Some e" "\<not> expired e (now env)"
    by (cases "entry s (nsKey ws old)") (auto simp: sraw_entry live_acell split: if_splits)
  note R = Rename_present [OF wf e, of new]
  have "sevolves 2 s (snd (Rename env ws old new s))"
    by (rule sevolves_counts [where f = "\<lambda>k. (if k = nsKey ws old then 1 else 0) + (if k = nsKey ws new then 1 else 0)"])
      (use R in auto)
  with R show ?thesis by (simp add: sstep_def)
qed

section \<open>Containers\<close>

definition or_new :: "avalue \<Rightarrow> cell option \<Rightarrow> cell" \<comment> \<open>the cell, or a fresh one without expiry\<close>
  where "or_new v c = (case c of None \<Rightarrow> (v, None) | Some a \<Rightarrow> a)"

definition drop_if :: "bool \<Rightarrow> cell \<Rightarrow> cell option" \<comment> \<open>an emptied container is removed\<close>
  where "drop_if b a = (if b then None else Some a)"

text \<open>
  The removals (HDEL, SREM, ZREM, LREM, the pops) all end alike: write the shrunk container
  through the pointer, and when something was removed drop the entry if it is empty and bump.
\<close>

lemma delete_poke [simp]:
  assumes "fmlookup (data l) ck = Some e"
  shows "deleteEntryLocked ck (poke ck e' l) = deleteEntryLocked ck l"
proof -
  have "fmdrop ck (fmupd ck e' (data l)) = fmdrop ck (data l)" by (intro fmap_ext) simp
  then show ?thesis using assms by (simp add: deleteEntryLocked_def poke_def Let_def)
qed

lemma shrink_step:
  fixes none :: bool
  assumes e: "fmlookup (data l) ck = Some e" "eExpiresAt e' = eExpiresAt e" "wf_entry e \<Longrightarrow> wf_entry e'"
  defines "l' \<equiv> bumpVersionLocked ck (if none then deleteEntryLocked ck (poke ck e' l) else poke ck e' l)"
  shows "lstep ck 1 0 l l' \<and> raw l' ck = drop_if none (acell e')"
proof (cases none)
  case True
  then show ?thesis using e lstep_delete [of 1 ck l] by (simp add: l'_def drop_if_def)
next
  case False
  then show ?thesis using e lstep_poke [of 1 l ck e e'] by (simp add: l'_def drop_if_def)
qed

end
