(* ===== verification/Keyspace.thy ===== *)
theory Keyspace
  imports Store
begin

text \<open>
  What KEYS, SCAN, EXISTS and TYPE report (\<^verbatim>\<open>keysForWorkspace\<close>, \<^verbatim>\<open>Keys\<close>, \<^verbatim>\<open>Scan\<close>,
  \<^verbatim>\<open>Exists\<close>, \<^verbatim>\<open>Type\<close> of \<^verbatim>\<open>store.go\<close>), in terms of the live cells of a
  workspace; that a client's SCAN iteration ends and returns every matching key once; and when
  the composite keys of two workspaces are disjoint.
\<close>

section \<open>Composite keys\<close>

lemma hasPrefix_nsKey: "hasPrefix ck (nsKey ws []) \<longleftrightarrow> (\<exists>k. ck = nsKey ws k)"
proof
  assume "hasPrefix ck (nsKey ws [])"
  then have "ck = nsKey ws (drop (length (nsKey ws [])) ck)"
    unfolding hasPrefix_def nsKey_def
    by (metis append.assoc append_Cons append_Nil append_take_drop_id)
  then show "\<exists>k. ck = nsKey ws k" by blast
qed (auto simp: hasPrefix_def nsKey_def)

lemma drop_nsKey [simp]: "drop (length (nsKey ws [])) (nsKey ws k) = k"
  by (simp add: nsKey_def)

text \<open>The separator is safe exactly as long as workspace names hold no NUL.\<close>

lemma nsKey_inject:
  assumes "CHR 0x00 \<notin> set ws" "CHR 0x00 \<notin> set ws'" "nsKey ws k = nsKey ws' k'"
  shows "ws = ws' \<and> k = k'"
proof -
  have "takeWhile (\<lambda>c. c \<noteq> CHR 0x00) (nsKey w x) = w" if "CHR 0x00 \<notin> set w" for w x
    using that by (auto simp: nsKey_def takeWhile_append)
  with assms have "ws = ws'" by metis
  with assms(3) show ?thesis by simp
qed

section \<open>The keys of a workspace\<close>

definition live_keys :: "goenv \<Rightarrow> string \<Rightarrow> Store \<Rightarrow> string set"
  where "live_keys env ws s = {k. live (now env) (sraw s (nsKey ws k)) \<noteq> None}"

lemma live_entry: "live t (sraw s ck) \<noteq> None \<longleftrightarrow> (\<exists>e. entry s ck = Some e \<and> \<not> expired e t)"
  by (cases "entry s ck") (auto simp: sraw_entry live_acell)

definition shard_keys :: "goenv \<Rightarrow> string \<Rightarrow> shard \<Rightarrow> string list" \<comment> \<open>one turn of the loop over the shards\<close>
  where "shard_keys env ws sh =
    filter (\<lambda>ck. hasPrefix ck (nsKey ws []) \<and>
        (case fmlookup (data sh) ck of None \<Rightarrow> False | Some e \<Rightarrow> \<not> expired e (now env)))
      (range_keys env (data sh))"

lemma keysForWorkspace_eq:
  "keysForWorkspace env ws s =
    map (drop (length (nsKey ws []))) (concat (map (shard_keys env ws) (shards s)))"
  by (simp add: keysForWorkspace_def shard_keys_def [abs_def] Let_def map_concat comp_def)

lemma shard_keys_iff:
  assumes "store_wf s" "env_ok env" "i < length (shards s)"
  shows "ck \<in> set (shard_keys env ws (shards s ! i)) \<longleftrightarrow>
    shardIndex s ck = i \<and> (\<exists>k \<in> live_keys env ws s. ck = nsKey ws k)"
proof -
  have "shardIndex s ck = i" if "fmlookup (data (shards s ! i)) ck \<noteq> None"
    using that assms(1,3) by (auto simp: store_wf_def shard_wf_def)
  then have "(\<exists>e. fmlookup (data (shards s ! i)) ck = Some e \<and> \<not> expired e (now env)) \<longleftrightarrow>
      shardIndex s ck = i \<and> live (now env) (sraw s ck) \<noteq> None"
    unfolding live_entry by (auto simp: entry_def shardFor_def)
  then show ?thesis
    using assms(2) unfolding shard_keys_def live_keys_def
    by (auto simp: hasPrefix_nsKey fmdom'_lookup split: option.splits)
qed

lemma distinct_concat_routed:
  assumes "\<And>i. i < length xss \<Longrightarrow> distinct (xss ! i)"
    and "\<And>i x. i < length xss \<Longrightarrow> x \<in> set (xss ! i) \<Longrightarrow> f x = b + i"
  shows "distinct (concat xss)"
  using assms
proof (induction xss arbitrary: b)
  case (Cons xs xss)
  have "distinct (concat xss)"
    by (rule Cons.IH [of "Suc b"]) (use Cons.prems(1,2) [of "Suc _"] in auto)
  moreover have "distinct xs" using Cons.prems(1) [of 0] by simp
  moreover have "f x = b" if "x \<in> set xs" for x using Cons.prems(2) [of 0 x] that by simp
  moreover have "f x \<noteq> b" if x: "x \<in> set (concat xss)" for x
  proof -
    from x obtain i where "i < length xss" "x \<in> set (xss ! i)" by (metis UN_iff in_set_conv_nth set_concat)
    then show ?thesis using Cons.prems(2) [of "Suc i" x] by simp
  qed
  ultimately show ?case by (auto; metis)
qed simp

lemma keysForWorkspace_keys:
  assumes wf: "store_wf s" and env: "env_ok env"
  shows "set (keysForWorkspace env ws s) = live_keys env ws s"
    and "distinct (keysForWorkspace env ws s)"
proof -
  let ?c = "concat (map (shard_keys env ws) (shards s))"
  note iff = shard_keys_iff [OF wf env]
  have "ck \<in> set ?c \<longleftrightarrow> (\<exists>i < length (shards s). ck \<in> set (shard_keys env ws (shards s ! i)))" for ck
    by (auto simp: set_conv_nth [of "shards s"])
  then have c: "ck \<in> set ?c \<longleftrightarrow> (\<exists>k \<in> live_keys env ws s. ck = nsKey ws k)" for ck
    using iff [of _ ck ws] shardIndex_bound [OF wf, of ck] by blast
  then have img: "set ?c = nsKey ws ` live_keys env ws s" by blast
  then show "set (keysForWorkspace env ws s) = live_keys env ws s"
    unfolding keysForWorkspace_eq by (simp only: set_map img image_image drop_nsKey image_ident)
  have "distinct ?c"
  proof (rule distinct_concat_routed [where f = "shardIndex s" and b = 0])
    fix i
    assume "i < length (map (shard_keys env ws) (shards s))"
    then show "distinct (map (shard_keys env ws) (shards s) ! i)"
      using env by (simp add: shard_keys_def)
  qed (use iff in auto)
  moreover have "inj_on (drop (length (nsKey ws []))) (set ?c)"
    unfolding img by (auto simp: inj_on_def)
  ultimately show "distinct (keysForWorkspace env ws s)"
    unfolding keysForWorkspace_eq by (simp add: distinct_map)
qed

lemma finite_live_keys: "store_wf s \<Longrightarrow> env_ok env \<Longrightarrow> finite (live_keys env ws s)"
  using keysForWorkspace_keys(1) [of s env ws] by (metis finite_set)

lemma sort_distinct: "distinct xs \<Longrightarrow> sort xs = sorted_list_of_set (set xs)"
  by (simp add: sorted_list_of_set_sort_remdups distinct_remdups_id)

lemma sort_keys:
  assumes "store_wf s" "env_ok env"
  shows "sort (filter P (keysForWorkspace env ws s)) = sorted_list_of_set {k \<in> live_keys env ws s. P k}"
  using sort_distinct [of "filter P (keysForWorkspace env ws s)"] keysForWorkspace_keys [OF assms, of ws]
  by simp

lemma globMatch_star [simp]: "globMatch ''*'' k"
  by (simp add: globMatch_def)

lemma Keys_eq:
  assumes "store_wf s" "env_ok env"
  shows "Keys env ws pattern s =
    sorted_list_of_set {k \<in> live_keys env ws s. pattern = [] \<or> globMatch pattern k}"
  using sort_keys [OF assms, of "\<lambda>k. True" ws] sort_keys [OF assms, of "globMatch pattern" ws]
  by (auto simp: Keys_def Let_def)

lemma shard_get_live: "map_option acell (shard_get ck t s) = live t (sraw s ck)"
  by (simp add: shard_get_def getLocked_live sraw_def)

lemma Exists_eq:
  "Exists env ws keys s = int (length (filter (\<lambda>k. k \<in> live_keys env ws s) keys))"
  unfolding Exists_def live_keys_def by (simp flip: shard_get_live)

lemma Type_eq:
  "Type env ws key s = (case live (now env) (sraw s (nsKey ws key)) of
     None \<Rightarrow> ([], False)
   | Some (v, _) \<Rightarrow> (case v of VNone \<Rightarrow> ''none'' | VString _ \<Rightarrow> ''string'' | VHash _ \<Rightarrow> ''hash''
       | VList _ \<Rightarrow> ''list'' | VSet _ \<Rightarrow> ''set'' | VZSet _ \<Rightarrow> ''zset'', True))"
  unfolding shard_get_live [symmetric] Type_def
  by (auto simp: acell_def avalue_of_def split: option.splits Kind.splits)

section \<open>A full SCAN iteration\<close>

text \<open>
  The client's loop: start at cursor 0 and go on with the returned cursor until it is 0 again.
  \<open>fuel\<close> bounds the number of calls; \<open>None\<close> is an iteration that did not end within it.
\<close>

fun scanAll :: "nat \<Rightarrow> goenv \<Rightarrow> string \<Rightarrow> 64 word \<Rightarrow> string \<Rightarrow> int \<Rightarrow> Store \<Rightarrow> string list option" where
  "scanAll 0 env ws cursor match cnt s = None"
| "scanAll (Suc fuel) env ws cursor match cnt s =
    (case Scan env ws cursor match cnt s of
       (next, out) \<Rightarrow>
         if next = 0 then Some out
         else map_option ((@) out) (scanAll fuel env ws next match cnt s))"

definition scan_match :: "string \<Rightarrow> string \<Rightarrow> bool"
  where "scan_match match k \<longleftrightarrow> match = [] \<or> globMatch match k"

lemma Scan_page:
  assumes len: "length (keysForWorkspace env ws s) < 2 ^ 63"
    and cnt: "cnt \<le> MaxInt64" and c: "c < length (keysForWorkspace env ws s)"
  defines "L \<equiv> sort (keysForWorkspace env ws s)"
  defines "e \<equiv> min (c + nat (if cnt \<le> 0 then 10 else cnt)) (length L)"
  shows "Scan env ws (of_nat c) match cnt s =
    (if e = length L then 0 else of_nat e, filter (scan_match match) (drop c (take e L)))"
proof -
  have L: "length L = length (keysForWorkspace env ws s)" by (simp add: L_def)
  let ?n = "if cnt \<le> 0 then 10 else cnt"
  let ?stop = "of_nat c + word_of_int ?n :: 64 word"
  have un: "unat (of_nat j :: 64 word) = j" if "j < 2 ^ 64" for j
    using that by (simp add: unat_of_nat)
  have small: "c < 2 ^ 63" "nat ?n < 2 ^ 63" using c len cnt by auto
  have "word_of_int ?n = (of_nat (nat ?n) :: 64 word)" by simp
  then have endw: "?stop = of_nat (c + nat ?n)" by simp
  have sums: "c + nat ?n < 2 ^ 64" using small by simp
  have lt: "(of_nat (length L) :: 64 word) < of_nat (c + nat ?n) \<longleftrightarrow> length L < c + nat ?n"
    using un [OF sums] un [of "length L"] len L by (simp add: word_less_nat_alt)
  have e: "(if ?stop > of_nat (length L) then of_nat (length L) else ?stop) = (of_nat e :: 64 word)"
    unfolding endw lt e_def by (simp add: min_def)
  have ue: "unat (of_nat e :: 64 word) = e" "unat (of_nat c :: 64 word) = c"
    using un [of e] un [of c] len L small by (simp_all add: e_def)
  have ge: "(of_nat (length L) :: 64 word) \<le> of_nat e \<longleftrightarrow> e = length L"
    using ue un [of "length L"] len L by (auto simp: word_le_nat_alt e_def)
  have nge: "\<not> (of_nat (length L) :: 64 word) \<le> of_nat c"
    using ue un [of "length L"] len L c by (simp add: word_le_nat_alt)
  have m: "(\<lambda>k. match = [] \<or> match = ''*'' \<or> globMatch match k) = scan_match match"
    by (auto simp: scan_match_def)
  show ?thesis
    unfolding Scan_def scanPage_def Let_def L_def [symmetric] m by (simp only: nge if_False e ge ue)
qed

lemma scanAll_from:
  assumes len: "length (keysForWorkspace env ws s) < 2 ^ 63" and cnt: "cnt \<le> MaxInt64"
    and "c \<le> length (keysForWorkspace env ws s)" "length (keysForWorkspace env ws s) < c + fuel"
  defines "L \<equiv> sort (keysForWorkspace env ws s)"
  shows "scanAll fuel env ws (of_nat c) match cnt s = Some (filter (scan_match match) (drop c L))"
  using assms(3,4)
proof (induction fuel arbitrary: c)
  case (Suc fuel)
  show ?case
  proof (cases "c < length (keysForWorkspace env ws s)")
    case False
    with Suc.prems len have "Scan env ws (of_nat c) match cnt s = (0, [])"
      by (simp add: Scan_def scanPage_def Let_def)
    then show ?thesis using False by (simp add: L_def)
  next
    case True
    define e where "e = min (c + nat (if cnt \<le> 0 then 10 else cnt)) (length L)"
    have L: "length L = length (keysForWorkspace env ws s)" by (simp add: L_def)
    note page = Scan_page [OF len cnt True, of match, folded L_def, folded e_def]
    have e: "c < e" "e \<le> length L" using True L by (auto simp: e_def)
    show ?thesis
    proof (cases "e = length L")
      case last: True
      then show ?thesis using page by simp
    next
      case False
      have "(of_nat e :: 64 word) \<noteq> 0"
        using e len L by (simp add: word_of_nat_eq_0_iff nat_dvd_not_less)
      moreover have "scanAll fuel env ws (of_nat e) match cnt s = Some (filter (scan_match match) (drop e L))"
        by (rule Suc.IH) (use Suc.prems e L in auto)
      moreover have "filter (scan_match match) (drop c (take e L)) @ filter (scan_match match) (drop e L)
          = filter (scan_match match) (drop c L)"
        using e by (metis append_take_drop_id drop_append filter_append length_take min.absorb2
            diff_is_0_eq' drop_0 less_imp_le)
      ultimately show ?thesis using page False by simp
    qed
  qed
qed simp

end
