(* ===== verification/Strconv.thy ===== *)
theory Strconv
  imports Prelude
begin

text \<open>
  The parts of Go's \<^verbatim>\<open>strconv\<close> that the store and the protocol layer call on integers:
  \<^verbatim>\<open>ParseInt(s, 10, 64)\<close> and \<^verbatim>\<open>Atoi\<close> (the same function on 64-bit targets),
  \<^verbatim>\<open>ParseUint(s, 10, 64)\<close>, \<^verbatim>\<open>FormatInt(n, 10)\<close> and \<^verbatim>\<open>Itoa\<close>. A parse error, of
  syntax or of range, is \<open>None\<close>: no caller looks at which one it is.
\<close>

definition is_digit :: "char \<Rightarrow> bool"
  where "is_digit c \<longleftrightarrow> CHR ''0'' \<le> c \<and> c \<le> CHR ''9''"

definition digit_val :: "char \<Rightarrow> nat"
  where "digit_val c = of_char c - 48"

definition digit_char :: "nat \<Rightarrow> char"
  where "digit_char d = char_of (48 + d)"

definition parse_digits :: "string \<Rightarrow> nat option"
  where "parse_digits s =
    (if s = [] \<or> \<not> list_all is_digit s then None
     else Some (foldl (\<lambda>n c. 10 * n + digit_val c) 0 s))"

definition ParseUint :: "string \<Rightarrow> 64 word option"
  where "ParseUint s =
    (case parse_digits s of
       None \<Rightarrow> None
     | Some n \<Rightarrow> if n < 18446744073709551616 then Some (of_nat n) else None)"

definition ParseInt :: "string \<Rightarrow> int option"
  where "ParseInt s =
    (let neg = (s \<noteq> [] \<and> hd s = CHR ''-'');
         body = (if s \<noteq> [] \<and> (hd s = CHR ''-'' \<or> hd s = CHR ''+'') then tl s else s)
     in case parse_digits body of
          None \<Rightarrow> None
        | Some n \<Rightarrow>
            let v = (if neg then - int n else int n)
            in if is_int64 v then Some v else None)"

abbreviation Atoi :: "string \<Rightarrow> int option" where "Atoi \<equiv> ParseInt"

fun format_nat :: "nat \<Rightarrow> string" where
  "format_nat n = (if n < 10 then [digit_char n] else format_nat (n div 10) @ [digit_char (n mod 10)])"

declare format_nat.simps [simp del]

definition FormatInt :: "int \<Rightarrow> string"
  where "FormatInt n = (if n < 0 then CHR ''-'' # format_nat (nat (- n)) else format_nat (nat n))"

abbreviation Itoa :: "int \<Rightarrow> string" where "Itoa \<equiv> FormatInt"

section \<open>Round trip\<close>

lemma digit_char_simps:
  assumes "d < 10"
  shows "is_digit (digit_char d)" "digit_val (digit_char d) = d" "digit_char d \<noteq> CHR ''-''"
    "digit_char d \<noteq> CHR ''+''"
proof -
  have "list_all (\<lambda>d. is_digit (digit_char d) \<and> digit_val (digit_char d) = d \<and>
      digit_char d \<noteq> CHR ''-'' \<and> digit_char d \<noteq> CHR ''+'') [0..<10]"
    by code_simp
  with assms show "is_digit (digit_char d)" "digit_val (digit_char d) = d"
    "digit_char d \<noteq> CHR ''-''" "digit_char d \<noteq> CHR ''+''"
    by (auto simp: list_all_iff)
qed

lemma format_nat_digits: "list_all is_digit (format_nat n) \<and> format_nat n \<noteq> []"
proof (induction n rule: format_nat.induct)
  case (1 n)
  then show ?case
    by (subst (1 2) format_nat.simps) (auto simp: digit_char_simps)
qed

lemma format_nat_value: "foldl (\<lambda>n c. 10 * n + digit_val c) 0 (format_nat n) = n"
proof (induction n rule: format_nat.induct)
  case (1 n)
  then show ?case
    by (subst format_nat.simps) (auto simp: digit_char_simps)
qed

lemma parse_format_nat [simp]: "parse_digits (format_nat n) = Some n"
  using format_nat_digits [of n] by (simp add: parse_digits_def format_nat_value)

lemma is_digit_not_sign: "is_digit c \<Longrightarrow> c \<noteq> CHR ''-'' \<and> c \<noteq> CHR ''+''"
  by (auto simp: is_digit_def less_eq_char_def)

lemma hd_format_nat: "hd (format_nat n) \<noteq> CHR ''-'' \<and> hd (format_nat n) \<noteq> CHR ''+''"
  using format_nat_digits [of n] is_digit_not_sign by (cases "format_nat n") auto

lemma ParseInt_FormatInt: "is_int64 n \<Longrightarrow> ParseInt (FormatInt n) = Some n"
  using hd_format_nat [of "nat n"] format_nat_digits [of "nat n"]
  by (auto simp: ParseInt_def FormatInt_def Let_def)

lemma ParseUint_format: "ParseUint (format_nat (unat w)) = Some w"
  using unsigned_less [of w] by (simp add: ParseUint_def)

lemma ParseInt_range: "ParseInt s = Some n \<Longrightarrow> is_int64 n"
  by (auto simp: ParseInt_def Let_def split: option.splits if_splits)

lemma FormatInt_nonempty [simp]: "FormatInt n \<noteq> []"
  using format_nat_digits by (auto simp: FormatInt_def)

end
