(* ===== verification/StoreHash.thy ===== *)
theory StoreHash
  imports Store Strconv
begin

text \<open>
  The hash operations of \<^verbatim>\<open>memstore.Store\<close> (HSet to HIncrBy of \<^verbatim>\<open>store.go\<close>), each shown
  to implement a function on the cell of its key.
\<close>

section \<open>Operations\<close>

fun hsetLoop :: "(string, bytes) fmap \<Rightarrow> string list \<Rightarrow> (string, bytes) fmap \<Rightarrow> int
    \<Rightarrow> (string, bytes) fmap \<times> int" where
  "hsetLoop flds [] h added = (h, added)"
| "hsetLoop flds (f # fs) h added =
    (case fmlookup flds f of
       None \<Rightarrow> hsetLoop flds fs h added
     | Some v \<Rightarrow> hsetLoop flds fs (fmupd f (copy_bytes v) h)
                   (if fmlookup h f = None then added + 1 else added))"

definition HSet :: "goenv \<Rightarrow> string \<Rightarrow> string \<Rightarrow> (string, bytes) fmap \<Rightarrow> Store \<Rightarrow> (storage_error + int) \<times> Store"
  where "HSet env workspace key flds s =
    (let ck = nsKey workspace key in
     onShard ck (\<lambda>l.
       case ensureKind env s ck KindHash l of
         (Inl err, l1) \<Rightarrow> (Inl err, l1)
       | (Inr e, l1) \<Rightarrow>
           (case hsetLoop flds (range_keys env flds) (eHash e) 0 of
              (h, added) \<Rightarrow>
                (Inr added, bumpVersionLocked ck (poke ck (touch (now env) (e\<lparr>eHash := h\<rparr>)) l1)))) s)"

definition HGet :: "goenv \<Rightarrow> string \<Rightarrow> string \<Rightarrow> string \<Rightarrow> Store \<Rightarrow> (storage_error + bytes \<times> bool) \<times> Store"
  where "HGet env workspace key field s =
    (let ck = nsKey workspace key in
     onShard ck (\<lambda>l.
       case getForWriteLocked ck (now env) l of
         (None, l1) \<Rightarrow> (Inr (None, False), l1)
       | (Some e, l1) \<Rightarrow>
           if eKind e \<noteq> KindHash then (Inl ErrWrongType, l1)
           else
             (case fmlookup (eHash e) field of
                None \<Rightarrow> (Inr (None, False), l1)
              | Some v \<Rightarrow> (Inr (copy_bytes v, True), poke ck (touch (now env) e) l1))) s)"

definition HGetAll :: "goenv \<Rightarrow> string \<Rightarrow> string \<Rightarrow> Store
    \<Rightarrow> (storage_error + (string, bytes) fmap \<times> bool) \<times> Store"
  where "HGetAll env workspace key s =
    (let ck = nsKey workspace key in
     onShard ck (\<lambda>l.
       case getForWriteLocked ck (now env) l of
         (None, l1) \<Rightarrow> (Inr (fmempty, False), l1)
       | (Some e, l1) \<Rightarrow>
           if eKind e \<noteq> KindHash then (Inl ErrWrongType, l1)
           else (Inr (fmmap copy_bytes (eHash e), True), l1)) s)"

fun hdelLoop :: "string list \<Rightarrow> (string, 'v) fmap \<Rightarrow> int \<Rightarrow> (string, 'v) fmap \<times> int" where
  "hdelLoop [] h removed = (h, removed)"
| "hdelLoop (f # fs) h removed =
    (if fmlookup h f \<noteq> None then hdelLoop fs (fmdrop f h) (removed + 1) else hdelLoop fs h removed)"

definition HDel :: "goenv \<Rightarrow> string \<Rightarrow> string \<Rightarrow> string list \<Rightarrow> Store \<Rightarrow> (storage_error + int) \<times> Store"
  where "HDel env workspace key flds s =
    (let ck = nsKey workspace key in
     onShard ck (\<lambda>l.
       case getForWriteLocked ck (now env) l of
         (None, l1) \<Rightarrow> (Inr 0, l1)
       | (Some e, l1) \<Rightarrow>
           if eKind e \<noteq> KindHash then (Inl ErrWrongType, l1)
           else
             (case hdelLoop flds (eHash e) 0 of
                (h, removed) \<Rightarrow>
                  (let l2 = poke ck (e\<lparr>eHash := h\<rparr>) l1
                   in if removed > 0
                      then (let l3 = (if fsize h = 0 then deleteEntryLocked ck l2 else l2)
                            in (Inr removed, bumpVersionLocked ck l3))
                      else (Inr removed, l2)))) s)"

definition HExists :: "goenv \<Rightarrow> string \<Rightarrow> string \<Rightarrow> string \<Rightarrow> Store \<Rightarrow> (storage_error + bool) \<times> Store"
  where "HExists env workspace key field s =
    (let ck = nsKey workspace key in
     onShard ck (\<lambda>l.
       case getForWriteLocked ck (now env) l of
         (None, l1) \<Rightarrow> (Inr False, l1)
       | (Some e, l1) \<Rightarrow>
           if eKind e \<noteq> KindHash then (Inl ErrWrongType, l1)
           else (Inr (fmlookup (eHash e) field \<noteq> None), l1)) s)"

definition HKeys :: "goenv \<Rightarrow> string \<Rightarrow> string \<Rightarrow> Store \<Rightarrow> (storage_error + string list \<times> bool) \<times> Store"
  where "HKeys env workspace key s =
    (let ck = nsKey workspace key in
     onShard ck (\<lambda>l.
       case getForWriteLocked ck (now env) l of
         (None, l1) \<Rightarrow> (Inr ([], False), l1)
       | (Some e, l1) \<Rightarrow>
           if eKind e \<noteq> KindHash then (Inl ErrWrongType, l1)
           else (Inr (sort (range_keys env (eHash e)), True), l1)) s)"

definition hash_at :: "(string, bytes) fmap \<Rightarrow> string \<Rightarrow> bytes" \<comment> \<open>\<^verbatim>\<open>h[k]\<close>, nil when missing\<close>
  where "hash_at h k = (case fmlookup h k of None \<Rightarrow> None | Some v \<Rightarrow> v)"

definition HVals :: "goenv \<Rightarrow> string \<Rightarrow> string \<Rightarrow> Store \<Rightarrow> (storage_error + bytes list \<times> bool) \<times> Store"
  where "HVals env workspace key s =
    (let ck = nsKey workspace key in
     onShard ck (\<lambda>l.
       case getForWriteLocked ck (now env) l of
         (None, l1) \<Rightarrow> (Inr ([], False), l1)
       | (Some e, l1) \<Rightarrow>
           if eKind e \<noteq> KindHash then (Inl ErrWrongType, l1)
           else (Inr (map (\<lambda>k. copy_bytes (hash_at (eHash e) k)) (sort (range_keys env (eHash e))), True), l1)) s)"

definition HLen :: "goenv \<Rightarrow> string \<Rightarrow> string \<Rightarrow> Store \<Rightarrow> (storage_error + int) \<times> Store"
  where "HLen env workspace key s =
    (let ck = nsKey workspace key in
     onShard ck (\<lambda>l.
       case getForWriteLocked ck (now env) l of
         (None, l1) \<Rightarrow> (Inr 0, l1)
       | (Some e, l1) \<Rightarrow>
           if eKind e \<noteq> KindHash then (Inl ErrWrongType, l1)
           else (Inr (int (fsize (eHash e))), l1)) s)"

definition HMGet :: "goenv \<Rightarrow> string \<Rightarrow> string \<Rightarrow> string list \<Rightarrow> Store \<Rightarrow> (storage_error + bytes list) \<times> Store"
  where "HMGet env workspace key flds s =
    (let ck = nsKey workspace key in
     onShard ck (\<lambda>l.
       case getForWriteLocked ck (now env) l of
         (None, l1) \<Rightarrow> (Inr (map (\<lambda>_. None) flds), l1)
       | (Some e, l1) \<Rightarrow>
           if eKind e \<noteq> KindHash then (Inl ErrWrongType, l1)
           else (Inr (map (\<lambda>f. case fmlookup (eHash e) f of None \<Rightarrow> None | Some v \<Rightarrow> copy_bytes v) flds), l1)) s)"

definition HIncrBy :: "goenv \<Rightarrow> string \<Rightarrow> string \<Rightarrow> string \<Rightarrow> int \<Rightarrow> Store \<Rightarrow> (storage_error + int) \<times> Store"
  where "HIncrBy env workspace key field delta s =
    (let ck = nsKey workspace key in
     onShard ck (\<lambda>l.
       case ensureKind env s ck KindHash l of
         (Inl err, l1) \<Rightarrow> (Inl err, l1)
       | (Inr e, l1) \<Rightarrow>
           (case (case fmlookup (eHash e) field of None \<Rightarrow> Some 0 | Some v \<Rightarrow> ParseInt (content v)) of
              None \<Rightarrow> (Inl ErrNotInteger, l1)
            | Some n \<Rightarrow>
                (let cur = int64 (n + delta);
                     e' = touch (now env) (e\<lparr>eHash := fmupd field (bytes_of (FormatInt cur)) (eHash e)\<rparr>)
                 in (Inr cur, bumpVersionLocked ck (poke ck e' l1))))) s)"

section \<open>The operations on one cell\<close>

definition cHSet :: "(string, bytes) fmap \<Rightarrow> cell option \<Rightarrow> (storage_error + int) \<times> cell option"
  where "cHSet flds c = (case or_new (VHash fmempty) c of
     (VHash h, x) \<Rightarrow> (Inr (int (fcard (fmdom flds |-| fmdom h))), Some (VHash (h ++\<^sub>f fmmap copy_bytes flds), x))
   | _ \<Rightarrow> (Inl ErrWrongType, c))"

text \<open>A read of the hash behind a key, \<open>f\<close> on the hash and \<open>z\<close> when the key is absent.\<close>

definition chash :: "'r \<Rightarrow> ((string, bytes) fmap \<Rightarrow> 'r) \<Rightarrow> cell option \<Rightarrow> (storage_error + 'r) \<times> cell option"
  where "chash z f c = (case c of
     None \<Rightarrow> (Inr z, None)
   | Some (VHash h, _) \<Rightarrow> (Inr (f h), c)
   | Some _ \<Rightarrow> (Inl ErrWrongType, c))"

definition cHGet :: "string \<Rightarrow> cell option \<Rightarrow> (storage_error + bytes \<times> bool) \<times> cell option"
  where "cHGet f = chash (None, False) (\<lambda>h. (copy_bytes (hash_at h f), fmlookup h f \<noteq> None))"

definition cHGetAll :: "cell option \<Rightarrow> (storage_error + (string, bytes) fmap \<times> bool) \<times> cell option"
  where "cHGetAll = chash (fmempty, False) (\<lambda>h. (fmmap copy_bytes h, True))"

definition cHDel :: "string list \<Rightarrow> cell option \<Rightarrow> (storage_error + int) \<times> cell option"
  where "cHDel fs c = (case c of
     None \<Rightarrow> (Inr 0, None)
   | Some (VHash h, x) \<Rightarrow>
       let h' = fmdrop_set (set fs) h; gone = fset (fmdom h) \<inter> set fs
       in (Inr (int (card gone)), drop_if (gone \<noteq> {} \<and> h' = fmempty) (VHash h', x))
   | Some _ \<Rightarrow> (Inl ErrWrongType, c))"

definition cHExists :: "string \<Rightarrow> cell option \<Rightarrow> (storage_error + bool) \<times> cell option"
  where "cHExists f = chash False (\<lambda>h. fmlookup h f \<noteq> None)"

definition cHKeys :: "cell option \<Rightarrow> (storage_error + string list \<times> bool) \<times> cell option"
  where "cHKeys = chash ([], False) (\<lambda>h. (fkeys h, True))"

definition cHVals :: "cell option \<Rightarrow> (storage_error + bytes list \<times> bool) \<times> cell option"
  where "cHVals = chash ([], False) (\<lambda>h. (map (\<lambda>k. copy_bytes (hash_at h k)) (fkeys h), True))"

definition cHLen :: "cell option \<Rightarrow> (storage_error + int) \<times> cell option"
  where "cHLen = chash 0 (\<lambda>h. int (fsize h))"

definition cHMGet :: "string list \<Rightarrow> cell option \<Rightarrow> (storage_error + bytes list) \<times> cell option"
  where "cHMGet fs = chash (map (\<lambda>_. None) fs) (\<lambda>h. map (\<lambda>f. copy_bytes (hash_at h f)) fs)"

definition cHIncrBy :: "string \<Rightarrow> int \<Rightarrow> cell option \<Rightarrow> (storage_error + int) \<times> cell option"
  where "cHIncrBy f delta c = (case or_new (VHash fmempty) c of
     (VHash h, x) \<Rightarrow>
       (case (if fmlookup h f = None then Some 0 else ParseInt (content (hash_at h f))) of
          None \<Rightarrow> (Inl ErrNotInteger, c)
        | Some n \<Rightarrow> (Inr (int64 (n + delta)),
            Some (VHash (fmupd f (bytes_of (FormatInt (int64 (n + delta)))) h), x)))
   | _ \<Rightarrow> (Inl ErrWrongType, c))"

section \<open>Loops\<close>

lemma hsetLoop_keys:
  assumes "distinct ks" "set ks \<subseteq> fmdom' flds"
  shows "hsetLoop flds ks h a =
    (h ++\<^sub>f fmmap copy_bytes (fmrestrict_set (set ks) flds), a + int (card (set ks - fmdom' h)))"
  using assms
proof (induction ks arbitrary: h a)
  case (Cons k ks)
  then obtain v where v: "fmlookup flds k = Some v" by (auto simp: fmdom'_lookup)
  let ?h = "fmupd k (copy_bytes v) h"
  have "?h ++\<^sub>f fmmap copy_bytes (fmrestrict_set (set ks) flds)
      = h ++\<^sub>f fmmap copy_bytes (fmrestrict_set (set (k # ks)) flds)"
    using v by (intro fmap_ext) (auto simp: fmlookup_dom_iff)
  moreover have "int (card (set (k # ks) - fmdom' h)) =
      int (card (set ks - fmdom' ?h)) + (if fmlookup h k = None then 1 else 0)"
  proof -
    have "set ks - fmdom' ?h = set ks - fmdom' h" using Cons.prems(1) by auto
    moreover have "set (k # ks) - fmdom' h
        = (if fmlookup h k = None then insert k (set ks - fmdom' h) else set ks - fmdom' h)"
      by (auto simp: fmdom'_lookup)
    ultimately show ?thesis using Cons.prems(1) by (simp add: fmdom'_lookup)
  qed
  ultimately show ?case using Cons v by simp
qed (auto intro: fmap_ext)

lemma hsetLoop_eq:
  assumes "env_ok env"
  shows "hsetLoop flds (range_keys env flds) h 0 =
    (h ++\<^sub>f fmmap copy_bytes flds, int (fcard (fmdom flds |-| fmdom h)))"
proof -
  have "fmrestrict_set (fmdom' flds) flds = flds"
    by (intro fmap_ext) (auto simp: fmdom'_lookup)
  moreover have "card (fmdom' flds - fmdom' h) = fcard (fmdom flds |-| fmdom h)"
    by (simp add: fcard.rep_eq fmdom'_alt_def)
  ultimately show ?thesis using assms by (simp add: hsetLoop_keys)
qed

lemma hdelLoop_eq:
  "hdelLoop fs h r = (fmdrop_set (set fs) h, r + int (card (fset (fmdom h) \<inter> set fs)))"
proof (induction fs arbitrary: h r)
  case (Cons f fs)
  show ?case
  proof (cases "fmlookup h f")
    case None
    then have "fset (fmdom h) \<inter> set (f # fs) = fset (fmdom h) \<inter> set fs"
      by (auto simp: fmdom_lookup)
    moreover have "fmdrop_set (set (f # fs)) h = fmdrop_set (set fs) h"
      using None by (intro fmap_ext) auto
    ultimately show ?thesis using None Cons by simp
  next
    case (Some v)
    have "fset (fmdom h) \<inter> set (f # fs) = insert f (fset (fmdom (fmdrop f h)) \<inter> set fs)"
      using Some by (auto simp: fmdom_lookup)
    moreover have "fmdrop_set (set fs) (fmdrop f h) = fmdrop_set (set (f # fs)) h"
      by (intro fmap_ext) auto
    ultimately show ?thesis using Some Cons by simp
  qed
qed (auto intro: fmap_ext)

lemma sort_range_keys [simp]: "env_ok env \<Longrightarrow> sort (range_keys env m) = fkeys m"
  by (rule properties_for_sort) (simp_all add: range_keys_def)

section \<open>Every operation implements its function on the cell\<close>

lemma poke_wf_hash: "eKind e = KindHash \<Longrightarrow> wf_entry e \<longrightarrow> wf_entry (e\<lparr>eHash := h\<rparr>)"
  by (simp add: wf_entry_def)

lemma HSet_implements:
  assumes "store_wf s" "env_ok env"
  shows "implements (nsKey ws key) (now env) 4 (max_evict s) (cHSet flds) s (HSet env ws key flds s)"
  unfolding HSet_def Let_def
  by (rule implements_onShard [OF assms(1)], rule limpl_ensure)
    (auto simp: cHSet_def or_new_def acell_simps hsetLoop_eq [OF assms(2)] wf_entry_def
      split: Kind.splits intro!: exI)

lemma HIncrBy_implements:
  assumes "store_wf s"
  shows "implements (nsKey ws key) (now env) 4 (max_evict s) (cHIncrBy f d) s (HIncrBy env ws key f d s)"
  unfolding HIncrBy_def Let_def
  by (rule implements_onShard [OF assms(1)], rule limpl_ensure)
    (auto simp: cHIncrBy_def or_new_def acell_simps wf_entry_def hash_at_def
      split: Kind.splits option.splits intro!: exI)

lemmas chash_defs = cHGet_def cHGetAll_def cHExists_def cHKeys_def cHVals_def cHLen_def cHMGet_def
  chash_def hash_at_def

lemma HGet_implements:
  "store_wf s \<Longrightarrow> implements (nsKey ws key) (now env) 1 0 (cHGet f) s (HGet env ws key f s)"
  unfolding HGet_def Let_def
  by (rule implements_onShard, assumption, rule limpl_get)
    (auto simp: chash_defs acell_simps raw_lookup lstep_refl split: Kind.splits option.splits intro: lstep_touch)

lemma HGetAll_implements:
  "store_wf s \<Longrightarrow> implements (nsKey ws key) (now env) 1 0 cHGetAll s (HGetAll env ws key s)"
  unfolding HGetAll_def Let_def
  by (rule implements_onShard, assumption, rule limpl_get)
    (auto simp: chash_defs acell_simps raw_lookup lstep_refl split: Kind.splits)

lemma HExists_implements:
  "store_wf s \<Longrightarrow> implements (nsKey ws key) (now env) 1 0 (cHExists f) s (HExists env ws key f s)"
  unfolding HExists_def Let_def
  by (rule implements_onShard, assumption, rule limpl_get)
    (auto simp: chash_defs acell_simps raw_lookup lstep_refl split: Kind.splits)

lemma HKeys_implements:
  "store_wf s \<Longrightarrow> env_ok env \<Longrightarrow> implements (nsKey ws key) (now env) 1 0 cHKeys s (HKeys env ws key s)"
  unfolding HKeys_def Let_def
  by (rule implements_onShard, assumption, rule limpl_get)
    (auto simp: chash_defs acell_simps raw_lookup lstep_refl split: Kind.splits)

lemma HVals_implements:
  "store_wf s \<Longrightarrow> env_ok env \<Longrightarrow> implements (nsKey ws key) (now env) 1 0 cHVals s (HVals env ws key s)"
  unfolding HVals_def Let_def
  by (rule implements_onShard, assumption, rule limpl_get)
    (auto simp: chash_defs acell_simps raw_lookup lstep_refl split: Kind.splits)

lemma HLen_implements:
  "store_wf s \<Longrightarrow> implements (nsKey ws key) (now env) 1 0 cHLen s (HLen env ws key s)"
  unfolding HLen_def Let_def
  by (rule implements_onShard, assumption, rule limpl_get)
    (auto simp: chash_defs acell_simps raw_lookup lstep_refl split: Kind.splits)

lemma HMGet_implements:
  "store_wf s \<Longrightarrow> implements (nsKey ws key) (now env) 1 0 (cHMGet fs) s (HMGet env ws key fs s)"
  unfolding HMGet_def Let_def
  by (rule implements_onShard, assumption, rule limpl_get)
    (auto simp: chash_defs acell_simps raw_lookup lstep_refl copy_bytes_def split: Kind.splits option.splits)

lemma HDel_implements:
  assumes "store_wf s"
  shows "implements (nsKey ws key) (now env) 1 0 (cHDel fs) s (HDel env ws key fs s)"
  unfolding HDel_def Let_def
proof (rule implements_onShard [OF assms], rule limpl_get, goal_cases)
  case (4 l e l1)
  show ?case
  proof (cases "eKind e = KindHash")
    case False
    with 4 show ?thesis by (auto simp: cHDel_def acell_simps raw_lookup lstep_refl split: Kind.splits)
  next
    case True
    let ?h = "fmdrop_set (set fs) (eHash e)" and ?gone = "fset (fmdom (eHash e)) \<inter> set fs"
    let ?e = "e\<lparr>eHash := ?h\<rparr>"
    have a: "acell e = (VHash (eHash e), eExpiresAt e)" "acell ?e = (VHash ?h, eExpiresAt e)"
      using True by (simp_all add: acell_simps)
    show ?thesis
    proof (cases "?gone = {}")
      case none: True
      have "?h = eHash e" using none by (intro fmap_ext, rename_tac f, case_tac "fmlookup (eHash e) f")
          (auto simp: fmdom_lookup disjoint_iff)
      then have "?e = e" by simp
      with none True 4 a show ?thesis
        using lstep_touch [OF 4(1), of e] by (simp add: cHDel_def hdelLoop_eq drop_if_def)
    next
      case False
      then have "0 < card ?gone" by (simp add: card_gt_0_iff)
      with False True 4 a show ?thesis
        using shrink_step [OF 4(1), of ?e "?h = fmempty"] poke_wf_hash [OF True, of ?h]
        by (cases "?h = fmempty") (simp_all add: cHDel_def hdelLoop_eq drop_if_def)
    qed
  qed
qed (simp_all add: cHDel_def)

end
