(* ===== verification/StoreList.thy ===== *)
theory StoreList
  imports Store
begin

text \<open>
  The list operations of \<^verbatim>\<open>memstore.Store\<close> (LPush to LRem of \<^verbatim>\<open>store.go\<close>), each shown
  to implement a function on the cell of its key. A list holds its values in order; an emptied
  list is removed together with its key.
\<close>

section \<open>Operations\<close>

definition LPush :: "goenv \<Rightarrow> string \<Rightarrow> string \<Rightarrow> bytes list \<Rightarrow> Store \<Rightarrow> (storage_error + int) \<times> Store"
  where "LPush env workspace key vals s =
    (let ck = nsKey workspace key in
     onShard ck (\<lambda>l.
       case ensureKind env s ck KindList l of
         (Inl err, l1) \<Rightarrow> (Inl err, l1)
       | (Inr e, l1) \<Rightarrow>
           (let xs = fold (\<lambda>v xs. copy_bytes v # xs) vals (eList e)
            in (Inr (int (length xs)), bumpVersionLocked ck (poke ck (touch (now env) (e\<lparr>eList := xs\<rparr>)) l1)))) s)"

definition RPush :: "goenv \<Rightarrow> string \<Rightarrow> string \<Rightarrow> bytes list \<Rightarrow> Store \<Rightarrow> (storage_error + int) \<times> Store"
  where "RPush env workspace key vals s =
    (let ck = nsKey workspace key in
     onShard ck (\<lambda>l.
       case ensureKind env s ck KindList l of
         (Inl err, l1) \<Rightarrow> (Inl err, l1)
       | (Inr e, l1) \<Rightarrow>
           (let xs = fold (\<lambda>v xs. xs @ [copy_bytes v]) vals (eList e)
            in (Inr (int (length xs)), bumpVersionLocked ck (poke ck (touch (now env) (e\<lparr>eList := xs\<rparr>)) l1)))) s)"

definition LPop :: "goenv \<Rightarrow> string \<Rightarrow> string \<Rightarrow> Store \<Rightarrow> (storage_error + bytes \<times> bool) \<times> Store"
  where "LPop env workspace key s =
    (let ck = nsKey workspace key in
     onShard ck (\<lambda>l.
       case getForWriteLocked ck (now env) l of
         (None, l1) \<Rightarrow> (Inr (None, False), l1)
       | (Some e, l1) \<Rightarrow>
           if eKind e \<noteq> KindList then (Inl ErrWrongType, l1)
           else if length (eList e) = 0 then (Inr (None, False), l1)
           else
             (let v = hd (eList e);
                  xs = tl (eList e);
                  l2 = poke ck (e\<lparr>eList := xs\<rparr>) l1;
                  l3 = (if length xs = 0 then deleteEntryLocked ck l2 else l2)
              in (Inr (v, True), bumpVersionLocked ck l3))) s)"

definition RPop :: "goenv \<Rightarrow> string \<Rightarrow> string \<Rightarrow> Store \<Rightarrow> (storage_error + bytes \<times> bool) \<times> Store"
  where "RPop env workspace key s =
    (let ck = nsKey workspace key in
     onShard ck (\<lambda>l.
       case getForWriteLocked ck (now env) l of
         (None, l1) \<Rightarrow> (Inr (None, False), l1)
       | (Some e, l1) \<Rightarrow>
           if eKind e \<noteq> KindList then (Inl ErrWrongType, l1)
           else if length (eList e) = 0 then (Inr (None, False), l1)
           else
             (let v = last (eList e);
                  xs = butlast (eList e);
                  l2 = poke ck (e\<lparr>eList := xs\<rparr>) l1;
                  l3 = (if length xs = 0 then deleteEntryLocked ck l2 else l2)
              in (Inr (v, True), bumpVersionLocked ck l3))) s)"

text \<open>The window that LRANGE, ZRANGE and ZREVRANGE compute from their two indices.\<close>

definition window :: "int \<Rightarrow> int \<Rightarrow> int \<Rightarrow> (int \<times> int) option" \<comment> \<open>\<open>None\<close> is the empty reply\<close>
  where "window start stop n =
    (let start1 = normalizeIndex start n;
         stop1 = normalizeIndex stop n;
         start2 = (if start1 < 0 then 0 else start1);
         stop2 = (if stop1 \<ge> n then n - 1 else stop1)
     in if start2 > stop2 \<or> n = 0 then None else Some (start2, stop2))"

definition LRange :: "goenv \<Rightarrow> string \<Rightarrow> string \<Rightarrow> int \<Rightarrow> int \<Rightarrow> Store \<Rightarrow> (storage_error + bytes list) \<times> Store"
  where "LRange env workspace key start stop s =
    (let ck = nsKey workspace key in
     onShard ck (\<lambda>l.
       case getForWriteLocked ck (now env) l of
         (None, l1) \<Rightarrow> (Inr [], l1)
       | (Some e, l1) \<Rightarrow>
           if eKind e \<noteq> KindList then (Inl ErrWrongType, l1)
           else
             (case window start stop (int (length (eList e))) of
                None \<Rightarrow> (Inr [], l1)
              | Some (a, b) \<Rightarrow> (Inr (map (\<lambda>i. copy_bytes (eList e ! nat i)) [a..b]), l1))) s)"

definition LLen :: "goenv \<Rightarrow> string \<Rightarrow> string \<Rightarrow> Store \<Rightarrow> (storage_error + int) \<times> Store"
  where "LLen env workspace key s =
    (let ck = nsKey workspace key in
     onShard ck (\<lambda>l.
       case getForWriteLocked ck (now env) l of
         (None, l1) \<Rightarrow> (Inr 0, l1)
       | (Some e, l1) \<Rightarrow>
           if eKind e \<noteq> KindList then (Inl ErrWrongType, l1)
           else (Inr (int (length (eList e))), l1)) s)"

definition LIndex :: "goenv \<Rightarrow> string \<Rightarrow> string \<Rightarrow> int \<Rightarrow> Store \<Rightarrow> (storage_error + bytes \<times> bool) \<times> Store"
  where "LIndex env workspace key index s =
    (let ck = nsKey workspace key in
     onShard ck (\<lambda>l.
       case getForWriteLocked ck (now env) l of
         (None, l1) \<Rightarrow> (Inr (None, False), l1)
       | (Some e, l1) \<Rightarrow>
           if eKind e \<noteq> KindList then (Inl ErrWrongType, l1)
           else
             (let n = int (length (eList e));
                  idx = normalizeIndex index n
              in if idx < 0 \<or> idx \<ge> n then (Inr (None, False), l1)
                 else (Inr (copy_bytes (eList e ! nat idx), True), l1))) s)"

definition LSet :: "goenv \<Rightarrow> string \<Rightarrow> string \<Rightarrow> int \<Rightarrow> bytes \<Rightarrow> Store \<Rightarrow> (storage_error + unit) \<times> Store"
  where "LSet env workspace key index val s =
    (let ck = nsKey workspace key in
     onShard ck (\<lambda>l.
       case getForWriteLocked ck (now env) l of
         (None, l1) \<Rightarrow> (Inl ErrNoSuchKey, l1)
       | (Some e, l1) \<Rightarrow>
           if eKind e \<noteq> KindList then (Inl ErrWrongType, l1)
           else
             (let n = int (length (eList e));
                  idx = normalizeIndex index n
              in if idx < 0 \<or> idx \<ge> n then (Inl ErrIndexOutOfRange, l1)
                 else
                   (Inr (), bumpVersionLocked ck
                      (poke ck (e\<lparr>eList := (eList e)[nat idx := copy_bytes val]\<rparr>) l1)))) s)"

text \<open>
  One pass of \<^verbatim>\<open>LRem\<close> over a list: \<open>again removed\<close> tells whether another match may still be
  removed. The kept values and the count of removed ones.
\<close>

fun lremLoop :: "(int \<Rightarrow> bool) \<Rightarrow> bytes \<Rightarrow> bytes list \<Rightarrow> int \<Rightarrow> bytes list \<times> int" where
  "lremLoop again val [] removed = ([], removed)"
| "lremLoop again val (v # vs) removed =
    (if bytes_equal v val \<and> again removed then lremLoop again val vs (removed + 1)
     else (case lremLoop again val vs removed of (out, r) \<Rightarrow> (v # out, r)))"

definition lrem :: "int \<Rightarrow> bytes \<Rightarrow> bytes list \<Rightarrow> bytes list \<times> int"
  where "lrem cnt val xs =
    (if cnt \<ge> 0 then lremLoop (\<lambda>removed. cnt = 0 \<or> removed < cnt) val xs 0
     else
       let limit = int64 (- cnt)
       in case lremLoop (\<lambda>removed. removed < limit) val (rev xs) 0 of (tmp, r) \<Rightarrow> (rev tmp, r))"

definition LRem :: "goenv \<Rightarrow> string \<Rightarrow> string \<Rightarrow> int \<Rightarrow> bytes \<Rightarrow> Store \<Rightarrow> (storage_error + int) \<times> Store"
  where "LRem env workspace key cnt val s =
    (let ck = nsKey workspace key in
     onShard ck (\<lambda>l.
       case getForWriteLocked ck (now env) l of
         (None, l1) \<Rightarrow> (Inr 0, l1)
       | (Some e, l1) \<Rightarrow>
           if eKind e \<noteq> KindList then (Inl ErrWrongType, l1)
           else
             (case lrem cnt val (eList e) of
                (xs, removed) \<Rightarrow>
                  (let l2 = poke ck (e\<lparr>eList := xs\<rparr>) l1
                   in if removed > 0
                      then (let l3 = (if length xs = 0 then deleteEntryLocked ck l2 else l2)
                            in (Inr removed, bumpVersionLocked ck l3))
                      else (Inr removed, l2)))) s)"

section \<open>The operations on one cell\<close>

definition clist :: "(storage_error + 'r) \<Rightarrow> (bytes list \<Rightarrow> (storage_error + 'r) \<times> bytes list)
    \<Rightarrow> cell option \<Rightarrow> (storage_error + 'r) \<times> cell option"
  where "clist z f c = (case c of
     None \<Rightarrow> (z, None)
   | Some (VList xs, x) \<Rightarrow> (case f xs of (r, ys) \<Rightarrow> (r, drop_if (ys = [] \<and> xs \<noteq> []) (VList ys, x)))
   | Some _ \<Rightarrow> (Inl ErrWrongType, c))"

definition cPush :: "(bytes list \<Rightarrow> bytes list) \<Rightarrow> cell option \<Rightarrow> (storage_error + int) \<times> cell option"
  where "cPush f c = (case or_new (VList []) c of
     (VList xs, x) \<Rightarrow> (Inr (int (length (f xs))), Some (VList (f xs), x))
   | _ \<Rightarrow> (Inl ErrWrongType, c))"

definition cLPush :: "bytes list \<Rightarrow> cell option \<Rightarrow> (storage_error + int) \<times> cell option"
  where "cLPush vs = cPush (\<lambda>xs. rev (map copy_bytes vs) @ xs)"

definition cRPush :: "bytes list \<Rightarrow> cell option \<Rightarrow> (storage_error + int) \<times> cell option"
  where "cRPush vs = cPush (\<lambda>xs. xs @ map copy_bytes vs)"

definition cLPop :: "cell option \<Rightarrow> (storage_error + bytes \<times> bool) \<times> cell option"
  where "cLPop = clist (Inr (None, False))
    (\<lambda>xs. (Inr (if xs = [] then (None, False) else (hd xs, True)), tl xs))"

definition cRPop :: "cell option \<Rightarrow> (storage_error + bytes \<times> bool) \<times> cell option"
  where "cRPop = clist (Inr (None, False))
    (\<lambda>xs. (Inr (if xs = [] then (None, False) else (last xs, True)), butlast xs))"

text \<open>The slice between two possibly negative indices, both inclusive.\<close>

definition slice :: "int \<Rightarrow> int \<Rightarrow> 'a list \<Rightarrow> 'a list"
  where "slice start stop xs =
    (let n = int (length xs);
         a = (if start < 0 then max 0 (n + start) else start);
         b = (if stop < 0 then n + stop else stop)
     in take (nat (b + 1 - a)) (drop (nat a) xs))"

definition cLRange :: "int \<Rightarrow> int \<Rightarrow> cell option \<Rightarrow> (storage_error + bytes list) \<times> cell option"
  where "cLRange a b = clist (Inr []) (\<lambda>xs. (Inr (map copy_bytes (slice a b xs)), xs))"

definition cLLen :: "cell option \<Rightarrow> (storage_error + int) \<times> cell option"
  where "cLLen = clist (Inr 0) (\<lambda>xs. (Inr (int (length xs)), xs))"

definition list_index :: "int \<Rightarrow> 'a list \<Rightarrow> nat option" \<comment> \<open>a position, counted from the end when negative\<close>
  where "list_index i xs =
    (let j = (if i < 0 then int (length xs) + i else i)
     in if 0 \<le> j \<and> j < int (length xs) then Some (nat j) else None)"

definition cLIndex :: "int \<Rightarrow> cell option \<Rightarrow> (storage_error + bytes \<times> bool) \<times> cell option"
  where "cLIndex i = clist (Inr (None, False)) (\<lambda>xs. (Inr (case list_index i xs of
     None \<Rightarrow> (None, False) | Some j \<Rightarrow> (copy_bytes (xs ! j), True)), xs))"

definition cLSet :: "int \<Rightarrow> bytes \<Rightarrow> cell option \<Rightarrow> (storage_error + unit) \<times> cell option"
  where "cLSet i v = clist (Inl ErrNoSuchKey) (\<lambda>xs. case list_index i xs of
     None \<Rightarrow> (Inl ErrIndexOutOfRange, xs) | Some j \<Rightarrow> (Inr (), xs[j := copy_bytes v]))"

text \<open>Without the first \<open>n\<close> occurrences of a value.\<close>

fun remove_n :: "nat \<Rightarrow> string \<Rightarrow> bytes list \<Rightarrow> bytes list" where
  "remove_n n v [] = []"
| "remove_n n v (x # xs) =
    (if content x = v \<and> 0 < n then remove_n (n - 1) v xs else x # remove_n n v xs)"

definition remove_count :: "int \<Rightarrow> string \<Rightarrow> bytes list \<Rightarrow> bytes list"
  where "remove_count cnt v xs =
    (if cnt = 0 then filter (\<lambda>x. content x \<noteq> v) xs
     else if cnt > 0 then remove_n (nat cnt) v xs
     else rev (remove_n (nat (int64 (- cnt))) v (rev xs)))"

definition cLRem :: "int \<Rightarrow> bytes \<Rightarrow> cell option \<Rightarrow> (storage_error + int) \<times> cell option"
  where "cLRem cnt v = clist (Inr 0)
    (\<lambda>xs. let ys = remove_count cnt (content v) xs in (Inr (int (length xs - length ys)), ys))"

section \<open>Loops and windows\<close>

lemma fold_lpush: "fold (\<lambda>v xs. copy_bytes v # xs) vs xs = rev (map copy_bytes vs) @ xs"
  by (induction vs arbitrary: xs) auto

lemma fold_rpush: "fold (\<lambda>v xs. xs @ [copy_bytes v]) vs xs = xs @ map copy_bytes vs"
  by (induction vs arbitrary: xs) auto

lemma map_upto_slice:
  assumes "0 \<le> a" "a \<le> b" "b < int (length xs)"
  shows "map (\<lambda>i. f (xs ! nat i)) [a..b] = map f (take (nat (b + 1 - a)) (drop (nat a) xs))"
proof (rule nth_equalityI)
  show len: "length (map (\<lambda>i. f (xs ! nat i)) [a..b]) = length (map f (take (nat (b + 1 - a)) (drop (nat a) xs)))"
    using assms by auto
  fix i
  assume "i < length (map (\<lambda>i. f (xs ! nat i)) [a..b])"
  then have i: "i < nat (b + 1 - a)" using assms by simp
  then have "nat a + i < length xs" using assms by linarith
  moreover have "nat (a + int i) = nat a + i" using assms by simp
  moreover have "[a..b] ! i = a + int i" using i by (intro nth_upto) linarith
  ultimately show "map (\<lambda>i. f (xs ! nat i)) [a..b] ! i = map f (take (nat (b + 1 - a)) (drop (nat a) xs)) ! i"
    using i assms by (simp add: nth_append)
qed

lemma window_slice:
  "(case window start stop (int (length xs)) of
      None \<Rightarrow> [] | Some (a, b) \<Rightarrow> map (\<lambda>i. f (xs ! nat i)) [a..b]) = map f (slice start stop xs)"
proof -
  let ?n = "int (length xs)"
  define a where "a = (let i = normalizeIndex start ?n in if i < 0 then 0 else i)"
  define b where "b = (let i = normalizeIndex stop ?n in if i \<ge> ?n then ?n - 1 else i)"
  define b' where "b' = (if stop < 0 then ?n + stop else stop)"
  have a: "0 \<le> a" "a = (if start < 0 then max 0 (?n + start) else start)"
    by (auto simp: a_def normalizeIndex_def Let_def)
  have b: "b = min b' (?n - 1)" by (auto simp: b_def b'_def normalizeIndex_def Let_def)
  have s: "slice start stop xs = take (nat (b' + 1 - a)) (drop (nat a) xs)"
    unfolding slice_def b'_def a(2) Let_def ..
  have w: "window start stop ?n = (if a > b \<or> ?n = 0 then None else Some (a, b))"
    unfolding window_def a_def b_def Let_def ..
  show ?thesis
  proof (cases "a > b \<or> ?n = 0")
    case True
    then have "slice start stop xs = []" unfolding s using a b by auto
    with True w show ?thesis by simp
  next
    case False
    then have "take (nat (b' + 1 - a)) (drop (nat a) xs) = take (nat (b + 1 - a)) (drop (nat a) xs)"
      using a b by (cases "b' \<le> ?n - 1") auto
    moreover have "map (\<lambda>i. f (xs ! nat i)) [a..b] = map f (take (nat (b + 1 - a)) (drop (nat a) xs))"
      using False a(1) b by (intro map_upto_slice) linarith+
    ultimately show ?thesis using False w s by simp
  qed
qed

lemma remove_n_length [simp]: "length (remove_n n v xs) \<le> length xs"
  by (induction n v xs rule: remove_n.induct) auto

lemma lremLoop_bounded:
  "lremLoop (\<lambda>r. r < c) val xs r =
    (remove_n (nat (c - r)) (content val) xs,
     r + int (length xs - length (remove_n (nat (c - r)) (content val) xs)))"
proof (induction xs arbitrary: r)
  case (Cons x xs)
  have "nat (c - r) - 1 = nat (c - (r + 1))" by arith
  moreover have "Suc (length xs) - length (remove_n n v xs) = Suc (length xs - length (remove_n n v xs))" for n v
    by (simp add: Suc_diff_le)
  ultimately show ?case using Cons by (simp add: bytes_equal_def)
qed simp

lemma lremLoop_all:
  "lremLoop (\<lambda>r. True) val xs r =
    (filter (\<lambda>x. content x \<noteq> content val) xs,
     r + int (length xs - length (filter (\<lambda>x. content x \<noteq> content val) xs)))"
  by (induction xs arbitrary: r) (auto simp: bytes_equal_def Suc_diff_le)

lemma lrem_eq:
  "lrem cnt val xs =
    (remove_count cnt (content val) xs, int (length xs - length (remove_count cnt (content val) xs)))"
  by (auto simp: lrem_def remove_count_def Let_def lremLoop_bounded lremLoop_all)

lemma remove_n_same: "length (remove_n n v xs) = length xs \<Longrightarrow> remove_n n v xs = xs"
proof (induction n v xs rule: remove_n.induct)
  case (2 n v x xs)
  have "length (remove_n (n - 1) v xs) \<noteq> Suc (length xs)"
    using remove_n_length [of "n - 1" v xs] by linarith
  with 2 show ?case by (auto split: if_splits)
qed simp

lemma remove_count_same:
  assumes "length (remove_count cnt v xs) = length xs"
  shows "remove_count cnt v xs = xs"
proof (cases "cnt = 0")
  case True
  with assms show ?thesis by (simp add: remove_count_def) (metis filter_id_conv length_filter_less nless_le)
next
  case False
  with assms show ?thesis
    using remove_n_same [of _ v xs] remove_n_same [of "nat (int64 (- cnt))" v "rev xs"]
    by (auto simp: remove_count_def rev_swap split: if_splits)
qed

lemma remove_count_length: "length (remove_count cnt v xs) \<le> length xs"
  using remove_n_length [of _ v "rev xs"] by (auto simp: remove_count_def)

section \<open>Every operation implements its function on the cell\<close>

lemma LPush_implements:
  assumes "store_wf s"
  shows "implements (nsKey ws key) (now env) 4 (max_evict s) (cLPush vs) s (LPush env ws key vs s)"
  unfolding LPush_def Let_def
  by (rule implements_onShard [OF assms], rule limpl_ensure)
    (auto simp: cLPush_def cPush_def or_new_def acell_simps fold_lpush wf_entry_def
      split: Kind.splits intro!: exI)

lemma RPush_implements:
  assumes "store_wf s"
  shows "implements (nsKey ws key) (now env) 4 (max_evict s) (cRPush vs) s (RPush env ws key vs s)"
  unfolding RPush_def Let_def
  by (rule implements_onShard [OF assms], rule limpl_ensure)
    (auto simp: cRPush_def cPush_def or_new_def acell_simps fold_rpush wf_entry_def
      split: Kind.splits intro!: exI)

text \<open>The operations that start with \<^verbatim>\<open>getForWriteLocked\<close>: only the branch on a live list is left.\<close>

lemma limpl_list:
  assumes g: "g = clist z f"
    and list: "\<And>e l. fmlookup (data l) ck = Some e \<Longrightarrow> eKind e = KindList \<Longrightarrow>
      fst (B e l) = fst (f (eList e)) \<and> lstep ck 1 0 l (snd (B e l)) \<and>
      raw (snd (B e l)) ck = drop_if (snd (f (eList e)) = [] \<and> eList e \<noteq> []) (VList (snd (f (eList e))), eExpiresAt e)"
  shows "limpl ck t 1 0 g l
    (case getForWriteLocked ck t l of (eo, l1) \<Rightarrow> (case eo of
       None \<Rightarrow> (z, l1)
     | Some e \<Rightarrow> if eKind e \<noteq> KindList then (Inl ErrWrongType, l1) else B e l1))"
proof (rule limpl_get)
  fix e and l1 :: lshard
  assume e: "fmlookup (data l1) ck = Some e" "\<not> expired e t"
  show "fst (if eKind e \<noteq> KindList then (Inl ErrWrongType, l1) else B e l1) = fst (g (Some (acell e))) \<and>
    raw (snd (if eKind e \<noteq> KindList then (Inl ErrWrongType, l1) else B e l1)) ck = snd (g (Some (acell e))) \<and>
    lstep ck 1 0 l1 (snd (if eKind e \<noteq> KindList then (Inl ErrWrongType, l1) else B e l1))"
  proof (cases "eKind e = KindList")
    case True
    with list [OF e(1) True] show ?thesis by (simp add: g clist_def acell_simps split_beta)
  next
    case False
    with e show ?thesis by (auto simp: g clist_def acell_simps raw_lookup lstep_refl split: Kind.splits)
  qed
qed (simp_all add: g clist_def)

lemma raw_list [simp]:
  "fmlookup (data l) ck = Some e \<Longrightarrow> eKind e = KindList \<Longrightarrow> raw l ck = Some (VList (eList e), eExpiresAt e)"
  by (simp add: raw_lookup acell_simps)

lemma acell_list: "eKind e = KindList \<Longrightarrow> acell (e\<lparr>eList := xs\<rparr>) = (VList xs, eExpiresAt e)"
  by (simp add: acell_simps)

lemma wf_list: "eKind e = KindList \<Longrightarrow> wf_entry e \<Longrightarrow> wf_entry (e\<lparr>eList := xs\<rparr>)"
  by (simp add: wf_entry_def)

lemma LPop_implements:
  assumes "store_wf s"
  shows "implements (nsKey ws key) (now env) 1 0 cLPop s (LPop env ws key s)"
  unfolding LPop_def Let_def
proof (rule implements_onShard [OF assms], rule limpl_list [OF cLPop_def], goal_cases)
  case (1 l e l1)
  then show ?case
    using shrink_step [OF 1(1), of "e\<lparr>eList := tl (eList e)\<rparr>" "tl (eList e) = []"]
    by (cases "eList e"; cases "tl (eList e) = []") (simp_all add: acell_list wf_list drop_if_def lstep_refl)
qed

lemma RPop_implements:
  assumes "store_wf s"
  shows "implements (nsKey ws key) (now env) 1 0 cRPop s (RPop env ws key s)"
  unfolding RPop_def Let_def
proof (rule implements_onShard [OF assms], rule limpl_list [OF cRPop_def], goal_cases)
  case (1 l e l1)
  then show ?case
    using shrink_step [OF 1(1), of "e\<lparr>eList := butlast (eList e)\<rparr>" "butlast (eList e) = []"]
    by (cases "eList e" rule: rev_cases; cases "butlast (eList e) = []")
      (simp_all add: acell_list wf_list drop_if_def lstep_refl)
qed

lemma LRange_implements:
  assumes "store_wf s"
  shows "implements (nsKey ws key) (now env) 1 0 (cLRange a b) s (LRange env ws key a b s)"
  unfolding LRange_def Let_def
proof (rule implements_onShard [OF assms], rule limpl_list [OF cLRange_def], goal_cases)
  case (1 l e l1)
  then show ?case
    using window_slice [where start = a and stop = b and xs = "eList e" and f = copy_bytes]
    by (auto simp: drop_if_def lstep_refl split: option.splits)
qed

lemma LLen_implements:
  assumes "store_wf s"
  shows "implements (nsKey ws key) (now env) 1 0 cLLen s (LLen env ws key s)"
  unfolding LLen_def Let_def
  by (rule implements_onShard [OF assms], rule limpl_list [OF cLLen_def])
    (auto simp: drop_if_def lstep_refl)

lemma LIndex_implements:
  assumes "store_wf s"
  shows "implements (nsKey ws key) (now env) 1 0 (cLIndex i) s (LIndex env ws key i s)"
  unfolding LIndex_def Let_def
  by (rule implements_onShard [OF assms], rule limpl_list [OF cLIndex_def])
    (auto simp: drop_if_def lstep_refl list_index_def normalizeIndex_def Let_def)

lemma LSet_implements:
  assumes "store_wf s"
  shows "implements (nsKey ws key) (now env) 1 0 (cLSet i v) s (LSet env ws key i v s)"
  unfolding LSet_def Let_def
proof (rule implements_onShard [OF assms], rule limpl_list [OF cLSet_def], goal_cases)
  case (1 l e l1)
  have "lstep (nsKey ws key) 1 0 l1 (bumpVersionLocked (nsKey ws key) (poke (nsKey ws key) (e\<lparr>eList := xs\<rparr>) l1))" for xs
    by (rule lstep_poke [OF _ 1(1)]) (use 1 wf_list in auto)
  with 1 show ?case
    by (auto simp: drop_if_def lstep_refl list_index_def normalizeIndex_def acell_list Let_def)
qed

lemma LRem_implements:
  assumes "store_wf s"
  shows "implements (nsKey ws key) (now env) 1 0 (cLRem c v) s (LRem env ws key c v s)"
  unfolding LRem_def Let_def
proof (rule implements_onShard [OF assms], rule limpl_list [OF cLRem_def], goal_cases)
  case (1 l e l1)
  let ?xs = "eList e" and ?ys = "remove_count c (content v) (eList e)"
  show ?case
  proof (cases "length ?ys = length ?xs")
    case True
    then have "?ys = ?xs" by (rule remove_count_same)
    moreover have "e\<lparr>eList := ?xs\<rparr> = e" by simp
    ultimately show ?thesis
      using 1 lstep_touch [OF 1(1), of e] by (simp add: lrem_eq drop_if_def acell_simps Let_def)
  next
    case False
    then have less: "length ?ys < length ?xs" using remove_count_length [of c "content v" ?xs] by simp
    then have "?xs \<noteq> []" by auto
    with less 1 show ?thesis
      using shrink_step [OF 1(1), of "e\<lparr>eList := ?ys\<rparr>" "?ys = []"]
      by (cases "?ys = []") (simp_all add: lrem_eq acell_list wf_list drop_if_def Let_def)
  qed
qed

end
