(* ===== verification/SortSlice.thy ===== *)
theory SortSlice
  imports Prelude
begin

text \<open>
  Go's \<^verbatim>\<open>sort.Slice\<close>, modelled by the insertion sort it runs on short slices. The comparison
  functions of the program order the elements they sort strictly and totally (\<open>orders\<close>) except
  where the user theories say so; then \<open>sorted_unique\<close> makes the result independent of the
  algorithm and of the order of the input.
\<close>

section \<open>The sort\<close>

fun sink :: "('a \<Rightarrow> 'a \<Rightarrow> bool) \<Rightarrow> 'a \<Rightarrow> 'a list \<Rightarrow> 'a list" \<comment> \<open>swaps towards the front, on the reversed prefix\<close>
where
  "sink lt x [] = [x]"
| "sink lt x (y # ys) = (if lt x y then y # sink lt x ys else x # y # ys)"

definition insertionSort :: "('a \<Rightarrow> 'a \<Rightarrow> bool) \<Rightarrow> 'a list \<Rightarrow> 'a list"
  where "insertionSort lt xs = rev (fold (sink lt) xs [])"

section \<open>Its result is the sorted permutation\<close>

lemma mset_sink [simp]: "mset (sink lt x ys) = add_mset x (mset ys)"
  by (induction ys) auto

lemma mset_insertionSort [simp]: "mset (insertionSort lt xs) = mset xs"
proof -
  have "mset (fold (sink lt) xs ys) = mset xs + mset ys" for ys
    by (induction xs arbitrary: ys) auto
  then show ?thesis by (simp add: insertionSort_def)
qed

lemma set_insertionSort [simp]: "set (insertionSort lt xs) = set xs"
  by (metis mset_insertionSort set_mset_mset)

text \<open>A relation that orders the elements of a set strictly and totally.\<close>

definition orders :: "('a \<Rightarrow> 'a \<Rightarrow> bool) \<Rightarrow> 'a set \<Rightarrow> bool"
  where "orders lt A \<longleftrightarrow>
    (\<forall>x\<in>A. \<not> lt x x) \<and> (\<forall>x\<in>A. \<forall>y\<in>A. \<forall>z\<in>A. lt x y \<longrightarrow> lt y z \<longrightarrow> lt x z) \<and>
    (\<forall>x\<in>A. \<forall>y\<in>A. x \<noteq> y \<longrightarrow> lt x y \<or> lt y x)"

lemma orders_subset: "orders lt A \<Longrightarrow> B \<subseteq> A \<Longrightarrow> orders lt B"
  unfolding orders_def by (intro conjI ballI impI) (meson subsetD)+

lemma orders_asym: "orders lt A \<Longrightarrow> x \<in> A \<Longrightarrow> y \<in> A \<Longrightarrow> lt x y \<Longrightarrow> \<not> lt y x"
  unfolding orders_def by blast

lemma sink_sorted:
  assumes "orders lt A" "x \<in> A" "set ys \<subseteq> A" "x \<notin> set ys" "sorted_wrt (\<lambda>a b. lt b a) ys"
  shows "sorted_wrt (\<lambda>a b. lt b a) (sink lt x ys)"
  using assms
proof (induction ys)
  case (Cons y ys)
  have sub: "set (sink lt x ys) = insert x (set ys)"
    by (metis mset_sink set_mset_add_mset_insert set_mset_mset)
  have tr: "lt b x" if "lt b y" "lt y x" "b \<in> set ys" for b
    using Cons.prems that unfolding orders_def by (metis insert_subset list.simps(15) subset_iff)
  have tot: "lt y x" if "\<not> lt x y"
    using Cons.prems that unfolding orders_def by (metis insert_subset list.simps(15) list.set_intros(1))
  show ?case using Cons tr tot sub by auto
qed simp

lemma insertionSort_sorted:
  assumes "orders lt (set xs)" "distinct xs"
  shows "sorted_wrt lt (insertionSort lt xs)"
proof -
  have "sorted_wrt (\<lambda>a b. lt b a) (fold (sink lt) zs ys)"
    if "set zs \<subseteq> set xs" "set ys \<subseteq> set xs" "set zs \<inter> set ys = {}" "distinct zs"
      "sorted_wrt (\<lambda>a b. lt b a) ys" for zs ys
    using that
  proof (induction zs arbitrary: ys)
    case (Cons z zs)
    have "set (sink lt z ys) = insert z (set ys)"
      by (metis mset_sink set_mset_add_mset_insert set_mset_mset)
    moreover have "sorted_wrt (\<lambda>a b. lt b a) (sink lt z ys)"
      by (rule sink_sorted [OF assms(1)]) (use Cons.prems in auto)
    ultimately show ?case using Cons by simp
  qed simp
  from this [of xs "[]"] assms(2) show ?thesis by (simp add: insertionSort_def sorted_wrt_rev)
qed

lemma sorted_unique:
  assumes "orders lt (set xs)" "sorted_wrt lt xs" "sorted_wrt lt ys" "mset xs = mset ys"
  shows "xs = ys"
  using assms
proof (induction xs arbitrary: ys)
  case (Cons x xs)
  then obtain y ys' where ys: "ys = y # ys'" by (cases ys) auto
  have sets: "set (x # xs) = set (y # ys')" using Cons.prems(4) ys by (metis set_mset_mset)
  have "x = y"
  proof (rule ccontr)
    assume "x \<noteq> y"
    then have "y \<in> set xs" "x \<in> set ys'" using sets by auto
    then have "lt x y" "lt y x" using Cons.prems(2,3) ys by auto
    with orders_asym [OF Cons.prems(1), of x y] \<open>y \<in> set xs\<close> show False by simp
  qed
  moreover have "orders lt (set xs)" by (rule orders_subset [OF Cons.prems(1)]) auto
  ultimately show ?case using Cons ys by auto
qed simp

text \<open>Two inputs with the same elements sort to the same list, whatever their order.\<close>

lemma insertionSort_cong_mset:
  assumes "orders lt (set xs)" "distinct xs" "mset xs = mset ys"
  shows "insertionSort lt xs = insertionSort lt ys"
proof (rule sorted_unique)
  have s: "set xs = set ys" and d: "distinct ys"
    using assms(2,3) mset_eq_setD mset_eq_imp_distinct_iff by blast+
  show "orders lt (set (insertionSort lt xs))" using assms(1) by simp
  show "sorted_wrt lt (insertionSort lt xs)" by (rule insertionSort_sorted [OF assms(1,2)])
  show "sorted_wrt lt (insertionSort lt ys)" by (rule insertionSort_sorted) (use assms(1) s d in simp_all)
  show "mset (insertionSort lt xs) = mset (insertionSort lt ys)" using assms(3) by simp
qed

end
