(* ===== verification/StoreZSet.thy ===== *)
theory StoreZSet
  imports StoreHash StoreList SortSlice
begin

text \<open>
  The sorted set operations of \<^verbatim>\<open>memstore.Store\<close> (sortedMembers to ZRangeByScore of
  \<^verbatim>\<open>store.go\<close>). \<^verbatim>\<open>sort.Slice\<close> is the insertion sort of \<open>SortSlice\<close>;
  \<open>sortedMembers_unique\<close> shows that, as long as no score is NaN, every sorting algorithm returns
  this list, whatever the iteration order of the map was.
\<close>

section \<open>Ordering\<close>

record ZMember =
  Member :: string
  Score :: float64

definition zless :: "ZMember \<Rightarrow> ZMember \<Rightarrow> bool"
  where "zless a b =
    (if \<not> f64_eq (Score a) (Score b) then f64_lt (Score a) (Score b) else Member a < Member b)"

definition zmember :: "(string, float64) fmap \<Rightarrow> string \<Rightarrow> ZMember"
  where "zmember z m = \<lparr>Member = m, Score = (case fmlookup z m of None \<Rightarrow> f64_zero | Some sc \<Rightarrow> sc)\<rparr>"

definition sortedMembers :: "goenv \<Rightarrow> (string, float64) fmap \<Rightarrow> ZMember list"
  where "sortedMembers env z = insertionSort zless (map (zmember z) (range_keys env z))"

section \<open>Operations\<close>

fun zaddLoop :: "(string, float64) fmap \<Rightarrow> string list \<Rightarrow> (string, float64) fmap \<Rightarrow> int
    \<Rightarrow> (string, float64) fmap \<times> int" where
  "zaddLoop members [] z added = (z, added)"
| "zaddLoop members (m # ms) z added =
    (case fmlookup members m of
       None \<Rightarrow> zaddLoop members ms z added
     | Some score \<Rightarrow> zaddLoop members ms (fmupd m score z)
                       (if fmlookup z m = None then added + 1 else added))"

definition ZAdd :: "goenv \<Rightarrow> string \<Rightarrow> string \<Rightarrow> (string, float64) fmap \<Rightarrow> Store \<Rightarrow> (storage_error + int) \<times> Store"
  where "ZAdd env workspace key members s =
    (let ck = nsKey workspace key in
     onShard ck (\<lambda>l.
       case ensureKind env s ck KindZSet l of
         (Inl err, l1) \<Rightarrow> (Inl err, l1)
       | (Inr e, l1) \<Rightarrow>
           (case zaddLoop members (range_keys env members) (eZSet e) 0 of
              (z, added) \<Rightarrow>
                (Inr added, bumpVersionLocked ck (poke ck (touch (now env) (e\<lparr>eZSet := z\<rparr>)) l1)))) s)"

definition ZRem :: "goenv \<Rightarrow> string \<Rightarrow> string \<Rightarrow> string list \<Rightarrow> Store \<Rightarrow> (storage_error + int) \<times> Store"
  where "ZRem env workspace key members s =
    (let ck = nsKey workspace key in
     onShard ck (\<lambda>l.
       case getForWriteLocked ck (now env) l of
         (None, l1) \<Rightarrow> (Inr 0, l1)
       | (Some e, l1) \<Rightarrow>
           if eKind e \<noteq> KindZSet then (Inl ErrWrongType, l1)
           else
             (case hdelLoop members (eZSet e) 0 of
                (z, removed) \<Rightarrow>
                  (let l2 = poke ck (e\<lparr>eZSet := z\<rparr>) l1
                   in if removed > 0
                      then (let l3 = (if fsize z = 0 then deleteEntryLocked ck l2 else l2)
                            in (Inr removed, bumpVersionLocked ck l3))
                      else (Inr removed, l2)))) s)"

definition zrange :: "int \<Rightarrow> int \<Rightarrow> ZMember list \<Rightarrow> ZMember list" \<comment> \<open>the common tail of \<^verbatim>\<open>ZRange\<close> and \<^verbatim>\<open>ZRevRange\<close>\<close>
  where "zrange start stop xs =
    (case window start stop (int (length xs)) of
       None \<Rightarrow> []
     | Some (a, b) \<Rightarrow> drop (nat a) (take (nat (b + 1)) xs))"

definition ZRange :: "goenv \<Rightarrow> string \<Rightarrow> string \<Rightarrow> int \<Rightarrow> int \<Rightarrow> Store \<Rightarrow> (storage_error + ZMember list) \<times> Store"
  where "ZRange env workspace key start stop s =
    (let ck = nsKey workspace key in
     onShard ck (\<lambda>l.
       case getForWriteLocked ck (now env) l of
         (None, l1) \<Rightarrow> (Inr [], l1)
       | (Some e, l1) \<Rightarrow>
           if eKind e \<noteq> KindZSet then (Inl ErrWrongType, l1)
           else (Inr (zrange start stop (sortedMembers env (eZSet e))), l1)) s)"

definition ZRevRange :: "goenv \<Rightarrow> string \<Rightarrow> string \<Rightarrow> int \<Rightarrow> int \<Rightarrow> Store \<Rightarrow> (storage_error + ZMember list) \<times> Store"
  where "ZRevRange env workspace key start stop s =
    (let ck = nsKey workspace key in
     onShard ck (\<lambda>l.
       case getForWriteLocked ck (now env) l of
         (None, l1) \<Rightarrow> (Inr [], l1)
       | (Some e, l1) \<Rightarrow>
           if eKind e \<noteq> KindZSet then (Inl ErrWrongType, l1)
           else (Inr (zrange start stop (rev (sortedMembers env (eZSet e)))), l1)) s)"

definition ZScore :: "goenv \<Rightarrow> string \<Rightarrow> string \<Rightarrow> string \<Rightarrow> Store \<Rightarrow> (storage_error + float64 \<times> bool) \<times> Store"
  where "ZScore env workspace key member s =
    (let ck = nsKey workspace key in
     onShard ck (\<lambda>l.
       case getForWriteLocked ck (now env) l of
         (None, l1) \<Rightarrow> (Inr (f64_zero, False), l1)
       | (Some e, l1) \<Rightarrow>
           if eKind e \<noteq> KindZSet then (Inl ErrWrongType, l1)
           else
             (Inr (case fmlookup (eZSet e) member of None \<Rightarrow> (f64_zero, False) | Some sc \<Rightarrow> (sc, True)), l1)) s)"

fun rankLoop :: "string \<Rightarrow> ZMember list \<Rightarrow> int \<Rightarrow> int \<times> bool" where
  "rankLoop member [] i = (0, False)"
| "rankLoop member (m # ms) i = (if Member m = member then (i, True) else rankLoop member ms (i + 1))"

definition ZRank :: "goenv \<Rightarrow> string \<Rightarrow> string \<Rightarrow> string \<Rightarrow> Store \<Rightarrow> (storage_error + int \<times> bool) \<times> Store"
  where "ZRank env workspace key member s =
    (let ck = nsKey workspace key in
     onShard ck (\<lambda>l.
       case getForWriteLocked ck (now env) l of
         (None, l1) \<Rightarrow> (Inr (0, False), l1)
       | (Some e, l1) \<Rightarrow>
           if eKind e \<noteq> KindZSet then (Inl ErrWrongType, l1)
           else if fmlookup (eZSet e) member = None then (Inr (0, False), l1)
           else (Inr (rankLoop member (sortedMembers env (eZSet e)) 0), l1)) s)"

definition ZCard :: "goenv \<Rightarrow> string \<Rightarrow> string \<Rightarrow> Store \<Rightarrow> (storage_error + int) \<times> Store"
  where "ZCard env workspace key s =
    (let ck = nsKey workspace key in
     onShard ck (\<lambda>l.
       case getForWriteLocked ck (now env) l of
         (None, l1) \<Rightarrow> (Inr 0, l1)
       | (Some e, l1) \<Rightarrow>
           if eKind e \<noteq> KindZSet then (Inl ErrWrongType, l1)
           else (Inr (int (fsize (eZSet e))), l1)) s)"

definition zscore_of :: "(string, float64) fmap \<Rightarrow> string \<Rightarrow> float64" \<comment> \<open>\<^verbatim>\<open>z[m]\<close>, zero when missing\<close>
  where "zscore_of z m = (case fmlookup z m of None \<Rightarrow> f64_zero | Some sc \<Rightarrow> sc)"

definition ZIncrBy :: "goenv \<Rightarrow> string \<Rightarrow> string \<Rightarrow> string \<Rightarrow> float64 \<Rightarrow> Store \<Rightarrow> (storage_error + float64) \<times> Store"
  where "ZIncrBy env workspace key member delta s =
    (let ck = nsKey workspace key in
     onShard ck (\<lambda>l.
       case ensureKind env s ck KindZSet l of
         (Inl err, l1) \<Rightarrow> (Inl err, l1)
       | (Inr e, l1) \<Rightarrow>
           (let sc = f64_add (zscore_of (eZSet e) member) delta
            in (Inr sc, bumpVersionLocked ck (poke ck (e\<lparr>eZSet := fmupd member sc (eZSet e)\<rparr>) l1)))) s)"

definition ZRangeByScore :: "goenv \<Rightarrow> string \<Rightarrow> string \<Rightarrow> float64 \<Rightarrow> float64 \<Rightarrow> Store
    \<Rightarrow> (storage_error + ZMember list) \<times> Store"
  where "ZRangeByScore env workspace key lo hi s =
    (let ck = nsKey workspace key in
     onShard ck (\<lambda>l.
       case getForWriteLocked ck (now env) l of
         (None, l1) \<Rightarrow> (Inr [], l1)
       | (Some e, l1) \<Rightarrow>
           if eKind e \<noteq> KindZSet then (Inl ErrWrongType, l1)
           else (Inr (filter (\<lambda>m. f64_le lo (Score m) \<and> f64_le (Score m) hi) (sortedMembers env (eZSet e))), l1)) s)"

section \<open>The operations on one cell\<close>

definition cZAdd :: "(string, float64) fmap \<Rightarrow> cell option \<Rightarrow> (storage_error + int) \<times> cell option"
  where "cZAdd members c = (case or_new (VZSet fmempty) c of
     (VZSet z, x) \<Rightarrow> (Inr (int (fcard (fmdom members |-| fmdom z))), Some (VZSet (z ++\<^sub>f members), x))
   | _ \<Rightarrow> (Inl ErrWrongType, c))"

definition cZRem :: "string list \<Rightarrow> cell option \<Rightarrow> (storage_error + int) \<times> cell option"
  where "cZRem ms c = (case c of
     None \<Rightarrow> (Inr 0, None)
   | Some (VZSet z, x) \<Rightarrow>
       let z' = fmdrop_set (set ms) z; gone = fset (fmdom z) \<inter> set ms
       in (Inr (int (card gone)), drop_if (gone \<noteq> {} \<and> z' = fmempty) (VZSet z', x))
   | Some _ \<Rightarrow> (Inl ErrWrongType, c))"

definition czset :: "'r \<Rightarrow> ((string, float64) fmap \<Rightarrow> 'r) \<Rightarrow> cell option \<Rightarrow> (storage_error + 'r) \<times> cell option"
  where "czset d f c = (case c of
     None \<Rightarrow> (Inr d, None)
   | Some (VZSet z, _) \<Rightarrow> (Inr (f z), c)
   | Some _ \<Rightarrow> (Inl ErrWrongType, c))"

definition cZRange :: "goenv \<Rightarrow> int \<Rightarrow> int \<Rightarrow> cell option \<Rightarrow> (storage_error + ZMember list) \<times> cell option"
  where "cZRange env a b = czset [] (\<lambda>z. slice a b (sortedMembers env z))"

definition cZRevRange :: "goenv \<Rightarrow> int \<Rightarrow> int \<Rightarrow> cell option \<Rightarrow> (storage_error + ZMember list) \<times> cell option"
  where "cZRevRange env a b = czset [] (\<lambda>z. slice a b (rev (sortedMembers env z)))"

definition cZScore :: "string \<Rightarrow> cell option \<Rightarrow> (storage_error + float64 \<times> bool) \<times> cell option"
  where "cZScore m = czset (f64_zero, False) (\<lambda>z. (zscore_of z m, fmlookup z m \<noteq> None))"

definition cZRank :: "goenv \<Rightarrow> string \<Rightarrow> cell option \<Rightarrow> (storage_error + int \<times> bool) \<times> cell option"
  where "cZRank env m = czset (0, False) (\<lambda>z. if fmlookup z m = None then (0, False)
     else (int (length (takeWhile (\<lambda>a. Member a \<noteq> m) (sortedMembers env z))), True))"

definition cZCard :: "cell option \<Rightarrow> (storage_error + int) \<times> cell option"
  where "cZCard = czset 0 (\<lambda>z. int (fsize z))"

definition cZIncrBy :: "string \<Rightarrow> float64 \<Rightarrow> cell option \<Rightarrow> (storage_error + float64) \<times> cell option"
  where "cZIncrBy m d c = (case or_new (VZSet fmempty) c of
     (VZSet z, x) \<Rightarrow> (let sc = f64_add (zscore_of z m) d in (Inr sc, Some (VZSet (fmupd m sc z), x)))
   | _ \<Rightarrow> (Inl ErrWrongType, c))"

definition cZRangeByScore :: "goenv \<Rightarrow> float64 \<Rightarrow> float64 \<Rightarrow> cell option
    \<Rightarrow> (storage_error + ZMember list) \<times> cell option"
  where "cZRangeByScore env lo hi = czset []
    (\<lambda>z. filter (\<lambda>m. f64_le lo (Score m) \<and> f64_le (Score m) hi) (sortedMembers env z))"

section \<open>Sorting\<close>

lemma zless_alt:
  "zless a b \<longleftrightarrow> f64_lt (Score a) (Score b) \<or> f64_eq (Score a) (Score b) \<and> Member a < Member b"
  using f64_lt_eq [of "Score a" "Score b" "Score a"] f64_eq_sym [of "Score a" "Score b"]
  by (auto simp: zless_def)

lemma zless_orders:
  assumes "\<And>a. a \<in> A \<Longrightarrow> \<not> is_nan (Score a)" "inj_on Member A"
  shows "orders zless A"
  unfolding orders_def
proof (intro conjI ballI impI)
  fix x y z
  assume "zless x y" "zless y z"
  then show "zless x z"
    unfolding zless_alt
    by (meson f64_lt_trans f64_eq_lt f64_lt_eq f64_eq_trans order.strict_trans)
next
  fix x y
  assume xy: "x \<in> A" "y \<in> A" "x \<noteq> y"
  then have "Member x \<noteq> Member y" using assms(2) by (auto simp: inj_on_def)
  moreover have "f64_lt (Score x) (Score y) \<or> f64_eq (Score x) (Score y) \<or> f64_lt (Score y) (Score x)"
    using assms(1) xy f64_trichotomy by blast
  ultimately show "zless x y \<or> zless y x"
    using f64_eq_sym [of "Score x" "Score y"] unfolding zless_alt by auto
qed (auto simp: zless_def)

text \<open>The sorted list depends neither on the iteration order nor on the sorting algorithm.\<close>

definition no_nan :: "(string, float64) fmap \<Rightarrow> bool"
  where "no_nan z \<longleftrightarrow> (\<forall>m sc. fmlookup z m = Some sc \<longrightarrow> \<not> is_nan sc)"

lemma zmember_simps [simp]: "Member (zmember z m) = m" "Score (zmember z m) = zscore_of z m"
  by (simp_all add: zmember_def zscore_of_def)

lemma zset_orders: "no_nan z \<Longrightarrow> orders zless (zmember z ` fmdom' z)"
  by (rule zless_orders) (auto simp: inj_on_def no_nan_def zscore_of_def fmdom'_lookup)

lemma mset_sortedMembers:
  "env_ok env \<Longrightarrow> mset (sortedMembers env z) = mset (map (zmember z) (fkeys z))"
  by (simp add: sortedMembers_def range_keys_def)

lemma sortedMembers_sorted:
  assumes "env_ok env" "no_nan z"
  shows "sorted_wrt zless (sortedMembers env z)"
  unfolding sortedMembers_def
proof (rule insertionSort_sorted)
  show "orders zless (set (map (zmember z) (range_keys env z)))"
    using zset_orders [OF assms(2)] assms(1) by simp
  show "distinct (map (zmember z) (range_keys env z))"
    using assms(1) by (auto simp: distinct_map inj_on_def dest: arg_cong [where f = Member])
qed

lemma sortedMembers_unique:
  assumes "env_ok env" "no_nan z" "sorted_wrt zless xs" "mset xs = mset (map (zmember z) (fkeys z))"
  shows "sortedMembers env z = xs"
proof (rule sorted_unique)
  have "set (sortedMembers env z) = zmember z ` fmdom' z"
    using mset_sortedMembers [OF assms(1), of z] by (metis list.set_map set_fkeys set_mset_mset)
  then show "orders zless (set (sortedMembers env z))" using zset_orders [OF assms(2)] by simp
qed (use assms mset_sortedMembers sortedMembers_sorted in auto)

section \<open>Every operation implements its function on the cell\<close>

lemma zaddLoop_keys:
  assumes "distinct ks" "set ks \<subseteq> fmdom' members"
  shows "zaddLoop members ks z a =
    (z ++\<^sub>f fmrestrict_set (set ks) members, a + int (card (set ks - fmdom' z)))"
  using assms
proof (induction ks arbitrary: z a)
  case (Cons k ks)
  then obtain v where v: "fmlookup members k = Some v" by (auto simp: fmdom'_lookup)
  let ?z = "fmupd k v z"
  have "?z ++\<^sub>f fmrestrict_set (set ks) members = z ++\<^sub>f fmrestrict_set (set (k # ks)) members"
    using v by (intro fmap_ext) (auto simp: fmlookup_dom_iff)
  moreover have "int (card (set (k # ks) - fmdom' z)) =
      int (card (set ks - fmdom' ?z)) + (if fmlookup z k = None then 1 else 0)"
  proof -
    have "set ks - fmdom' ?z = set ks - fmdom' z" using Cons.prems(1) by auto
    moreover have "set (k # ks) - fmdom' z
        = (if fmlookup z k = None then insert k (set ks - fmdom' z) else set ks - fmdom' z)"
      by (auto simp: fmdom'_lookup)
    ultimately show ?thesis using Cons.prems(1) by (simp add: fmdom'_lookup)
  qed
  ultimately show ?case using Cons v by simp
qed (auto intro: fmap_ext)

lemma zaddLoop_eq:
  assumes "env_ok env"
  shows "zaddLoop members (range_keys env members) z 0 =
    (z ++\<^sub>f members, int (fcard (fmdom members |-| fmdom z)))"
proof -
  have "fmrestrict_set (fmdom' members) members = members"
    by (intro fmap_ext) (auto simp: fmdom'_lookup)
  moreover have "card (fmdom' members - fmdom' z) = fcard (fmdom members |-| fmdom z)"
    by (simp add: fcard.rep_eq fmdom'_alt_def)
  ultimately show ?thesis using assms by (simp add: zaddLoop_keys)
qed

lemma ZAdd_implements:
  assumes "store_wf s" "env_ok env"
  shows "implements (nsKey ws key) (now env) 4 (max_evict s) (cZAdd ms) s (ZAdd env ws key ms s)"
  unfolding ZAdd_def Let_def
  by (rule implements_onShard [OF assms(1)], rule limpl_ensure)
    (auto simp: cZAdd_def or_new_def acell_simps zaddLoop_eq [OF assms(2)] wf_entry_def
      split: Kind.splits intro!: exI)

lemma ZIncrBy_implements:
  assumes "store_wf s"
  shows "implements (nsKey ws key) (now env) 4 (max_evict s) (cZIncrBy m d) s (ZIncrBy env ws key m d s)"
  unfolding ZIncrBy_def Let_def
  by (rule implements_onShard [OF assms(1)], rule limpl_ensure)
    (auto simp: cZIncrBy_def or_new_def acell_simps wf_entry_def Let_def split: Kind.splits intro!: exI)

lemmas czset_defs = cZRange_def cZRevRange_def cZScore_def cZRank_def cZCard_def cZRangeByScore_def czset_def

lemma zrange_slice: "zrange a b xs = slice a b xs"
proof -
  have "(case window a b (int (length xs)) of
      None \<Rightarrow> [] | Some (a, b) \<Rightarrow> map (\<lambda>i. id (xs ! nat i)) [a..b]) = map id (slice a b xs)"
    by (rule window_slice)
  moreover have "drop (nat i) (take (nat (j + 1)) xs) = map (\<lambda>i. id (xs ! nat i)) [i..j]"
    if "window a b (int (length xs)) = Some (i, j)" for i j
  proof -
    have ij: "0 \<le> i" "i \<le> j" "j < int (length xs)"
      using that by (auto simp: window_def Let_def split: if_splits)
    then have "nat (j + 1) - nat i = nat (j + 1 - i)" by arith
    with map_upto_slice [OF ij, of id] show ?thesis by (simp add: drop_take)
  qed
  ultimately show ?thesis by (auto simp: zrange_def split: option.splits)
qed

lemma rankLoop_eq:
  "\<exists>a \<in> set xs. Member a = m \<Longrightarrow>
   rankLoop m xs i = (i + int (length (takeWhile (\<lambda>a. Member a \<noteq> m) xs)), True)"
proof (induction xs arbitrary: i)
  case (Cons x xs)
  show ?case
  proof (cases "Member x = m")
    case False
    with Cons.prems have "\<exists>a \<in> set xs. Member a = m" by auto
    from Cons.IH [OF this, of "i + 1"] False show ?thesis by simp
  qed simp
qed simp

lemma member_sortedMembers:
  "env_ok env \<Longrightarrow> fmlookup z m \<noteq> None \<Longrightarrow> \<exists>a \<in> set (sortedMembers env z). Member a = m"
  by (auto simp: sortedMembers_def fmdom'_lookup)

lemma ZRange_implements:
  "store_wf s \<Longrightarrow> implements (nsKey ws key) (now env) 1 0 (cZRange env a b) s (ZRange env ws key a b s)"
  unfolding ZRange_def Let_def zrange_slice
  by (rule implements_onShard, assumption, rule limpl_get)
    (auto simp: czset_defs acell_simps raw_lookup lstep_refl split: Kind.splits)

lemma ZRevRange_implements:
  "store_wf s \<Longrightarrow> implements (nsKey ws key) (now env) 1 0 (cZRevRange env a b) s (ZRevRange env ws key a b s)"
  unfolding ZRevRange_def Let_def zrange_slice
  by (rule implements_onShard, assumption, rule limpl_get)
    (auto simp: czset_defs acell_simps raw_lookup lstep_refl split: Kind.splits)

lemma ZScore_implements:
  "store_wf s \<Longrightarrow> implements (nsKey ws key) (now env) 1 0 (cZScore m) s (ZScore env ws key m s)"
  unfolding ZScore_def Let_def
  by (rule implements_onShard, assumption, rule limpl_get)
    (auto simp: czset_defs acell_simps raw_lookup lstep_refl zscore_of_def split: Kind.splits option.splits)

lemma ZRank_implements:
  "store_wf s \<Longrightarrow> env_ok env \<Longrightarrow> implements (nsKey ws key) (now env) 1 0 (cZRank env m) s (ZRank env ws key m s)"
  unfolding ZRank_def Let_def
  by (rule implements_onShard, assumption, rule limpl_get)
    (auto simp: czset_defs acell_simps raw_lookup lstep_refl rankLoop_eq [OF member_sortedMembers] split: Kind.splits)

lemma ZCard_implements:
  "store_wf s \<Longrightarrow> implements (nsKey ws key) (now env) 1 0 cZCard s (ZCard env ws key s)"
  unfolding ZCard_def Let_def
  by (rule implements_onShard, assumption, rule limpl_get)
    (auto simp: czset_defs acell_simps raw_lookup lstep_refl split: Kind.splits)

lemma ZRangeByScore_implements:
  "store_wf s \<Longrightarrow> implements (nsKey ws key) (now env) 1 0 (cZRangeByScore env lo hi) s (ZRangeByScore env ws key lo hi s)"
  unfolding ZRangeByScore_def Let_def
  by (rule implements_onShard, assumption, rule limpl_get)
    (auto simp: czset_defs acell_simps raw_lookup lstep_refl split: Kind.splits)

lemma ZRem_implements:
  assumes "store_wf s"
  shows "implements (nsKey ws key) (now env) 1 0 (cZRem ms) s (ZRem env ws key ms s)"
  unfolding ZRem_def Let_def
proof (rule implements_onShard [OF assms], rule limpl_get, goal_cases)
  case (4 l e l1)
  show ?case
  proof (cases "eKind e = KindZSet")
    case False
    with 4 show ?thesis by (auto simp: cZRem_def acell_simps raw_lookup lstep_refl split: Kind.splits)
  next
    case True
    let ?z = "fmdrop_set (set ms) (eZSet e)" and ?gone = "fset (fmdom (eZSet e)) \<inter> set ms"
    let ?e = "e\<lparr>eZSet := ?z\<rparr>"
    have a: "acell e = (VZSet (eZSet e), eExpiresAt e)" "acell ?e = (VZSet ?z, eExpiresAt e)"
      using True by (simp_all add: acell_simps)
    show ?thesis
    proof (cases "?gone = {}")
      case none: True
      have "?z = eZSet e"
        using none by (intro fmap_ext, rename_tac f, case_tac "fmlookup (eZSet e) f")
          (auto simp: fmdom_lookup disjoint_iff)
      then have "?e = e" by simp
      with none True 4 a show ?thesis
        using lstep_touch [OF 4(1), of e] by (simp add: cZRem_def hdelLoop_eq drop_if_def)
    next
      case False
      then have "0 < card ?gone" by (simp add: card_gt_0_iff)
      moreover have "wf_entry e \<Longrightarrow> wf_entry ?e" using True by (simp add: wf_entry_def)
      ultimately show ?thesis
        using False True 4 a shrink_step [OF 4(1), of ?e "?z = fmempty"]
        by (cases "?z = fmempty") (simp_all add: cZRem_def hdelLoop_eq drop_if_def)
    qed
  qed
qed (simp_all add: cZRem_def)

end
