(* ===== verification/StoreSet.thy ===== *)
theory StoreSet
  imports Store
begin

text \<open>
  The set operations of \<^verbatim>\<open>memstore.Store\<close> (SAdd to SDiff of \<^verbatim>\<open>store.go\<close>). The
  operations on one key implement a function on its cell; SINTER, SUNION and SDIFF take a
  snapshot of each key in turn and are shown to compute the set operation of their names. The code
  locks one key after the other and reads the clock for each; here all snapshots belong to one step and
  one reading of the clock.
\<close>

section \<open>Operations\<close>

fun saddLoop :: "bytes list \<Rightarrow> string fset \<Rightarrow> int \<Rightarrow> string fset \<times> int" where
  "saddLoop [] A added = (A, added)"
| "saddLoop (m # ms) A added =
    (let k = content m
     in if k |\<notin>| A then saddLoop ms (finsert k A) (added + 1) else saddLoop ms A added)"

definition SAdd :: "goenv \<Rightarrow> string \<Rightarrow> string \<Rightarrow> bytes list \<Rightarrow> Store \<Rightarrow> (storage_error + int) \<times> Store"
  where "SAdd env workspace key members s =
    (let ck = nsKey workspace key in
     onShard ck (\<lambda>l.
       case ensureKind env s ck KindSet l of
         (Inl err, l1) \<Rightarrow> (Inl err, l1)
       | (Inr e, l1) \<Rightarrow>
           (case saddLoop members (eSet e) 0 of
              (A, added) \<Rightarrow>
                (Inr added, bumpVersionLocked ck (poke ck (touch (now env) (e\<lparr>eSet := A\<rparr>)) l1)))) s)"

fun sremLoop :: "bytes list \<Rightarrow> string fset \<Rightarrow> int \<Rightarrow> string fset \<times> int" where
  "sremLoop [] A removed = (A, removed)"
| "sremLoop (m # ms) A removed =
    (let k = content m
     in if k |\<in>| A then sremLoop ms (A |-| {|k|}) (removed + 1) else sremLoop ms A removed)"

definition SRem :: "goenv \<Rightarrow> string \<Rightarrow> string \<Rightarrow> bytes list \<Rightarrow> Store \<Rightarrow> (storage_error + int) \<times> Store"
  where "SRem env workspace key members s =
    (let ck = nsKey workspace key in
     onShard ck (\<lambda>l.
       case getForWriteLocked ck (now env) l of
         (None, l1) \<Rightarrow> (Inr 0, l1)
       | (Some e, l1) \<Rightarrow>
           if eKind e \<noteq> KindSet then (Inl ErrWrongType, l1)
           else
             (case sremLoop members (eSet e) 0 of
                (A, removed) \<Rightarrow>
                  (let l2 = poke ck (e\<lparr>eSet := A\<rparr>) l1
                   in if removed > 0
                      then (let l3 = (if fcard A = 0 then deleteEntryLocked ck l2 else l2)
                            in (Inr removed, bumpVersionLocked ck l3))
                      else (Inr removed, l2)))) s)"

definition setToBytes :: "goenv \<Rightarrow> string fset \<Rightarrow> bytes list"
  where "setToBytes env A = map bytes_of (range_set env A)"

definition SMembers :: "goenv \<Rightarrow> string \<Rightarrow> string \<Rightarrow> Store \<Rightarrow> (storage_error + bytes list) \<times> Store"
  where "SMembers env workspace key s =
    (let ck = nsKey workspace key in
     onShard ck (\<lambda>l.
       case getForWriteLocked ck (now env) l of
         (None, l1) \<Rightarrow> (Inr [], l1)
       | (Some e, l1) \<Rightarrow>
           if eKind e \<noteq> KindSet then (Inl ErrWrongType, l1)
           else (Inr (map bytes_of (range_set env (eSet e))), l1)) s)"

definition SIsMember :: "goenv \<Rightarrow> string \<Rightarrow> string \<Rightarrow> bytes \<Rightarrow> Store \<Rightarrow> (storage_error + bool) \<times> Store"
  where "SIsMember env workspace key member s =
    (let ck = nsKey workspace key in
     onShard ck (\<lambda>l.
       case getForWriteLocked ck (now env) l of
         (None, l1) \<Rightarrow> (Inr False, l1)
       | (Some e, l1) \<Rightarrow>
           if eKind e \<noteq> KindSet then (Inl ErrWrongType, l1)
           else (Inr (content member |\<in>| eSet e), l1)) s)"

definition SCard :: "goenv \<Rightarrow> string \<Rightarrow> string \<Rightarrow> Store \<Rightarrow> (storage_error + int) \<times> Store"
  where "SCard env workspace key s =
    (let ck = nsKey workspace key in
     onShard ck (\<lambda>l.
       case getForWriteLocked ck (now env) l of
         (None, l1) \<Rightarrow> (Inr 0, l1)
       | (Some e, l1) \<Rightarrow>
           if eKind e \<noteq> KindSet then (Inl ErrWrongType, l1)
           else (Inr (int (fcard (eSet e))), l1)) s)"

text \<open>The snapshot of an absent key is the nil map, which reads as the empty set.\<close>

definition setSnapshot :: "goenv \<Rightarrow> string \<Rightarrow> string \<Rightarrow> Store \<Rightarrow> (storage_error + string fset) \<times> Store"
  where "setSnapshot env workspace key s =
    (let ck = nsKey workspace key in
     onShard ck (\<lambda>l.
       case getForWriteLocked ck (now env) l of
         (None, l1) \<Rightarrow> (Inr {||}, l1)
       | (Some e, l1) \<Rightarrow>
           if eKind e \<noteq> KindSet then (Inl ErrWrongType, l1)
           else (Inr (eSet e), l1)) s)"

fun snapLoop :: "goenv \<Rightarrow> string \<Rightarrow> (string fset \<Rightarrow> string fset \<Rightarrow> string fset) \<Rightarrow> string list
    \<Rightarrow> string fset \<Rightarrow> Store \<Rightarrow> (storage_error + string fset) \<times> Store" where
  "snapLoop env ws f [] result s = (Inr result, s)"
| "snapLoop env ws f (k # ks) result s =
    (case setSnapshot env ws k s of
       (Inl err, s1) \<Rightarrow> (Inl err, s1)
     | (Inr snap, s1) \<Rightarrow> snapLoop env ws f ks (f result snap) s1)"

definition snapResult :: "goenv \<Rightarrow> (storage_error + string fset) \<times> Store \<Rightarrow> (storage_error + bytes list) \<times> Store"
  where "snapResult env res = (case res of
     (Inl err, s) \<Rightarrow> (Inl err, s) | (Inr A, s) \<Rightarrow> (Inr (setToBytes env A), s))"

definition SInter :: "goenv \<Rightarrow> string \<Rightarrow> string list \<Rightarrow> Store \<Rightarrow> (storage_error + bytes list) \<times> Store"
  where "SInter env workspace keys s = (case keys of
     [] \<Rightarrow> (Inr [], s)
   | k # ks \<Rightarrow>
       (case setSnapshot env workspace k s of
          (Inl err, s1) \<Rightarrow> (Inl err, s1)
        | (Inr result, s1) \<Rightarrow>
            snapResult env (snapLoop env workspace (\<lambda>result snap. ffilter (\<lambda>m. m |\<in>| snap) result) ks result s1)))"

definition SUnion :: "goenv \<Rightarrow> string \<Rightarrow> string list \<Rightarrow> Store \<Rightarrow> (storage_error + bytes list) \<times> Store"
  where "SUnion env workspace keys s =
    snapResult env (snapLoop env workspace (\<lambda>result snap. result |\<union>| snap) keys {||} s)"

definition SDiff :: "goenv \<Rightarrow> string \<Rightarrow> string list \<Rightarrow> Store \<Rightarrow> (storage_error + bytes list) \<times> Store"
  where "SDiff env workspace keys s = (case keys of
     [] \<Rightarrow> (Inr [], s)
   | k # ks \<Rightarrow>
       (case setSnapshot env workspace k s of
          (Inl err, s1) \<Rightarrow> (Inl err, s1)
        | (Inr first, s1) \<Rightarrow>
            snapResult env (snapLoop env workspace (\<lambda>result snap. result |-| snap) ks first s1)))"

section \<open>The operations on one cell\<close>

definition cSAdd :: "bytes list \<Rightarrow> cell option \<Rightarrow> (storage_error + int) \<times> cell option"
  where "cSAdd ms c = (let new = fset_of_list (map content ms) in
   case or_new (VSet {||}) c of
     (VSet A, x) \<Rightarrow> (Inr (int (fcard (new |-| A))), Some (VSet (A |\<union>| new), x))
   | _ \<Rightarrow> (Inl ErrWrongType, c))"

definition cSRem :: "bytes list \<Rightarrow> cell option \<Rightarrow> (storage_error + int) \<times> cell option"
  where "cSRem ms c = (let old = fset_of_list (map content ms) in
   case c of
     None \<Rightarrow> (Inr 0, None)
   | Some (VSet A, x) \<Rightarrow> (Inr (int (fcard (A |\<inter>| old))),
       drop_if (A |\<inter>| old \<noteq> {||} \<and> A |-| old = {||}) (VSet (A |-| old), x))
   | Some _ \<Rightarrow> (Inl ErrWrongType, c))"

definition cset :: "'r \<Rightarrow> (string fset \<Rightarrow> 'r) \<Rightarrow> cell option \<Rightarrow> (storage_error + 'r) \<times> cell option"
  where "cset z f c = (case c of
     None \<Rightarrow> (Inr z, None)
   | Some (VSet A, _) \<Rightarrow> (Inr (f A), c)
   | Some _ \<Rightarrow> (Inl ErrWrongType, c))"

definition cSMembers :: "goenv \<Rightarrow> cell option \<Rightarrow> (storage_error + bytes list) \<times> cell option"
  where "cSMembers env = cset [] (setToBytes env)"

definition cSIsMember :: "bytes \<Rightarrow> cell option \<Rightarrow> (storage_error + bool) \<times> cell option"
  where "cSIsMember m = cset False (\<lambda>A. content m |\<in>| A)"

definition cSCard :: "cell option \<Rightarrow> (storage_error + int) \<times> cell option"
  where "cSCard = cset 0 (\<lambda>A. int (fcard A))"

definition cSnapshot :: "cell option \<Rightarrow> (storage_error + string fset) \<times> cell option"
  where "cSnapshot = cset {||} (\<lambda>A. A)"

section \<open>Loops\<close>

lemma saddLoop_eq:
  "saddLoop ms A a =
    (A |\<union>| fset_of_list (map content ms), a + int (fcard (fset_of_list (map content ms) |-| A)))"
proof (induction ms arbitrary: A a)
  case (Cons m ms)
  let ?N = "fset_of_list (map content ms)"
  show ?case
  proof (cases "content m |\<in>| A")
    case True
    then have "fset_of_list (map content (m # ms)) |-| A = ?N |-| A"
      "A |\<union>| fset_of_list (map content (m # ms)) = A |\<union>| ?N" by auto
    with True Cons show ?thesis by simp
  next
    case False
    then have "fset_of_list (map content (m # ms)) |-| A = finsert (content m) (?N |-| finsert (content m) A)"
      by auto
    moreover have "content m |\<notin>| ?N |-| finsert (content m) A" by simp
    ultimately have "fcard (fset_of_list (map content (m # ms)) |-| A) = Suc (fcard (?N |-| finsert (content m) A))"
      by (simp only: fcard_finsert_if if_False)
    with False Cons show ?thesis by (simp add: Let_def)
  qed
qed simp

lemma sremLoop_eq:
  "sremLoop ms A r =
    (A |-| fset_of_list (map content ms), r + int (fcard (A |\<inter>| fset_of_list (map content ms))))"
proof (induction ms arbitrary: A r)
  case (Cons m ms)
  let ?N = "fset_of_list (map content ms)"
  show ?case
  proof (cases "content m |\<in>| A")
    case False
    then have "A |\<inter>| fset_of_list (map content (m # ms)) = A |\<inter>| ?N"
      "A |-| fset_of_list (map content (m # ms)) = A |-| ?N" by auto
    with False Cons show ?thesis by simp
  next
    case True
    then have "A |\<inter>| fset_of_list (map content (m # ms)) = finsert (content m) ((A |-| {|content m|}) |\<inter>| ?N)"
      by auto
    moreover have "content m |\<notin>| (A |-| {|content m|}) |\<inter>| ?N" by simp
    ultimately have "fcard (A |\<inter>| fset_of_list (map content (m # ms))) = Suc (fcard ((A |-| {|content m|}) |\<inter>| ?N))"
      by (simp only: fcard_finsert_if if_False)
    moreover have "(A |-| {|content m|}) |-| ?N = A |-| fset_of_list (map content (m # ms))" by auto
    ultimately show ?thesis using True Cons by (simp add: Let_def)
  qed
qed simp

section \<open>Every operation implements its function on the cell\<close>

lemma SAdd_implements:
  assumes "store_wf s"
  shows "implements (nsKey ws key) (now env) 4 (max_evict s) (cSAdd ms) s (SAdd env ws key ms s)"
  unfolding SAdd_def Let_def
  by (rule implements_onShard [OF assms], rule limpl_ensure)
    (auto simp: cSAdd_def or_new_def acell_simps saddLoop_eq wf_entry_def Let_def
      split: Kind.splits intro!: exI)

lemmas cset_defs = cSMembers_def cSIsMember_def cSCard_def cSnapshot_def cset_def setToBytes_def

lemma SMembers_implements:
  "store_wf s \<Longrightarrow> implements (nsKey ws key) (now env) 1 0 (cSMembers env) s (SMembers env ws key s)"
  unfolding SMembers_def Let_def
  by (rule implements_onShard, assumption, rule limpl_get)
    (auto simp: cset_defs acell_simps raw_lookup lstep_refl split: Kind.splits)

lemma SIsMember_implements:
  "store_wf s \<Longrightarrow> implements (nsKey ws key) (now env) 1 0 (cSIsMember m) s (SIsMember env ws key m s)"
  unfolding SIsMember_def Let_def
  by (rule implements_onShard, assumption, rule limpl_get)
    (auto simp: cset_defs acell_simps raw_lookup lstep_refl split: Kind.splits)

lemma SCard_implements:
  "store_wf s \<Longrightarrow> implements (nsKey ws key) (now env) 1 0 cSCard s (SCard env ws key s)"
  unfolding SCard_def Let_def
  by (rule implements_onShard, assumption, rule limpl_get)
    (auto simp: cset_defs acell_simps raw_lookup lstep_refl split: Kind.splits)

lemma setSnapshot_implements:
  "store_wf s \<Longrightarrow> implements (nsKey ws key) (now env) 1 0 cSnapshot s (setSnapshot env ws key s)"
  unfolding setSnapshot_def Let_def
  by (rule implements_onShard, assumption, rule limpl_get)
    (auto simp: cset_defs acell_simps raw_lookup lstep_refl split: Kind.splits)

lemma SRem_implements:
  assumes "store_wf s"
  shows "implements (nsKey ws key) (now env) 1 0 (cSRem ms) s (SRem env ws key ms s)"
  unfolding SRem_def Let_def
proof (rule implements_onShard [OF assms], rule limpl_get, goal_cases)
  case (4 l e l1)
  show ?case
  proof (cases "eKind e = KindSet")
    case False
    with 4 show ?thesis by (auto simp: cSRem_def acell_simps raw_lookup lstep_refl Let_def split: Kind.splits)
  next
    case True
    let ?N = "fset_of_list (map content ms)"
    let ?e = "e\<lparr>eSet := eSet e |-| ?N\<rparr>"
    have a: "acell e = (VSet (eSet e), eExpiresAt e)" "acell ?e = (VSet (eSet e |-| ?N), eExpiresAt e)"
      using True by (simp_all add: acell_simps)
    show ?thesis
    proof (cases "eSet e |\<inter>| ?N = {||}")
      case none: True
      then have "eSet e |-| ?N = eSet e" by auto
      then have "?e = e" by simp
      moreover have z: "fcard ({||} :: string fset) = 0" by (simp add: fcard.rep_eq)
      ultimately show ?thesis
        using none True 4 a lstep_touch [OF 4(1), of e]
        by (simp add: cSRem_def sremLoop_eq drop_if_def Let_def z)
    next
      case False
      moreover have "wf_entry e \<Longrightarrow> wf_entry ?e" using True by (simp add: wf_entry_def)
      ultimately show ?thesis
        using True 4 a shrink_step [OF 4(1), of ?e "eSet e |-| ?N = {||}"]
        by (cases "eSet e |-| ?N = {||}") (simp_all add: cSRem_def sremLoop_eq drop_if_def Let_def)
    qed
  qed
qed (simp_all add: cSRem_def Let_def)

section \<open>Operations on several sets\<close>

definition live_same :: "instant \<Rightarrow> Store \<Rightarrow> Store \<Rightarrow> bool" \<comment> \<open>only expired entries may be gone\<close>
  where "live_same t s s' \<longleftrightarrow> (\<forall>k. live t (sraw s' k) = live t (sraw s k) \<and>
    (sraw s' k = sraw s k \<or> sraw s' k = None))"

lemma live_same_refl [simp]: "live_same t s s"
  by (simp add: live_same_def)

lemma live_same_trans: "live_same t s s' \<Longrightarrow> live_same t s' s'' \<Longrightarrow> live_same t s s''"
  unfolding live_same_def by metis

lemma live_or_gone: "live t c = c \<or> live t c = None"
  by (auto simp: live_def split: option.splits prod.splits)

lemma implements_readonly:
  assumes "implements ck t n 0 g s res" "\<And>c. snd (g c) = c"
  shows "live_same t s (snd res)"
  unfolding live_same_def
proof
  fix k
  show "live t (sraw (snd res) k) = live t (sraw s k) \<and> (sraw (snd res) k = sraw s k \<or> sraw (snd res) k = None)"
  proof (cases "k = ck")
    case True
    with assms have "sraw (snd res) k = live t (sraw s k)" by (simp add: implements_def)
    then show ?thesis using live_or_gone [of t "sraw s k"] by auto
  next
    case False
    then show ?thesis using sstep_sraw [OF implements_step0 [OF assms(1)], of k] by simp
  qed
qed

definition set_at :: "instant \<Rightarrow> string \<Rightarrow> Store \<Rightarrow> string \<Rightarrow> (storage_error + string fset)"
  where "set_at t ws s k = fst (cSnapshot (live t (sraw s (nsKey ws k))))"

lemma set_at_cases: "set_at t ws s k = Inl ErrWrongType \<or> (\<exists>A. set_at t ws s k = Inr A)"
  by (auto simp: set_at_def cset_defs split: option.splits avalue.splits)

lemma cSnapshot_id: "snd (cSnapshot c) = c"
  by (auto simp: cset_defs split: option.splits avalue.splits prod.splits)

lemma setSnapshot_effect:
  assumes "store_wf s"
  obtains s1 where "setSnapshot env ws k s = (set_at (now env) ws s k, s1)"
    "sstep {nsKey ws k} 1 {} s s1" "live_same (now env) s s1"
proof -
  have impl: "implements (nsKey ws k) (now env) 1 0 cSnapshot s (setSnapshot env ws k s)"
    by (rule setSnapshot_implements [OF assms])
  have "fst (setSnapshot env ws k s) = set_at (now env) ws s k"
    using impl by (simp add: implements_def set_at_def)
  then show ?thesis
    using implements_step0 [OF impl] implements_readonly [OF impl cSnapshot_id]
    by (intro that [of "snd (setSnapshot env ws k s)"]) (metis prod.collapse)
qed

lemma live_same_set_at: "live_same t s s' \<Longrightarrow> set_at t ws s' = set_at t ws s"
  by (rule ext) (simp add: set_at_def live_same_def)

lemma snapLoop_eq:
  assumes "store_wf s"
  shows "sstep (nsKey ws ` set ks) (length ks) {} s (snd (snapLoop env ws f ks A s)) \<and>
    live_same (now env) s (snd (snapLoop env ws f ks A s)) \<and>
    fst (snapLoop env ws f ks A s) =
      (if \<exists>k \<in> set ks. set_at (now env) ws s k = Inl ErrWrongType then Inl ErrWrongType
       else Inr (foldl f A (map (projr \<circ> set_at (now env) ws s) ks)))"
  using assms
proof (induction ks arbitrary: A s)
  case Nil
  then show ?case by (simp add: sstep_refl)
next
  case (Cons k ks)
  let ?t = "now env"
  obtain s1 where s1: "setSnapshot env ws k s = (set_at ?t ws s k, s1)"
      "sstep {nsKey ws k} 1 {} s s1" "live_same ?t s s1"
    by (rule setSnapshot_effect [OF Cons.prems])
  show ?case
  proof (cases "set_at ?t ws s k")
    case (Inl err)
    then have "err = ErrWrongType" using set_at_cases [of ?t ws s k] by auto
    moreover have "sstep (nsKey ws ` set (k # ks)) (length (k # ks)) {} s s1"
      using s1(2) by (auto simp: sstep_def intro: sevolves_mono)
    ultimately show ?thesis using s1 Inl by simp
  next
    case (Inr B)
    note IH = Cons.IH [OF sstep_wf [OF s1(2)], of "f A B"]
    have "sstep ({nsKey ws k} \<union> nsKey ws ` set ks) (1 + length ks) {} s (snd (snapLoop env ws f ks (f A B) s1))"
      using sstep_trans [OF s1(2)] IH by blast
    moreover have "live_same ?t s (snd (snapLoop env ws f ks (f A B) s1))"
      using live_same_trans [OF s1(3)] IH by blast
    moreover have "set_at ?t ws s1 = set_at ?t ws s" by (rule live_same_set_at [OF s1(3)])
    ultimately show ?thesis using s1(1) Inr IH by (simp add: comp_def)
  qed
qed

lemma foldl_inter: "fset (foldl (\<lambda>A B. ffilter (\<lambda>m. m |\<in>| B) A) A Bs) = fset A \<inter> (\<Inter>B\<in>set Bs. fset B)"
  by (induction Bs arbitrary: A) auto

lemma foldl_union: "fset (foldl (\<lambda>A B. A |\<union>| B) A Bs) = fset A \<union> (\<Union>B\<in>set Bs. fset B)"
  by (induction Bs arbitrary: A) auto

lemma foldl_diff: "fset (foldl (\<lambda>A B. A |-| B) A Bs) = fset A - (\<Union>B\<in>set Bs. fset B)"
  by (induction Bs arbitrary: A) auto

text \<open>
  The common shape of the three commands: \<open>F\<close> is the set computed from the sets behind the keys,
  and the reply lists its elements once each, in any order.
\<close>

definition set_reply :: "goenv \<Rightarrow> string \<Rightarrow> string list \<Rightarrow> string fset \<Rightarrow> Store
    \<Rightarrow> (storage_error + bytes list) \<times> Store \<Rightarrow> bool"
  where "set_reply env ws keys F s res \<longleftrightarrow>
    sstep (nsKey ws ` set keys) (length keys) {} s (snd res) \<and> live_same (now env) s (snd res) \<and>
    fst res = (if \<exists>k \<in> set keys. set_at (now env) ws s k = Inl ErrWrongType
               then Inl ErrWrongType else Inr (setToBytes env F))"

abbreviation members_at :: "goenv \<Rightarrow> string \<Rightarrow> Store \<Rightarrow> string \<Rightarrow> string fset"
  where "members_at env ws s k \<equiv> projr (set_at (now env) ws s k)"

lemma setToBytes_reply: "env_ok env \<Longrightarrow> distinct (setToBytes env A) \<and> set (setToBytes env A) = bytes_of ` fset A"
  by (auto simp: setToBytes_def distinct_map inj_on_def bytes_of_def)

lemma set_reply_loop:
  assumes wf: "store_wf s"
  shows "set_reply env ws ks (foldl f A (map (members_at env ws s) ks)) s
    (snapResult env (snapLoop env ws f ks A s))"
proof -
  note L = snapLoop_eq [OF wf, of ws ks env f A]
  have "snd (snapResult env (snapLoop env ws f ks A s)) = snd (snapLoop env ws f ks A s)"
    by (auto simp: snapResult_def split: prod.splits sum.splits)
  moreover have "fst (snapResult env (snapLoop env ws f ks A s)) =
      (case fst (snapLoop env ws f ks A s) of Inl err \<Rightarrow> Inl err | Inr B \<Rightarrow> Inr (setToBytes env B))"
    by (auto simp: snapResult_def split: prod.splits sum.splits)
  ultimately show ?thesis using L by (auto simp: set_reply_def comp_def)
qed

lemma set_reply_first:
  assumes wf: "store_wf s"
  shows "set_reply env ws (k # ks) (foldl f (members_at env ws s k) (map (members_at env ws s) ks)) s
    (case setSnapshot env ws k s of
       (Inl err, s1) \<Rightarrow> (Inl err, s1)
     | (Inr A, s1) \<Rightarrow> snapResult env (snapLoop env ws f ks A s1))"
proof -
  let ?t = "now env"
  obtain s1 where s1: "setSnapshot env ws k s = (set_at ?t ws s k, s1)"
      "sstep {nsKey ws k} 1 {} s s1" "live_same ?t s s1"
    by (rule setSnapshot_effect [OF wf])
  show ?thesis
  proof (cases "set_at ?t ws s k")
    case (Inl err)
    then have "err = ErrWrongType" using set_at_cases [of ?t ws s k] by auto
    moreover have "sstep (nsKey ws ` set (k # ks)) (length (k # ks)) {} s s1"
      using s1(2) by (auto simp: sstep_def intro: sevolves_mono)
    ultimately show ?thesis using s1 Inl by (simp add: set_reply_def)
  next
    case (Inr A)
    let ?res = "snapResult env (snapLoop env ws f ks A s1)"
    have at: "set_at ?t ws s1 = set_at ?t ws s" by (rule live_same_set_at [OF s1(3)])
    have R: "set_reply env ws ks (foldl f A (map (members_at env ws s) ks)) s1 ?res"
      using set_reply_loop [OF sstep_wf [OF s1(2)], of env ws ks f A] by (simp add: at)
    then have "sstep (nsKey ws ` set (k # ks)) (length (k # ks)) {} s (snd ?res)" "live_same ?t s (snd ?res)"
      using sstep_trans [OF s1(2)] live_same_trans [OF s1(3)] by (fastforce simp: set_reply_def)+
    with R s1(1) Inr show ?thesis by (simp add: set_reply_def at)
  qed
qed

text \<open>The three sets.\<close>

definition inter_of :: "string fset list \<Rightarrow> string fset"
  where "inter_of As = (case As of [] \<Rightarrow> {||} | A # Bs \<Rightarrow> foldl (\<lambda>A B. ffilter (\<lambda>m. m |\<in>| B) A) A Bs)"

definition union_of :: "string fset list \<Rightarrow> string fset"
  where "union_of As = foldl (\<lambda>A B. A |\<union>| B) {||} As"

definition diff_of :: "string fset list \<Rightarrow> string fset"
  where "diff_of As = (case As of [] \<Rightarrow> {||} | A # Bs \<Rightarrow> foldl (\<lambda>A B. A |-| B) A Bs)"

lemma inter_of: "As \<noteq> [] \<Longrightarrow> fset (inter_of As) = (\<Inter>A\<in>set As. fset A)"
  by (cases As) (simp_all add: inter_of_def foldl_inter)

lemma union_of: "fset (union_of As) = (\<Union>A\<in>set As. fset A)"
  by (simp add: union_of_def foldl_union)

lemma diff_of: "As \<noteq> [] \<Longrightarrow> fset (diff_of As) = fset (hd As) - (\<Union>A\<in>set (tl As). fset A)"
  by (cases As) (simp_all add: diff_of_def foldl_diff)

lemma setToBytes_empty: "env_ok env \<Longrightarrow> setToBytes env {||} = []"
proof -
  assume "env_ok env"
  then have "length (range_set env {||}) = fcard ({||} :: string fset)" by (rule length_range_set)
  then show ?thesis by (simp add: setToBytes_def fcard.rep_eq)
qed

lemma SInter_reply:
  assumes "store_wf s" "env_ok env"
  shows "set_reply env ws keys (inter_of (map (members_at env ws s) keys)) s (SInter env ws keys s)"
  using set_reply_first [OF assms(1), where env = env and ws = ws and f = "\<lambda>A B. ffilter (\<lambda>m. m |\<in>| B) A"] assms
  by (cases keys) (simp_all add: SInter_def inter_of_def set_reply_def setToBytes_empty sstep_refl)

lemma SUnion_reply:
  assumes "store_wf s"
  shows "set_reply env ws keys (union_of (map (members_at env ws s) keys)) s (SUnion env ws keys s)"
  using set_reply_loop [OF assms, of env ws keys "\<lambda>A B. A |\<union>| B" "{||}"]
  by (simp add: SUnion_def union_of_def)

lemma SDiff_reply:
  assumes "store_wf s" "env_ok env"
  shows "set_reply env ws keys (diff_of (map (members_at env ws s) keys)) s (SDiff env ws keys s)"
  using set_reply_first [OF assms(1), where env = env and ws = ws and f = "\<lambda>A B. A |-| B"] assms
  by (cases keys) (simp_all add: SDiff_def diff_of_def set_reply_def setToBytes_empty sstep_refl)

end
