(* ===== verification/Refinement.thy ===== *)
theory Refinement
  imports Engine
begin

text \<open>
  The abstract store: a function from composite keys to cells, without shards, locks, access
  tracking, lazy deletion or versions. Without an entry cap every call of the engine returns what
  the same call on the abstract store returns, and leads to the same abstract store; time passing
  is \<open>live\<close>. Runs follow by induction, including the reaper's sweeps, which are invisible.
\<close>

type_synonym kv = "string \<Rightarrow> cell option"

definition view :: "instant \<Rightarrow> Store \<Rightarrow> kv" \<comment> \<open>what clients can see at an instant\<close>
  where "view t s = (\<lambda>ck. live t (sraw s ck))"

definition elapse :: "instant \<Rightarrow> kv \<Rightarrow> kv" \<comment> \<open>keys past their expiry disappear\<close>
  where "elapse t A = (\<lambda>ck. live t (A ck))"

lemma view_later: "t \<le> u \<Longrightarrow> view u s = elapse u (view t s)"
  by (simp add: view_def elapse_def live_later)

section \<open>Calls on one cell keep it live\<close>

lemmas cell_defs = cGet_def cSet_def cDel_def cExpire_def cTTL_def cPersist_def
  cHSet_def cHGet_def cHGetAll_def cHDel_def cHExists_def cHKeys_def cHVals_def cHLen_def cHMGet_def
  cHIncrBy_def chash_def cLPush_def cRPush_def cPush_def cLPop_def cRPop_def cLRange_def cLLen_def
  cLIndex_def cLSet_def cLRem_def clist_def cSAdd_def cSRem_def cSMembers_def cSIsMember_def
  cSCard_def cset_def cZAdd_def cZRem_def cZRange_def cZRevRange_def cZScore_def cZRank_def cZCard_def
  cZIncrBy_def cZRangeByScore_def czset_def or_new_def drop_if_def Let_def

text \<open>
  A call keeps the expiry of the cell or removes the cell, except the three calls that set it:
  SET, EXPIRE and PERSIST, and the ones that create a cell without expiry.
\<close>

definition keeps_expiry :: "cell option \<Rightarrow> cell option \<Rightarrow> bool"
  where "keeps_expiry c c' \<longleftrightarrow> (case c' of None \<Rightarrow> True | Some (v', x') \<Rightarrow>
     x' = None \<or> (\<exists>v. c = Some (v, x')))"

lemma keeps_expiry_simps [simp]:
  "keeps_expiry c None" "keeps_expiry c c" "keeps_expiry c (Some (v, None))"
  "keeps_expiry (Some (v, x)) (Some (v', x))"
  by (auto simp: keeps_expiry_def split: option.splits)

lemma keeps_live: "keeps_expiry c c' \<Longrightarrow> live t c = c \<Longrightarrow> live t c' = c'"
  by (auto simp: keeps_expiry_def live_def split: option.splits if_splits)

lemma cellKey_keeps:
  "(\<forall>v opts. op \<noteq> OSet v opts) \<Longrightarrow> (\<forall>d. op \<noteq> OExpire d) \<Longrightarrow>
   keeps_expiry c (snd (cellKey env op c))"
  by (cases op)
    (auto simp: cell_defs split: option.splits prod.splits avalue.splits if_splits)

lemma cellKey_live:
  assumes "live (now env) c = c"
  shows "live (now env) (snd (cellKey env op c)) = snd (cellKey env op c)"
proof (cases "(\<forall>v opts. op \<noteq> OSet v opts) \<and> (\<forall>d. op \<noteq> OExpire d)")
  case True
  then show ?thesis using keeps_live [OF cellKey_keeps assms] by blast
next
  case False
  then show ?thesis
    using assms by (auto simp: cell_defs time_add_def live_def split: option.splits avalue.splits if_splits)
qed

section \<open>The abstract engine\<close>

definition kv_keys :: "string \<Rightarrow> kv \<Rightarrow> string set"
  where "kv_keys ws A = {k. A (nsKey ws k) \<noteq> None}"

definition kv_sets :: "string \<Rightarrow> string list \<Rightarrow> kv \<Rightarrow> (storage_error + string fset) list"
  where "kv_sets ws ks A = map (\<lambda>k. fst (cSnapshot (A (nsKey ws k)))) ks"

definition kv_combine :: "goenv \<Rightarrow> (string fset list \<Rightarrow> string fset) \<Rightarrow> (storage_error + string fset) list \<Rightarrow> result"
  where "kv_combine env f sets = RList
    (if Inl ErrWrongType \<in> set sets then Inl ErrWrongType else Inr (setToBytes env (f (map projr sets))))"

fun spec :: "goenv \<Rightarrow> engineOp \<Rightarrow> kv \<Rightarrow> result \<times> kv" where
  "spec env (KeyOp ws k op) A =
    (fst (cellKey env op (A (nsKey ws k))), A(nsKey ws k := snd (cellKey env op (A (nsKey ws k)))))"
| "spec env (ODels ws ks) A =
    (RCount (int (card (set ks \<inter> kv_keys ws A))), \<lambda>ck. if ck \<in> nsKey ws ` set ks then None else A ck)"
| "spec env (OExists ws ks) A = (RCount (int (length (filter (\<lambda>k. k \<in> kv_keys ws A) ks))), A)"
| "spec env (OType ws k) A = (RType (case A (nsKey ws k) of
     None \<Rightarrow> ([], False)
   | Some (v, _) \<Rightarrow> (case v of VNone \<Rightarrow> ''none'' | VString _ \<Rightarrow> ''string'' | VHash _ \<Rightarrow> ''hash''
       | VList _ \<Rightarrow> ''list'' | VSet _ \<Rightarrow> ''set'' | VZSet _ \<Rightarrow> ''zset'', True)), A)"
| "spec env (ORename ws old new) A = (case A (nsKey ws old) of
     None \<Rightarrow> (RBool False, A)
   | Some c \<Rightarrow> (RBool True, A(nsKey ws old := None, nsKey ws new := Some c)))"
| "spec env (OKeys ws p) A =
    (RKeys (sorted_list_of_set {k \<in> kv_keys ws A. p = [] \<or> globMatch p k}), A)"
| "spec env (OScan ws cur m n) A = (RScan (scanPage (sorted_list_of_set (kv_keys ws A)) cur m n), A)"
| "spec env (OFlushDB ws) A = (RUnit, \<lambda>ck. if hasPrefix ck (nsKey ws []) then None else A ck)"
| "spec env (OSInter ws ks) A = (kv_combine env inter_of (kv_sets ws ks A), A)"
| "spec env (OSUnion ws ks) A = (kv_combine env union_of (kv_sets ws ks A), A)"
| "spec env (OSDiff ws ks) A = (kv_combine env diff_of (kv_sets ws ks A), A)"
| "spec env (OSweep i n) A = (RUnit, A)"

section \<open>Refinement\<close>

lemma kv_keys_view: "kv_keys ws (view (now env) s) = live_keys env ws s"
  by (simp add: kv_keys_def view_def live_keys_def)

lemma key_refines:
  assumes "store_wf s" "env_ok env" "maxEntries s \<le> 0"
  shows "(fst (execKey env ws k op s), view (now env) (snd (execKey env ws k op s)))
    = spec env (KeyOp ws k op) (view (now env) s)"
proof -
  let ?ck = "nsKey ws k" and ?t = "now env" and ?s' = "snd (execKey env ws k op s)"
  have impl: "implements ?ck ?t 4 0 (cellKey env op) s (execKey env ws k op s)"
    using keyOp_implements [OF assms(1,2), of ws k op] assms(3) by simp
  then have r: "fst (execKey env ws k op s) = fst (cellKey env op (live ?t (sraw s ?ck)))"
    "sraw ?s' ?ck = snd (cellKey env op (live ?t (sraw s ?ck)))"
    by (simp_all add: implements_def)
  have "view ?t ?s' ck = ((view ?t s)(?ck := snd (cellKey env op (view ?t s ?ck)))) ck" for ck
    using sstep_sraw [OF implements_step0 [OF impl], of ck] r(2) cellKey_live [of env "live ?t (sraw s ?ck)" op]
    by (cases "ck = ?ck") (simp_all add: view_def)
  then have "view ?t ?s' = (view ?t s)(?ck := snd (cellKey env op (view ?t s ?ck)))" by (rule ext)
  then show ?thesis using r(1) by (simp add: view_def)
qed

lemma set_reply_refines:
  assumes "set_reply env ws ks (f (map (members_at env ws s) ks)) s res"
  shows "(RList (fst res), view (now env) (snd res)) = (kv_combine env f (kv_sets ws ks (view (now env) s)), view (now env) s)"
proof -
  have "kv_sets ws ks (view (now env) s) = map (set_at (now env) ws s) ks"
    by (simp add: kv_sets_def set_at_def view_def)
  moreover have "view (now env) (snd res) = view (now env) s"
    using assms by (simp add: set_reply_def live_same_def view_def)
  ultimately show ?thesis
    using assms by (auto simp: set_reply_def kv_combine_def image_iff comp_def eq_commute [of "Inl ErrWrongType"])
qed

lemma rename_refines:
  assumes wf: "store_wf s"
  shows "(RBool (fst (Rename env ws old new s)), view (now env) (snd (Rename env ws old new s)))
    = spec env (ORename ws old new) (view (now env) s)"
proof (cases "live (now env) (sraw s (nsKey ws old))")
  case None
  let ?s' = "snd (Rename env ws old new s)"
  note R = Rename_absent [OF wf None, of new]
  then have st: "sstep {nsKey ws old} 1 {} s ?s'" by blast
  have "view (now env) ?s' ck = view (now env) s ck" for ck
    using sstep_sraw [OF st, of ck] R None by (cases "ck = nsKey ws old") (simp_all add: view_def)
  then have "view (now env) ?s' = view (now env) s" by (rule ext)
  with None R show ?thesis by (simp add: view_def)
next
  case (Some c)
  then obtain e where e: "entry s (nsKey ws old) = Some e" "\<not> expired e (now env)"
    using live_entry [of "now env" s "nsKey ws old"] by auto
  with Some have c: "c = acell e" by (simp add: sraw_entry live_acell)
  let ?s' = "snd (Rename env ws old new s)"
  note R = Rename_present [OF wf e, of new]
  have "view (now env) ?s' ck = ((view (now env) s)(nsKey ws old := None, nsKey ws new := Some c)) ck" for ck
    using R(2) [of ck] e(2) c by (auto simp: view_def sraw_entry live_acell)
  then have "view (now env) ?s' = (view (now env) s)(nsKey ws old := None, nsKey ws new := Some c)" by (rule ext)
  with Some R(1) show ?thesis by (simp add: view_def)
qed

lemma sweep_refines:
  assumes wf: "store_wf s" and env: "env_ok env"
  shows "view (now env) (snd (exec env (OSweep i n) s)) = view (now env) s"
proof (cases "i < length (shards s)")
  case True
  obtain ks where ks: "\<And>k. k \<in> set ks \<Longrightarrow> shardIndex s k = i \<and> (\<exists>e. entry s k = Some e \<and> expired e (now env))"
      "\<And>k. entry (snd (SweepShard env i n s)) k = (if k \<in> set ks then None else entry s k)"
    by (rule SweepShard_effect [OF wf env True, of n]) blast
  have "live (now env) (sraw (snd (SweepShard env i n s)) k) = live (now env) (sraw s k)" for k
    using ks(1) [of k] ks(2) [of k] by (auto simp: sraw_entry live_acell)
  with True show ?thesis by (simp add: view_def)
qed simp

lemma exec_refines:
  assumes wf: "store_wf s" and env: "env_ok env" and unl: "maxEntries s \<le> 0"
  shows "(fst (exec env op s), view (now env) (snd (exec env op s))) = spec env op (view (now env) s)"
proof (cases op)
  case (KeyOp ws k kop)
  then show ?thesis using key_refines [OF assms, of ws k kop] by simp
next
  case (ODels ws ks)
  let ?s' = "snd (Del env ws ks s)"
  have "view (now env) ?s' ck = (if ck \<in> nsKey ws ` set ks then None else view (now env) s ck)" for ck
    using sstep_sraw [OF Del_step [OF wf, of ws ks env], of ck] Del_result [OF wf, of env ws ks]
    by (cases "ck \<in> nsKey ws ` set ks") (auto simp: view_def sraw_entry)
  then have "view (now env) ?s' = (\<lambda>ck. if ck \<in> nsKey ws ` set ks then None else view (now env) s ck)"
    by (rule ext)
  moreover have "{k \<in> set ks. live (now env) (sraw s (nsKey ws k)) \<noteq> None} = set ks \<inter> kv_keys ws (view (now env) s)"
    by (auto simp: kv_keys_def view_def)
  ultimately show ?thesis using ODels Del_result [OF wf, of env ws ks] by simp
next
  case (ORename ws old new)
  then show ?thesis using rename_refines [OF wf, of env ws old new] by simp
next
  case (OKeys ws p)
  then show ?thesis using Keys_eq [OF wf env, of ws p] by (simp add: kv_keys_view)
next
  case (OScan ws cur m n)
  then show ?thesis using sort_keys [OF wf env, of "\<lambda>k. True" ws] by (simp add: kv_keys_view Scan_def)
next
  case (OExists ws ks)
  then show ?thesis by (simp add: Exists_eq kv_keys_view)
next
  case (OType ws k)
  then show ?thesis by (simp add: Type_eq view_def)
next
  case (OFlushDB ws)
  then show ?thesis using FlushDB_step(2) [OF wf env, of ws] by (auto simp: view_def sraw_entry fun_eq_iff)
next
  case (OSInter ws ks)
  then show ?thesis using set_reply_refines [where f = inter_of, OF SInter_reply [OF wf env, of ws ks]] by simp
next
  case (OSUnion ws ks)
  then show ?thesis using set_reply_refines [where f = union_of, OF SUnion_reply [OF wf, of env ws ks]] by simp
next
  case (OSDiff ws ks)
  then show ?thesis using set_reply_refines [where f = diff_of, OF SDiff_reply [OF wf env, of ws ks]] by simp
next
  case (OSweep i n)
  then show ?thesis using sweep_refines [OF wf env, of i n] by simp
qed

text \<open>Runs with a clock that does not go back.\<close>

fun spec_run :: "(goenv \<times> engineOp) list \<Rightarrow> kv \<Rightarrow> result list \<times> kv" where
  "spec_run [] A = ([], A)"
| "spec_run ((env, op) # ops) A =
    (case spec env op (elapse (now env) A) of
       (r, A1) \<Rightarrow> (case spec_run ops A1 of (rs, A2) \<Rightarrow> (r # rs, A2)))"

fun clock_ok :: "instant \<Rightarrow> (goenv \<times> engineOp) list \<Rightarrow> bool" where
  "clock_ok t [] = True"
| "clock_ok t ((env, op) # ops) = (t \<le> now env \<and> clock_ok (now env) ops)"

fun end_time :: "instant \<Rightarrow> (goenv \<times> engineOp) list \<Rightarrow> instant" where
  "end_time t [] = t"
| "end_time t ((env, op) # ops) = end_time (now env) ops"

lemma run_refines:
  assumes "store_wf s" "envs_ok ops" "maxEntries s \<le> 0" "clock_ok t ops"
  shows "(fst (run ops s), view (end_time t ops) (snd (run ops s))) = spec_run ops (view t s)"
  using assms
proof (induction ops s arbitrary: t rule: run.induct)
  case (2 env op ops s)
  obtain r s1 where e: "exec env op s = (r, s1)" by fastforce
  have env: "env_ok env" "envs_ok ops" using 2(3) by (auto simp: envs_ok_def)
  obtain C V where st: "sstep C (bumps op) V s s1" using exec_step [OF 2(2) env(1), of op] e by auto
  have "(r, view (now env) s1) = spec env op (elapse (now env) (view t s))"
    using exec_refines [OF 2(2) env(1) 2(4), of op] e view_later [of t "now env" s] 2(5) by simp
  moreover have "(fst (run ops s1), view (end_time (now env) ops) (snd (run ops s1))) = spec_run ops (view (now env) s1)"
    by (rule 2(1) [OF e [symmetric]]) (use st env 2(4,5) in \<open>auto simp: sstep_def same_config_def\<close>)
  ultimately show ?case using e by (simp add: split_beta) (metis fst_conv snd_conv)
qed simp

end
