(* ===== verification/Capacity.thy ===== *)
theory Capacity
  imports Refinement
begin

text \<open>
  What \<^verbatim>\<open>--max-entries\<close> bounds. An insert evicts only from the shard that receives the new
  key, so the count can pass the cap by one for each shard that was empty. Runs in which RENAME
  stays within a shard keep \<open>EntryCount\<close> at or below the cap plus the number of shards minus one
  (\<open>run_capacity\<close>); with one shard the cap is exact. A RENAME to another shard empties a shard
  without an insert and so lifts the bound: \<open>rename_cycle\<close> in the root theory shows the growth.
\<close>

definition occupied :: "Store \<Rightarrow> int" \<comment> \<open>the shards that hold an entry\<close>
  where "occupied s = int (length (filter (\<lambda>sh. data sh \<noteq> fmempty) (shards s)))"

definition capOK :: "Store \<Rightarrow> bool"
  where "capOK s \<longleftrightarrow> total s \<le> maxEntries s + max 0 (occupied s - 1)"

definition named :: "Store \<Rightarrow> bool" \<comment> \<open>no empty composite key\<close>
  where "named s \<longleftrightarrow> (\<forall>i < length (shards s). fmlookup (data (shards s ! i)) [] = None)"

section \<open>Removing entries\<close>

lemma sums_mono:
  assumes "length xs = length ys" "\<And>i. i < length xs \<Longrightarrow> (ys ! i :: nat) \<le> xs ! i"
  shows "int (sum_list ys) + max 0 (int (length (filter (\<lambda>x. x \<noteq> 0) xs)) - 1)
    \<le> int (sum_list xs) + max 0 (int (length (filter (\<lambda>x. x \<noteq> 0) ys)) - 1)"
proof -
  have "int (sum_list ys) + int (length (filter (\<lambda>x. x \<noteq> 0) xs))
      \<le> int (sum_list xs) + int (length (filter (\<lambda>x. x \<noteq> 0) ys)) \<and> sum_list ys \<le> sum_list xs"
    using assms
  proof (induction xs ys rule: list_induct2)
    case (Cons x xs y ys)
    have "y \<le> x" using Cons.prems(1) [of 0] by simp
    moreover have "ys ! i \<le> xs ! i" if "i < length xs" for i using Cons.prems(1) [of "Suc i"] that by simp
    ultimately show ?case using Cons.IH by auto
  qed simp
  then show ?thesis by linarith
qed

abbreviation sizes :: "Store \<Rightarrow> nat list"
  where "sizes s \<equiv> map (\<lambda>sh. fsize (data sh)) (shards s)"

lemma total_sizes: "total s = int (sum_list (sizes s))"
proof -
  have "sum_list (map (\<lambda>sh. int (fsize (data sh))) xs) = int (sum_list (map (\<lambda>sh. fsize (data sh)) xs))" for xs :: "shard list"
    by (induction xs) auto
  then show ?thesis by (simp add: total_def)
qed

lemma occupied_sizes: "occupied s = int (length (filter (\<lambda>x. x \<noteq> 0) (sizes s)))"
  by (simp add: occupied_def filter_map comp_def del: neq0_conv)

lemma capOK_sizes:
  assumes "capOK s" "same_config s s'" "\<And>i. i < length (shards s) \<Longrightarrow> sizes s' ! i \<le> sizes s ! i"
  shows "capOK s'"
proof -
  have len: "length (sizes s) = length (sizes s')" using assms(2) by (simp add: same_config_def)
  have "int (sum_list (sizes s')) + max 0 (int (length (filter (\<lambda>x. x \<noteq> 0) (sizes s))) - 1)
    \<le> int (sum_list (sizes s)) + max 0 (int (length (filter (\<lambda>x. x \<noteq> 0) (sizes s'))) - 1)"
    by (rule sums_mono [OF len]) (use assms(3) in simp)
  moreover have "maxEntries s' = maxEntries s" using assms(2) by (simp add: same_config_def)
  ultimately show ?thesis using assms(1) unfolding capOK_def total_sizes occupied_sizes by linarith
qed

lemma fsize_mono: "fmdom' m' \<subseteq> fmdom' m \<Longrightarrow> fsize m' \<le> fsize m"
  unfolding fsize_def fcard.rep_eq fmdom'_alt_def by (rule card_mono) auto

lemma shard_lookup:
  assumes "store_wf s" "i < length (shards s)"
  shows "fmlookup (data (shards s ! i)) k = (if shardIndex s k = i then entry s k else None)"
proof (cases "shardIndex s k = i")
  case False
  have "shard_wf (\<lambda>ck. shardIndex s ck = i) (shards s ! i)" using assms by (simp add: store_wf_def)
  with False show ?thesis by (auto simp: shard_wf_def) (metis not_Some_eq)
qed (simp add: entry_def shardFor_def)

lemma capOK_shrink:
  assumes "store_wf s" "store_wf s'" "same_config s s'" "capOK s"
    and sub: "\<And>k. entry s' k \<noteq> None \<Longrightarrow> entry s k \<noteq> None"
  shows "capOK s'"
proof (rule capOK_sizes [OF assms(4,3)])
  fix i
  assume i: "i < length (shards s)"
  then have i': "i < length (shards s')" using assms(3) by (simp add: same_config_def)
  have "fmdom' (data (shards s' ! i)) \<subseteq> fmdom' (data (shards s ! i))"
    using sub same_config_index [OF assms(3)]
    by (auto simp: fmdom'_lookup shard_lookup [OF assms(1) i] shard_lookup [OF assms(2) i'] split: if_splits)
  from fsize_mono [OF this] i i' show "sizes s' ! i \<le> sizes s ! i" by simp
qed

lemma named_entry: "store_wf s \<Longrightarrow> named s \<longleftrightarrow> entry s [] = None"
  using shardIndex_bound [of s "[]"] by (auto simp: named_def shard_lookup)

section \<open>Inserting an entry\<close>

definition fits :: "Store \<Rightarrow> lshard \<Rightarrow> bool"
  where "fits s l \<longleftrightarrow> maxEntries s \<le> 0 \<or> int64 (entryCountp l + 1) \<le> maxEntries s \<or> data l = fmempty"

definition size_ok :: "Store \<Rightarrow> lshard \<Rightarrow> lshard \<Rightarrow> bool"
  where "size_ok s l l' \<longleftrightarrow> fsize (data l') \<le> fsize (data l) \<or>
    fsize (data l') = Suc (fsize (data l)) \<and> fits s l"

lemma victimLoop_some:
  assumes "i < n" "k \<in> set ks" "set ks \<subseteq> fmdom' m"
  shows "victimLoop pol t n m ks i v \<noteq> None"
proof -
  have keep: "victimLoop pol t n m ks i (Some v) \<noteq> None" for ks i v
    by (induction ks arbitrary: i v) (auto simp: victimLoop_Cons)
  obtain k' ks' where "ks = k' # ks'" using assms(2) by (cases ks) auto
  with assms keep [of ks' "i + 1"] show ?thesis by (auto simp: victimLoop_Cons fmdom'_lookup)
qed

lemma evict_size:
  assumes env: "env_ok env" and ne: "fmlookup (data l) [] = None"
  shows "(evictIfNeededLocked env s l = l \<and> fits s l) \<or>
    Suc (fsize (data (evictIfNeededLocked env s l))) = fsize (data l)"
proof (cases "fits s l")
  case True
  have "victimLoop (policy_of s) (now env) evictionSampleSize fmempty [] 0 None = None" by simp
  moreover have "range_keys env (fmempty :: (string, Entry) fmap) = []"
    using length_range_keys [OF env, of "fmempty :: (string, Entry) fmap"] by simp
  ultimately have "pickEvictionVictimLocked env (policy_of s) evictionSampleSize l = []" if "data l = fmempty"
    using that by (simp add: pickEvictionVictimLocked_def)
  with True show ?thesis by (auto simp: fits_def evictIfNeededLocked_def)
next
  case False
  then have c: "\<not> maxEntries s \<le> 0" "\<not> int64 (entryCountp l + 1) \<le> maxEntries s" "data l \<noteq> fmempty"
    by (auto simp: fits_def)
  define k where "k = pickEvictionVictimLocked env (policy_of s) evictionSampleSize l"
  have "0 < fsize (data l)" using c(3) by (metis fsize_eq_0 gr0I)
  then have "range_keys env (data l) \<noteq> []" using length_range_keys [OF env, of "data l"] by auto
  then obtain x where "x \<in> set (range_keys env (data l))" by (meson list.set_sel(1))
  then have "victimLoop (policy_of s) (now env) evictionSampleSize (data l) (range_keys env (data l)) 0 None \<noteq> None"
    by (rule victimLoop_some [rotated]) (use env in simp_all)
  then obtain k' sc where v: "victimLoop (policy_of s) (now env) evictionSampleSize (data l) (range_keys env (data l)) 0 None = Some (k', sc)"
    by auto
  then have "k = k'" by (simp add: k_def pickEvictionVictimLocked_def)
  then have dom: "k \<in> fmdom' (data l)" using victimLoop_dom [OF v] by auto
  then have "k \<noteq> []" using ne by (auto simp: fmdom'_lookup)
  then have "data (evictIfNeededLocked env s l) = fmdrop k (data l)"
    using c by (simp add: evictIfNeededLocked_def Let_def flip: k_def)
  then show ?thesis using dom \<open>0 < fsize (data l)\<close> by (auto simp: fsize_drop fmdom'_lookup)
qed

lemma evict_same_nil:
  "env_ok env \<Longrightarrow> fmlookup (data l) [] = None \<Longrightarrow> fmlookup (data (evictIfNeededLocked env s l)) [] = None"
  by (auto simp: evictIfNeededLocked_def Let_def)

text \<open>Insertion of a fresh key after the eviction trigger, the end of every creating path.\<close>

lemma insert_size:
  assumes env: "env_ok env" and ne: "fmlookup (data l) [] = None"
  shows "size_ok s l (setEntryLocked ck e
    (if fst (getForWriteLocked ck t l) = None then evictIfNeededLocked env s (snd (getForWriteLocked ck t l))
     else snd (getForWriteLocked ck t l)))"
proof (cases "fmlookup (data l) ck")
  case None
  then have g: "getForWriteLocked ck t l = (None, l)" by (simp add: getForWriteLocked_def)
  let ?l = "evictIfNeededLocked env s l"
  have "fsize (data (setEntryLocked ck e ?l)) \<le> Suc (fsize (data ?l))" by (simp add: fsize_upd)
  with evict_size [OF env ne, of s] g show ?thesis
    using None by (auto simp: size_ok_def fsize_upd)
next
  case (Some e0)
  then have dom: "ck \<in> fmdom' (data l)" by (simp add: fmdom'_lookup)
  let ?g = "snd (getForWriteLocked ck t l)"
  have sub: "fmdom' (data ?g) \<subseteq> fmdom' (data l)" using Some by (auto simp: getForWriteLocked_def)
  have "fmdom' (data (evictIfNeededLocked env s ?g)) \<subseteq> fmdom' (data ?g)"
    by (auto simp: evictIfNeededLocked_def Let_def)
  with sub dom show ?thesis
    unfolding size_ok_def by (intro disjI1 fsize_mono) auto
qed

lemma same_size: "fsize (data l2) = fsize (data l1) \<Longrightarrow> size_ok s l l1 \<Longrightarrow> size_ok s l l2"
  by (simp add: size_ok_def)

lemma ensure_size:
  assumes env: "env_ok env" and ne: "fmlookup (data l) [] = None"
    and body: "\<And>r l1. data (snd (body r l1)) = data l1 \<or>
      (\<exists>e. r = Inr e \<and> (\<exists>e'. data (snd (body r l1)) = fmupd ck e' (data l1)))"
    and kind: "kind \<noteq> KindNone"
  shows "size_ok s l (snd (case ensureKind env s ck kind l of (r, l1) \<Rightarrow> body r l1))"
proof -
  obtain r l1 where rl: "ensureKind env s ck kind l = (r, l1)" by fastforce
  have "size_ok s l l1 \<and> (\<forall>e. r = Inr e \<longrightarrow> fmlookup (data l1) ck \<noteq> None)"
  proof (cases "fst (getForWriteLocked ck (now env) l)")
    case None
    then have "l1 = setEntryLocked ck (newEmptyEntry kind (now env))
        (evictIfNeededLocked env s (snd (getForWriteLocked ck (now env) l)))"
      using rl by (auto simp: ensureKind_def Let_def split: prod.splits)
    with insert_size [OF env ne, of s ck "newEmptyEntry kind (now env)" "now env"] None
    show ?thesis by simp
  next
    case (Some e)
    then have "l1 = l \<and> fmlookup (data l) ck = Some e"
      using rl by (auto simp: ensureKind_def getForWriteLocked_def split: option.splits if_splits)
    then show ?thesis by (simp add: size_ok_def)
  qed
  then show ?thesis
    using body [of r l1] rl by (auto simp: size_ok_def fsize_upd)
qed

lemma occupied_update:
  assumes "i < length (shards s)"
  shows "occupied (unlockShard s i l) = occupied s
    - (if data (shards s ! i) \<noteq> fmempty then 1 else 0) + (if data l \<noteq> fmempty then 1 else 0)"
proof -
  let ?P = "\<lambda>sh :: shard. data sh \<noteq> fmempty"
  have "shards s = take i (shards s) @ shards s ! i # drop (Suc i) (shards s)"
    using assms by (rule id_take_nth_drop)
  then have "filter ?P (shards s) = filter ?P (take i (shards s)) @ filter ?P [shards s ! i]
      @ filter ?P (drop (Suc i) (shards s))"
    by (metis append_Cons append_Nil filter_append)
  then show ?thesis
    using assms by (simp add: occupied_def unlockShard_def upd_conv_take_nth_drop)
qed

lemma occupied_zero: "occupied s = 0 \<Longrightarrow> total s = 0"
proof -
  assume "occupied s = 0"
  then have "\<forall>sh \<in> set (shards s). data sh = fmempty"
    by (auto simp: occupied_def filter_empty_conv)
  then have "\<forall>x \<in> set (sizes s). x = 0" by simp
  then show ?thesis by (simp add: total_sizes sum_list_eq_0_iff)
qed

lemma capOK_grow:
  assumes wf: "store_wf s" and cap: "capOK s" and i: "i < length (shards s)"
    and size: "size_ok s (lockShard s i) l" and pos: "0 < maxEntries s"
    and room: "total s + 1 \<le> MaxInt64"
  shows "capOK (unlockShard s i l)"
proof -
  let ?s' = "unlockShard s i l"
  have occ: "0 \<le> occupied s" by (simp add: occupied_def)
  show ?thesis
  proof (cases "fsize (data l) \<le> fsize (data (shards s ! i))")
    case True
    show ?thesis
      by (rule capOK_sizes [OF cap same_config_unlock])
        (use True i in \<open>auto simp: unlockShard_def nth_list_update\<close>)
  next
    case False
    with size have grow: "fsize (data l) = Suc (fsize (data (shards s ! i)))" and fit: "fits s (lockShard s i)"
      by (auto simp: size_ok_def)
    have tot: "total ?s' = total s + 1" using total_update [OF i, of l] grow by simp
    have "0 \<le> total s" by (simp add: total_sizes)
    then have cnt: "entryCount s = total s" "int64 (total s + 1) = total s + 1"
      using wf room by (simp_all add: store_wf_def is_int64_def)
    from fit consider "total s + 1 \<le> maxEntries s" | "data (shards s ! i) = fmempty"
      using pos cnt by (auto simp: fits_def)
    then show ?thesis
    proof cases
      case 1
      with tot show ?thesis by (simp add: capOK_def)
    next
      case 2
      have "data l \<noteq> fmempty" using grow by auto
      then have "occupied ?s' = occupied s + 1" using occupied_update [OF i, of l] 2 by simp
      with cap tot occ pos occupied_zero [of s] show ?thesis by (cases "occupied s = 0") (auto simp: capOK_def)
    qed
  qed
qed

lemma capOK_onShard:
  assumes "store_wf s" "capOK s" "named s" "0 < maxEntries s" "total s + 1 \<le> MaxInt64"
    and "\<And>l. fmlookup (data l) [] = None \<Longrightarrow> size_ok s l (snd (f l))"
  shows "capOK (snd (onShard ck f s))"
  unfolding onShard_def withShard_snd
  by (rule capOK_grow) (use assms shardIndex_bound [OF assms(1), of ck] in \<open>auto simp: named_def\<close>)

section \<open>Every call\<close>

lemma Set_size:
  assumes "env_ok env" "fmlookup (data l) [] = None"
  shows "size_ok s l (snd (case getForWriteLocked ck t l of
     (existing, l1) \<Rightarrow>
       if a existing then (r1, l1) else if b existing then (r2 existing, l1) else if c existing then (r3 existing, l1)
       else (r4 existing, setEntryLocked ck e (if existing = None then evictIfNeededLocked env s l1 else l1))))"
proof -
  have "fmdom' (data (snd (getForWriteLocked ck t l))) \<subseteq> fmdom' (data l)"
    by (auto simp: getForWriteLocked_def split: option.splits)
  then have "size_ok s l (snd (getForWriteLocked ck t l))"
    unfolding size_ok_def by (intro disjI1 fsize_mono)
  with insert_size [OF assms, of s ck e t] show ?thesis by (simp add: split_beta)
qed

lemma creating_size:
  assumes wf: "store_wf s" "capOK s" "named s" "0 < maxEntries s" "total s + 1 \<le> MaxInt64" and env: "env_ok env"
  shows "capOK (snd (Set env ws k v opts s))" "capOK (snd (HSet env ws k fs s))" "capOK (snd (HIncrBy env ws k f d s))"
    "capOK (snd (LPush env ws k vs s))" "capOK (snd (RPush env ws k vs s))" "capOK (snd (SAdd env ws k vs s))"
    "capOK (snd (ZAdd env ws k ms s))" "capOK (snd (ZIncrBy env ws k f x s))"
proof -
  show "capOK (snd (Set env ws k v opts s))"
    unfolding Set_def Let_def by (rule capOK_onShard [OF wf], rule Set_size [OF env])
  show "capOK (snd (HSet env ws k fs s))"
    unfolding HSet_def Let_def
    by (rule capOK_onShard [OF wf], rule ensure_size [OF env]) (auto split: sum.splits prod.splits)
  show "capOK (snd (HIncrBy env ws k f d s))"
    unfolding HIncrBy_def Let_def
    by (rule capOK_onShard [OF wf], rule ensure_size [OF env]) (auto split: sum.splits option.splits)
  show "capOK (snd (LPush env ws k vs s))"
    unfolding LPush_def Let_def
    by (rule capOK_onShard [OF wf], rule ensure_size [OF env]) (auto split: sum.splits)
  show "capOK (snd (RPush env ws k vs s))"
    unfolding RPush_def Let_def
    by (rule capOK_onShard [OF wf], rule ensure_size [OF env]) (auto split: sum.splits)
  show "capOK (snd (SAdd env ws k vs s))"
    unfolding SAdd_def Let_def
    by (rule capOK_onShard [OF wf], rule ensure_size [OF env]) (auto split: sum.splits prod.splits)
  show "capOK (snd (ZAdd env ws k ms s))"
    unfolding ZAdd_def Let_def
    by (rule capOK_onShard [OF wf], rule ensure_size [OF env]) (auto split: sum.splits prod.splits)
  show "capOK (snd (ZIncrBy env ws k f x s))"
    unfolding ZIncrBy_def Let_def
    by (rule capOK_onShard [OF wf], rule ensure_size [OF env]) (auto split: sum.splits)
qed

text \<open>A RENAME within one shard replaces a key by a key.\<close>

lemma Rename_size:
  assumes wf: "store_wf s" "capOK s" "named s" "0 < maxEntries s" "total s + 1 \<le> MaxInt64"
    and same: "shardIndex s (nsKey ws old) = shardIndex s (nsKey ws new)"
  shows "capOK (snd (Rename env ws old new s))"
proof -
  let ?o = "nsKey ws old" and ?n = "nsKey ws new"
  let ?f = "\<lambda>l. case getForWriteLocked ?o (now env) l of
      (None, l1) \<Rightarrow> (False, l1)
    | (Some e, l1) \<Rightarrow> (True, bumpVersionLocked ?o (setEntryLocked ?n e (deleteEntryLocked ?o l1)))"
  have "Rename env ws old new s = onShard ?o ?f s"
    using same by (simp add: Rename_def onShard_def Let_def)
  moreover have "size_ok s l (snd (?f l))" for l
  proof (cases "fmlookup (data l) ?o")
    case None
    then show ?thesis by (simp add: getForWriteLocked_def size_ok_def)
  next
    case (Some e)
    then have "Suc (fsize (fmdrop ?o (data l))) = fsize (data l)"
      by (simp add: fsize_drop fsize_pos)
    with Some show ?thesis
      by (auto simp: getForWriteLocked_def size_ok_def fsize_upd)
  qed
  ultimately show ?thesis using capOK_onShard [OF wf, of ?f ?o] by simp
qed

fun cap_op :: "Store \<Rightarrow> engineOp \<Rightarrow> bool" \<comment> \<open>not a RENAME into another shard\<close>
where
  "cap_op s (ORename ws old new) = (shardIndex s (nsKey ws old) = shardIndex s (nsKey ws new))"
| "cap_op s _ = True"

fun creates :: "keyOp \<Rightarrow> bool" where
  "creates (OSet _ _) = True" | "creates (OHSet _) = True" | "creates (OHIncrBy _ _) = True"
| "creates (OLPush _) = True" | "creates (ORPush _) = True" | "creates (OSAdd _) = True"
| "creates (OZAdd _) = True" | "creates (OZIncrBy _ _) = True" | "creates _ = False"

lemma cellKey_absent: "\<not> creates op \<Longrightarrow> snd (cellKey env op None) = None"
  by (cases op) (simp_all add: cell_defs)

lemma execKey_cap:
  assumes wf: "store_wf s" "capOK s" "named s" "0 < maxEntries s" "total s + 1 \<le> MaxInt64" and env: "env_ok env"
  shows "capOK (snd (execKey env ws k op s))"
proof (cases "creates op")
  case True
  then show ?thesis by (cases op) (use creating_size [OF wf env] in simp_all)
next
  case False
  let ?s' = "snd (execKey env ws k op s)"
  have impl: "implements (nsKey ws k) (now env) 4 (max_evict s) (cellKey env op) s (execKey env ws k op s)"
    by (rule keyOp_implements [OF wf(1) env])
  then obtain V where st: "sstep {nsKey ws k} 4 V s ?s'" by (auto simp: implements_def)
  have sub: "entry s ck \<noteq> None" if "entry ?s' ck \<noteq> None" for ck
  proof (cases "ck = nsKey ws k")
    case True
    with that impl cellKey_absent [OF False, of env] show ?thesis
      by (cases "entry s ck") (auto simp: implements_def sraw_entry)
  next
    case False
    with that st show ?thesis by (auto simp: sstep_def split: if_splits)
  qed
  show ?thesis
    by (rule capOK_shrink [OF wf(1) _ _ wf(2) sub]) (use st in \<open>auto simp: sstep_def\<close>)
qed

lemma Rename_nil: "store_wf s \<Longrightarrow> entry s [] = None \<Longrightarrow> entry (snd (Rename env ws old new s)) [] = None"
  using Rename_step [of s ws old new env] by (auto simp: sstep_def nsKey_def)

lemma exec_named:
  assumes wf: "store_wf s" and env: "env_ok env" and "named s"
  shows "named (snd (exec env op s))"
proof -
  have nil: "entry s [] = None" using assms named_entry by blast
  obtain C V where "sstep C (bumps op) V s (snd (exec env op s))" using exec_step [OF wf env] by blast
  then have wf': "store_wf (snd (exec env op s))" by (rule sstep_wf)
  have ns: "[] \<notin> nsKey ws ` A" for ws A by (auto simp: nsKey_def)
  have keep: "entry s' [] = None" if "sstep C n V s s'" "[] \<notin> C" for C n V s'
    using that nil by (auto simp: sstep_def)
  have "entry (snd (exec env op s)) [] = None"
  proof (cases op)
    case (KeyOp ws k kop)
    then show ?thesis
      using keyOp_implements [OF wf env, of ws k kop] keep [of "{nsKey ws k}"]
      by (auto simp: implements_def nsKey_def)
  next
    case (ODels ws ks)
    then show ?thesis using keep [OF Del_step [OF wf, of ws ks env] ns] by simp
  next
    case (ORename ws old new)
    then show ?thesis using Rename_nil [OF wf nil] by simp
  next
    case (OFlushDB ws)
    then show ?thesis using FlushDB_step(2) [OF wf env, of ws "[]"] nil by simp
  next
    case (OSInter ws ks)
    then show ?thesis using SInter_reply [OF wf env, of ws ks] keep [OF _ ns] by (auto simp: set_reply_def)
  next
    case (OSUnion ws ks)
    then show ?thesis using SUnion_reply [OF wf, of env ws ks] keep [OF _ ns] by (auto simp: set_reply_def)
  next
    case (OSDiff ws ks)
    then show ?thesis using SDiff_reply [OF wf env, of ws ks] keep [OF _ ns] by (auto simp: set_reply_def)
  next
    case (OSweep i n)
    show ?thesis
    proof (cases "i < length (shards s)")
      case True
      obtain ks where "\<And>k. entry (snd (SweepShard env i n s)) k = (if k \<in> set ks then None else entry s k)"
        by (rule SweepShard_effect [OF wf env True, of n]) blast
      with True OSweep nil show ?thesis by simp
    qed (use OSweep nil in simp)
  qed (use nil in simp_all)
  then show ?thesis using named_entry [OF wf'] by blast
qed

lemma set_reply_cap:
  assumes "set_reply env ws ks F s res" "store_wf s" "capOK s"
  shows "capOK (snd res)"
proof (rule capOK_shrink [OF assms(2) _ _ assms(3)])
  have st: "sstep (nsKey ws ` set ks) (length ks) {} s (snd res)" and same: "live_same (now env) s (snd res)"
    using assms(1) by (simp_all add: set_reply_def)
  then show "store_wf (snd res)" "same_config s (snd res)" by (auto simp: sstep_def)
  fix k
  assume k: "entry (snd res) k \<noteq> None"
  show "entry s k \<noteq> None"
    using same k unfolding live_same_def sraw_entry by (metis map_option_is_None)
qed

lemma exec_cap:
  assumes wf: "store_wf s" "capOK s" "named s" "0 < maxEntries s" "total s + 1 \<le> MaxInt64" and env: "env_ok env"
    and op: "cap_op s op"
  shows "capOK (snd (exec env op s))"
proof (cases op)
  case (KeyOp ws k kop)
  then show ?thesis using execKey_cap [OF wf env, of ws k kop] by simp
next
  case (ORename ws old new)
  then show ?thesis using Rename_size [OF wf, of ws old new env] op by simp
next
  case (ODels ws ks)
  have "entry s k \<noteq> None" if "entry (snd (Del env ws ks s)) k \<noteq> None" for k
    using that Del_step [OF wf(1), of ws ks env] Del_result [OF wf(1), of env ws ks]
    by (cases "k \<in> nsKey ws ` set ks") (auto simp: sstep_def)
  then show ?thesis
    using ODels capOK_shrink [OF wf(1) _ _ wf(2)] Del_step [OF wf(1), of ws ks env] by (auto simp: sstep_def)
next
  case (OFlushDB ws)
  have "capOK (FlushDB env ws s)"
    by (rule capOK_shrink [OF wf(1) _ _ wf(2)])
      (use FlushDB_step [OF wf(1) env, of ws] in \<open>auto simp: sstep_def split: if_splits\<close>)
  with OFlushDB show ?thesis by simp
next
  case (OSweep i n)
  show ?thesis
  proof (cases "i < length (shards s)")
    case True
    obtain ks where ks: "\<And>k. entry (snd (SweepShard env i n s)) k = (if k \<in> set ks then None else entry s k)"
        "sstep (set ks) 1 {} s (snd (SweepShard env i n s))"
      by (rule SweepShard_effect [OF wf(1) env True, of n]) blast
    have "capOK (snd (SweepShard env i n s))"
      by (rule capOK_shrink [OF wf(1) _ _ wf(2)]) (use ks in \<open>auto simp: sstep_def split: if_splits\<close>)
    with OSweep True show ?thesis by simp
  qed (use OSweep wf in simp)
next
  case (OSInter ws ks)
  then show ?thesis using set_reply_cap [OF SInter_reply [OF wf(1) env, of ws ks] wf(1,2)] by simp
next
  case (OSUnion ws ks)
  then show ?thesis using set_reply_cap [OF SUnion_reply [OF wf(1), of env ws ks] wf(1,2)] by simp
next
  case (OSDiff ws ks)
  then show ?thesis using set_reply_cap [OF SDiff_reply [OF wf(1) env, of ws ks] wf(1,2)] by simp
qed (use wf in simp_all)

section \<open>Runs\<close>

lemma occupied_bound: "store_wf s \<Longrightarrow> occupied s \<le> n_shards s"
  using length_filter_le [of "\<lambda>sh. data sh \<noteq> fmempty" "shards s"]
  by (simp add: occupied_def store_wf_def)

lemma cap_bound:
  assumes "store_wf s" "capOK s"
  shows "total s \<le> maxEntries s + n_shards s - 1"
proof -
  have "1 \<le> n_shards s" using assms(1) by (simp add: store_wf_def)
  then show ?thesis using assms(2) occupied_bound [OF assms(1)] unfolding capOK_def by linarith
qed

lemma run_cap:
  assumes "store_wf s" "capOK s" "named s" "0 < maxEntries s" "maxEntries s + n_shards s \<le> MaxInt64"
    and "envs_ok ops" "\<forall>(env, op) \<in> set ops. cap_op s op"
  shows "capOK (snd (run ops s))"
  using assms
proof (induction ops s rule: run.induct)
  case (2 env op ops s)
  obtain r s1 where e: "exec env op s = (r, s1)" by fastforce
  have env: "env_ok env" "envs_ok ops" using 2(7) by (auto simp: envs_ok_def)
  obtain C V where st: "sstep C (bumps op) V s s1" using exec_step [OF 2(2) env(1), of op] e by auto
  have "total s + 1 \<le> MaxInt64" using cap_bound [OF 2(2,3)] 2(6) by simp
  then have "capOK s1" using exec_cap [OF 2(2-5) _ env(1), of op] 2(8) e by auto
  moreover have "named s1" using exec_named [OF 2(2) env(1) 2(4), of op] e by simp
  moreover have cfg: "store_wf s1" "same_config s s1" using st by (auto simp: sstep_def)
  moreover have "cap_op s1 o' = cap_op s o'" for o'
    using same_config_index [OF cfg(2)] by (cases o') simp_all
  ultimately have "capOK (snd (run ops s1))"
    by (intro 2(1) [OF e [symmetric]]) (use 2 env in \<open>auto simp: same_config_def\<close>)
  with e show ?case by (simp add: split_beta)
qed simp

lemma newStore_cap: "0 \<le> maxEntries (newStore num opts) \<Longrightarrow> capOK (newStore num opts) \<and> named (newStore num opts)"
  by (simp add: capOK_def named_def total_sizes occupied_def newStore_def Let_def newShard_def sum_list_replicate)

end
