(* ===== verification/Auth.thy ===== *)
theory Auth
  imports Prelude
begin

text \<open>
  \<^verbatim>\<open>internal/auth/auth.go\<close>: one shared password, or one password per workspace. The locale
  \<open>authenticator\<close> is what the command handlers rely on: a password that is accepted in
  multi-workspace mode selects a configured workspace, and a server that requires no
  authentication accepts every password.
\<close>

record Credential =
  credWorkspace :: string
  credPassword :: string

record Authenticator =
  password :: string
  multiWorkspace :: bool
  byPassword :: "(string, string) fmap"

definition auth_New :: "string \<Rightarrow> Authenticator"
  where "auth_New pw = \<lparr>password = pw, multiWorkspace = False, byPassword = fmempty\<rparr>"

definition NewMultiWorkspace :: "Credential list \<Rightarrow> Authenticator"
  where "NewMultiWorkspace creds =
    \<lparr>password = [], multiWorkspace = True,
     byPassword = fold (\<lambda>c m. fmupd (credPassword c) (credWorkspace c) m) creds fmempty\<rparr>"

definition MultiWorkspace :: "Authenticator \<Rightarrow> bool"
  where "MultiWorkspace a = multiWorkspace a"

definition WorkspaceForPassword :: "Authenticator \<Rightarrow> string \<Rightarrow> string option"
  where "WorkspaceForPassword a pw = (if \<not> multiWorkspace a then None else fmlookup (byPassword a) pw)"

definition Required :: "Authenticator \<Rightarrow> bool"
  where "Required a = (if multiWorkspace a then True else password a \<noteq> [])"

definition Check :: "Authenticator \<Rightarrow> string \<Rightarrow> bool"
  where "Check a pw =
    (if multiWorkspace a then fmlookup (byPassword a) pw \<noteq> None
     else if password a = [] then True
     else pw = password a)"

section \<open>Properties\<close>

lemma find_snoc:
  "find P (xs @ [x]) = (case find P xs of None \<Rightarrow> if P x then Some x else None | Some y \<Rightarrow> Some y)"
  by (induction xs) auto

lemma fold_creds:
  "fmlookup (fold (\<lambda>c m. fmupd (credPassword c) (credWorkspace c) m) creds m) pw =
    (case find (\<lambda>c. credPassword c = pw) (rev creds) of
       None \<Rightarrow> fmlookup m pw | Some c \<Rightarrow> Some (credWorkspace c))"
proof (induction creds arbitrary: m)
  case (Cons c creds)
  then show ?case by (auto simp: find_snoc split: option.splits)
qed simp

text \<open>The last credential with the password wins; no other password is accepted.\<close>

lemma WorkspaceForPassword_last:
  "WorkspaceForPassword (NewMultiWorkspace creds) pw =
    map_option credWorkspace (find (\<lambda>c. credPassword c = pw) (rev creds))"
  by (auto simp: WorkspaceForPassword_def NewMultiWorkspace_def fold_creds split: option.splits)

lemma Check_workspace: "MultiWorkspace a \<Longrightarrow> Check a pw \<longleftrightarrow> WorkspaceForPassword a pw \<noteq> None"
  by (simp add: MultiWorkspace_def Check_def WorkspaceForPassword_def)

section \<open>What the handlers rely on\<close>

locale authenticator =
  fixes multi :: "'a \<Rightarrow> bool"
    and required :: "'a \<Rightarrow> bool"
    and check :: "'a \<Rightarrow> string \<Rightarrow> bool"
    and workspace_for :: "'a \<Rightarrow> string \<Rightarrow> string option"
  assumes multi_required: "multi a \<Longrightarrow> required a"
    and check_multi: "multi a \<Longrightarrow> check a pw \<longleftrightarrow> workspace_for a pw \<noteq> None"
    and single_no_workspace: "\<not> multi a \<Longrightarrow> workspace_for a pw = None"
    and not_required_accepts: "\<not> required a \<Longrightarrow> check a pw"
begin

lemma accepted_workspace: "multi a \<Longrightarrow> check a pw \<Longrightarrow> \<exists>ws. workspace_for a pw = Some ws"
  using check_multi by auto

lemma rejecting_required: "\<not> check a pw \<Longrightarrow> required a"
  using not_required_accepts by blast

end

interpretation auth: authenticator MultiWorkspace Required Check WorkspaceForPassword
  by unfold_locales
    (auto simp: MultiWorkspace_def Required_def Check_def WorkspaceForPassword_def split: if_splits)

end
