(* ===== verification/PubSub.thy ===== *)
theory PubSub
  imports Glob
begin

text \<open>
  The broker, \<^verbatim>\<open>internal/server/resp/pubsub.go\<close>. A connection is named by a number. The
  buffered channel of a subscriber (\<^verbatim>\<open>ClientState.subCh\<close>, capacity 64) is part of the broker's
  state here, because \<^verbatim>\<open>Publish\<close> of another connection sends on it; a connection that never
  subscribed has none. The lock makes each operation one step. \<open>forward\<close> is one turn of the
  forwarder goroutine of a subscriber.

  The loop over the subscribers of one channel or pattern runs in the order of their numbers: each
  sends to its own channel only, so the order among different connections is not observable. The
  order among patterns is, and is chosen by the environment.
\<close>

section \<open>State\<close>

record Message =
  msgChannel :: string
  msgPattern :: string \<comment> \<open>empty for a direct subscription\<close>
  msgPayload :: bytes

type_synonym subscribers = "(string, nat fset) fmap"

record PubSub =
  channels :: subscribers
  patterns :: subscribers
  subChs :: "(nat, Message list) fmap"

abbreviation subChCap :: nat where "subChCap \<equiv> 64"

definition NewPubSub :: PubSub
  where "NewPubSub = \<lparr>channels = fmempty, patterns = fmempty, subChs = fmempty\<rparr>"

section \<open>Subscriptions\<close>

definition subscribersOf :: "string \<Rightarrow> subscribers \<Rightarrow> nat fset" \<comment> \<open>a nil map has no members\<close>
  where "subscribersOf ch m = (case fmlookup m ch of None \<Rightarrow> {||} | Some subs \<Rightarrow> subs)"

definition addSubscriber :: "nat \<Rightarrow> string \<Rightarrow> subscribers \<Rightarrow> subscribers"
  where "addSubscriber cs ch m = fmupd ch (finsert cs (subscribersOf ch m)) m"

definition removeSubscriber :: "nat \<Rightarrow> string \<Rightarrow> subscribers \<Rightarrow> subscribers"
  where "removeSubscriber cs ch m =
    (case fmlookup m ch of
       None \<Rightarrow> m
     | Some subs \<Rightarrow>
         let subs' = subs |-| {|cs|}
         in if subs' = {||} then fmdrop ch m else fmupd ch subs' m)"

definition Subscribe :: "nat \<Rightarrow> string \<Rightarrow> PubSub \<Rightarrow> PubSub"
  where "Subscribe cs channel p = p\<lparr>channels := addSubscriber cs channel (channels p)\<rparr>"

definition Unsubscribe :: "nat \<Rightarrow> string \<Rightarrow> PubSub \<Rightarrow> PubSub"
  where "Unsubscribe cs channel p = p\<lparr>channels := removeSubscriber cs channel (channels p)\<rparr>"

definition SubscribePattern :: "nat \<Rightarrow> string \<Rightarrow> PubSub \<Rightarrow> PubSub"
  where "SubscribePattern cs pattern p = p\<lparr>patterns := addSubscriber cs pattern (patterns p)\<rparr>"

definition UnsubscribePattern :: "nat \<Rightarrow> string \<Rightarrow> PubSub \<Rightarrow> PubSub"
  where "UnsubscribePattern cs pattern p = p\<lparr>patterns := removeSubscriber cs pattern (patterns p)\<rparr>"

definition UnsubscribeAll :: "goenv \<Rightarrow> nat \<Rightarrow> PubSub \<Rightarrow> PubSub"
  where "UnsubscribeAll env cs p =
    p\<lparr>channels := fold (removeSubscriber cs) (range_keys env (channels p)) (channels p),
      patterns := fold (removeSubscriber cs) (range_keys env (patterns p)) (patterns p)\<rparr>"

section \<open>Publishing\<close>

type_synonym delivery = "nat \<times> string" \<comment> \<open>the subscriber and the pattern\<close>

definition deliveries :: "goenv \<Rightarrow> string \<Rightarrow> PubSub \<Rightarrow> delivery list"
  where "deliveries env channel p =
    map (\<lambda>cs. (cs, [])) (sorted_list_of_fset (subscribersOf channel (channels p))) @
    concat (map (\<lambda>pat.
        if resp_globMatch pat channel
        then map (\<lambda>cs. (cs, pat)) (sorted_list_of_fset (subscribersOf pat (patterns p)))
        else [])
      (range_keys env (patterns p)))"

definition trySend :: "nat \<Rightarrow> Message \<Rightarrow> (nat, Message list) fmap \<Rightarrow> bool \<times> (nat, Message list) fmap"
  where "trySend cs msg chs =
    (case fmlookup chs cs of
       None \<Rightarrow> (False, chs)
     | Some buf \<Rightarrow>
         if length buf < subChCap then (True, fmupd cs (buf @ [msg]) chs) else (False, chs))"

fun publishLoop :: "string \<Rightarrow> bytes \<Rightarrow> delivery list \<Rightarrow> int \<Rightarrow> (nat, Message list) fmap
    \<Rightarrow> int \<times> (nat, Message list) fmap" where
  "publishLoop channel payload [] delivered chs = (delivered, chs)"
| "publishLoop channel payload ((cs, pat) # targets) delivered chs =
    (case trySend cs \<lparr>msgChannel = channel, msgPattern = pat, msgPayload = payload\<rparr> chs of
       (sent, chs') \<Rightarrow> publishLoop channel payload targets (if sent then delivered + 1 else delivered) chs')"

definition Publish :: "goenv \<Rightarrow> string \<Rightarrow> bytes \<Rightarrow> PubSub \<Rightarrow> int \<times> PubSub"
  where "Publish env channel payload p =
    (case publishLoop channel payload (deliveries env channel p) 0 (subChs p) of
       (delivered, chs) \<Rightarrow> (delivered, p\<lparr>subChs := chs\<rparr>))"

definition forward :: "nat \<Rightarrow> PubSub \<Rightarrow> Message option \<times> PubSub" \<comment> \<open>receive the next message\<close>
  where "forward cs p =
    (case fmlookup (subChs p) cs of
       Some (msg # buf) \<Rightarrow> (Some msg, p\<lparr>subChs := fmupd cs buf (subChs p)\<rparr>)
     | _ \<Rightarrow> (None, p))"

section \<open>Invariant\<close>

text \<open>
  No empty subscriber set is kept, every subscriber has a channel to deliver to, and no channel
  holds more than its capacity.
\<close>

definition subs_wf :: "(nat, Message list) fmap \<Rightarrow> subscribers \<Rightarrow> bool"
  where "subs_wf chs m \<longleftrightarrow>
    (\<forall>ch subs. fmlookup m ch = Some subs \<longrightarrow> subs \<noteq> {||} \<and> (\<forall>cs. cs |\<in>| subs \<longrightarrow> fmlookup chs cs \<noteq> None))"

definition ps_wf :: "PubSub \<Rightarrow> bool"
  where "ps_wf p \<longleftrightarrow> subs_wf (subChs p) (channels p) \<and> subs_wf (subChs p) (patterns p) \<and>
    (\<forall>cs buf. fmlookup (subChs p) cs = Some buf \<longrightarrow> length buf \<le> subChCap)"

lemma subscribers_add: "subscribersOf ch' (addSubscriber cs ch m) =
    (if ch' = ch then finsert cs (subscribersOf ch m) else subscribersOf ch' m)"
  by (simp add: subscribersOf_def addSubscriber_def)

lemma subscribers_remove: "subscribersOf ch' (removeSubscriber cs ch m) =
    (if ch' = ch then subscribersOf ch m |-| {|cs|} else subscribersOf ch' m)"
  by (auto simp: subscribersOf_def removeSubscriber_def Let_def split: option.splits)

lemma subs_wf_add [inv_intros]: "subs_wf chs m \<Longrightarrow> fmlookup chs cs \<noteq> None \<Longrightarrow> subs_wf chs (addSubscriber cs ch m)"
  by (auto simp: subs_wf_def addSubscriber_def subscribersOf_def split: option.splits)

lemma subs_wf_remove [inv_intros]: "subs_wf chs m \<Longrightarrow> subs_wf chs (removeSubscriber cs ch m)"
  by (auto simp: subs_wf_def removeSubscriber_def Let_def split: option.splits if_splits)

lemma fold_remove:
  "subscribersOf ch (fold (removeSubscriber cs) chans m) =
    (if ch \<in> set chans then subscribersOf ch m |-| {|cs|} else subscribersOf ch m)"
  by (induction chans arbitrary: m) (auto simp: subscribers_remove)

lemma fold_remove_wf: "subs_wf chs m \<Longrightarrow> subs_wf chs (fold (removeSubscriber cs) chans m)"
  by (induction chans arbitrary: m) (auto intro: subs_wf_remove)

lemma subscribersOf_absent: "ch \<notin> fmdom' m \<Longrightarrow> subscribersOf ch m = {||}"
  by (simp add: subscribersOf_def fmdom'_lookup)

lemma UnsubscribeAll_subscribers:
  assumes "env_ok env"
  shows "subscribersOf ch (channels (UnsubscribeAll env cs p)) = subscribersOf ch (channels p) |-| {|cs|}"
    and "subscribersOf ch (patterns (UnsubscribeAll env cs p)) = subscribersOf ch (patterns p) |-| {|cs|}"
  using assms subscribersOf_absent [of ch] by (auto simp: UnsubscribeAll_def fold_remove)

lemma ps_wf_ops [inv_intros]:
  "ps_wf NewPubSub"
  "ps_wf p \<Longrightarrow> fmlookup (subChs p) cs \<noteq> None \<Longrightarrow> ps_wf (Subscribe cs ch p)"
  "ps_wf p \<Longrightarrow> fmlookup (subChs p) cs \<noteq> None \<Longrightarrow> ps_wf (SubscribePattern cs ch p)"
  "ps_wf p \<Longrightarrow> ps_wf (Unsubscribe cs ch p)"
  "ps_wf p \<Longrightarrow> ps_wf (UnsubscribePattern cs ch p)"
  "ps_wf p \<Longrightarrow> ps_wf (UnsubscribeAll env cs p)"
  by (auto simp: ps_wf_def NewPubSub_def Subscribe_def SubscribePattern_def Unsubscribe_def
      UnsubscribePattern_def UnsubscribeAll_def intro: subs_wf_add subs_wf_remove fold_remove_wf)
    (auto simp: subs_wf_def)

section \<open>What a publish delivers\<close>

text \<open>The messages that a publish offers to one subscriber, in order.\<close>

definition offered :: "goenv \<Rightarrow> string \<Rightarrow> bytes \<Rightarrow> nat \<Rightarrow> PubSub \<Rightarrow> Message list"
  where "offered env channel payload cs p =
    map (\<lambda>pat. \<lparr>msgChannel = channel, msgPattern = pat, msgPayload = payload\<rparr>)
      ((if cs |\<in>| subscribersOf channel (channels p) then [[]] else []) @
       filter (\<lambda>pat. resp_globMatch pat channel \<and> cs |\<in>| subscribersOf pat (patterns p))
         (range_keys env (patterns p)))"

definition buffer :: "nat \<Rightarrow> (nat, Message list) fmap \<Rightarrow> Message list"
  where "buffer cs chs = (case fmlookup chs cs of None \<Rightarrow> [] | Some buf \<Rightarrow> buf)"

definition room :: "nat \<Rightarrow> (nat, Message list) fmap \<Rightarrow> nat" \<comment> \<open>a nil channel has none\<close>
  where "room cs chs = (case fmlookup chs cs of None \<Rightarrow> 0 | Some buf \<Rightarrow> subChCap - length buf)"

abbreviation targeted :: "string \<Rightarrow> bytes \<Rightarrow> nat \<Rightarrow> delivery list \<Rightarrow> Message list"
  where "targeted channel payload cs ts \<equiv>
    map (\<lambda>(_, pat). \<lparr>msgChannel = channel, msgPattern = pat, msgPayload = payload\<rparr>) (filter (\<lambda>(c, _). c = cs) ts)"

lemma trySend_simps:
  "trySend cs msg chs = (0 < room cs chs, if 0 < room cs chs then fmupd cs (buffer cs chs @ [msg]) chs else chs)"
  by (auto simp: trySend_def room_def buffer_def split: option.splits)

lemma publishLoop_buffer:
  "buffer cs (snd (publishLoop channel payload ts n chs)) =
    buffer cs chs @ take (room cs chs) (targeted channel payload cs ts)"
proof (induction ts arbitrary: n chs)
  case (Cons t ts)
  obtain c pat where t: "t = (c, pat)" by fastforce
  let ?m = "\<lparr>msgChannel = channel, msgPattern = pat, msgPayload = payload\<rparr>"
  show ?case
  proof (cases "c = cs \<and> 0 < room c chs")
    case True
    then have "buffer cs (fmupd cs (buffer cs chs @ [?m]) chs) = buffer cs chs @ [?m]"
      "room cs (fmupd cs (buffer cs chs @ [?m]) chs) = room cs chs - 1"
      by (auto simp: buffer_def room_def split: option.splits)
    with True t Cons show ?thesis by (cases "room cs chs") (simp_all add: trySend_simps)
  next
    case False
    then have "buffer cs (snd (trySend c ?m chs)) = buffer cs chs" "room cs (snd (trySend c ?m chs)) = room cs chs"
      by (auto simp: trySend_simps buffer_def room_def)
    with False t Cons show ?thesis by (auto simp: split_beta)
  qed
qed simp

lemma publishLoop_dom: "fmdom (snd (publishLoop channel payload ts n chs)) = fmdom chs"
proof (induction ts arbitrary: n chs)
  case (Cons t ts)
  obtain c pat where t: "t = (c, pat)" by fastforce
  let ?m = "\<lparr>msgChannel = channel, msgPattern = pat, msgPayload = payload\<rparr>"
  have "fmdom (snd (trySend c ?m chs)) = fmdom chs"
    by (auto simp: trySend_def fmdom_lookup finsert_absorb split: option.splits)
  with Cons t show ?case by (simp add: split_beta)
qed simp

definition backlog :: "(nat, Message list) fmap \<Rightarrow> nat" \<comment> \<open>messages waiting in all channels\<close>
  where "backlog chs = (\<Sum>cs \<in> fmdom' chs. length (buffer cs chs))"

lemma backlog_send:
  assumes "fmlookup chs cs = Some buf"
  shows "backlog (fmupd cs (buf @ [msg]) chs) = Suc (backlog chs)"
proof -
  have cs: "cs \<in> fmdom' chs" using assms by (simp add: fmdom'_lookup)
  let ?chs = "fmupd cs (buf @ [msg]) chs"
  have same: "(\<Sum>c \<in> fmdom' chs - {cs}. length (buffer c ?chs)) = (\<Sum>c \<in> fmdom' chs - {cs}. length (buffer c chs))"
    by (rule sum.cong) (auto simp: buffer_def)
  have "fmdom' ?chs = fmdom' chs" using cs by auto
  then have "backlog ?chs = length (buffer cs ?chs) + (\<Sum>c \<in> fmdom' chs - {cs}. length (buffer c ?chs))"
    using cs by (simp add: backlog_def sum.remove)
  moreover have "backlog chs = length (buffer cs chs) + (\<Sum>c \<in> fmdom' chs - {cs}. length (buffer c chs))"
    using cs by (simp add: backlog_def sum.remove)
  ultimately show ?thesis using same assms by (simp add: buffer_def)
qed

lemma publishLoop_count:
  "fst (publishLoop channel payload ts n chs) = n + int (backlog (snd (publishLoop channel payload ts n chs))) - int (backlog chs)"
proof (induction ts arbitrary: n chs)
  case (Cons t ts)
  obtain c pat where t: "t = (c, pat)" by fastforce
  show ?case
    unfolding t publishLoop.simps split_beta Cons
    by (auto simp: trySend_def backlog_send split: option.splits)
qed simp

lemma distinct_filter_one: "distinct xs \<Longrightarrow> filter (\<lambda>y. y = x) xs = (if x \<in> set xs then [x] else [])"
  by (induction xs) auto

lemma targeted_deliveries:
  assumes "env_ok env"
  shows "targeted channel payload cs (deliveries env channel p) = offered env channel payload cs p"
proof -
  have one: "filter (\<lambda>(c, _). c = cs) (map (\<lambda>c. (c, pat)) (sorted_list_of_fset S)) = (if cs |\<in>| S then [(cs, pat)] else [])"
    for S pat
    by (simp add: filter_map comp_def distinct_filter_one)
  have many: "filter (\<lambda>(c, _). c = cs) (concat (map (\<lambda>pat. if P pat then map (\<lambda>c. (c, pat)) (sorted_list_of_fset (S pat)) else []) pats))
      = map (\<lambda>pat. (cs, pat)) (filter (\<lambda>pat. P pat \<and> cs |\<in>| S pat) pats)" for P S pats
    by (induction pats) (auto simp: one)
  show ?thesis by (simp add: deliveries_def offered_def one many)
qed

lemma Publish_buffer:
  assumes "env_ok env"
  shows "buffer cs (subChs (snd (Publish env channel payload p))) =
    buffer cs (subChs p) @ take (room cs (subChs p)) (offered env channel payload cs p)"
  using publishLoop_buffer [of cs channel payload "deliveries env channel p" 0 "subChs p"]
  by (simp add: Publish_def split_beta targeted_deliveries [OF assms])

lemma Publish_count:
  "fst (Publish env channel payload p) =
    int (backlog (subChs (snd (Publish env channel payload p)))) - int (backlog (subChs p))"
  using publishLoop_count [of channel payload "deliveries env channel p" 0 "subChs p"]
  by (simp add: Publish_def split_beta)

lemma Publish_subscriptions [simp]:
  "channels (snd (Publish env ch b p)) = channels p" "patterns (snd (Publish env ch b p)) = patterns p"
  "fmdom (subChs (snd (Publish env ch b p))) = fmdom (subChs p)"
  by (simp_all add: Publish_def split_beta publishLoop_dom)

lemma lookup_dom_cong: "fmdom m = fmdom m' \<Longrightarrow> fmlookup m k = None \<longleftrightarrow> fmlookup m' k = None"
  by (metis fmdom_notD fmdom_notI)

lemma ps_wf_publish [inv_intros]:
  assumes "ps_wf p" "env_ok env"
  shows "ps_wf (snd (Publish env ch b p))"
proof -
  let ?p = "snd (Publish env ch b p)"
  have none: "fmlookup (subChs ?p) cs = None \<longleftrightarrow> fmlookup (subChs p) cs = None" for cs
    by (rule lookup_dom_cong) simp
  have "length buf \<le> subChCap" if "fmlookup (subChs ?p) cs = Some buf" for cs buf
  proof -
    from that none [of cs] obtain old where old: "fmlookup (subChs p) cs = Some old" by auto
    have "buf = buffer cs (subChs ?p)" using that by (simp add: buffer_def)
    also have "length \<dots> \<le> length old + (subChCap - length old)"
      unfolding Publish_buffer [OF assms(2)] using old by (simp add: buffer_def room_def)
    finally show ?thesis using assms(1) old by (auto simp: ps_wf_def)
  qed
  with assms(1) none show ?thesis by (auto simp: ps_wf_def subs_wf_def)
qed

lemma ps_wf_forward [inv_intros]: "ps_wf p \<Longrightarrow> ps_wf (snd (forward cs p))"
  by (fastforce simp: ps_wf_def subs_wf_def forward_def split: option.splits list.splits)

end
