(* ===== verification/Metrics.thy ===== *)
theory Metrics
  imports Float64
begin

text \<open>
  The process-wide counters, \<^verbatim>\<open>internal/observability/metrics.go\<close>, and the grouping of
  commands into latency families, \<^verbatim>\<open>internal/server/resp/metrics_family.go\<close>. Every counter is an
  \<^verbatim>\<open>atomic.Int64\<close>: one update is one step, and the sum wraps at 64 bits. The
  compare-and-swap loop of \<open>record\<close> computes the maximum: whatever values other goroutines store
  between a load and a failed swap, the value it leaves is the maximum of its own and what it last
  read, so as one step it is \<open>max\<close>.
\<close>

section \<open>Counters\<close>

definition add64 :: "int \<Rightarrow> int \<Rightarrow> int" \<comment> \<open>\<^verbatim>\<open>atomic.Int64.Add\<close>\<close>
  where "add64 n c = int64 (c + n)"

record latencyAccumulator =
  accCount :: int
  sumNanos :: int
  maxNanos :: int

definition recordLatency :: "duration \<Rightarrow> latencyAccumulator \<Rightarrow> latencyAccumulator"
  where "recordLatency d l =
    \<lparr>accCount = add64 1 (accCount l), sumNanos = add64 d (sumNanos l),
     maxNanos = (if d \<le> maxNanos l then maxNanos l else d)\<rparr>"

record Metrics =
  connectionsTotal :: int
  connectionsActive :: int
  connectionsRejected :: int
  commandsTotal :: int
  errorsTotal :: int
  semanticCacheHits :: int
  semanticCacheMisses :: int
  promptCacheHits :: int
  promptCacheMisses :: int
  toolCacheHits :: int
  toolCacheMisses :: int
  vectorSearches :: int
  memoryReads :: int
  memoryWrites :: int
  evictionsTotal :: int
  consolidationsTotal :: int
  memoriesDedupedTotal :: int
  graphExtractionsTotal :: int
  entitiesExtractedTotal :: int
  relationsExtractedTotal :: int
  mcpCallsTotal :: int
  embeddingCallsTotal :: int
  embeddingCallsErrors :: int
  embeddingCallsInFlight :: int
  completionCallsTotal :: int
  completionCallsErrors :: int
  completionCallsInFlight :: int
  mcpCallsByTool :: "(string, int) fmap"
  latency :: "(string, latencyAccumulator) fmap"

definition NewMetrics :: Metrics
  where "NewMetrics =
    \<lparr>connectionsTotal = 0, connectionsActive = 0, connectionsRejected = 0,
     commandsTotal = 0, errorsTotal = 0, semanticCacheHits = 0,
     semanticCacheMisses = 0, promptCacheHits = 0, promptCacheMisses = 0,
     toolCacheHits = 0, toolCacheMisses = 0, vectorSearches = 0,
     memoryReads = 0, memoryWrites = 0, evictionsTotal = 0,
     consolidationsTotal = 0, memoriesDedupedTotal = 0, graphExtractionsTotal = 0,
     entitiesExtractedTotal = 0, relationsExtractedTotal = 0, mcpCallsTotal = 0,
     embeddingCallsTotal = 0, embeddingCallsErrors = 0, embeddingCallsInFlight = 0,
     completionCallsTotal = 0, completionCallsErrors = 0, completionCallsInFlight = 0,
     mcpCallsByTool = fmempty, latency = fmempty\<rparr>"

definition ConnectionOpened :: "Metrics \<Rightarrow> Metrics"
  where "ConnectionOpened m = m\<lparr>connectionsTotal := add64 1 (connectionsTotal m),
      connectionsActive := add64 1 (connectionsActive m)\<rparr>"

definition ConnectionClosed :: "Metrics \<Rightarrow> Metrics"
  where "ConnectionClosed m = m\<lparr>connectionsActive := add64 (-1) (connectionsActive m)\<rparr>"

definition ConnectionRejected :: "Metrics \<Rightarrow> Metrics"
  where "ConnectionRejected m = m\<lparr>connectionsRejected := add64 1 (connectionsRejected m)\<rparr>"

definition CommandExecuted :: "Metrics \<Rightarrow> Metrics"
  where "CommandExecuted m = m\<lparr>commandsTotal := add64 1 (commandsTotal m)\<rparr>"

definition ErrorReturned :: "Metrics \<Rightarrow> Metrics"
  where "ErrorReturned m = m\<lparr>errorsTotal := add64 1 (errorsTotal m)\<rparr>"

definition SemanticCacheHit :: "Metrics \<Rightarrow> Metrics"
  where "SemanticCacheHit m = m\<lparr>semanticCacheHits := add64 1 (semanticCacheHits m)\<rparr>"

definition SemanticCacheMiss :: "Metrics \<Rightarrow> Metrics"
  where "SemanticCacheMiss m = m\<lparr>semanticCacheMisses := add64 1 (semanticCacheMisses m)\<rparr>"

definition PromptCacheHit :: "Metrics \<Rightarrow> Metrics"
  where "PromptCacheHit m = m\<lparr>promptCacheHits := add64 1 (promptCacheHits m)\<rparr>"

definition PromptCacheMiss :: "Metrics \<Rightarrow> Metrics"
  where "PromptCacheMiss m = m\<lparr>promptCacheMisses := add64 1 (promptCacheMisses m)\<rparr>"

definition ToolCacheHit :: "Metrics \<Rightarrow> Metrics"
  where "ToolCacheHit m = m\<lparr>toolCacheHits := add64 1 (toolCacheHits m)\<rparr>"

definition ToolCacheMiss :: "Metrics \<Rightarrow> Metrics"
  where "ToolCacheMiss m = m\<lparr>toolCacheMisses := add64 1 (toolCacheMisses m)\<rparr>"

definition VectorSearchPerformed :: "Metrics \<Rightarrow> Metrics"
  where "VectorSearchPerformed m = m\<lparr>vectorSearches := add64 1 (vectorSearches m)\<rparr>"

definition MemoryRead :: "Metrics \<Rightarrow> Metrics"
  where "MemoryRead m = m\<lparr>memoryReads := add64 1 (memoryReads m)\<rparr>"

definition MemoryWrite :: "Metrics \<Rightarrow> Metrics"
  where "MemoryWrite m = m\<lparr>memoryWrites := add64 1 (memoryWrites m)\<rparr>"

definition ConsolidationPerformed :: "Metrics \<Rightarrow> Metrics"
  where "ConsolidationPerformed m = m\<lparr>consolidationsTotal := add64 1 (consolidationsTotal m)\<rparr>"

definition MemoriesDeduped :: "int \<Rightarrow> Metrics \<Rightarrow> Metrics"
  where "MemoriesDeduped n m = m\<lparr>memoriesDedupedTotal := add64 n (memoriesDedupedTotal m)\<rparr>"

definition GraphExtractionPerformed :: "Metrics \<Rightarrow> Metrics"
  where "GraphExtractionPerformed m = m\<lparr>graphExtractionsTotal := add64 1 (graphExtractionsTotal m)\<rparr>"

definition EntitiesExtracted :: "int \<Rightarrow> Metrics \<Rightarrow> Metrics"
  where "EntitiesExtracted n m = m\<lparr>entitiesExtractedTotal := add64 n (entitiesExtractedTotal m)\<rparr>"

definition RelationsExtracted :: "int \<Rightarrow> Metrics \<Rightarrow> Metrics"
  where "RelationsExtracted n m = m\<lparr>relationsExtractedTotal := add64 n (relationsExtractedTotal m)\<rparr>"

definition KeyEvicted :: "Metrics \<Rightarrow> Metrics"
  where "KeyEvicted m = m\<lparr>evictionsTotal := add64 1 (evictionsTotal m)\<rparr>"

definition MCPCallRecorded :: "string \<Rightarrow> Metrics \<Rightarrow> Metrics"
  where "MCPCallRecorded tool m =
    m\<lparr>mcpCallsTotal := add64 1 (mcpCallsTotal m),
      mcpCallsByTool := fmupd tool
        (add64 1 (case fmlookup (mcpCallsByTool m) tool of None \<Rightarrow> 0 | Some n \<Rightarrow> n)) (mcpCallsByTool m)\<rparr>"

definition EmbeddingCallStarted :: "Metrics \<Rightarrow> Metrics"
  where "EmbeddingCallStarted m = m\<lparr>embeddingCallsTotal := add64 1 (embeddingCallsTotal m),
      embeddingCallsInFlight := add64 1 (embeddingCallsInFlight m)\<rparr>"

definition EmbeddingCallFinished :: "bool \<Rightarrow> Metrics \<Rightarrow> Metrics" \<comment> \<open>whether the call failed\<close>
  where "EmbeddingCallFinished failed m =
    (let m1 = m\<lparr>embeddingCallsInFlight := add64 (-1) (embeddingCallsInFlight m)\<rparr>
     in if failed then m1\<lparr>embeddingCallsErrors := add64 1 (embeddingCallsErrors m1)\<rparr> else m1)"

definition CompletionCallStarted :: "Metrics \<Rightarrow> Metrics"
  where "CompletionCallStarted m = m\<lparr>completionCallsTotal := add64 1 (completionCallsTotal m),
      completionCallsInFlight := add64 1 (completionCallsInFlight m)\<rparr>"

definition CompletionCallFinished :: "bool \<Rightarrow> Metrics \<Rightarrow> Metrics" \<comment> \<open>whether the call failed\<close>
  where "CompletionCallFinished failed m =
    (let m1 = m\<lparr>completionCallsInFlight := add64 (-1) (completionCallsInFlight m)\<rparr>
     in if failed then m1\<lparr>completionCallsErrors := add64 1 (completionCallsErrors m1)\<rparr> else m1)"

definition RecordCommandLatency :: "string \<Rightarrow> duration \<Rightarrow> Metrics \<Rightarrow> Metrics"
  where "RecordCommandLatency family d m =
    (let acc = (case fmlookup (latency m) family of
                  None \<Rightarrow> \<lparr>accCount = 0, sumNanos = 0, maxNanos = 0\<rparr> | Some acc \<Rightarrow> acc)
     in m\<lparr>latency := fmupd family (recordLatency d acc) (latency m)\<rparr>)"

section \<open>Snapshots\<close>

record LatencyStats =
  lFamily :: string
  lCount :: int
  AvgNanos :: int
  MaxNanos :: int

record CacheStats =
  Hits :: int
  Misses :: int

definition HitRate :: "CacheStats \<Rightarrow> float64"
  where "HitRate c =
    (let total = int64 (Hits c + Misses c)
     in if total = 0 then f64_zero else f64_div (f64_of_int (Hits c)) (f64_of_int total))"

record Snapshot =
  ConnectionsTotal :: int
  ConnectionsActive :: int
  ConnectionsRejected :: int
  CommandsTotal :: int
  ErrorsTotal :: int
  SemanticCache :: CacheStats
  PromptCache :: CacheStats
  ToolCache :: CacheStats
  VectorSearchesTotal :: int
  MemoryReadsTotal :: int
  MemoryWritesTotal :: int
  EvictionsTotal :: int
  ConsolidationsTotal :: int
  MemoriesDedupedTotal :: int
  GraphExtractionsTotal :: int
  EntitiesExtractedTotal :: int
  RelationsExtractedTotal :: int
  MCPCallsTotal :: int
  EmbeddingCallsTotal :: int
  EmbeddingCallsErrors :: int
  EmbeddingCallsInFlight :: int
  CompletionCallsTotal :: int
  CompletionCallsErrors :: int
  CompletionCallsInFlight :: int
  MCPCallsByTool :: "(string, int) fmap"
  Latency :: "LatencyStats list"

definition latencyStats :: "(string, latencyAccumulator) fmap \<Rightarrow> string \<Rightarrow> LatencyStats"
  where "latencyStats lat family =
    (case fmlookup lat family of
       None \<Rightarrow> \<lparr>lFamily = family, lCount = 0, AvgNanos = 0, MaxNanos = 0\<rparr>
     | Some acc \<Rightarrow>
         \<lparr>lFamily = family, lCount = accCount acc,
          AvgNanos = (if 0 < accCount acc then quot (sumNanos acc) (accCount acc) else 0),
          MaxNanos = maxNanos acc\<rparr>)"

definition takeSnapshot :: "goenv \<Rightarrow> Metrics \<Rightarrow> Snapshot"
  where "takeSnapshot env m =
    \<lparr>ConnectionsTotal = connectionsTotal m,
     ConnectionsActive = connectionsActive m,
     ConnectionsRejected = connectionsRejected m,
     CommandsTotal = commandsTotal m,
     ErrorsTotal = errorsTotal m,
     SemanticCache = \<lparr>Hits = semanticCacheHits m, Misses = semanticCacheMisses m\<rparr>,
     PromptCache = \<lparr>Hits = promptCacheHits m, Misses = promptCacheMisses m\<rparr>,
     ToolCache = \<lparr>Hits = toolCacheHits m, Misses = toolCacheMisses m\<rparr>,
     VectorSearchesTotal = vectorSearches m,
     MemoryReadsTotal = memoryReads m,
     MemoryWritesTotal = memoryWrites m,
     EvictionsTotal = evictionsTotal m,
     ConsolidationsTotal = consolidationsTotal m,
     MemoriesDedupedTotal = memoriesDedupedTotal m,
     GraphExtractionsTotal = graphExtractionsTotal m,
     EntitiesExtractedTotal = entitiesExtractedTotal m,
     RelationsExtractedTotal = relationsExtractedTotal m,
     MCPCallsTotal = mcpCallsTotal m,
     EmbeddingCallsTotal = embeddingCallsTotal m,
     EmbeddingCallsErrors = embeddingCallsErrors m,
     EmbeddingCallsInFlight = embeddingCallsInFlight m,
     CompletionCallsTotal = completionCallsTotal m,
     CompletionCallsErrors = completionCallsErrors m,
     CompletionCallsInFlight = completionCallsInFlight m,
     MCPCallsByTool = mcpCallsByTool m,
     Latency = map (latencyStats (latency m)) (range_keys env (latency m))\<rparr>"

section \<open>Command families\<close>

definition coreFamilies :: "(string \<times> string list) list" \<comment> \<open>each family with its commands\<close>
  where "coreFamilies =
    [(''connection'', [''PING'', ''ECHO'', ''SELECT'', ''HELLO'', ''AUTH'', ''CLIENT'', ''COMMAND'',
       ''INFO'', ''QUIT'']),
     (''generic'', [''DEL'', ''EXISTS'', ''EXPIRE'', ''PEXPIRE'', ''TTL'', ''PTTL'', ''PERSIST'',
       ''TYPE'', ''KEYS'', ''SCAN'', ''RENAME'', ''FLUSHDB'', ''FLUSHALL'']),
     (''strings'', [''GET'', ''SET'', ''MGET'', ''MSET'', ''INCR'', ''INCRBY'', ''DECR'',
       ''DECRBY'', ''APPEND'', ''STRLEN'']),
     (''hash'', [''HSET'', ''HGET'', ''HGETALL'', ''HDEL'', ''HEXISTS'', ''HKEYS'', ''HVALS'',
       ''HLEN'', ''HMGET'', ''HINCRBY'']),
     (''list'', [''LPUSH'', ''RPUSH'', ''LPOP'', ''RPOP'', ''LRANGE'', ''LLEN'', ''LINDEX'',
       ''LSET'', ''LREM'']),
     (''set'', [''SADD'', ''SREM'', ''SMEMBERS'', ''SISMEMBER'', ''SCARD'', ''SINTER'', ''SUNION'',
       ''SDIFF'']),
     (''sorted-set'', [''ZADD'', ''ZREM'', ''ZRANGE'', ''ZREVRANGE'', ''ZSCORE'', ''ZRANK'', ''ZCARD'',
       ''ZINCRBY'', ''ZRANGEBYSCORE'']),
     (''pubsub'', [''SUBSCRIBE'', ''UNSUBSCRIBE'', ''PUBLISH'', ''PSUBSCRIBE'']),
     (''transactions'', [''MULTI'', ''EXEC'', ''DISCARD'', ''WATCH'', ''UNWATCH''])]"

definition moduleFamilies :: "(string \<times> string) list"
  where "moduleFamilies = [(''CACHE'', ''semantic-cache''), (''TOOL'', ''tool-cache''), (''VECTOR'', ''vector''), (''MEMORY'', ''agent-memory''), (''AGENT'', ''agent-memory'')]"

definition commandFamily :: "string \<Rightarrow> string"
  where "commandFamily name =
    (let upper = to_upper name
     in if CHR ''.'' \<in> set upper then
          (let module = takeWhile (\<lambda>c. c \<noteq> CHR ''.'') upper
           in case map_of moduleFamilies module of Some fam \<Rightarrow> fam | None \<Rightarrow> to_lower module)
        else
          (case find (\<lambda>(fam, names). upper \<in> set names) coreFamilies of
             Some (fam, _) \<Rightarrow> fam
           | None \<Rightarrow> ''other''))"

section \<open>What the latency statistics mean\<close>

text \<open>
  After recording durations \<open>ds\<close> for a family, while the sums fit into 64 bits, its statistics are
  the number, the truncated average and the maximum of exactly these durations, and the statistics
  of other families are untouched.
\<close>

definition recordAll :: "string \<Rightarrow> duration list \<Rightarrow> Metrics \<Rightarrow> Metrics"
  where "recordAll family ds m = fold (RecordCommandLatency family) ds m"

abbreviation accOf :: "Metrics \<Rightarrow> string \<Rightarrow> latencyAccumulator"
  where "accOf m family \<equiv> (case fmlookup (latency m) family of
     None \<Rightarrow> \<lparr>accCount = 0, sumNanos = 0, maxNanos = 0\<rparr> | Some acc \<Rightarrow> acc)"

lemma accOf_record: "accOf (RecordCommandLatency family d m) f =
    (if f = family then recordLatency d (accOf m family) else accOf m f)"
  by (simp add: RecordCommandLatency_def Let_def)

lemma accOf_all: "accOf (recordAll family ds m) f = (if f = family then fold recordLatency ds (accOf m f) else accOf m f)"
  unfolding recordAll_def
proof (induction ds arbitrary: m)
  case (Cons d ds)
  then show ?case by (simp only: fold_simps comp_def accOf_record split: if_split) simp
qed simp

lemma recordLatency_simps [simp]:
  "accCount (recordLatency d a) = int64 (accCount a + 1)"
  "sumNanos (recordLatency d a) = int64 (sumNanos a + d)"
  "maxNanos (recordLatency d a) = max d (maxNanos a)"
  by (simp_all add: recordLatency_def add64_def)

lemma recorded_count: "is_int64 (accCount a) \<Longrightarrow>
    accCount (fold recordLatency ds a) = int64 (accCount a + int (length ds))"
proof (induction ds arbitrary: a)
  case (Cons d ds)
  then show ?case using Cons.IH [of "recordLatency d a"] by (simp add: int64_range add.assoc)
qed simp

lemma recorded_sum: "is_int64 (sumNanos a) \<Longrightarrow>
    sumNanos (fold recordLatency ds a) = int64 (sumNanos a + sum_list ds)"
proof (induction ds arbitrary: a)
  case (Cons d ds)
  then show ?case using Cons.IH [of "recordLatency d a"] by (simp add: int64_range add.assoc)
qed simp

lemma recorded_max: "maxNanos (fold recordLatency ds a) = fold max ds (maxNanos a)"
  by (induction ds arbitrary: a) simp_all

section \<open>Families of commands that do not exist\<close>

text \<open>
  A name with a dot is its own family, whether or not it is a command, so clients choose how many
  families there are.
\<close>

definition junk :: "nat \<Rightarrow> string" \<comment> \<open>A, AA, AAA, ... with a dot and an X\<close>
  where "junk n = replicate (Suc n) (CHR ''A'') @ ''.X''"

lemma to_upper_junk: "to_upper (junk n) = junk n"
proof -
  have "ascii (junk n)" by (simp add: ascii_def junk_def list_all_iff)
  then show ?thesis by (simp add: to_upper_ascii junk_def upper_char_def less_eq_char_def)
qed

lemma commandFamily_junk: "commandFamily (junk n) = replicate (Suc n) (CHR ''a'')"
proof -
  let ?m = "replicate (Suc n) (CHR ''A'')"
  have m: "takeWhile (\<lambda>c. c \<noteq> CHR ''.'') (junk n) = ?m"
    unfolding junk_def by (subst takeWhile_append2) (simp_all del: replicate.simps)
  have "\<forall>(k, v) \<in> set moduleFamilies. \<exists>c \<in> set k. c \<noteq> CHR ''A''" by (simp add: moduleFamilies_def)
  then have "map_of moduleFamilies ?m = None"
    by (fastforce simp: map_of_eq_None_iff simp del: replicate.simps)
  moreover have "ascii ?m" by (simp add: ascii_def list_all_iff)
  then have "to_lower ?m = replicate (Suc n) (lower_char (CHR ''A''))" by (simp add: to_lower_ascii del: replicate.simps)
  moreover have "lower_char (CHR ''A'') = CHR ''a''" by code_simp
  moreover have "CHR ''.'' \<in> set (junk n)" by (simp add: junk_def)
  ultimately show ?thesis by (simp add: commandFamily_def to_upper_junk m Let_def del: replicate.simps)
qed

end
