(* ===== verification/Resp.thy ===== *)
theory Resp
  imports Strconv
begin

text \<open>
  The wire protocol, \<^verbatim>\<open>internal/server/resp/types.go\<close>. Input is the list of bytes that the
  connection will deliver before it ends; \<open>ReadCommand\<close> consumes a command from its front. A reply
  is a value of \<open>Reply\<close>, the tree of the self-encoding closures of the source, and \<open>encode\<close>
  writes it.

  Two reference functions are not in the source: \<open>encodeCommand\<close> is how clients frame a command,
  and \<open>decode\<close> is how they read a reply. The round trips with them are what makes the two sides
  of the protocol agree.
\<close>

abbreviation CR :: char where "CR \<equiv> CHR 0x0D"
abbreviation LF :: char where "LF \<equiv> CHR 0x0A"
abbreviation crlf :: string where "crlf \<equiv> [CR, LF]"

section \<open>Reading commands\<close>

datatype read_result =
    Command "string list" string \<comment> \<open>the arguments and the rest of the input\<close>
  | ReadError \<comment> \<open>the input ended\<close>
  | ProtocolError
  | Panic \<comment> \<open>\<^verbatim>\<open>make\<close> with a length that cannot be allocated\<close>

text \<open>
  \<^verbatim>\<open>ReadString('\n')\<close> and \<^verbatim>\<open>TrimRight(line, "\r\n")\<close>: \<open>None\<close> when the input ends first.
\<close>

fun splitLine :: "string \<Rightarrow> (string \<times> string) option" where
  "splitLine [] = None"
| "splitLine (c # cs) =
    (if c = LF then Some ([], cs)
     else map_option (\<lambda>(l, r). (c # l, r)) (splitLine cs))"

definition trimRight :: "string \<Rightarrow> string"
  where "trimRight l = rev (dropWhile (\<lambda>c. c = CR \<or> c = LF) (rev l))"

definition readLine :: "string \<Rightarrow> (string \<times> string) option"
  where "readLine inp = map_option (\<lambda>(l, r). (trimRight l, r)) (splitLine inp)"

text \<open>
  \<^verbatim>\<open>makeslice\<close> panics on a negative length and on more bytes than the address space of a
  64-bit process holds (\<^verbatim>\<open>maxAlloc\<close>, \<open>2 ^ 48\<close>).
\<close>

definition makeslice_ok :: "int \<Rightarrow> int \<Rightarrow> bool"
  where "makeslice_ok elem n \<longleftrightarrow> 0 \<le> n \<and> elem * n \<le> 281474976710656"

fun readBulks :: "nat \<Rightarrow> string \<Rightarrow> string list \<Rightarrow> read_result" where
  "readBulks 0 inp args = Command args inp"
| "readBulks (Suc n) inp args =
    (case readLine inp of
       None \<Rightarrow> ReadError
     | Some (hdr, rest) \<Rightarrow>
         if length hdr < 1 \<or> hd hdr \<noteq> CHR ''$'' then ProtocolError
         else
           (case Atoi (tl hdr) of
              None \<Rightarrow> ProtocolError
            | Some blen \<Rightarrow>
                if blen < 0 then readBulks n rest (args @ [[]])
                else if \<not> makeslice_ok 1 (int64 (blen + 2)) then Panic
                else if length rest < nat (blen + 2) then ReadError
                else readBulks n (drop (nat (blen + 2)) rest) (args @ [take (nat blen) rest])))"

definition readArrayCommand :: "string \<Rightarrow> read_result"
  where "readArrayCommand inp =
    (case readLine inp of
       None \<Rightarrow> ReadError
     | Some (line, rest) \<Rightarrow>
         if length line < 1 \<or> hd line \<noteq> CHR ''*'' then ProtocolError
         else
           (case Atoi (tl line) of
              None \<Rightarrow> ProtocolError
            | Some n \<Rightarrow>
                if n \<le> 0 then Command [] rest
                else if \<not> makeslice_ok 16 n then Panic
                else readBulks (nat n) rest []))"

text \<open>
  The length in bytes of the white space rune at the front of a string, 0 when there is none
  (\<^verbatim>\<open>unicode.IsSpace\<close> on UTF-8; the lead bytes of these runes never occur inside another one).
\<close>

fun spaceLen :: "string \<Rightarrow> nat" where
  "spaceLen [] = 0"
| "spaceLen (c # cs) =
    (if c \<in> set [CHR 0x09, CHR 0x0A, CHR 0x0B, CHR 0x0C, CHR 0x0D, CHR 0x20] then 1
     else
       (case cs of
          [] \<Rightarrow> 0
        | d # ds \<Rightarrow>
            if c = CHR 0xC2 \<and> d \<in> set [CHR 0x85, CHR 0xA0] then 2
            else
              (case ds of
                 [] \<Rightarrow> 0
               | e # _ \<Rightarrow>
                   if c = CHR 0xE1 \<and> d = CHR 0x9A \<and> e = CHR 0x80
                    \<or> c = CHR 0xE2 \<and> d = CHR 0x80 \<and> (CHR 0x80 \<le> e \<and> e \<le> CHR 0x8A \<or> e \<in> set [CHR 0xA8, CHR 0xA9, CHR 0xAF])
                    \<or> c = CHR 0xE2 \<and> d = CHR 0x81 \<and> e = CHR 0x9F
                    \<or> c = CHR 0xE3 \<and> d = CHR 0x80 \<and> e = CHR 0x80
                   then 3 else 0)))"

text \<open>\<^verbatim>\<open>strings.Fields\<close>; \<open>skip\<close> counts the remaining bytes of a space rune, \<open>cur\<close> is the current word.\<close>

fun fieldsLoop :: "nat \<Rightarrow> string \<Rightarrow> string \<Rightarrow> string list" where
  "fieldsLoop skip [] cur = (if cur = [] then [] else [cur])"
| "fieldsLoop (Suc skip) (c # cs) cur = fieldsLoop skip cs cur"
| "fieldsLoop 0 (c # cs) cur =
    (let k = spaceLen (c # cs)
     in if k = 0 then fieldsLoop 0 cs (cur @ [c])
        else (if cur = [] then [] else [cur]) @ fieldsLoop (k - 1) cs [])"

definition Fields :: "string \<Rightarrow> string list"
  where "Fields s = fieldsLoop 0 s []"

definition readInlineCommand :: "string \<Rightarrow> read_result" \<comment> \<open>an all-blank line has no fields\<close>
  where "readInlineCommand inp =
    (case readLine inp of
       None \<Rightarrow> ReadError
     | Some (line, rest) \<Rightarrow> Command (Fields line) rest)"

definition ReadCommand :: "string \<Rightarrow> read_result"
  where "ReadCommand inp =
    (case inp of
       [] \<Rightarrow> ReadError
     | c # _ \<Rightarrow> if c = CHR ''*'' then readArrayCommand inp else readInlineCommand inp)"

section \<open>Replies\<close>

datatype Reply =
    Simple string
  | Err string
  | Integer int
  | Bulk bytes
  | NullArray
  | ArraySlice "Reply list"
  | Pushes "Reply list" \<comment> \<open>one after the other, as the SUBSCRIBE family writes them\<close>
  | NoReply \<comment> \<open>a nil reply writes nothing\<close>

abbreviation BulkString :: "string \<Rightarrow> Reply" where "BulkString s \<equiv> Bulk (bytes_of s)"
abbreviation NullBulk :: Reply where "NullBulk \<equiv> Bulk None"
abbreviation OK :: Reply where "OK \<equiv> Simple ''OK''"

definition WriteBulk :: "bytes \<Rightarrow> string"
  where "WriteBulk b =
    (case b of
       None \<Rightarrow> ''$-1'' @ crlf
     | Some s \<Rightarrow> CHR ''$'' # Itoa (int (length s)) @ crlf @ s @ crlf)"

definition WriteArrayHeader :: "int \<Rightarrow> string"
  where "WriteArrayHeader n = CHR ''*'' # Itoa n @ crlf"

fun encode :: "Reply \<Rightarrow> string" where
  "encode (Simple s) = CHR ''+'' # s @ crlf"
| "encode (Err s) = CHR ''-'' # s @ crlf"
| "encode (Integer n) = CHR '':'' # FormatInt n @ crlf"
| "encode (Bulk b) = WriteBulk b"
| "encode NullArray = WriteArrayHeader (-1)"
| "encode (ArraySlice rs) = WriteArrayHeader (int (length rs)) @ concat (map encode rs)"
| "encode (Pushes rs) = concat (map encode rs)"
| "encode NoReply = []"

section \<open>Reference client side\<close>

definition encodeCommand :: "string list \<Rightarrow> string"
  where "encodeCommand args =
    WriteArrayHeader (int (length args)) @ concat (map (\<lambda>a. WriteBulk (bytes_of a)) args)"

fun decode :: "nat \<Rightarrow> string \<Rightarrow> (Reply \<times> string) option"
  and decodeN :: "nat \<Rightarrow> nat \<Rightarrow> string \<Rightarrow> (Reply list \<times> string) option" where
  "decode 0 inp = None"
| "decode (Suc fuel) inp =
    (case splitLine inp of
       None \<Rightarrow> None
     | Some (l, rest) \<Rightarrow>
         (case l of
            [] \<Rightarrow> None
          | t # body \<Rightarrow>
              if body = [] \<or> last body \<noteq> CR then None
              else if t = CHR ''+'' then Some (Simple (butlast body), rest)
              else if t = CHR ''-'' then Some (Err (butlast body), rest)
              else
                (case ParseInt (butlast body) of
                   None \<Rightarrow> None
                 | Some n \<Rightarrow>
                     if t = CHR '':'' then Some (Integer n, rest)
                     else if t = CHR ''$'' then
                       (if n < 0 then Some (Bulk None, rest)
                        else if length rest < nat n + 2 then None
                        else Some (Bulk (Some (take (nat n) rest)), drop (nat n + 2) rest))
                     else if t = CHR ''*'' then
                       (if n < 0 then Some (NullArray, rest)
                        else map_option (apfst ArraySlice) (decodeN fuel (nat n) rest))
                     else None)))"
| "decodeN fuel 0 inp = Some ([], inp)"
| "decodeN 0 (Suc n) inp = None"
| "decodeN (Suc fuel) (Suc n) inp =
    (case decode fuel inp of
       None \<Rightarrow> None
     | Some (r, rest) \<Rightarrow> map_option (apfst ((#) r)) (decodeN fuel n rest))"

section \<open>Lines\<close>

lemma splitLine_append: "LF \<notin> set l \<Longrightarrow> splitLine (l @ LF # rest) = Some (l, rest)"
  by (induction l) auto

lemma trimRight_snoc: "l \<noteq> [] \<Longrightarrow> last l \<noteq> CR \<Longrightarrow> last l \<noteq> LF \<Longrightarrow> trimRight (l @ [CR]) = l"
  by (cases l rule: rev_cases) (auto simp: trimRight_def)

lemma FormatInt_chars: "c \<in> set (FormatInt n) \<Longrightarrow> c \<noteq> CR \<and> c \<noteq> LF"
proof -
  assume "c \<in> set (FormatInt n)"
  then have "c = CHR ''-'' \<or> is_digit c"
    using format_nat_digits by (auto simp: FormatInt_def list_all_iff split: if_splits)
  then show ?thesis by (auto simp: is_digit_def less_eq_char_def)
qed

lemma last_FormatInt: "last (FormatInt n) \<noteq> CR \<and> last (FormatInt n) \<noteq> LF"
  using FormatInt_chars [of "last (FormatInt n)" n] by simp

lemma readLine_header:
  assumes "t \<noteq> LF"
  shows "readLine (t # FormatInt n @ crlf @ rest) = Some (t # FormatInt n, rest)"
proof -
  have "splitLine ((t # FormatInt n @ [CR]) @ LF # rest) = Some (t # FormatInt n @ [CR], rest)"
    by (rule splitLine_append) (use assms FormatInt_chars in auto)
  moreover have "trimRight ((t # FormatInt n) @ [CR]) = t # FormatInt n"
    by (rule trimRight_snoc) (use last_FormatInt in simp_all)
  ultimately show ?thesis by (simp add: readLine_def)
qed

lemma is_int64_len: "int n \<le> 281474976710656 \<Longrightarrow> is_int64 (int n)"
  by (simp add: is_int64_def)

section \<open>Commands round trip\<close>

definition arg_ok :: "string \<Rightarrow> bool" \<comment> \<open>an argument that fits into memory\<close>
  where "arg_ok a \<longleftrightarrow> int (length a) + 2 \<le> 281474976710656"

lemma readBulks_encode:
  assumes "list_all arg_ok args"
  shows "readBulks (length args) (concat (map (\<lambda>a. WriteBulk (bytes_of a)) args) @ rest) acc
    = Command (acc @ args) rest"
  using assms
proof (induction args arbitrary: acc)
  case (Cons a args)
  let ?tail = "concat (map (\<lambda>a. WriteBulk (bytes_of a)) args) @ rest"
  have ok: "is_int64 (int (length a))" "is_int64 (int (length a) + 2)"
    using Cons.prems by (simp_all add: arg_ok_def is_int64_def)
  have "readLine (WriteBulk (bytes_of a) @ ?tail) = Some (CHR ''$'' # FormatInt (int (length a)), a @ crlf @ ?tail)"
    using readLine_header [of "CHR ''$''" "int (length a)" "a @ crlf @ ?tail"]
    by (simp add: WriteBulk_def bytes_of_def)
  moreover have "readBulks (length args) ?tail (acc @ [a]) = Command ((acc @ [a]) @ args) rest"
    by (rule Cons.IH) (use Cons.prems in simp)
  moreover have "nat (int (length a) + 2) = length a + 2" by simp
  moreover have "makeslice_ok 1 (int (length a) + 2)"
    using Cons.prems by (simp add: makeslice_ok_def arg_ok_def)
  ultimately show ?case
    using ok by (simp add: ParseInt_FormatInt)
qed simp

lemma ReadCommand_encodeCommand:
  assumes "list_all arg_ok args" "16 * int (length args) \<le> 281474976710656"
  shows "ReadCommand (encodeCommand args @ rest) = Command args rest"
proof -
  let ?body = "concat (map (\<lambda>a. WriteBulk (bytes_of a)) args) @ rest"
  have "readLine (encodeCommand args @ rest) = Some (CHR ''*'' # FormatInt (int (length args)), ?body)"
    using readLine_header [of "CHR ''*''" "int (length args)" ?body]
    by (simp add: encodeCommand_def WriteArrayHeader_def)
  moreover have "is_int64 (int (length args))" using assms(2) by (simp add: is_int64_def)
  moreover have "ReadCommand (encodeCommand args @ rest) = readArrayCommand (encodeCommand args @ rest)"
    by (simp add: ReadCommand_def encodeCommand_def WriteArrayHeader_def)
  ultimately show ?thesis
    using readBulks_encode [OF assms(1), of rest "[]"] assms(2)
    by (cases "args = []") (simp_all add: readArrayCommand_def ParseInt_FormatInt makeslice_ok_def)
qed

text \<open>A whole pipeline of commands is read back one by one.\<close>

fun readAll :: "nat \<Rightarrow> string \<Rightarrow> string list list \<times> read_result" where
  "readAll 0 inp = ([], Command [] inp)"
| "readAll (Suc n) inp =
    (case ReadCommand inp of
       Command args rest \<Rightarrow> apfst ((#) args) (readAll n rest)
     | r \<Rightarrow> ([], r))"

lemma readAll_pipeline:
  assumes "\<forall>args \<in> set cmds. list_all arg_ok args \<and> 16 * int (length args) \<le> 281474976710656"
  shows "readAll (length cmds) (concat (map encodeCommand cmds) @ rest) = (cmds, Command [] rest)"
  using assms
proof (induction cmds)
  case (Cons args cmds)
  then show ?case using ReadCommand_encodeCommand [of args "concat (map encodeCommand cmds) @ rest"] by simp
qed simp

section \<open>Replies round trip\<close>

text \<open>The replies whose encoding can be read back: one-line texts, and integers in range.\<close>

fun clean :: "Reply \<Rightarrow> bool" where
  "clean (Simple s) = (LF \<notin> set s)"
| "clean (Err s) = (LF \<notin> set s)"
| "clean (Integer n) = is_int64 n"
| "clean (Bulk b) = arg_ok (content b)"
| "clean NullArray = True"
| "clean (ArraySlice rs) = (list_all clean rs \<and> int (length rs) \<le> 281474976710656)"
| "clean (Pushes rs) = False"
| "clean NoReply = False"

fun depth :: "Reply \<Rightarrow> nat" where
  "depth (ArraySlice rs) = Suc (length rs + fold max (map depth rs) 0)"
| "depth _ = 1"

lemma splitLine_text: "t \<noteq> LF \<Longrightarrow> LF \<notin> set s \<Longrightarrow> splitLine (t # s @ crlf @ rest) = Some (t # s @ [CR], rest)"
  using splitLine_append [of "t # s @ [CR]" rest] by simp

lemma splitLine_int: "t \<noteq> LF \<Longrightarrow> splitLine (t # FormatInt n @ crlf @ rest) = Some (t # FormatInt n @ [CR], rest)"
  by (rule splitLine_text) (use FormatInt_chars in auto)

lemma fold_max_ge: "x \<in> set xs \<Longrightarrow> x \<le> fold max xs (m :: nat)" "m \<le> fold max xs m"
proof -
  have ge: "m \<le> fold max xs m" for xs and m :: nat
    by (induction xs arbitrary: m) (auto intro: order_trans [OF max.cobounded2])
  show "m \<le> fold max xs m" by (rule ge)
  show "x \<in> set xs \<Longrightarrow> x \<le> fold max xs (m :: nat)"
    by (induction xs arbitrary: m) (auto intro: order_trans [OF max.cobounded1 ge])
qed

lemma decode_encode:
  "clean r \<Longrightarrow> depth r \<le> fuel \<Longrightarrow> decode fuel (encode r @ rest) = Some (r, rest)"
proof (induction r arbitrary: fuel rest)
  case (ArraySlice rs)
  then obtain f where f: "fuel = Suc f" "length rs + fold max (map depth rs) 0 \<le> f" by (cases fuel) auto
  have "decodeN g (length xs) (concat (map encode xs) @ rest) = Some (xs, rest)"
    if "set xs \<subseteq> set rs" "length xs + fold max (map depth rs) 0 \<le> g" for xs g
    using that
  proof (induction xs arbitrary: g)
    case (Cons x xs)
    then obtain g' where g: "g = Suc g'" by (cases g) auto
    have x: "x \<in> set rs" using Cons.prems(1) by simp
    have "depth x \<le> fold max (map depth rs) 0" using x by (intro fold_max_ge(1)) simp
    then have "depth x \<le> g'" using Cons.prems(2) g by simp
    moreover have "clean x" using ArraySlice.prems(1) x by (simp add: list_all_iff)
    ultimately have "decode g' (encode x @ concat (map encode xs) @ rest) = Some (x, concat (map encode xs) @ rest)"
      using ArraySlice.IH [OF x] by simp
    moreover have "decodeN g' (length xs) (concat (map encode xs) @ rest) = Some (xs, rest)"
      by (rule Cons.IH) (use Cons.prems g in auto)
    ultimately show ?case using g by simp
  qed simp
  then have "decodeN f (length rs) (concat (map encode rs) @ rest) = Some (rs, rest)" using f by simp
  moreover have "is_int64 (int (length rs))" using ArraySlice.prems(1) by (simp add: is_int64_def)
  ultimately show ?case
    using f(1) splitLine_int [of "CHR ''*''" "int (length rs)" "concat (map encode rs) @ rest"]
    by (simp add: WriteArrayHeader_def ParseInt_FormatInt)
next
  case (Bulk b)
  then obtain f where f: "fuel = Suc f" by (cases fuel) auto
  show ?case
  proof (cases b)
    case None
    have "splitLine (''$-1'' @ crlf @ rest) = Some (''$-1'' @ [CR], rest)" by simp
    moreover have "ParseInt ''-1'' = Some (- 1)" by code_simp
    ultimately show ?thesis using f None by (simp add: WriteBulk_def)
  next
    case (Some s)
    have "is_int64 (int (length s))" using Bulk.prems(1) Some by (simp add: arg_ok_def is_int64_def)
    then show ?thesis
      using f Some splitLine_int [of "CHR ''$''" "int (length s)" "s @ crlf @ rest"]
      by (simp add: WriteBulk_def ParseInt_FormatInt)
  qed
next
  case NullArray
  then obtain f where f: "fuel = Suc f" by (cases fuel) auto
  have "is_int64 (- 1)" by (simp add: is_int64_def)
  then show ?case using f splitLine_int [of "CHR ''*''" "- 1" rest]
    by (simp add: WriteArrayHeader_def ParseInt_FormatInt)
next
  case (Simple s)
  then obtain f where f: "fuel = Suc f" by (cases fuel) auto
  with Simple show ?case using splitLine_text [of "CHR ''+''" s rest] by simp
next
  case (Err s)
  then obtain f where f: "fuel = Suc f" by (cases fuel) auto
  with Err show ?case using splitLine_text [of "CHR ''-''" s rest] by simp
next
  case (Integer n)
  then obtain f where f: "fuel = Suc f" by (cases fuel) auto
  with Integer show ?case using splitLine_int [of "CHR '':''" n rest] by (simp add: ParseInt_FormatInt)
qed simp_all

end
