(* ===== verification/Session.thy ===== *)
theory Session
  imports Capacity Auth PubSub Metrics Resp "HOL-Library.State_Monad"
begin

text \<open>
  What a command handler sees (\<^verbatim>\<open>internal/server/resp/client.go\<close>): the dependencies shared by
  all connections (\<open>Deps\<close>), the state of its connection (\<open>ClientState\<close>), and the errors it can
  reply with (\<^verbatim>\<open>errors.go\<close>). A handler is a computation of the state monad over both.

  The environment of the process is explicit: \<open>dEnv n\<close> is the clock reading and the map iteration
  order that the \<open>n\<close>-th call of the process into the engine or the broker meets, and \<open>dCalls\<close>
  counts the calls. The type parameter of \<open>Deps\<close> is the state of the caches that the handlers
  modelled here do not touch (semantic, prompt and tool caches, vectors, memories, the graph).

  \<open>served\<close> says which engine calls a computation made: the store it leaves is the store that a run
  of engine calls leaves, all of them in the given workspaces. All the guarantees of the engine
  (its invariant, WATCH versions, the refinement of the abstract map) carry over to the handlers
  through it.
\<close>

section \<open>State\<close>

record 'x Deps =
  dEngine :: Store
  dAuth :: Authenticator
  dMetrics :: Metrics
  dPubSub :: PubSub
  dExt :: 'x
  dEnv :: "nat \<Rightarrow> goenv"
  dCalls :: nat

record ClientState =
  clientId :: nat
  Authenticated :: bool
  Name :: string
  Workspace :: string
  Quit :: bool
  InMulti :: bool
  MultiError :: bool
  Queued :: "string list list"
  Watched :: "(string, 64 word) fmap" \<comment> \<open>a nil map is read like an empty one\<close>
  Subscriptions :: "string fset"
  PSubscriptions :: "string fset"

definition defaultWorkspace :: string where "defaultWorkspace = ''default''"

definition NewClientState :: "nat \<Rightarrow> ClientState"
  where "NewClientState cid =
    \<lparr>clientId = cid, Authenticated = False, Name = [], Workspace = defaultWorkspace, Quit = False,
     InMulti = False, MultiError = False, Queued = [], Watched = fmempty,
     Subscriptions = {||}, PSubscriptions = {||}\<rparr>"

record 'x Session =
  client :: ClientState
  deps :: "'x Deps"

type_synonym ('x, 'a) cmd = "('x Session, 'a) state"
type_synonym 'x HandlerFunc = "string list \<Rightarrow> ('x, Reply) cmd"

definition authorizedForWorkspace :: "'x Session \<Rightarrow> string \<Rightarrow> bool"
  where "authorizedForWorkspace se workspace =
    (if \<not> MultiWorkspace (dAuth (deps se)) then True else workspace = Workspace (client se))"

section \<open>Errors\<close>

definition ErrWrongTypeMsg :: string
  where "ErrWrongTypeMsg = ''WRONGTYPE Operation against a key holding the wrong kind of value''"
definition ErrNotIntegerMsg :: string where "ErrNotIntegerMsg = ''ERR value is not an integer or out of range''"
definition ErrNotFloatMsg :: string where "ErrNotFloatMsg = ''ERR value is not a valid float''"
definition ErrSyntaxMsg :: string where "ErrSyntaxMsg = ''ERR syntax error''"
definition ErrNoAuthMsg :: string where "ErrNoAuthMsg = ''NOAUTH Authentication required.''"
definition ErrInvalidPasswordMsg :: string
  where "ErrInvalidPasswordMsg = ''WRONGPASS invalid username-password pair or user is disabled.''"
definition ErrNoProtoMsg :: string where "ErrNoProtoMsg = ''NOPROTO unsupported protocol version''"
definition ErrWrongDBMsg :: string where "ErrWrongDBMsg = ''ERR DB index is out of range''"
definition ErrNoSuchKeyMsg :: string where "ErrNoSuchKeyMsg = ''ERR no such key''"

definition ErrWrongNumberOfArgs :: "string \<Rightarrow> string"
  where "ErrWrongNumberOfArgs cmd =
    ''ERR wrong number of arguments for '' @ [CHR 0x27] @ to_lower cmd @ [CHR 0x27] @ '' command''"

fun joinComma :: "string list \<Rightarrow> string" where \<comment> \<open>\<^verbatim>\<open>strings.Join(parts, ", ")\<close>\<close>
  "joinComma [] = []"
| "joinComma [p] = p"
| "joinComma (p # q # ps) = p @ '', '' @ joinComma (q # ps)"

definition ErrUnknownCommand :: "string \<Rightarrow> string list \<Rightarrow> string"
  where "ErrUnknownCommand name args =
    ''ERR unknown command '' @ [CHR 0x27] @ name @ [CHR 0x27] @ '', with args beginning with: '' @
    joinComma (map (\<lambda>a. [CHR 0x27] @ a @ [CHR 0x27]) args)"

fun ErrFromStorage :: "storage_error \<Rightarrow> Reply" where
  "ErrFromStorage ErrWrongType = Err ErrWrongTypeMsg"
| "ErrFromStorage ErrNotInteger = Err ErrNotIntegerMsg"
| "ErrFromStorage ErrNotFloat = Err ErrNotFloatMsg"
| "ErrFromStorage ErrIndexOutOfRange = Err ''ERR index out of range''"
| "ErrFromStorage ErrNoSuchKey = Err ErrNoSuchKeyMsg"

section \<open>Computations\<close>

abbreviation ret :: "'a \<Rightarrow> ('x, 'a) cmd" where "ret \<equiv> State_Monad.return"

definition asks :: "('x Session \<Rightarrow> 'a) \<Rightarrow> ('x, 'a) cmd"
  where "asks f = State (\<lambda>se. (f se, se))"

definition updClient :: "(ClientState \<Rightarrow> ClientState) \<Rightarrow> ('x, unit) cmd"
  where "updClient f = State (\<lambda>se. ((), se\<lparr>client := f (client se)\<rparr>))"

abbreviation workspace :: "('x, string) cmd" where "workspace \<equiv> asks (\<lambda>se. Workspace (client se))"
abbreviation auth_of :: "('x, Authenticator) cmd" where "auth_of \<equiv> asks (\<lambda>se. dAuth (deps se))"

text \<open>
  A call into the engine: it meets the next environment, and every eviction runs the callback
  \<^verbatim>\<open>Metrics.KeyEvicted\<close> that the server installs.
\<close>

definition eng :: "(goenv \<Rightarrow> Store \<Rightarrow> 'a \<times> Store) \<Rightarrow> ('x, 'a) cmd"
  where "eng f = State (\<lambda>se.
    let d = deps se
    in case f (dEnv d (dCalls d)) (dEngine d) of
         (r, st) \<Rightarrow>
           (r, se\<lparr>deps := d\<lparr>dEngine := st, dCalls := Suc (dCalls d),
                  dMetrics := (KeyEvicted ^^ (evictions st - evictions (dEngine d))) (dMetrics d)\<rparr>\<rparr>))"

definition call :: "(string \<Rightarrow> goenv \<Rightarrow> Store \<Rightarrow> 'a \<times> Store) \<Rightarrow> ('x, 'a) cmd" \<comment> \<open>in the connection's workspace\<close>
  where "call f = do { ws \<leftarrow> workspace; eng (f ws) }"

definition broker :: "(goenv \<Rightarrow> PubSub \<Rightarrow> 'a \<times> PubSub) \<Rightarrow> ('x, 'a) cmd"
  where "broker f = State (\<lambda>se.
    let d = deps se
    in case f (dEnv d (dCalls d)) (dPubSub d) of
         (r, p) \<Rightarrow> (r, se\<lparr>deps := d\<lparr>dPubSub := p, dCalls := Suc (dCalls d)\<rparr>\<rparr>))"

fun mapC :: "('a \<Rightarrow> ('x, 'b) cmd) \<Rightarrow> 'a list \<Rightarrow> ('x, 'b list) cmd" where \<comment> \<open>a loop that collects results\<close>
  "mapC f [] = ret []"
| "mapC f (a # as) = do { b \<leftarrow> f a; bs \<leftarrow> mapC f as; ret (b # bs) }"

lemma run_asks [simp]: "run_state (asks f) se = (f se, se)"
  by (simp add: asks_def)

lemma run_updClient [simp]: "run_state (updClient f) se = ((), se\<lparr>client := f (client se)\<rparr>)"
  by (simp add: updClient_def)

lemma run_eng: "run_state (eng f) se =
    (fst (f (dEnv (deps se) (dCalls (deps se))) (dEngine (deps se))),
     se\<lparr>deps := (deps se)\<lparr>dEngine := snd (f (dEnv (deps se) (dCalls (deps se))) (dEngine (deps se))),
        dCalls := Suc (dCalls (deps se)),
        dMetrics := (KeyEvicted ^^ (evictions (snd (f (dEnv (deps se) (dCalls (deps se))) (dEngine (deps se)))) - evictions (dEngine (deps se)))) (dMetrics (deps se))\<rparr>\<rparr>)"
  by (simp add: eng_def Let_def split_beta)

lemma run_broker: "run_state (broker f) se =
    (fst (f (dEnv (deps se) (dCalls (deps se))) (dPubSub (deps se))),
     se\<lparr>deps := (deps se)\<lparr>dPubSub := snd (f (dEnv (deps se) (dCalls (deps se))) (dPubSub (deps se))),
        dCalls := Suc (dCalls (deps se))\<rparr>\<rparr>)"
  by (simp add: broker_def Let_def split_beta)

section \<open>The engine calls of a computation\<close>

fun op_ws :: "engineOp \<Rightarrow> string option" where
  "op_ws (KeyOp ws _ _) = Some ws" | "op_ws (ODels ws _) = Some ws" | "op_ws (OExists ws _) = Some ws"
| "op_ws (OType ws _) = Some ws" | "op_ws (ORename ws _ _) = Some ws" | "op_ws (OKeys ws _) = Some ws"
| "op_ws (OScan ws _ _ _) = Some ws" | "op_ws (OFlushDB ws) = Some ws" | "op_ws (OSInter ws _) = Some ws"
| "op_ws (OSUnion ws _) = Some ws" | "op_ws (OSDiff ws _) = Some ws" | "op_ws (OSweep _ _) = None"

text \<open>The environments of the calls need not be consecutive: the broker uses some of them.\<close>

definition served :: "string set \<Rightarrow> 'x Deps \<Rightarrow> 'x Deps \<Rightarrow> bool"
  where "served W d d' \<longleftrightarrow>
    (\<exists>ops ts. length ts = length ops \<and> sorted_wrt (<) ts \<and>
       set ts \<subseteq> {dCalls d..<dCalls d'} \<and> list_all (\<lambda>op. op_ws op \<in> Some ` W) ops \<and>
       dEngine d' = snd (run (zip (map (dEnv d) ts) ops) (dEngine d))) \<and>
    dCalls d \<le> dCalls d' \<and> dEnv d' = dEnv d \<and> dAuth d' = dAuth d"

lemma served_refl [simp]: "served W d d"
  unfolding served_def by (auto intro!: exI [of _ "[]"])

lemma served_trans:
  assumes "served W d d'" "served W d' d''"
  shows "served W d d''"
proof -
  from assms(1) obtain ops ts where o1: "length ts = length ops" "sorted_wrt (<) ts"
      "set ts \<subseteq> {dCalls d..<dCalls d'}" "list_all (\<lambda>op. op_ws op \<in> Some ` W) ops"
      "dEngine d' = snd (run (zip (map (dEnv d) ts) ops) (dEngine d))"
      "dCalls d \<le> dCalls d'" "dEnv d' = dEnv d" "dAuth d' = dAuth d"
    unfolding served_def by blast
  from assms(2) obtain ops' ts' where o2: "length ts' = length ops'" "sorted_wrt (<) ts'"
      "set ts' \<subseteq> {dCalls d'..<dCalls d''}" "list_all (\<lambda>op. op_ws op \<in> Some ` W) ops'"
      "dEngine d'' = snd (run (zip (map (dEnv d') ts') ops') (dEngine d'))"
      "dCalls d' \<le> dCalls d''" "dEnv d'' = dEnv d'" "dAuth d'' = dAuth d'"
    unfolding served_def by blast
  have "sorted_wrt (<) (ts @ ts')" using o1(2,3) o2(2,3) by (force simp: sorted_wrt_append)
  moreover have "set (ts @ ts') \<subseteq> {dCalls d..<dCalls d''}" using o1(3,6) o2(3,6) by force
  moreover have "dEngine d'' = snd (run (zip (map (dEnv d) (ts @ ts')) (ops @ ops')) (dEngine d))"
    using o1 o2 by (simp add: zip_append run_append)
  ultimately show ?thesis
    unfolding served_def using o1 o2 by (intro conjI exI [of _ "ops @ ops'"] exI [of _ "ts @ ts'"]) auto
qed

lemma served_mono: "served W d d' \<Longrightarrow> W \<subseteq> W' \<Longrightarrow> served W' d d'"
  unfolding served_def by (fastforce simp: list_all_iff)

lemma served_envs_ok:
  assumes "\<forall>n. env_ok (dEnv d n)"
  shows "envs_ok (zip (map (dEnv d) ts) ops)"
  using assms by (force simp: envs_ok_def dest: set_zip_leftD)

lemma served_wf:
  assumes "served W d d'" "store_wf (dEngine d)" "\<forall>n. env_ok (dEnv d n)"
  shows "store_wf (dEngine d') \<and> same_config (dEngine d) (dEngine d')"
  using assms(1) run_step [OF assms(2) served_envs_ok [OF assms(3)]] unfolding served_def by fastforce

text \<open>
  Data commands: the connection, the broker and the other caches stay as they are, and the engine
  is called in the workspace of the connection only.
\<close>

definition dataCmd :: "('x, 'a) cmd \<Rightarrow> bool"
  where "dataCmd m \<longleftrightarrow>
    (\<forall>se. let se' = snd (run_state m se)
          in client se' = client se \<and> dPubSub (deps se') = dPubSub (deps se) \<and>
             dExt (deps se') = dExt (deps se) \<and>
             served {Workspace (client se)} (deps se) (deps se'))"

named_theorems data_intros \<comment> \<open>computations that are data commands\<close>

lemma dataCmd_ret [data_intros]: "dataCmd (ret x)"
  by (simp add: dataCmd_def)

lemma dataCmd_asks [data_intros]: "dataCmd (asks f)"
  by (simp add: dataCmd_def)

lemma dataCmd_bind [data_intros]:
  assumes "dataCmd m" "\<And>x. dataCmd (f x)"
  shows "dataCmd (m \<bind> f)"
  unfolding dataCmd_def Let_def
proof (intro allI)
  fix se
  obtain x se1 where m: "run_state m se = (x, se1)" by fastforce
  have 1: "client se1 = client se" "dPubSub (deps se1) = dPubSub (deps se)"
      "dExt (deps se1) = dExt (deps se)" "served {Workspace (client se)} (deps se) (deps se1)"
    using assms(1) m unfolding dataCmd_def Let_def by (metis snd_conv)+
  let ?se2 = "snd (run_state (f x) se1)"
  have 2: "client ?se2 = client se1" "dPubSub (deps ?se2) = dPubSub (deps se1)"
      "dExt (deps ?se2) = dExt (deps se1)" "served {Workspace (client se1)} (deps se1) (deps ?se2)"
    using assms(2) [of x] unfolding dataCmd_def Let_def by blast+
  show "client (snd (run_state (m \<bind> f) se)) = client se \<and>
      dPubSub (deps (snd (run_state (m \<bind> f) se))) = dPubSub (deps se) \<and>
      dExt (deps (snd (run_state (m \<bind> f) se))) = dExt (deps se) \<and>
      served {Workspace (client se)} (deps se) (deps (snd (run_state (m \<bind> f) se)))"
    using 1 2 m served_trans [OF 1(4)] by simp
qed

lemma dataCmd_mapC [data_intros]: "(\<And>a. dataCmd (f a)) \<Longrightarrow> dataCmd (mapC f as)"
  by (induction as) (auto intro!: data_intros)

text \<open>A call that is one of the engine's.\<close>

lemma dataCmd_call:
  assumes "\<And>env st ws. snd (f ws env st) = snd (exec env (op ws) st)" "\<And>ws. op_ws (op ws) = Some ws"
  shows "dataCmd (call f)"
  unfolding dataCmd_def Let_def
proof (intro allI)
  fix se :: "'x Session"
  let ?ws = "Workspace (client se)" and ?d = "deps se" and ?se' = "snd (run_state (call f) se)"
  have eqs: "client ?se' = client se" "dPubSub (deps ?se') = dPubSub ?d" "dExt (deps ?se') = dExt ?d"
      "dCalls (deps ?se') = Suc (dCalls ?d)" "dEnv (deps ?se') = dEnv ?d" "dAuth (deps ?se') = dAuth ?d"
      "dEngine (deps ?se') = snd (exec (dEnv ?d (dCalls ?d)) (op ?ws) (dEngine ?d))"
    using assms(1) by (simp_all add: call_def run_eng)
  have "served {?ws} ?d (deps ?se')"
    unfolding served_def using eqs assms(2) [of ?ws]
    by (intro conjI exI [of _ "[op ?ws]"] exI [of _ "[dCalls ?d]"]) (simp_all add: split_beta)
  with eqs show "client ?se' = client se \<and> dPubSub (deps ?se') = dPubSub ?d \<and>
      dExt (deps ?se') = dExt ?d \<and> served {?ws} ?d (deps ?se')" by simp
qed

text \<open>Every engine call the handlers make.\<close>

lemma dataCmd_calls [data_intros]:
  "dataCmd (call (\<lambda>ws env. Get env ws k))"
  "dataCmd (call (\<lambda>ws env. Set env ws k v opts))"
  "dataCmd (call (\<lambda>ws env. Expire env ws k d))"
  "dataCmd (call (\<lambda>ws env. TTL env ws k))"
  "dataCmd (call (\<lambda>ws env. Persist env ws k))"
  "dataCmd (call (\<lambda>ws env. HSet env ws k fs))"
  "dataCmd (call (\<lambda>ws env. HGet env ws k f))"
  "dataCmd (call (\<lambda>ws env. HGetAll env ws k))"
  "dataCmd (call (\<lambda>ws env. HDel env ws k ks))"
  "dataCmd (call (\<lambda>ws env. HExists env ws k f))"
  "dataCmd (call (\<lambda>ws env. HKeys env ws k))"
  "dataCmd (call (\<lambda>ws env. HVals env ws k))"
  "dataCmd (call (\<lambda>ws env. HLen env ws k))"
  "dataCmd (call (\<lambda>ws env. HMGet env ws k ks))"
  "dataCmd (call (\<lambda>ws env. HIncrBy env ws k f d))"
  "dataCmd (call (\<lambda>ws env. LPush env ws k vs))"
  "dataCmd (call (\<lambda>ws env. RPush env ws k vs))"
  "dataCmd (call (\<lambda>ws env. LPop env ws k))"
  "dataCmd (call (\<lambda>ws env. RPop env ws k))"
  "dataCmd (call (\<lambda>ws env. LRange env ws k i j))"
  "dataCmd (call (\<lambda>ws env. LLen env ws k))"
  "dataCmd (call (\<lambda>ws env. LIndex env ws k i))"
  "dataCmd (call (\<lambda>ws env. LSet env ws k i v))"
  "dataCmd (call (\<lambda>ws env. LRem env ws k i v))"
  "dataCmd (call (\<lambda>ws env. SAdd env ws k vs))"
  "dataCmd (call (\<lambda>ws env. SRem env ws k vs))"
  "dataCmd (call (\<lambda>ws env. SMembers env ws k))"
  "dataCmd (call (\<lambda>ws env. SIsMember env ws k v))"
  "dataCmd (call (\<lambda>ws env. SCard env ws k))"
  "dataCmd (call (\<lambda>ws env. ZAdd env ws k zs))"
  "dataCmd (call (\<lambda>ws env. ZRem env ws k ks))"
  "dataCmd (call (\<lambda>ws env. ZRange env ws k i j))"
  "dataCmd (call (\<lambda>ws env. ZRevRange env ws k i j))"
  "dataCmd (call (\<lambda>ws env. ZScore env ws k f))"
  "dataCmd (call (\<lambda>ws env. ZRank env ws k f))"
  "dataCmd (call (\<lambda>ws env. ZCard env ws k))"
  "dataCmd (call (\<lambda>ws env. ZIncrBy env ws k f x))"
  "dataCmd (call (\<lambda>ws env. ZRangeByScore env ws k x y))"
  "dataCmd (call (\<lambda>ws env. Del env ws ks))"
  "dataCmd (call (\<lambda>ws env. SInter env ws ks))"
  "dataCmd (call (\<lambda>ws env. SUnion env ws ks))"
  "dataCmd (call (\<lambda>ws env. SDiff env ws ks))"
  "dataCmd (call (\<lambda>ws env. Rename env ws k k2))"
  "dataCmd (call (\<lambda>ws env st. (Exists env ws ks st, st)))"
  "dataCmd (call (\<lambda>ws env st. (Type env ws k st, st)))"
  "dataCmd (call (\<lambda>ws env st. (Keys env ws k st, st)))"
  "dataCmd (call (\<lambda>ws env st. (Scan env ws c k i st, st)))"
  "dataCmd (call (\<lambda>ws env st. ((), FlushDB env ws st)))"
  subgoal by (rule dataCmd_call [where op = "\<lambda>ws. KeyOp ws k OGet"]) simp_all
  subgoal by (rule dataCmd_call [where op = "\<lambda>ws. KeyOp ws k (OSet v opts)"]) simp_all
  subgoal by (rule dataCmd_call [where op = "\<lambda>ws. KeyOp ws k (OExpire d)"]) simp_all
  subgoal by (rule dataCmd_call [where op = "\<lambda>ws. KeyOp ws k OTTL"]) simp_all
  subgoal by (rule dataCmd_call [where op = "\<lambda>ws. KeyOp ws k OPersist"]) simp_all
  subgoal by (rule dataCmd_call [where op = "\<lambda>ws. KeyOp ws k (OHSet fs)"]) simp_all
  subgoal by (rule dataCmd_call [where op = "\<lambda>ws. KeyOp ws k (OHGet f)"]) simp_all
  subgoal by (rule dataCmd_call [where op = "\<lambda>ws. KeyOp ws k OHGetAll"]) simp_all
  subgoal by (rule dataCmd_call [where op = "\<lambda>ws. KeyOp ws k (OHDel ks)"]) simp_all
  subgoal by (rule dataCmd_call [where op = "\<lambda>ws. KeyOp ws k (OHExists f)"]) simp_all
  subgoal by (rule dataCmd_call [where op = "\<lambda>ws. KeyOp ws k OHKeys"]) simp_all
  subgoal by (rule dataCmd_call [where op = "\<lambda>ws. KeyOp ws k OHVals"]) simp_all
  subgoal by (rule dataCmd_call [where op = "\<lambda>ws. KeyOp ws k OHLen"]) simp_all
  subgoal by (rule dataCmd_call [where op = "\<lambda>ws. KeyOp ws k (OHMGet ks)"]) simp_all
  subgoal by (rule dataCmd_call [where op = "\<lambda>ws. KeyOp ws k (OHIncrBy f d)"]) simp_all
  subgoal by (rule dataCmd_call [where op = "\<lambda>ws. KeyOp ws k (OLPush vs)"]) simp_all
  subgoal by (rule dataCmd_call [where op = "\<lambda>ws. KeyOp ws k (ORPush vs)"]) simp_all
  subgoal by (rule dataCmd_call [where op = "\<lambda>ws. KeyOp ws k OLPop"]) simp_all
  subgoal by (rule dataCmd_call [where op = "\<lambda>ws. KeyOp ws k ORPop"]) simp_all
  subgoal by (rule dataCmd_call [where op = "\<lambda>ws. KeyOp ws k (OLRange i j)"]) simp_all
  subgoal by (rule dataCmd_call [where op = "\<lambda>ws. KeyOp ws k OLLen"]) simp_all
  subgoal by (rule dataCmd_call [where op = "\<lambda>ws. KeyOp ws k (OLIndex i)"]) simp_all
  subgoal by (rule dataCmd_call [where op = "\<lambda>ws. KeyOp ws k (OLSet i v)"]) simp_all
  subgoal by (rule dataCmd_call [where op = "\<lambda>ws. KeyOp ws k (OLRem i v)"]) simp_all
  subgoal by (rule dataCmd_call [where op = "\<lambda>ws. KeyOp ws k (OSAdd vs)"]) simp_all
  subgoal by (rule dataCmd_call [where op = "\<lambda>ws. KeyOp ws k (OSRem vs)"]) simp_all
  subgoal by (rule dataCmd_call [where op = "\<lambda>ws. KeyOp ws k OSMembers"]) simp_all
  subgoal by (rule dataCmd_call [where op = "\<lambda>ws. KeyOp ws k (OSIsMember v)"]) simp_all
  subgoal by (rule dataCmd_call [where op = "\<lambda>ws. KeyOp ws k OSCard"]) simp_all
  subgoal by (rule dataCmd_call [where op = "\<lambda>ws. KeyOp ws k (OZAdd zs)"]) simp_all
  subgoal by (rule dataCmd_call [where op = "\<lambda>ws. KeyOp ws k (OZRem ks)"]) simp_all
  subgoal by (rule dataCmd_call [where op = "\<lambda>ws. KeyOp ws k (OZRange i j)"]) simp_all
  subgoal by (rule dataCmd_call [where op = "\<lambda>ws. KeyOp ws k (OZRevRange i j)"]) simp_all
  subgoal by (rule dataCmd_call [where op = "\<lambda>ws. KeyOp ws k (OZScore f)"]) simp_all
  subgoal by (rule dataCmd_call [where op = "\<lambda>ws. KeyOp ws k (OZRank f)"]) simp_all
  subgoal by (rule dataCmd_call [where op = "\<lambda>ws. KeyOp ws k OZCard"]) simp_all
  subgoal by (rule dataCmd_call [where op = "\<lambda>ws. KeyOp ws k (OZIncrBy f x)"]) simp_all
  subgoal by (rule dataCmd_call [where op = "\<lambda>ws. KeyOp ws k (OZRangeByScore x y)"]) simp_all
  subgoal by (rule dataCmd_call [where op = "\<lambda>ws. ODels ws ks"]) simp_all
  subgoal by (rule dataCmd_call [where op = "\<lambda>ws. OSInter ws ks"]) simp_all
  subgoal by (rule dataCmd_call [where op = "\<lambda>ws. OSUnion ws ks"]) simp_all
  subgoal by (rule dataCmd_call [where op = "\<lambda>ws. OSDiff ws ks"]) simp_all
  subgoal by (rule dataCmd_call [where op = "\<lambda>ws. ORename ws k k2"]) simp_all
  subgoal by (rule dataCmd_call [where op = "\<lambda>ws. OExists ws ks"]) simp_all
  subgoal by (rule dataCmd_call [where op = "\<lambda>ws. OType ws k"]) simp_all
  subgoal by (rule dataCmd_call [where op = "\<lambda>ws. OKeys ws k"]) simp_all
  subgoal by (rule dataCmd_call [where op = "\<lambda>ws. OScan ws c k i"]) simp_all
  subgoal by (rule dataCmd_call [where op = "\<lambda>ws. OFlushDB ws"]) simp_all
  done

end
