(* ===== verification/DataHandlers.thy ===== *)
theory DataHandlers
  imports Session
begin

text \<open>
  The handlers of the key space, string, hash, list and set commands
  (\<^verbatim>\<open>handlers_generic.go\<close>, \<^verbatim>\<open>handlers_string.go\<close>, \<^verbatim>\<open>handlers_hash.go\<close>,
  \<^verbatim>\<open>handlers_list.go\<close>, \<^verbatim>\<open>handlers_set.go\<close>). \<open>args ! 0\<close> is the command name; the
  dispatcher has checked the number of arguments before it calls a handler, so the indexings are
  in range. A \<^verbatim>\<open>time.Duration(n) * time.Second\<close> wraps at 64 bits.
\<close>

section \<open>Replies\<close>

definition bulksReply :: "bytes list \<Rightarrow> Reply" \<comment> \<open>the loops that fill \<^verbatim>\<open>items\<close> with \<^verbatim>\<open>Bulk(v)\<close>\<close>
  where "bulksReply vals = ArraySlice (map Bulk vals)"

definition stringsReply :: "string list \<Rightarrow> Reply"
  where "stringsReply ks = ArraySlice (map BulkString ks)"

definition countReply :: "storage_error + int \<Rightarrow> Reply"
  where "countReply r = (case r of Inl e \<Rightarrow> ErrFromStorage e | Inr n \<Rightarrow> Integer n)"

definition valueReply :: "storage_error + bytes \<times> bool \<Rightarrow> Reply"
  where "valueReply r = (case r of
     Inl e \<Rightarrow> ErrFromStorage e
   | Inr (val, ok) \<Rightarrow> if \<not> ok then NullBulk else Bulk val)"

definition listReply :: "storage_error + bytes list \<Rightarrow> Reply"
  where "listReply r = (case r of Inl e \<Rightarrow> ErrFromStorage e | Inr vals \<Rightarrow> bulksReply vals)"

definition testReply :: "storage_error + bool \<Rightarrow> Reply"
  where "testReply r = (case r of Inl e \<Rightarrow> ErrFromStorage e | Inr ok \<Rightarrow> if ok then Integer 1 else Integer 0)"

definition boolReply :: "bool \<Rightarrow> Reply"
  where "boolReply b = (if b then Integer 1 else Integer 0)"

section \<open>Key space\<close>

definition handleDel :: "'x HandlerFunc"
  where "handleDel args = do { n \<leftarrow> call (\<lambda>ws env. Del env ws (drop 1 args)); ret (Integer n) }"

definition handleExists :: "'x HandlerFunc"
  where "handleExists args = do { n \<leftarrow> call (\<lambda>ws env st. (Exists env ws (drop 1 args) st, st)); ret (Integer n) }"

definition handleExpire :: "'x HandlerFunc"
  where "handleExpire args = (case ParseInt (args ! 2) of
     None \<Rightarrow> ret (Err ErrNotIntegerMsg)
   | Some secs \<Rightarrow> do {
       ok \<leftarrow> call (\<lambda>ws env. Expire env ws (args ! 1) (int64 (secs * Second)));
       ret (boolReply ok)
     })"

definition handlePExpire :: "'x HandlerFunc"
  where "handlePExpire args = (case ParseInt (args ! 2) of
     None \<Rightarrow> ret (Err ErrNotIntegerMsg)
   | Some ms \<Rightarrow> do {
       ok \<leftarrow> call (\<lambda>ws env. Expire env ws (args ! 1) (int64 (ms * Millisecond)));
       ret (boolReply ok)
     })"

definition handleTTL :: "'x HandlerFunc"
  where "handleTTL args = do {
     (ttl, hasTTL, exists) \<leftarrow> call (\<lambda>ws env. TTL env ws (args ! 1));
     ret (if \<not> exists then Integer (- 2)
          else if \<not> hasTTL then Integer (- 1)
          else Integer (if rem ttl Second \<noteq> 0 then int64 (quot ttl Second + 1) else quot ttl Second))
   }"

definition handlePTTL :: "'x HandlerFunc"
  where "handlePTTL args = do {
     (ttl, hasTTL, exists) \<leftarrow> call (\<lambda>ws env. TTL env ws (args ! 1));
     ret (if \<not> exists then Integer (- 2)
          else if \<not> hasTTL then Integer (- 1)
          else Integer (quot ttl Millisecond))
   }"

definition handlePersist :: "'x HandlerFunc"
  where "handlePersist args = do { ok \<leftarrow> call (\<lambda>ws env. Persist env ws (args ! 1)); ret (boolReply ok) }"

definition handleType :: "'x HandlerFunc"
  where "handleType args = do {
     (t, ok) \<leftarrow> call (\<lambda>ws env st. (Type env ws (args ! 1) st, st));
     ret (if \<not> ok then Simple ''none'' else Simple t)
   }"

definition handleKeys :: "'x HandlerFunc"
  where "handleKeys args = do {
     ks \<leftarrow> call (\<lambda>ws env st. (Keys env ws (args ! 1) st, st));
     ret (stringsReply ks)
   }"

fun scanOptions :: "string list \<Rightarrow> string \<Rightarrow> int \<Rightarrow> string + string \<times> int" where
  "scanOptions [] match cnt = Inr (match, cnt)"
| "scanOptions (a # rest) match cnt =
    (if to_upper a = ''MATCH'' then
       (case rest of [] \<Rightarrow> Inl ErrSyntaxMsg | m # rest' \<Rightarrow> scanOptions rest' m cnt)
     else if to_upper a = ''COUNT'' then
       (case rest of
          [] \<Rightarrow> Inl ErrSyntaxMsg
        | c # rest' \<Rightarrow> (case Atoi c of None \<Rightarrow> Inl ErrNotIntegerMsg | Some n \<Rightarrow> scanOptions rest' match n))
     else Inl ErrSyntaxMsg)"

definition handleScan :: "'x HandlerFunc"
  where "handleScan args = (case ParseUint (args ! 1) of
     None \<Rightarrow> ret (Err ErrNotIntegerMsg)
   | Some cursor \<Rightarrow>
       (case scanOptions (drop 2 args) ''*'' 10 of
          Inl msg \<Rightarrow> ret (Err msg)
        | Inr (match, cnt) \<Rightarrow> do {
            (next, ks) \<leftarrow> call (\<lambda>ws env st. (Scan env ws cursor match cnt st, st));
            ret (ArraySlice [BulkString (format_nat (unat next)), stringsReply ks])
          }))"

definition handleRename :: "'x HandlerFunc"
  where "handleRename args = do {
     ok \<leftarrow> call (\<lambda>ws env. Rename env ws (args ! 1) (args ! 2));
     ret (if \<not> ok then Err ErrNoSuchKeyMsg else OK)
   }"

definition handleFlushDB :: "'x HandlerFunc"
  where "handleFlushDB args = do { call (\<lambda>ws env st. ((), FlushDB env ws st)); ret OK }"

definition handleFlushAll :: "'x HandlerFunc"
  where "handleFlushAll args = do { call (\<lambda>ws env st. ((), FlushDB env ws st)); ret OK }"

section \<open>Strings\<close>

definition noOpts :: SetOpts \<comment> \<open>\<^verbatim>\<open>storage.SetOpts{}\<close>\<close>
  where "noOpts = \<lparr>oTTL = 0, OnlyIfNX = False, OnlyIfXX = False, GetOld = False\<rparr>"

definition handleGet :: "'x HandlerFunc"
  where "handleGet args = do { r \<leftarrow> call (\<lambda>ws env. Get env ws (args ! 1)); ret (valueReply r) }"

fun setOptions :: "string list \<Rightarrow> SetOpts \<Rightarrow> string + SetOpts" where
  "setOptions [] opts = Inr opts"
| "setOptions (a # rest) opts =
    (if to_upper a = ''EX'' then
       (case rest of
          [] \<Rightarrow> Inl ErrSyntaxMsg
        | v # rest' \<Rightarrow>
            (case ParseInt v of
               None \<Rightarrow> Inl ErrNotIntegerMsg
             | Some secs \<Rightarrow> setOptions rest' (opts\<lparr>oTTL := int64 (secs * Second)\<rparr>)))
     else if to_upper a = ''PX'' then
       (case rest of
          [] \<Rightarrow> Inl ErrSyntaxMsg
        | v # rest' \<Rightarrow>
            (case ParseInt v of
               None \<Rightarrow> Inl ErrNotIntegerMsg
             | Some ms \<Rightarrow> setOptions rest' (opts\<lparr>oTTL := int64 (ms * Millisecond)\<rparr>)))
     else if to_upper a = ''NX'' then setOptions rest (opts\<lparr>OnlyIfNX := True\<rparr>)
     else if to_upper a = ''XX'' then setOptions rest (opts\<lparr>OnlyIfXX := True\<rparr>)
     else if to_upper a = ''GET'' then setOptions rest (opts\<lparr>GetOld := True\<rparr>)
     else Inl ErrSyntaxMsg)"

definition handleSet :: "'x HandlerFunc"
  where "handleSet args = (case setOptions (drop 3 args) noOpts of
     Inl msg \<Rightarrow> ret (Err msg)
   | Inr opts \<Rightarrow>
       if OnlyIfNX opts \<and> OnlyIfXX opts then ret (Err ErrSyntaxMsg)
       else do {
         r \<leftarrow> call (\<lambda>ws env. Set env ws (args ! 1) (bytes_of (args ! 2)) opts);
         ret (case r of
            Inl e \<Rightarrow> ErrFromStorage e
          | Inr (ok, prev, hadPrev) \<Rightarrow>
              if GetOld opts then (if hadPrev then Bulk prev else NullBulk)
              else if \<not> ok then NullBulk
              else OK)
       })"

definition handleMGet :: "'x HandlerFunc"
  where "handleMGet args = do {
     items \<leftarrow> mapC (\<lambda>k. do {
         r \<leftarrow> call (\<lambda>ws env. Get env ws k);
         ret (case r of Inl _ \<Rightarrow> NullBulk | Inr (val, ok) \<Rightarrow> if \<not> ok then NullBulk else Bulk val)
       }) (drop 1 args);
     ret (ArraySlice items)
   }"

fun msetLoop :: "string list \<Rightarrow> ('x, Reply) cmd" where
  "msetLoop (k # v # rest) = do {
     r \<leftarrow> call (\<lambda>ws env. Set env ws k (bytes_of v) noOpts);
     (case r of Inl e \<Rightarrow> ret (ErrFromStorage e) | Inr _ \<Rightarrow> msetLoop rest)
   }"
| "msetLoop _ = ret OK"

definition handleMSet :: "'x HandlerFunc"
  where "handleMSet args =
    (if odd (length (drop 1 args)) then ret (Err (ErrWrongNumberOfArgs ''mset''))
     else msetLoop (drop 1 args))"

definition incrBy :: "string \<Rightarrow> int \<Rightarrow> ('x, storage_error + int) cmd"
  where "incrBy key delta = do {
     g \<leftarrow> call (\<lambda>ws env. Get env ws key);
     (case g of
        Inl e \<Rightarrow> ret (Inl e)
      | Inr (val, ok) \<Rightarrow>
          (case (if ok then ParseInt (content val) else Some 0) of
             None \<Rightarrow> ret (Inl ErrNotInteger)
           | Some cur \<Rightarrow> do {
               let next = int64 (cur + delta);
               r \<leftarrow> call (\<lambda>ws env. Set env ws key (bytes_of (FormatInt next)) noOpts);
               ret (case r of Inl e \<Rightarrow> Inl e | Inr _ \<Rightarrow> Inr next)
             }))
   }"

definition handleIncr :: "'x HandlerFunc"
  where "handleIncr args = do { r \<leftarrow> incrBy (args ! 1) 1; ret (countReply r) }"

definition handleDecr :: "'x HandlerFunc"
  where "handleDecr args = do { r \<leftarrow> incrBy (args ! 1) (- 1); ret (countReply r) }"

definition handleIncrBy :: "'x HandlerFunc"
  where "handleIncrBy args = (case ParseInt (args ! 2) of
     None \<Rightarrow> ret (Err ErrNotIntegerMsg)
   | Some delta \<Rightarrow> do { r \<leftarrow> incrBy (args ! 1) delta; ret (countReply r) })"

definition handleDecrBy :: "'x HandlerFunc"
  where "handleDecrBy args = (case ParseInt (args ! 2) of
     None \<Rightarrow> ret (Err ErrNotIntegerMsg)
   | Some delta \<Rightarrow> do { r \<leftarrow> incrBy (args ! 1) (int64 (- delta)); ret (countReply r) })"

definition handleAppend :: "'x HandlerFunc"
  where "handleAppend args = do {
     g \<leftarrow> call (\<lambda>ws env. Get env ws (args ! 1));
     (case g of
        Inl e \<Rightarrow> ret (ErrFromStorage e)
      | Inr (val, ok) \<Rightarrow> do {
          let newVal = (if ok then copy_bytes (Some (content val @ args ! 2)) else bytes_of (args ! 2));
          r \<leftarrow> call (\<lambda>ws env. Set env ws (args ! 1) newVal noOpts);
          ret (case r of Inl e \<Rightarrow> ErrFromStorage e | Inr _ \<Rightarrow> Integer (int (length (content newVal))))
        })
   }"

definition handleStrlen :: "'x HandlerFunc"
  where "handleStrlen args = do {
     r \<leftarrow> call (\<lambda>ws env. Get env ws (args ! 1));
     ret (case r of
        Inl e \<Rightarrow> ErrFromStorage e
      | Inr (val, ok) \<Rightarrow> if \<not> ok then Integer 0 else Integer (int (length (content val))))
   }"

section \<open>Hashes\<close>

fun hsetFields :: "string list \<Rightarrow> (string, bytes) fmap \<Rightarrow> (string, bytes) fmap" where
  "hsetFields (f # v # rest) m = hsetFields rest (fmupd f (bytes_of v) m)"
| "hsetFields _ m = m"

definition handleHSet :: "'x HandlerFunc"
  where "handleHSet args =
    (let pairs = drop 2 args
     in if odd (length pairs) then ret (Err (ErrWrongNumberOfArgs ''hset''))
        else do {
          r \<leftarrow> call (\<lambda>ws env. HSet env ws (args ! 1) (hsetFields pairs fmempty));
          ret (countReply r)
        })"

definition handleHGet :: "'x HandlerFunc"
  where "handleHGet args = do { r \<leftarrow> call (\<lambda>ws env. HGet env ws (args ! 1) (args ! 2)); ret (valueReply r) }"

definition handleHGetAll :: "'x HandlerFunc"
  where "handleHGetAll args = do {
     r \<leftarrow> call (\<lambda>ws env. HGetAll env ws (args ! 1));
     ret (case r of
        Inl e \<Rightarrow> ErrFromStorage e
      | Inr (m, ok) \<Rightarrow>
          if \<not> ok then ArraySlice []
          else ArraySlice (concat (map (\<lambda>k. [BulkString k,
                 Bulk (case fmlookup m k of Some v \<Rightarrow> v | None \<Rightarrow> None)]) (fkeys m))))
   }"

definition handleHDel :: "'x HandlerFunc"
  where "handleHDel args = do { r \<leftarrow> call (\<lambda>ws env. HDel env ws (args ! 1) (drop 2 args)); ret (countReply r) }"

definition handleHExists :: "'x HandlerFunc"
  where "handleHExists args = do { r \<leftarrow> call (\<lambda>ws env. HExists env ws (args ! 1) (args ! 2)); ret (testReply r) }"

definition handleHKeys :: "'x HandlerFunc"
  where "handleHKeys args = do {
     r \<leftarrow> call (\<lambda>ws env. HKeys env ws (args ! 1));
     ret (case r of Inl e \<Rightarrow> ErrFromStorage e | Inr (ks, _) \<Rightarrow> stringsReply ks)
   }"

definition handleHVals :: "'x HandlerFunc"
  where "handleHVals args = do {
     r \<leftarrow> call (\<lambda>ws env. HVals env ws (args ! 1));
     ret (case r of Inl e \<Rightarrow> ErrFromStorage e | Inr (vs, _) \<Rightarrow> bulksReply vs)
   }"

definition handleHLen :: "'x HandlerFunc"
  where "handleHLen args = do { r \<leftarrow> call (\<lambda>ws env. HLen env ws (args ! 1)); ret (countReply r) }"

definition handleHMGet :: "'x HandlerFunc" \<comment> \<open>a nil value is the null bulk either way\<close>
  where "handleHMGet args = do {
     r \<leftarrow> call (\<lambda>ws env. HMGet env ws (args ! 1) (drop 2 args));
     ret (case r of
        Inl e \<Rightarrow> ErrFromStorage e
      | Inr vals \<Rightarrow> ArraySlice (map (\<lambda>v. if v = None then NullBulk else Bulk v) vals))
   }"

definition handleHIncrBy :: "'x HandlerFunc"
  where "handleHIncrBy args = (case ParseInt (args ! 3) of
     None \<Rightarrow> ret (Err ErrNotIntegerMsg)
   | Some delta \<Rightarrow> do {
       r \<leftarrow> call (\<lambda>ws env. HIncrBy env ws (args ! 1) (args ! 2) delta);
       ret (countReply r)
     })"

section \<open>Lists\<close>

definition handleLPush :: "'x HandlerFunc"
  where "handleLPush args = do {
     r \<leftarrow> call (\<lambda>ws env. LPush env ws (args ! 1) (map bytes_of (drop 2 args)));
     ret (countReply r)
   }"

definition handleRPush :: "'x HandlerFunc"
  where "handleRPush args = do {
     r \<leftarrow> call (\<lambda>ws env. RPush env ws (args ! 1) (map bytes_of (drop 2 args)));
     ret (countReply r)
   }"

definition handleLPop :: "'x HandlerFunc"
  where "handleLPop args = do { r \<leftarrow> call (\<lambda>ws env. LPop env ws (args ! 1)); ret (valueReply r) }"

definition handleRPop :: "'x HandlerFunc"
  where "handleRPop args = do { r \<leftarrow> call (\<lambda>ws env. RPop env ws (args ! 1)); ret (valueReply r) }"

definition handleLRange :: "'x HandlerFunc"
  where "handleLRange args = (case Atoi (args ! 2) of
     None \<Rightarrow> ret (Err ErrNotIntegerMsg)
   | Some start \<Rightarrow>
       (case Atoi (args ! 3) of
          None \<Rightarrow> ret (Err ErrNotIntegerMsg)
        | Some stop \<Rightarrow> do {
            r \<leftarrow> call (\<lambda>ws env. LRange env ws (args ! 1) start stop);
            ret (listReply r)
          }))"

definition handleLLen :: "'x HandlerFunc"
  where "handleLLen args = do { r \<leftarrow> call (\<lambda>ws env. LLen env ws (args ! 1)); ret (countReply r) }"

definition handleLIndex :: "'x HandlerFunc"
  where "handleLIndex args = (case Atoi (args ! 2) of
     None \<Rightarrow> ret (Err ErrNotIntegerMsg)
   | Some idx \<Rightarrow> do { r \<leftarrow> call (\<lambda>ws env. LIndex env ws (args ! 1) idx); ret (valueReply r) })"

definition handleLSet :: "'x HandlerFunc"
  where "handleLSet args = (case Atoi (args ! 2) of
     None \<Rightarrow> ret (Err ErrNotIntegerMsg)
   | Some idx \<Rightarrow> do {
       r \<leftarrow> call (\<lambda>ws env. LSet env ws (args ! 1) idx (bytes_of (args ! 3)));
       ret (case r of Inl e \<Rightarrow> ErrFromStorage e | Inr _ \<Rightarrow> OK)
     })"

definition handleLRem :: "'x HandlerFunc"
  where "handleLRem args = (case Atoi (args ! 2) of
     None \<Rightarrow> ret (Err ErrNotIntegerMsg)
   | Some cnt \<Rightarrow> do {
       r \<leftarrow> call (\<lambda>ws env. LRem env ws (args ! 1) cnt (bytes_of (args ! 3)));
       ret (countReply r)
     })"

section \<open>Sets\<close>

definition handleSAdd :: "'x HandlerFunc"
  where "handleSAdd args = do {
     r \<leftarrow> call (\<lambda>ws env. SAdd env ws (args ! 1) (map bytes_of (drop 2 args)));
     ret (countReply r)
   }"

definition handleSRem :: "'x HandlerFunc"
  where "handleSRem args = do {
     r \<leftarrow> call (\<lambda>ws env. SRem env ws (args ! 1) (map bytes_of (drop 2 args)));
     ret (countReply r)
   }"

definition handleSMembers :: "'x HandlerFunc"
  where "handleSMembers args = do { r \<leftarrow> call (\<lambda>ws env. SMembers env ws (args ! 1)); ret (listReply r) }"

definition handleSIsMember :: "'x HandlerFunc"
  where "handleSIsMember args = do {
     r \<leftarrow> call (\<lambda>ws env. SIsMember env ws (args ! 1) (bytes_of (args ! 2)));
     ret (testReply r)
   }"

definition handleSCard :: "'x HandlerFunc"
  where "handleSCard args = do { r \<leftarrow> call (\<lambda>ws env. SCard env ws (args ! 1)); ret (countReply r) }"

definition handleSInter :: "'x HandlerFunc"
  where "handleSInter args = do { r \<leftarrow> call (\<lambda>ws env. SInter env ws (drop 1 args)); ret (listReply r) }"

definition handleSUnion :: "'x HandlerFunc"
  where "handleSUnion args = do { r \<leftarrow> call (\<lambda>ws env. SUnion env ws (drop 1 args)); ret (listReply r) }"

definition handleSDiff :: "'x HandlerFunc"
  where "handleSDiff args = do { r \<leftarrow> call (\<lambda>ws env. SDiff env ws (drop 1 args)); ret (listReply r) }"

section \<open>All of them are data commands\<close>

lemma dataCmd_option [data_intros]: "dataCmd n \<Longrightarrow> (\<And>x. dataCmd (f x)) \<Longrightarrow> dataCmd (case opt of None \<Rightarrow> n | Some x \<Rightarrow> f x)"
  by (cases opt) auto

lemma dataCmd_sum [data_intros]: "(\<And>x. dataCmd (f x)) \<Longrightarrow> (\<And>x. dataCmd (g x)) \<Longrightarrow> dataCmd (case s of Inl x \<Rightarrow> f x | Inr x \<Rightarrow> g x)"
  by (cases s) auto

lemma dataCmd_prod [data_intros]: "(\<And>x y. dataCmd (f x y)) \<Longrightarrow> dataCmd (case p of (x, y) \<Rightarrow> f x y)"
  by (cases p) auto

lemma dataCmd_if [data_intros]: "dataCmd a \<Longrightarrow> dataCmd b \<Longrightarrow> dataCmd (if c then a else b)"
  by simp

lemma dataCmd_let [data_intros]: "(\<And>x. dataCmd (f x)) \<Longrightarrow> dataCmd (let x = a in f x)"
  by simp

lemma dataCmd_mset [data_intros]: "dataCmd (msetLoop pairs)"
  by (induction pairs rule: msetLoop.induct) (auto intro!: data_intros)

lemma dataCmd_incrBy [data_intros]: "dataCmd (incrBy k d)"
  unfolding incrBy_def by (intro data_intros)

lemmas generic_defs = handleDel_def handleExists_def handleExpire_def handlePExpire_def handleTTL_def
  handlePTTL_def handlePersist_def handleType_def handleKeys_def handleScan_def handleRename_def
  handleFlushDB_def handleFlushAll_def

lemmas string_defs = handleGet_def handleSet_def handleMGet_def handleMSet_def handleIncr_def
  handleDecr_def handleIncrBy_def handleDecrBy_def handleAppend_def handleStrlen_def

lemmas hash_defs = handleHSet_def handleHGet_def handleHGetAll_def handleHDel_def handleHExists_def
  handleHKeys_def handleHVals_def handleHLen_def handleHMGet_def handleHIncrBy_def

lemmas list_defs = handleLPush_def handleRPush_def handleLPop_def handleRPop_def handleLRange_def
  handleLLen_def handleLIndex_def handleLSet_def handleLRem_def

lemmas set_defs = handleSAdd_def handleSRem_def handleSMembers_def handleSIsMember_def handleSCard_def
  handleSInter_def handleSUnion_def handleSDiff_def

lemma generic_data [data_intros]:
  "dataCmd (handleDel args)" "dataCmd (handleExists args)" "dataCmd (handleExpire args)"
  "dataCmd (handlePExpire args)" "dataCmd (handleTTL args)" "dataCmd (handlePTTL args)"
  "dataCmd (handlePersist args)" "dataCmd (handleType args)" "dataCmd (handleKeys args)"
  "dataCmd (handleScan args)" "dataCmd (handleRename args)" "dataCmd (handleFlushDB args)"
  "dataCmd (handleFlushAll args)"
  unfolding generic_defs by (intro data_intros)+

lemma string_data [data_intros]:
  "dataCmd (handleGet args)" "dataCmd (handleSet args)" "dataCmd (handleMGet args)"
  "dataCmd (handleMSet args)" "dataCmd (handleIncr args)" "dataCmd (handleDecr args)"
  "dataCmd (handleIncrBy args)" "dataCmd (handleDecrBy args)" "dataCmd (handleAppend args)"
  "dataCmd (handleStrlen args)"
  unfolding string_defs by (intro data_intros)+

lemma hash_data [data_intros]:
  "dataCmd (handleHSet args)" "dataCmd (handleHGet args)" "dataCmd (handleHGetAll args)"
  "dataCmd (handleHDel args)" "dataCmd (handleHExists args)" "dataCmd (handleHKeys args)"
  "dataCmd (handleHVals args)" "dataCmd (handleHLen args)" "dataCmd (handleHMGet args)"
  "dataCmd (handleHIncrBy args)"
  unfolding hash_defs by (intro data_intros)+

lemma list_data [data_intros]:
  "dataCmd (handleLPush args)" "dataCmd (handleRPush args)" "dataCmd (handleLPop args)"
  "dataCmd (handleRPop args)" "dataCmd (handleLRange args)" "dataCmd (handleLLen args)"
  "dataCmd (handleLIndex args)" "dataCmd (handleLSet args)" "dataCmd (handleLRem args)"
  unfolding list_defs by (intro data_intros)+

lemma set_data [data_intros]:
  "dataCmd (handleSAdd args)" "dataCmd (handleSRem args)" "dataCmd (handleSMembers args)"
  "dataCmd (handleSIsMember args)" "dataCmd (handleSCard args)" "dataCmd (handleSInter args)"
  "dataCmd (handleSUnion args)" "dataCmd (handleSDiff args)"
  unfolding set_defs by (intro data_intros)+

end
