(* ===== verification/Strfloat.thy ===== *)
theory Strfloat
  imports Strconv Float64
begin

text \<open>
  The parts of Go's \<^verbatim>\<open>strconv\<close> that the protocol layer calls on floats:
  \<^verbatim>\<open>ParseFloat(s, 64)\<close> and \<^verbatim>\<open>FormatFloat(f, 'g', -1, 64)\<close>. A parse error, of syntax or of
  range, is \<open>None\<close>.

  Parsing follows \<^verbatim>\<open>readFloat\<close>: an optional sign, decimal digits with at most one point and an
  optional exponent, or a hexadecimal mantissa with a binary exponent, with underscores only
  between digits; and the names of the infinities and NaN in any case. The value is the exact
  rational rounded once. Formatting writes the shortest digits that round back to the value.
\<close>

section \<open>Parsing\<close>

definition lowerASCII :: "char \<Rightarrow> char" where "lowerASCII c = lower_char c"

definition is_hex :: "char \<Rightarrow> bool"
  where "is_hex c \<longleftrightarrow> is_digit c \<or> (CHR ''a'' \<le> lowerASCII c \<and> lowerASCII c \<le> CHR ''f'')"

definition hex_val :: "char \<Rightarrow> nat"
  where "hex_val c = (if is_digit c then digit_val c else of_char (lowerASCII c) - 87)"

text \<open>
  The previous character of \<^verbatim>\<open>underscoreOK\<close>: a digit (or a base prefix), an underscore, or
  anything else.
\<close>

datatype ucls = UDigit | UUnder | UOther

fun underscoresOK :: "bool \<Rightarrow> ucls \<Rightarrow> string \<Rightarrow> bool" where
  "underscoresOK hex prev [] = (prev \<noteq> UUnder)"
| "underscoresOK hex prev (c # cs) =
    (if is_digit c \<or> hex \<and> is_hex c then underscoresOK hex UDigit cs
     else if c = CHR ''_'' then (if prev \<noteq> UDigit then False else underscoresOK hex UUnder cs)
     else if prev = UUnder then False
     else underscoresOK hex UOther cs)"

text \<open>
  The digit loop: the mantissa so far, whether a digit and whether the point was seen, and the
  number of digits after the point; it stops at the first other character.
\<close>

record mant =
  mval :: nat
  sawdigits :: bool
  sawdot :: bool
  frac :: nat

fun mantLoop :: "bool \<Rightarrow> string \<Rightarrow> mant \<Rightarrow> mant \<times> string" where
  "mantLoop hex [] m = (m, [])"
| "mantLoop hex (c # cs) m =
    (if c = CHR ''_'' then mantLoop hex cs m
     else if c = CHR ''.'' then (if sawdot m then (m, c # cs) else mantLoop hex cs (m\<lparr>sawdot := True\<rparr>))
     else if is_digit c \<or> hex \<and> is_hex c then
       mantLoop hex cs (m\<lparr>mval := (if hex then 16 else 10) * mval m + hex_val c, sawdigits := True,
                           frac := (if sawdot m then Suc (frac m) else 0)\<rparr>)
     else (m, c # cs))"

fun expLoop :: "string \<Rightarrow> int \<Rightarrow> int \<times> string" where
  "expLoop [] e = (e, [])"
| "expLoop (c # cs) e =
    (if c = CHR ''_'' then expLoop cs e
     else if is_digit c then expLoop cs (if e < 10000 then 10 * e + int (digit_val c) else e)
     else (e, c # cs))"

definition parseExp :: "bool \<Rightarrow> string \<Rightarrow> int option" \<comment> \<open>what follows the mantissa, to the end\<close>
  where "parseExp hex s =
    (case s of
       [] \<Rightarrow> if hex then None else Some 0
     | c # cs \<Rightarrow>
         if lowerASCII c \<noteq> (if hex then CHR ''p'' else CHR ''e'') then None
         else
           let neg = (cs \<noteq> [] \<and> hd cs = CHR ''-'');
               ds = (if cs \<noteq> [] \<and> (hd cs = CHR ''-'' \<or> hd cs = CHR ''+'') then tl cs else cs)
           in if ds = [] \<or> \<not> is_digit (hd ds) then None
              else (case expLoop ds 0 of (e, rest) \<Rightarrow>
                if rest \<noteq> [] then None else Some (if neg then - e else e)))"

definition parseNumber :: "string \<Rightarrow> rat option" \<comment> \<open>without the sign\<close>
  where "parseNumber s =
    (let hex = (length s > 2 \<and> s ! 0 = CHR ''0'' \<and> lowerASCII (s ! 1) = CHR ''x'');
         body = (if hex then drop 2 s else s)
     in case mantLoop hex body \<lparr>mval = 0, sawdigits = False, sawdot = False, frac = 0\<rparr> of
          (m, rest) \<Rightarrow>
            if \<not> sawdigits m then None
            else
              (case parseExp hex rest of
                 None \<Rightarrow> None
               | Some e \<Rightarrow>
                   if CHR ''_'' \<in> set s \<and> \<not> underscoresOK hex (if hex then UDigit else UOther) body then None
                   else Some (if hex then of_nat (mval m) * 2 powi (e - 4 * int (frac m))
                              else of_nat (mval m) * 10 powi (e - int (frac m)))))"

definition ParseFloat :: "string \<Rightarrow> float64 option"
  where "ParseFloat s =
    (let neg = (s \<noteq> [] \<and> hd s = CHR ''-'');
         signed = (s \<noteq> [] \<and> (hd s = CHR ''-'' \<or> hd s = CHR ''+''));
         body = (if signed then tl s else s);
         low = map lowerASCII body
     in if low = ''inf'' \<or> low = ''infinity'' then Some (Inf neg)
        else if \<not> signed \<and> low = ''nan'' then Some NaN
        else
          (case parseNumber body of
             None \<Rightarrow> None
           | Some q \<Rightarrow> (case f64_round neg q of Fin sg r \<Rightarrow> Some (Fin sg r) | _ \<Rightarrow> None)))"

section \<open>Formatting\<close>

definition ilog10 :: "rat \<Rightarrow> int" \<comment> \<open>the exponent of the leading decimal digit\<close>
  where "ilog10 q = (let (n, d) = quotient_of q;
                         k = int (length (format_nat (nat n))) - int (length (format_nat (nat d)))
                     in if 10 powi k \<le> q then k else k - 1)"

text \<open>
  The decimals with \<open>n\<close> digits next to the value on both sides; those that round back to the
  value are candidates, and the nearer one is taken. Seventeen digits always suffice.
\<close>

definition tryDigits :: "rat \<Rightarrow> int \<Rightarrow> nat \<Rightarrow> nat option"
  where "tryDigits q e10 n =
    (let sc = 10 powi (int n - 1 - e10);
         lo = \<lfloor>q * sc\<rfloor>;
         ok = (\<lambda>c. f64_round False (of_int c / sc) = Fin False q);
         near = (if q * sc - of_int lo \<le> of_int (lo + 1) - q * sc then lo else lo + 1);
         far = (if near = lo then lo + 1 else lo)
     in if ok near then Some (nat near) else if ok far then Some (nat far) else None)"

fun shortestLoop :: "nat \<Rightarrow> rat \<Rightarrow> int \<Rightarrow> nat \<Rightarrow> nat \<times> nat" where
  "shortestLoop 0 q e10 n = (nat \<lfloor>q * 10 powi (int n - 1 - e10)\<rfloor>, n)"
| "shortestLoop (Suc fuel) q e10 n =
    (case tryDigits q e10 n of Some c \<Rightarrow> (c, n) | None \<Rightarrow> shortestLoop fuel q e10 (Suc n))"

definition shortest :: "rat \<Rightarrow> string \<times> int" \<comment> \<open>the digits and the position of the point\<close>
  where "shortest q =
    (let e10 = ilog10 q;
         (c, n) = shortestLoop 17 q e10 1;
         ds = format_nat c
     in (rev (dropWhile (\<lambda>d. d = CHR ''0'') (rev ds)), e10 + 1 + int (length ds) - int n))"

definition fmtE :: "string \<Rightarrow> int \<Rightarrow> string"
  where "fmtE ds dp =
    (let e = dp - 1; ae = format_nat (nat \<bar>e\<bar>)
     in [hd ds] @ (if length ds > 1 then CHR ''.'' # tl ds else []) @
        [CHR ''e'', if e < 0 then CHR ''-'' else CHR ''+''] @
        (if length ae < 2 then CHR ''0'' # ae else ae))"

definition fmtF :: "string \<Rightarrow> int \<Rightarrow> string"
  where "fmtF ds dp =
    (let nd = int (length ds);
         digit = (\<lambda>j. if 0 \<le> j \<and> j < nd then ds ! nat j else CHR ''0'')
     in (if 0 < dp then map digit [0..dp - 1] else ''0'') @
        (if dp < nd then CHR ''.'' # map digit [dp..nd - 1] else []))"

fun FormatFloat :: "float64 \<Rightarrow> string" where
  "FormatFloat NaN = ''NaN''"
| "FormatFloat (Inf s) = (if s then ''-Inf'' else ''+Inf'')"
| "FormatFloat (Fin s q) =
    (let (ds, dp) = (if q = 0 then ([], 0) else shortest q);
         e = dp - 1
     in (if s then ''-'' else []) @ (if e < - 4 \<or> 6 \<le> e then fmtE ds dp else fmtF ds dp))"

end
