(* ===== verification/ZSetHandlers.thy ===== *)
theory ZSetHandlers
  imports DataHandlers Strfloat
begin

text \<open>The handlers of the sorted set commands, \<^verbatim>\<open>handlers_zset.go\<close>.\<close>

definition formatFloat :: "float64 \<Rightarrow> string"
  where "formatFloat f = FormatFloat f"

definition parseScoreArg :: "string \<Rightarrow> float64 option"
  where "parseScoreArg s =
    (if s = ''-inf'' then Some (Inf True)
     else if s = ''+inf'' \<or> s = ''inf'' then Some (Inf False)
     else ParseFloat s)"

definition zmembersReply :: "ZMember list \<Rightarrow> bool \<Rightarrow> Reply"
  where "zmembersReply members withScores =
    ArraySlice (concat (map (\<lambda>m. BulkString (Member m) #
      (if withScores then [BulkString (formatFloat (Score m))] else [])) members))"

fun zaddPairs :: "string list \<Rightarrow> (string, float64) fmap \<Rightarrow> (string, float64) fmap option" where
  "zaddPairs (sc # m # rest) members =
    (case parseScoreArg sc of None \<Rightarrow> None | Some score \<Rightarrow> zaddPairs rest (fmupd m score members))"
| "zaddPairs _ members = Some members"

definition handleZAdd :: "'x HandlerFunc"
  where "handleZAdd args =
    (let pairs = drop 2 args
     in if pairs = [] \<or> odd (length pairs) then ret (Err ErrSyntaxMsg)
        else
          (case zaddPairs pairs fmempty of
             None \<Rightarrow> ret (Err ErrNotFloatMsg)
           | Some members \<Rightarrow> do {
               r \<leftarrow> call (\<lambda>ws env. ZAdd env ws (args ! 1) members);
               ret (countReply r)
             }))"

definition handleZRem :: "'x HandlerFunc"
  where "handleZRem args = do { r \<leftarrow> call (\<lambda>ws env. ZRem env ws (args ! 1) (drop 2 args)); ret (countReply r) }"

definition parseZRangeArgs :: "string list \<Rightarrow> string + int \<times> int \<times> bool"
  where "parseZRangeArgs args =
    (case Atoi (args ! 2) of
       None \<Rightarrow> Inl ErrNotIntegerMsg
     | Some start \<Rightarrow>
         (case Atoi (args ! 3) of
            None \<Rightarrow> Inl ErrNotIntegerMsg
          | Some stop \<Rightarrow>
              if length args = 5 then
                (if to_upper (args ! 4) \<noteq> ''WITHSCORES'' then Inl ErrSyntaxMsg else Inr (start, stop, True))
              else Inr (start, stop, False)))"

definition rangeReply :: "bool \<Rightarrow> storage_error + ZMember list \<Rightarrow> Reply"
  where "rangeReply withScores r =
    (case r of Inl e \<Rightarrow> ErrFromStorage e | Inr members \<Rightarrow> zmembersReply members withScores)"

definition handleZRange :: "'x HandlerFunc"
  where "handleZRange args = (case parseZRangeArgs args of
     Inl msg \<Rightarrow> ret (Err msg)
   | Inr (start, stop, withScores) \<Rightarrow> do {
       r \<leftarrow> call (\<lambda>ws env. ZRange env ws (args ! 1) start stop);
       ret (rangeReply withScores r)
     })"

definition handleZRevRange :: "'x HandlerFunc"
  where "handleZRevRange args = (case parseZRangeArgs args of
     Inl msg \<Rightarrow> ret (Err msg)
   | Inr (start, stop, withScores) \<Rightarrow> do {
       r \<leftarrow> call (\<lambda>ws env. ZRevRange env ws (args ! 1) start stop);
       ret (rangeReply withScores r)
     })"

definition handleZScore :: "'x HandlerFunc"
  where "handleZScore args = do {
     r \<leftarrow> call (\<lambda>ws env. ZScore env ws (args ! 1) (args ! 2));
     ret (case r of
        Inl e \<Rightarrow> ErrFromStorage e
      | Inr (score, ok) \<Rightarrow> if \<not> ok then NullBulk else BulkString (formatFloat score))
   }"

definition handleZRank :: "'x HandlerFunc"
  where "handleZRank args = do {
     r \<leftarrow> call (\<lambda>ws env. ZRank env ws (args ! 1) (args ! 2));
     ret (case r of
        Inl e \<Rightarrow> ErrFromStorage e
      | Inr (rank, ok) \<Rightarrow> if \<not> ok then NullBulk else Integer rank)
   }"

definition handleZCard :: "'x HandlerFunc"
  where "handleZCard args = do { r \<leftarrow> call (\<lambda>ws env. ZCard env ws (args ! 1)); ret (countReply r) }"

definition handleZIncrBy :: "'x HandlerFunc"
  where "handleZIncrBy args = (case parseScoreArg (args ! 2) of
     None \<Rightarrow> ret (Err ErrNotFloatMsg)
   | Some delta \<Rightarrow> do {
       r \<leftarrow> call (\<lambda>ws env. ZIncrBy env ws (args ! 1) (args ! 3) delta);
       ret (case r of Inl e \<Rightarrow> ErrFromStorage e | Inr newScore \<Rightarrow> BulkString (formatFloat newScore))
     })"

definition handleZRangeByScore :: "'x HandlerFunc"
  where "handleZRangeByScore args = (case parseScoreArg (args ! 2) of
     None \<Rightarrow> ret (Err ErrNotFloatMsg)
   | Some lo \<Rightarrow>
       (case parseScoreArg (args ! 3) of
          None \<Rightarrow> ret (Err ErrNotFloatMsg)
        | Some hi \<Rightarrow> do {
            r \<leftarrow> call (\<lambda>ws env. ZRangeByScore env ws (args ! 1) lo hi);
            ret (rangeReply False r)
          }))"

lemmas zset_defs = handleZAdd_def handleZRem_def handleZRange_def handleZRevRange_def handleZScore_def
  handleZRank_def handleZCard_def handleZIncrBy_def handleZRangeByScore_def

lemma zset_data [data_intros]:
  "dataCmd (handleZAdd args)" "dataCmd (handleZRem args)" "dataCmd (handleZRange args)"
  "dataCmd (handleZRevRange args)" "dataCmd (handleZScore args)" "dataCmd (handleZRank args)"
  "dataCmd (handleZCard args)" "dataCmd (handleZIncrBy args)" "dataCmd (handleZRangeByScore args)"
  unfolding zset_defs by (intro data_intros)+

end
