(* ===== verification/ConnHandlers.thy ===== *)
theory ConnHandlers
  imports Session
begin

text \<open>
  The handlers that act on the connection itself: \<^verbatim>\<open>handlers_conn.go\<close>,
  \<^verbatim>\<open>handlers_pubsub.go\<close> and \<^verbatim>\<open>handlers_tx.go\<close>. The SUBSCRIBE family returns a closure that
  subscribes while it writes; these commands are never queued, so the connection loop runs the
  closure right after the handler, and the model runs its effects in the handler. Writes are
  taken to succeed.

  \<open>handleExec\<close> takes the dispatcher's \<^verbatim>\<open>Registry.Handle\<close> as its argument \<open>handle\<close>.
\<close>

section \<open>Connection\<close>

definition cachepotVersion :: string where "cachepotVersion = ''0.7.0''"

definition handlePing :: "'x HandlerFunc"
  where "handlePing args = ret (if length args = 2 then BulkString (args ! 1) else Simple ''PONG'')"

definition handleEcho :: "'x HandlerFunc"
  where "handleEcho args = ret (BulkString (args ! 1))"

definition handleSelect :: "'x HandlerFunc"
  where "handleSelect args = ret (case Atoi (args ! 1) of
     None \<Rightarrow> Err ErrNotIntegerMsg
   | Some n \<Rightarrow> if n \<noteq> 0 then Err ErrWrongDBMsg else OK)"

text \<open>The option loop of HELLO; \<open>Some\<close> is the error that ends it.\<close>

fun helloLoop :: "string list \<Rightarrow> ('x, Reply option) cmd" where
  "helloLoop [] = ret None"
| "helloLoop (opt # rest) =
    (if to_upper opt = ''AUTH'' then
       (case rest of
          user # pw # rest' \<Rightarrow> do {
            a \<leftarrow> auth_of;
            (if MultiWorkspace a then
               (case WorkspaceForPassword a pw of
                  None \<Rightarrow> ret (Some (Err ErrInvalidPasswordMsg))
                | Some ws \<Rightarrow> do {
                    updClient (\<lambda>c. c\<lparr>Authenticated := True, Workspace := ws\<rparr>);
                    helloLoop rest'
                  })
             else if \<not> Check a pw then ret (Some (Err ErrInvalidPasswordMsg))
             else do { updClient (\<lambda>c. c\<lparr>Authenticated := True\<rparr>); helloLoop rest' })
          }
        | _ \<Rightarrow> ret (Some (Err ErrSyntaxMsg)))
     else if to_upper opt = ''SETNAME'' then
       (case rest of
          name # rest' \<Rightarrow> do { updClient (\<lambda>c. c\<lparr>Name := name\<rparr>); helloLoop rest' }
        | [] \<Rightarrow> ret (Some (Err ErrSyntaxMsg)))
     else ret (Some (Err ErrSyntaxMsg)))"

definition helloReply :: Reply
  where "helloReply = ArraySlice
    [BulkString ''server'', BulkString ''cachepot'', BulkString ''version'', BulkString cachepotVersion,
     BulkString ''proto'', Integer 2, BulkString ''id'', Integer 1, BulkString ''mode'', BulkString ''standalone'',
     BulkString ''role'', BulkString ''master'', BulkString ''modules'', ArraySlice []]"

definition handleHello :: "'x HandlerFunc"
  where "handleHello args =
    (let hasProto = (1 < length args \<and> Atoi (args ! 1) \<noteq> None);
         proto = (if hasProto then args ! 1 else ''2'')
     in do {
       e \<leftarrow> helloLoop (drop (if hasProto then 2 else 1) args);
       a \<leftarrow> auth_of;
       auth \<leftarrow> asks (\<lambda>se. Authenticated (client se));
       ret (case e of
          Some r \<Rightarrow> r
        | None \<Rightarrow>
            if proto \<noteq> ''2'' then Err ErrNoProtoMsg
            else if Required a \<and> \<not> auth then Err ErrNoAuthMsg
            else helloReply)
     })"

definition handleAuth :: "'x HandlerFunc"
  where "handleAuth args =
    (let pw = (if length args = 2 then args ! 1 else if length args = 3 then args ! 2 else [])
     in do {
       a \<leftarrow> auth_of;
       (if \<not> Required a then
          ret (Err ''ERR Client sent AUTH, but no password is set. Did you mean AUTH <username> <password>?'')
        else if MultiWorkspace a then
          (case WorkspaceForPassword a pw of
             None \<Rightarrow> ret (Err ErrInvalidPasswordMsg)
           | Some ws \<Rightarrow> do {
               updClient (\<lambda>c. c\<lparr>Authenticated := True, Workspace := ws\<rparr>);
               ret OK
             })
        else if \<not> Check a pw then ret (Err ErrInvalidPasswordMsg)
        else do { updClient (\<lambda>c. c\<lparr>Authenticated := True\<rparr>); ret OK })
     })"

definition handleClient :: "'x HandlerFunc"
  where "handleClient args =
    (let sub = to_upper (args ! 1)
     in if sub = ''GETNAME'' then do { n \<leftarrow> asks (\<lambda>se. Name (client se)); ret (BulkString n) }
        else if sub = ''SETNAME'' then
          (if length args \<noteq> 3 then ret (Err (ErrWrongNumberOfArgs ''client|setname''))
           else do { updClient (\<lambda>c. c\<lparr>Name := args ! 2\<rparr>); ret OK })
        else ret (Err (''ERR Unknown subcommand or wrong number of arguments for '' @
               [CHR 0x27] @ args ! 1 @ [CHR 0x27])))"

text \<open>\<^verbatim>\<open>COMMAND COUNT\<close> replies the number of registered commands, \<open>n\<close>.\<close>

definition handleCommand :: "nat \<Rightarrow> 'x HandlerFunc"
  where "handleCommand n args = ret
    (if 2 \<le> length args \<and> map upper_char (args ! 1) = ''COUNT'' then Integer (int n) else ArraySlice [])"

definition infoText :: "Metrics \<Rightarrow> string"
  where "infoText m =
    ''# Server'' @ crlf @ ''redis_version:7.0.0'' @ crlf @
    ''cachepot_version:'' @ cachepotVersion @ crlf @
    crlf @ ''# Clients'' @ crlf @
    ''connected_clients:'' @ FormatInt (connectionsActive m) @ crlf @
    crlf @ ''# Stats'' @ crlf @
    ''total_connections_received:'' @ FormatInt (connectionsTotal m) @ crlf @
    ''total_commands_processed:'' @ FormatInt (commandsTotal m) @ crlf @
    ''rejected_connections:'' @ FormatInt (connectionsRejected m) @ crlf"

definition handleInfo :: "'x HandlerFunc"
  where "handleInfo args = do { m \<leftarrow> asks (\<lambda>se. dMetrics (deps se)); ret (BulkString (infoText m)) }"

definition handleQuit :: "'x HandlerFunc"
  where "handleQuit args = do { updClient (\<lambda>c. c\<lparr>Quit := True\<rparr>); ret OK }"

section \<open>Publish and subscribe\<close>

abbreviation cid :: "('x, nat) cmd" where "cid \<equiv> asks (\<lambda>se. clientId (client se))"

definition hasSubCh :: "('x, bool) cmd" \<comment> \<open>\<^verbatim>\<open>cs.subCh != nil\<close>\<close>
  where "hasSubCh = asks (\<lambda>se. fmlookup (subChs (dPubSub (deps se))) (clientId (client se)) \<noteq> None)"

definition ensureSubscriberState :: "('x, unit) cmd"
  where "ensureSubscriberState = do {
     has \<leftarrow> hasSubCh;
     (if has then ret ()
      else do {
        me \<leftarrow> cid;
        broker (\<lambda>env p. ((), p\<lparr>subChs := fmupd me [] (subChs p)\<rparr>));
        updClient (\<lambda>c. c\<lparr>Subscriptions := {||}, PSubscriptions := {||}\<rparr>)
      })
   }"

definition subCount :: "('x, int) cmd"
  where "subCount = asks (\<lambda>se. int (fcard (Subscriptions (client se)) + fcard (PSubscriptions (client se))))"

definition push :: "string \<Rightarrow> Reply \<Rightarrow> ('x, Reply) cmd" \<comment> \<open>one confirmation\<close>
  where "push kind what = do { n \<leftarrow> subCount; ret (ArraySlice [BulkString kind, what, Integer n]) }"

definition cleanupSubscriptions :: "('x, unit) cmd"
  where "cleanupSubscriptions = do {
     has \<leftarrow> hasSubCh;
     (if \<not> has then ret ()
      else do {
        me \<leftarrow> cid;
        broker (\<lambda>env p. ((), let p' = UnsubscribeAll env me p in p'\<lparr>subChs := fmdrop me (subChs p')\<rparr>))
      })
   }"

definition handleSubscribe :: "'x HandlerFunc"
  where "handleSubscribe args = do {
     ensureSubscriberState;
     rs \<leftarrow> mapC (\<lambda>ch. do {
         updClient (\<lambda>c. c\<lparr>Subscriptions := finsert ch (Subscriptions c)\<rparr>);
         me \<leftarrow> cid;
         broker (\<lambda>env p. ((), Subscribe me ch p));
         push ''subscribe'' (BulkString ch)
       }) (drop 1 args);
     ret (Pushes rs)
   }"

definition handlePSubscribe :: "'x HandlerFunc"
  where "handlePSubscribe args = do {
     ensureSubscriberState;
     rs \<leftarrow> mapC (\<lambda>pat. do {
         updClient (\<lambda>c. c\<lparr>PSubscriptions := finsert pat (PSubscriptions c)\<rparr>);
         me \<leftarrow> cid;
         broker (\<lambda>env p. ((), SubscribePattern me pat p));
         push ''psubscribe'' (BulkString pat)
       }) (drop 1 args);
     ret (Pushes rs)
   }"

definition handleUnsubscribe :: "'x HandlerFunc"
  where "handleUnsubscribe args = do {
     subs \<leftarrow> asks (\<lambda>se. Subscriptions (client se));
     all \<leftarrow> broker (\<lambda>env p. (range_set env subs, p));
     let chans = (if drop 1 args = [] then all else drop 1 args);
     (if chans = [] then do { r \<leftarrow> push ''unsubscribe'' NullBulk; ret (Pushes [r]) }
      else do {
        rs \<leftarrow> mapC (\<lambda>ch. do {
            updClient (\<lambda>c. c\<lparr>Subscriptions := Subscriptions c |-| {|ch|}\<rparr>);
            has \<leftarrow> hasSubCh;
            me \<leftarrow> cid;
            (if has then broker (\<lambda>env p. ((), Unsubscribe me ch p)) else ret ());
            push ''unsubscribe'' (BulkString ch)
          }) chans;
        ret (Pushes rs)
      })
   }"

definition handlePUnsubscribe :: "'x HandlerFunc"
  where "handlePUnsubscribe args = do {
     subs \<leftarrow> asks (\<lambda>se. PSubscriptions (client se));
     all \<leftarrow> broker (\<lambda>env p. (range_set env subs, p));
     let pats = (if drop 1 args = [] then all else drop 1 args);
     (if pats = [] then do { r \<leftarrow> push ''punsubscribe'' NullBulk; ret (Pushes [r]) }
      else do {
        rs \<leftarrow> mapC (\<lambda>pat. do {
            updClient (\<lambda>c. c\<lparr>PSubscriptions := PSubscriptions c |-| {|pat|}\<rparr>);
            has \<leftarrow> hasSubCh;
            me \<leftarrow> cid;
            (if has then broker (\<lambda>env p. ((), UnsubscribePattern me pat p)) else ret ());
            push ''punsubscribe'' (BulkString pat)
          }) pats;
        ret (Pushes rs)
      })
   }"

definition handlePublish :: "'x HandlerFunc"
  where "handlePublish args = do {
     n \<leftarrow> broker (\<lambda>env. Publish env (args ! 1) (bytes_of (args ! 2)));
     ret (Integer n)
   }"

definition messageReply :: "Message \<Rightarrow> Reply" \<comment> \<open>what the forwarder writes for a message\<close>
  where "messageReply msg =
    (if msgPattern msg \<noteq> []
     then ArraySlice [BulkString ''pmessage'', BulkString (msgPattern msg), BulkString (msgChannel msg), Bulk (msgPayload msg)]
     else ArraySlice [BulkString ''message'', BulkString (msgChannel msg), Bulk (msgPayload msg)])"

section \<open>Transactions\<close>

definition handleMulti :: "'x HandlerFunc"
  where "handleMulti args = do {
     inMulti \<leftarrow> asks (\<lambda>se. InMulti (client se));
     (if inMulti then ret (Err ''ERR MULTI calls can not be nested'')
      else do {
        updClient (\<lambda>c. c\<lparr>InMulti := True, MultiError := False, Queued := []\<rparr>);
        ret OK
      })
   }"

definition handleDiscard :: "'x HandlerFunc"
  where "handleDiscard args = do {
     inMulti \<leftarrow> asks (\<lambda>se. InMulti (client se));
     (if \<not> inMulti then ret (Err ''ERR DISCARD without MULTI'')
      else do {
        updClient (\<lambda>c. c\<lparr>InMulti := False, MultiError := False, Queued := [], Watched := fmempty\<rparr>);
        ret OK
      })
   }"

definition currentVersion :: "'x Session \<Rightarrow> string \<Rightarrow> 64 word"
  where "currentVersion se key = WatchVersion (Workspace (client se)) key (dEngine (deps se))"

definition handleWatch :: "'x HandlerFunc"
  where "handleWatch args = do {
     inMulti \<leftarrow> asks (\<lambda>se. InMulti (client se));
     (if inMulti then ret (Err ''ERR WATCH inside MULTI is not allowed'')
      else do {
        mapC (\<lambda>key. do {
            v \<leftarrow> asks (\<lambda>se. currentVersion se key);
            updClient (\<lambda>c. c\<lparr>Watched := fmupd key v (Watched c)\<rparr>)
          }) (drop 1 args);
        ret OK
      })
   }"

definition handleUnwatch :: "'x HandlerFunc"
  where "handleUnwatch args = do { updClient (\<lambda>c. c\<lparr>Watched := fmempty\<rparr>); ret OK }"

definition watchesHold :: "(string, 64 word) fmap \<Rightarrow> 'x Session \<Rightarrow> bool" \<comment> \<open>no version differs\<close>
  where "watchesHold watched se \<longleftrightarrow>
    list_all (\<lambda>key. fmlookup watched key = Some (currentVersion se key)) (fkeys watched)"

definition handleExec :: "'x HandlerFunc \<Rightarrow> 'x HandlerFunc"
  where "handleExec handle args = do {
     c \<leftarrow> asks client;
     (if \<not> InMulti c then ret (Err ''ERR EXEC without MULTI'')
      else do {
        updClient (\<lambda>c. c\<lparr>InMulti := False, Queued := [], MultiError := False, Watched := fmempty\<rparr>);
        (if MultiError c then ret (Err ''EXECABORT Transaction discarded because of previous errors.'')
         else do {
           hold \<leftarrow> asks (watchesHold (Watched c));
           (if \<not> hold then ret NullArray
            else do { replies \<leftarrow> mapC handle (Queued c); ret (ArraySlice replies) })
         })
      })
   }"

end
