(* ===== verification/Isolation.thy ===== *)
theory Isolation
  imports Dispatch
begin

text \<open>
  Which workspaces a connection can reach. \<open>grants a args\<close> are the workspaces that a password among
  the arguments opens; \<open>cleared reg W a c\<close> says that a connection may use only workspaces of \<open>W\<close>:
  its workspace is one of them unless it still has to authenticate, and what it has queued opens
  no other. \<open>guarded\<close> computations keep it and call the engine in \<open>W\<close> only, and so does the
  dispatcher (\<open>dispatch_guarded\<close>). Along the way: what the dispatcher queues is always a known
  command that may be queued, which makes the two-level unrolling of EXEC exact
  (\<open>dispatch_fixpoint\<close>).
\<close>

section \<open>Lookups in the table\<close>

lemma lookup_register:
  "fmlookup (fold Register cs r) n =
    (case find (\<lambda>c. to_upper (cmdName c) = n) (rev cs) of None \<Rightarrow> fmlookup r n | Some c \<Rightarrow> Some c)"
proof (induction cs arbitrary: r)
  case (Cons c cs)
  then show ?case by (auto simp: find_snoc Register_def split: option.splits)
qed simp

lemmas command_lists = RegisterConn_def RegisterGeneric_def RegisterString_def RegisterHash_def
  RegisterList_def RegisterSet_def RegisterZSet_def RegisterPubSub_def RegisterTx_def
  RegisterSemantic_def RegisterToolCache_def RegisterVector_def RegisterMemory_def RegisterAgent_def
  RegisterConsolidate_def RegisterGraph_def

lemmas flag_defs = command_def noAuth_def noQueue_def

lemma names_upper: "list_all (\<lambda>c. to_upper (cmdName c) = cmdName c) (allCommands ext n handle)"
  by (simp add: allCommands_def command_lists flag_defs del: to_upper.simps) code_simp

lemma lookup_all:
  "fmlookup (RegisterAll ext handle) n = find (\<lambda>c. cmdName c = n) (rev (allCommands ext numCommands handle))"
proof -
  have "find (\<lambda>c. to_upper (cmdName c) = n) (rev (allCommands ext numCommands handle)) =
      find (\<lambda>c. cmdName c = n) (rev (allCommands ext numCommands handle))"
    by (rule find_cong) (use names_upper [of ext numCommands handle] in \<open>auto simp: list_all_iff\<close>)
  then show ?thesis by (simp add: RegisterAll_def lookup_register NewRegistry_def split: option.splits)
qed

text \<open>Tables that differ in what EXEC calls and in \<open>ext\<close> have the same names, arities and flags.\<close>

definition same_meta :: "'x Command \<Rightarrow> 'y Command \<Rightarrow> bool"
  where "same_meta c d \<longleftrightarrow> cmdName c = cmdName d \<and> MinArgs c = MinArgs d \<and> MaxArgs c = MaxArgs d \<and>
    AllowedNoAuth c = AllowedNoAuth d \<and> NoQueue c = NoQueue d"

lemma find_meta:
  assumes "list_all2 R cs ds" "\<And>c d. R c d \<Longrightarrow> P c = Q d"
  shows "rel_option R (find P cs) (find Q ds)"
  using assms by (induction rule: list_all2_induct) auto

lemma commands_meta: "list_all2 same_meta (allCommands ext n h) (allCommands ext' n h')"
  by (simp add: allCommands_def command_lists flag_defs same_meta_def)

lemma lookup_meta: "rel_option same_meta (fmlookup (RegisterAll ext h) n) (fmlookup (RegisterAll ext' h') n)"
  unfolding lookup_all
  by (rule find_meta [where R = same_meta]) (auto simp: list_all2_rev1 commands_meta same_meta_def)

definition exec_only :: "'x Command \<Rightarrow> 'x Command \<Rightarrow> bool" \<comment> \<open>equal, or EXEC\<close>
  where "exec_only c d \<longleftrightarrow> cmdName c = cmdName d \<and> (c = d \<or> cmdName c = ''EXEC'')"

lemma commands_exec: "list_all2 exec_only (allCommands ext n h) (allCommands ext n h')"
  by (simp add: allCommands_def command_lists exec_only_def flag_defs)

lemma find_SomeD: "find P xs = Some x \<Longrightarrow> P x \<and> x \<in> set xs"
  by (induction xs) (auto split: if_splits)

lemma lookup_name: "fmlookup (RegisterAll ext h) n = Some c \<Longrightarrow> cmdName c = n \<and> c \<in> set (allCommands ext numCommands h)"
  using find_SomeD [of "\<lambda>c. cmdName c = n"] by (fastforce simp: lookup_all)

lemma lookup_exec:
  assumes "n \<noteq> ''EXEC''"
  shows "fmlookup (RegisterAll ext h) n = fmlookup (RegisterAll ext h') n"
proof -
  have r: "rel_option exec_only (fmlookup (RegisterAll ext h) n) (fmlookup (RegisterAll ext h') n)"
    unfolding lookup_all
    by (rule find_meta [where R = exec_only]) (auto simp: list_all2_rev1 commands_exec exec_only_def)
  show ?thesis
  proof (cases "fmlookup (RegisterAll ext h) n")
    case None
    with r show ?thesis by simp
  next
    case (Some c)
    with r obtain d where d: "fmlookup (RegisterAll ext h') n = Some d" "exec_only c d"
      by (cases "fmlookup (RegisterAll ext h') n") auto
    have "cmdName c \<noteq> ''EXEC''" using lookup_name [OF Some] assms by simp
    with d Some show ?thesis by (simp add: exec_only_def)
  qed
qed

lemma lookup_EXEC: "fmlookup (RegisterAll ext h) ''EXEC'' = Some (noQueue (command ''EXEC'' 1 1 (handleExec h)))"
  by (simp add: lookup_all allCommands_def command_lists flag_defs)

section \<open>The invariant of a connection\<close>

definition grants :: "Authenticator \<Rightarrow> string list \<Rightarrow> string set"
  where "grants a args = {ws. \<exists>pw \<in> set args. WorkspaceForPassword a pw = Some ws}"

definition queueable :: "'x Registry \<Rightarrow> string list \<Rightarrow> bool"
  where "queueable reg q \<longleftrightarrow> q \<noteq> [] \<and>
    (case fmlookup reg (to_upper (hd q)) of
       None \<Rightarrow> False | Some c \<Rightarrow> \<not> NoQueue c \<and> arityOK c (int (length q)))"

lemma queueable_meta: "queueable (RegisterAll ext h) q \<longleftrightarrow> queueable (RegisterAll ext' h') q"
  using lookup_meta [of ext h "to_upper (hd q)" ext' h']
  by (auto simp: queueable_def same_meta_def arityOK_def split: option.splits)

lemma queueable_not_EXEC: "queueable (RegisterAll ext h) q \<Longrightarrow> to_upper (hd q) \<noteq> ''EXEC''"
  by (auto simp: queueable_def lookup_EXEC noQueue_def)

definition cleared :: "(string list \<Rightarrow> bool) \<Rightarrow> 'x Registry \<Rightarrow> string set \<Rightarrow> Authenticator \<Rightarrow> ClientState \<Rightarrow> bool"
  where "cleared E reg W a c \<longleftrightarrow>
    (MultiWorkspace a \<and> \<not> Authenticated c \<or> Workspace c \<in> W) \<and>
    (\<forall>q \<in> set (Queued c). queueable reg q \<and> grants a q \<subseteq> W \<and> E q)"

text \<open>
  Along a computation that began with the dependencies \<open>d0\<close> on connection \<open>i\<close>: the connection is
  cleared for \<open>W\<close> and the commands \<open>E\<close>, the engine was called in \<open>W\<close> only, the broker is well formed and
  has a buffer for no other new connection, and the state of the other stores satisfies \<open>J\<close>.
\<close>

definition conn_inv :: "('x \<Rightarrow> bool) \<Rightarrow> (string list \<Rightarrow> bool) \<Rightarrow> 'x Registry \<Rightarrow> string set \<Rightarrow> 'x Deps \<Rightarrow> nat \<Rightarrow> 'x Session \<Rightarrow> bool"
  where "conn_inv J E reg W d0 i se \<longleftrightarrow>
    cleared E reg W (dAuth d0) (client se) \<and> clientId (client se) = i \<and>
    served W d0 (deps se) \<and> ps_wf (dPubSub (deps se)) \<and>
    fmdom (subChs (dPubSub (deps se))) |\<subseteq>| finsert i (fmdom (subChs (dPubSub d0))) \<and> J (dExt (deps se)) \<and> (\<forall>n. env_ok (dEnv d0 n))"

definition keeps :: "('s \<Rightarrow> bool) \<Rightarrow> ('s, 'a) state \<Rightarrow> bool"
  where "keeps I m \<longleftrightarrow> (\<forall>se. I se \<longrightarrow> I (snd (run_state m se)))"

named_theorems keeps_intros \<comment> \<open>computations that keep an invariant\<close>

lemma keepsI: "(\<And>se. I se \<Longrightarrow> I (snd (run_state m se))) \<Longrightarrow> keeps I m"
  by (simp add: keeps_def)

lemma keepsD: "keeps I m \<Longrightarrow> I se \<Longrightarrow> I (snd (run_state m se))"
  by (simp add: keeps_def)

lemma keeps_ret [keeps_intros]: "keeps I (ret x)"
  by (simp add: keeps_def)

lemma keeps_asks [keeps_intros]: "keeps I (asks f)"
  by (simp add: keeps_def)

lemma keeps_bind [keeps_intros]: "keeps I m \<Longrightarrow> (\<And>x. keeps I (f x)) \<Longrightarrow> keeps I (m \<bind> f)"
  by (simp add: keeps_def split_beta)

lemma keeps_mapC: "(\<And>a. a \<in> set as \<Longrightarrow> keeps I (f a)) \<Longrightarrow> keeps I (mapC f as)"
  by (induction as) (auto intro!: keeps_intros)

lemma keeps_if [keeps_intros]: "keeps I a \<Longrightarrow> keeps I b \<Longrightarrow> keeps I (if c then a else b)"
  by simp

lemma keeps_let [keeps_intros]: "(\<And>x. keeps I (f x)) \<Longrightarrow> keeps I (let x = a in f x)"
  by simp

lemma keeps_updClient:
  "(\<And>se. I se \<Longrightarrow> I (se\<lparr>client := f (client se)\<rparr>)) \<Longrightarrow> keeps I (updClient f)"
  by (simp add: keeps_def)

lemma conn_updClient [keeps_intros]:
  assumes "\<And>c. Workspace (f c) = Workspace c" "\<And>c. Authenticated (f c) = Authenticated c"
    "\<And>c. clientId (f c) = clientId c" "\<And>c. Queued (f c) = Queued c \<or> Queued (f c) = []"
  shows "keeps (conn_inv J E reg W d0 i) (updClient f)"
proof (rule keeps_updClient)
  fix se
  assume "conn_inv J E reg W d0 i se"
  then show "conn_inv J E reg W d0 i (se\<lparr>client := f (client se)\<rparr>)"
    using assms [of "client se"] by (auto simp: conn_inv_def cleared_def)
qed

lemma served_idle:
  assumes "served W d0 d" "dEngine d' = dEngine d" "dCalls d \<le> dCalls d'" "dEnv d' = dEnv d" "dAuth d' = dAuth d"
  shows "served W d0 d'"
proof (rule served_trans [OF assms(1)])
  show "served W d d'"
    unfolding served_def using assms by (auto intro!: exI [of _ "[]"])
qed

lemma conn_broker [keeps_intros]:
  assumes "\<And>env p. ps_wf p \<Longrightarrow> env_ok env \<Longrightarrow> ps_wf (snd (f env p)) \<and> fmdom (subChs (snd (f env p))) = fmdom (subChs p)"
  shows "keeps (conn_inv J E reg W d0 i) (broker f)"
proof (rule keepsI)
  fix se
  assume c: "conn_inv J E reg W d0 i se"
  then have sv: "served W d0 (deps se)" by (simp add: conn_inv_def)
  then have "dEnv (deps se) = dEnv d0" by (simp add: served_def)
  with c assms sv show "conn_inv J E reg W d0 i (snd (run_state (broker f) se))"
    by (auto simp: conn_inv_def run_broker intro!: served_idle [OF sv])
qed

lemma conn_data:
  assumes "dataCmd m" "conn_inv J E reg W d0 i se" "Workspace (client se) \<in> W"
  shows "conn_inv J E reg W d0 i (snd (run_state m se))"
proof -
  let ?se = "snd (run_state m se)"
  have m: "client ?se = client se" "dPubSub (deps ?se) = dPubSub (deps se)" "dExt (deps ?se) = dExt (deps se)"
      "served {Workspace (client se)} (deps se) (deps ?se)"
    using assms(1) by (auto simp: dataCmd_def Let_def)
  then have "served W d0 (deps ?se)"
    using assms(2,3) served_trans [of W d0 "deps se" "deps ?se"] served_mono [OF m(4), of W]
    by (simp add: conn_inv_def)
  with m assms(2) show ?thesis by (simp add: conn_inv_def)
qed

definition extCmd :: "('x, 'a) cmd \<Rightarrow> bool"
  where "extCmd m \<longleftrightarrow>
    (\<forall>se. let se' = snd (run_state m se)
          in client se' = client se \<and> dEngine (deps se') = dEngine (deps se) \<and>
             dAuth (deps se') = dAuth (deps se) \<and> dPubSub (deps se') = dPubSub (deps se) \<and>
             dEnv (deps se') = dEnv (deps se) \<and> dCalls (deps se) \<le> dCalls (deps se'))"

definition ext_keeps :: "('x \<Rightarrow> bool) \<Rightarrow> (string list \<Rightarrow> bool) \<Rightarrow> string set \<Rightarrow> Authenticator \<Rightarrow> (string \<Rightarrow> 'x HandlerFunc) \<Rightarrow> bool"
  where "ext_keeps J E W a ext \<longleftrightarrow>
    (\<forall>args se. args \<noteq> [] \<and> E args \<and> Workspace (client se) \<in> W \<and> dAuth (deps se) = a \<and> (\<forall>n. env_ok (dEnv (deps se) n)) \<and>
         J (dExt (deps se)) \<longrightarrow>
       J (dExt (deps (snd (run_state (ext (to_upper (hd args)) args) se)))))"

lemma conn_ext:
  assumes "extCmd (ext (to_upper (hd args)) args)" "ext_keeps J E W (dAuth d0) ext" "E args" "args \<noteq> []"
    and c: "conn_inv J E reg W d0 i se" "Workspace (client se) \<in> W"
  shows "conn_inv J E reg W d0 i (snd (run_state (ext (to_upper (hd args)) args) se))"
proof -
  have "dAuth (deps se) = dAuth d0" "\<forall>n. env_ok (dEnv (deps se) n)" "J (dExt (deps se))"
    using c by (auto simp: conn_inv_def served_def)
  then have "J (dExt (deps (snd (run_state (ext (to_upper (hd args)) args) se))))"
    using assms(2-4) c(2) by (simp add: ext_keeps_def)
  with assms(1) c(1) show ?thesis by (auto simp: conn_inv_def extCmd_def Let_def intro: served_idle)
qed

section \<open>The handlers of the connection keep it\<close>

lemma conn_simple [keeps_intros]:
  "keeps (conn_inv J E reg W d0 i) (handlePing args)" "keeps (conn_inv J E reg W d0 i) (handleEcho args)"
  "keeps (conn_inv J E reg W d0 i) (handleSelect args)" "keeps (conn_inv J E reg W d0 i) (handleClient args)"
  "keeps (conn_inv J E reg W d0 i) (handleCommand n args)" "keeps (conn_inv J E reg W d0 i) (handleInfo args)"
  "keeps (conn_inv J E reg W d0 i) (handleQuit args)"
  unfolding handlePing_def handleEcho_def handleSelect_def handleClient_def handleCommand_def
    handleInfo_def handleQuit_def
  by (intro keeps_intros; simp)+

lemma conn_tx [keeps_intros]:
  "keeps (conn_inv J E reg W d0 i) (handleMulti args)" "keeps (conn_inv J E reg W d0 i) (handleDiscard args)"
  "keeps (conn_inv J E reg W d0 i) (handleWatch args)" "keeps (conn_inv J E reg W d0 i) (handleUnwatch args)"
  unfolding handleMulti_def handleDiscard_def handleWatch_def handleUnwatch_def
  by (intro keeps_intros keeps_mapC; simp)+

lemma conn_unsubscribe [keeps_intros]:
  "keeps (conn_inv J E reg W d0 i) (handleUnsubscribe args)" "keeps (conn_inv J E reg W d0 i) (handlePUnsubscribe args)"
  "keeps (conn_inv J E reg W d0 i) (handlePublish args)"
  unfolding handleUnsubscribe_def handlePUnsubscribe_def handlePublish_def push_def subCount_def hasSubCh_def
  by (intro keeps_intros keeps_mapC; simp add: ps_wf_ops ps_wf_publish Unsubscribe_def [THEN arg_cong [where f = subChs]]
      UnsubscribePattern_def [THEN arg_cong [where f = subChs]])+

definition subscribed_inv :: "('x \<Rightarrow> bool) \<Rightarrow> (string list \<Rightarrow> bool) \<Rightarrow> 'x Registry \<Rightarrow> string set \<Rightarrow> 'x Deps \<Rightarrow> nat \<Rightarrow> 'x Session \<Rightarrow> bool"
  where "subscribed_inv J E reg W d0 i se \<longleftrightarrow>
    conn_inv J E reg W d0 i se \<and> fmlookup (subChs (dPubSub (deps se))) i \<noteq> None"

lemma ensureSubscriber_inv:
  assumes "conn_inv J E reg W d0 i se"
  shows "subscribed_inv J E reg W d0 i (snd (run_state ensureSubscriberState se))"
proof (cases "fmlookup (subChs (dPubSub (deps se))) i")
  case None
  let ?p = "dPubSub (deps se)"
  have "ps_wf (?p\<lparr>subChs := fmupd i [] (subChs ?p)\<rparr>)"
    using assms by (auto simp: conn_inv_def ps_wf_def subs_wf_def)
  with None assms show ?thesis
    by (auto simp: subscribed_inv_def conn_inv_def cleared_def ensureSubscriberState_def hasSubCh_def run_broker
        intro: served_idle)
next
  case (Some buf)
  with assms show ?thesis
    by (auto simp: subscribed_inv_def conn_inv_def ensureSubscriberState_def hasSubCh_def)
qed

lemma conn_subscribe [keeps_intros]:
  "keeps (conn_inv J E reg W d0 i) (handleSubscribe args)" "keeps (conn_inv J E reg W d0 i) (handlePSubscribe args)"
proof -
  have loop: "keeps (subscribed_inv J E reg W d0 i) (do {
      updClient f; me \<leftarrow> cid; broker (\<lambda>env p. ((), g me p)); push kind what })"
    if f: "\<And>c. Workspace (f c) = Workspace c" "\<And>c. Authenticated (f c) = Authenticated c"
        "\<And>c. clientId (f c) = clientId c" "\<And>c. Queued (f c) = Queued c"
      and g: "\<And>me p. ps_wf p \<Longrightarrow> fmlookup (subChs p) me \<noteq> None \<Longrightarrow> ps_wf (g me p)"
        "\<And>me p. subChs (g me p) = subChs p" for f g kind what
  proof (rule keepsI)
    fix se
    assume "subscribed_inv J E reg W d0 i se"
    with f g show "subscribed_inv J E reg W d0 i (snd (run_state (do {
        updClient f; me \<leftarrow> cid; broker (\<lambda>env p. ((), g me p)); push kind what }) se))"
      by (auto simp: subscribed_inv_def conn_inv_def cleared_def run_broker push_def subCount_def intro: served_idle)
  qed
  have after: "keeps (conn_inv J E reg W d0 i) (do { ensureSubscriberState; rs \<leftarrow> m; ret (Pushes rs) })"
    if "keeps (subscribed_inv J E reg W d0 i) m" for m
  proof (rule keepsI)
    fix se
    assume "conn_inv J E reg W d0 i se"
    then have "subscribed_inv J E reg W d0 i (snd (run_state m (snd (run_state ensureSubscriberState se))))"
      by (intro keepsD [OF that] ensureSubscriber_inv)
    then show "conn_inv J E reg W d0 i (snd (run_state (do { ensureSubscriberState; rs \<leftarrow> m; ret (Pushes rs) }) se))"
      by (simp add: split_beta subscribed_inv_def)
  qed
  show "keeps (conn_inv J E reg W d0 i) (handleSubscribe args)" "keeps (conn_inv J E reg W d0 i) (handlePSubscribe args)"
    unfolding handleSubscribe_def handlePSubscribe_def
    by (rule after, rule keeps_mapC, rule loop;
        simp add: ps_wf_ops(2,3) Subscribe_def [THEN arg_cong [where f = subChs]]
          SubscribePattern_def [THEN arg_cong [where f = subChs]])+
qed

lemma grants_mono: "set args \<subseteq> set args' \<Longrightarrow> grants a args \<subseteq> grants a args'"
  by (auto simp: grants_def)

lemma conn_login:
  assumes "conn_inv J E reg W d0 i se"
  shows "ws \<in> W \<Longrightarrow> conn_inv J E reg W d0 i (se\<lparr>client := (client se)\<lparr>Authenticated := True, Workspace := ws\<rparr>\<rparr>)"
    and "\<not> MultiWorkspace (dAuth d0) \<Longrightarrow> conn_inv J E reg W d0 i (se\<lparr>client := (client se)\<lparr>Authenticated := True\<rparr>\<rparr>)"
    and "conn_inv J E reg W d0 i (se\<lparr>client := (client se)\<lparr>Name := nm\<rparr>\<rparr>)"
  using assms by (auto simp: conn_inv_def cleared_def)

lemma conn_helloLoop:
  "grants (dAuth d0) args \<subseteq> W \<Longrightarrow> conn_inv J E reg W d0 i se \<Longrightarrow> conn_inv J E reg W d0 i (snd (run_state (helloLoop args) se))"
proof (induction args arbitrary: se rule: length_induct)
  case (1 args)
  have a: "dAuth (deps se) = dAuth d0" using 1(3) by (simp add: conn_inv_def served_def)
  have IH: "conn_inv J E reg W d0 i (snd (run_state (helloLoop r) se'))"
    if "length r < length args" "set r \<subseteq> set args" "conn_inv J E reg W d0 i se'" for r se'
    using 1(1,2) that grants_mono [OF that(2)] by blast
  show ?case
  proof (cases args)
    case (Cons opt rest)
    show ?thesis
    proof (cases "to_upper opt = ''AUTH'' \<and> (\<exists>u pw r. rest = u # pw # r)")
      case True
      then obtain u pw r where rest: "rest = u # pw # r" and auth: "to_upper opt = ''AUTH''" by blast
      have ws: "ws \<in> W" if "WorkspaceForPassword (dAuth d0) pw = Some ws" for ws
        using that 1(2) rest Cons by (auto simp: grants_def)
      have r: "length r < length args" "set r \<subseteq> set args" using Cons rest by auto
      show ?thesis
        using 1(3) a auth ws Cons rest
        by (auto split: option.splits intro!: IH [OF r] conn_login)
    next
      case False
      have "conn_inv J E reg W d0 i (snd (run_state (helloLoop r) (se\<lparr>client := (client se)\<lparr>Name := nm\<rparr>\<rparr>)))"
        if "rest = nm # r" for nm r
        by (rule IH) (use that Cons 1(3) in \<open>auto intro: conn_login\<close>)
      with False Cons 1(3) show ?thesis by (auto split: list.splits)
    qed
  qed (use 1(3) in simp)
qed

lemma conn_hello:
  assumes "grants (dAuth d0) args \<subseteq> W"
  shows "keeps (conn_inv J E reg W d0 i) (handleHello args)"
proof -
  have "keeps (conn_inv J E reg W d0 i) (helloLoop (drop n args))" for n
    by (rule keepsI, rule conn_helloLoop) (use assms grants_mono [of "drop n args" args] set_drop_subset in fastforce)+
  then show ?thesis unfolding handleHello_def by (intro keeps_intros)
qed

lemma conn_auth:
  assumes "grants (dAuth d0) args \<subseteq> W" "length args = 2 \<or> length args = 3"
  shows "keeps (conn_inv J E reg W d0 i) (handleAuth args)"
proof (rule keepsI)
  fix se
  assume c: "conn_inv J E reg W d0 i se"
  then have a: "dAuth (deps se) = dAuth d0" by (simp add: conn_inv_def served_def)
  define pw where "pw = (if length args = 2 then args ! 1 else if length args = 3 then args ! 2 else [])"
  have "pw \<in> set args" using assms(2) by (auto simp: pw_def)
  then have "ws \<in> W" if "WorkspaceForPassword (dAuth d0) pw = Some ws" for ws
    using that assms(1) by (auto simp: grants_def)
  then show "conn_inv J E reg W d0 i (snd (run_state (handleAuth args) se))"
    unfolding handleAuth_def pw_def [symmetric] Let_def
    using c a by (auto split: option.splits intro: conn_login)
qed

lemma conn_exec:
  assumes "\<And>q. queueable reg q \<Longrightarrow> grants (dAuth d0) q \<subseteq> W \<Longrightarrow> E q \<Longrightarrow> keeps (conn_inv J E reg W d0 i) (handle q)"
  shows "keeps (conn_inv J E reg W d0 i) (handleExec handle args)"
proof (rule keepsI)
  fix se
  assume c: "conn_inv J E reg W d0 i se"
  let ?c = "client se"
  let ?se = "se\<lparr>client := ?c\<lparr>InMulti := False, Queued := [], MultiError := False, Watched := fmempty\<rparr>\<rparr>"
  have c1: "conn_inv J E reg W d0 i ?se" using c by (simp add: conn_inv_def cleared_def)
  have "queueable reg q \<and> grants (dAuth d0) q \<subseteq> W \<and> E q" if "q \<in> set (Queued ?c)" for q
    using c that by (auto simp: conn_inv_def cleared_def)
  then have "conn_inv J E reg W d0 i (snd (run_state (mapC handle (Queued ?c)) ?se))"
    by (intro keepsD [where I = "conn_inv J E reg W d0 i", OF _ c1] keeps_mapC assms) auto
  with c c1 show "conn_inv J E reg W d0 i (snd (run_state (handleExec handle args) se))"
    by (simp add: handleExec_def split_beta)
qed

section \<open>The dispatcher keeps it\<close>

definition admits :: "('x \<Rightarrow> bool) \<Rightarrow> (string list \<Rightarrow> bool) \<Rightarrow> 'x Registry \<Rightarrow> string set \<Rightarrow> 'x Deps \<Rightarrow> nat \<Rightarrow> string list \<Rightarrow> 'x Command \<Rightarrow> bool"
  where "admits J E reg W d0 i args c \<longleftrightarrow>
    (\<not> AllowedNoAuth c \<and>
       (\<forall>se. conn_inv J E reg W d0 i se \<and> Workspace (client se) \<in> W \<longrightarrow>
          conn_inv J E reg W d0 i (snd (run_state (Handler c args) se)))) \<or>
    (arityOK c (int (length args)) \<longrightarrow> keeps (conn_inv J E reg W d0 i) (Handler c args))"

lemma Handle_guarded:
  assumes g: "grants (dAuth d0) args \<subseteq> W" "E args"
    and cmd: "\<And>c. args \<noteq> [] \<Longrightarrow> fmlookup r (to_upper (hd args)) = Some c \<Longrightarrow> admits J E reg W d0 i args c"
    and q: "\<And>q. queueable r q = queueable reg q"
  shows "keeps (conn_inv J E reg W d0 i) (Handle r args)"
proof (rule keepsI)
  fix se
  assume c: "conn_inv J E reg W d0 i se"
  then have a: "dAuth (deps se) = dAuth d0" by (simp add: conn_inv_def served_def)
  show "conn_inv J E reg W d0 i (snd (run_state (Handle r args) se))"
  proof (cases "args = [] \<or> fmlookup r (to_upper (hd args)) = None")
    case True
    with c show ?thesis
      by (cases "InMulti (client se)") (auto simp: Handle_def conn_inv_def cleared_def)
  next
    case False
    then obtain cmd' where l: "args \<noteq> []" "fmlookup r (to_upper (hd args)) = Some cmd'" by auto
    have flag: "conn_inv J E reg W d0 i (se\<lparr>client := (client se)\<lparr>MultiError := True\<rparr>\<rparr>)"
      using c by (simp add: conn_inv_def cleared_def)
    have enq: "conn_inv J E reg W d0 i (se\<lparr>client := (client se)\<lparr>Queued := Queued (client se) @ [args]\<rparr>\<rparr>)"
      if "\<not> NoQueue cmd'" "arityOK cmd' (int (length args))"
      using that c g l q [of args] by (auto simp: conn_inv_def cleared_def queueable_def)
    have run: "conn_inv J E reg W d0 i (snd (run_state (Handler cmd' args) se))"
      if "\<not> (Required (dAuth d0) \<and> \<not> Authenticated (client se) \<and> \<not> AllowedNoAuth cmd')" "arityOK cmd' (int (length args))"
    proof -
      have "Workspace (client se) \<in> W" if "\<not> AllowedNoAuth cmd'"
        using that \<open>\<not> (Required _ \<and> _)\<close> c auth.multi_required [of "dAuth d0"] by (auto simp: conn_inv_def cleared_def)
      with cmd [OF l] that c show ?thesis unfolding admits_def keeps_def by blast
    qed
    show ?thesis using l a flag enq run c by (simp add: Handle_def)
  qed
qed

lemma admits_simps:
  "dataCmd (h args) \<Longrightarrow> admits J E reg W d0 i args (command n lo hi h)"
  "keeps (conn_inv J E reg W d0 i) (h args) \<Longrightarrow> admits J E reg W d0 i args (command n lo hi h)"
  "keeps (conn_inv J E reg W d0 i) (h args) \<Longrightarrow> admits J E reg W d0 i args (noAuth (command n lo hi h))"
  "keeps (conn_inv J E reg W d0 i) (h args) \<Longrightarrow> admits J E reg W d0 i args (noQueue (command n lo hi h))"
  "keeps (conn_inv J E reg W d0 i) (h args) \<Longrightarrow> admits J E reg W d0 i args (noAuth (noQueue (command n lo hi h)))"
  using conn_data [of "h args" J E reg W d0 i] by (auto simp: admits_def flag_defs)

lemma cmdName_flags: "cmdName (command n lo hi h) = n" "cmdName (noAuth c) = cmdName c" "cmdName (noQueue c) = cmdName c"
  by (simp_all add: flag_defs)

lemma admits_AUTH:
  "grants (dAuth d0) args \<subseteq> W \<Longrightarrow> admits J E reg W d0 i args (noAuth (command n 2 3 handleAuth))"
proof -
  assume g: "grants (dAuth d0) args \<subseteq> W"
  have "length args = 2 \<or> length args = 3" if "arityOK (noAuth (command n 2 3 handleAuth)) (int (length args))"
    using that by (auto simp: arityOK_def flag_defs split: if_splits)
  then show ?thesis using conn_auth [OF g] by (auto simp: admits_def flag_defs)
qed

lemma admits_ext:
  assumes "extCmd (ext n args)" "ext_keeps J E W (dAuth d0) ext" "E args" "args \<noteq> []" "to_upper (hd args) = n"
  shows "admits J E reg W d0 i args (command n lo hi (ext n))"
  using assms conn_ext [of ext args J E W d0 reg i] by (auto simp: admits_def flag_defs)

lemma commands_admitted:
  assumes "grants (dAuth d0) args \<subseteq> W" "\<And>n. extCmd (ext n args)" "ext_keeps J E W (dAuth d0) ext" "E args" "args \<noteq> []"
    and "keeps (conn_inv J E reg W d0 i) (handleExec handle args)"
  shows "list_all (\<lambda>c. to_upper (hd args) = cmdName c \<longrightarrow> admits J E reg W d0 i args c) (allCommands ext n handle)"
  by (simp add: allCommands_def command_lists admits_simps generic_data string_data hash_data list_data
      set_data zset_data conn_simple conn_tx conn_subscribe conn_unsubscribe cmdName_flags
      admits_AUTH [OF assms(1)] conn_hello [OF assms(1)] admits_ext [where E = E, OF assms(2-5)] assms(6))

definition ext_ok :: "(string \<Rightarrow> 'x HandlerFunc) \<Rightarrow> bool"
  where "ext_ok ext \<longleftrightarrow> (\<forall>name args. extCmd (ext name args))"

lemma Handle_all_guarded:
  assumes "grants (dAuth d0) args \<subseteq> W" "E args" "ext_ok ext" "ext_keeps J E W (dAuth d0) ext"
    and "keeps (conn_inv J E (RegisterAll ext h) W d0 i) (handleExec handle args)"
  shows "keeps (conn_inv J E (RegisterAll ext h) W d0 i) (Handle (RegisterAll ext handle) args)"
proof (rule Handle_guarded [where E = E, OF assms(1,2)])
  fix c
  assume ne: "args \<noteq> []" and "fmlookup (RegisterAll ext handle) (to_upper (hd args)) = Some c"
  from this(2) have "c \<in> set (allCommands ext numCommands handle)" "to_upper (hd args) = cmdName c"
    by (blast dest: lookup_name, metis lookup_name)
  with commands_admitted [where E = E, OF assms(1) _ assms(4,2) ne assms(5), of numCommands] assms(3)
  show "admits J E (RegisterAll ext h) W d0 i args c" by (simp add: list_all_iff ext_ok_def)
qed (rule queueable_meta)

text \<open>Inside EXEC only queueable commands run, so the inner EXEC is never reached.\<close>

lemma inner_guarded:
  assumes "grants (dAuth d0) args \<subseteq> W" "E args" "ext_ok ext" "ext_keeps J E W (dAuth d0) ext"
  shows "keeps (conn_inv J E (RegisterAll ext h) W d0 i) (dispatchInner ext args)"
  unfolding dispatchInner_def
  by (rule Handle_all_guarded [where E = E, OF assms], rule conn_exec, rule keeps_ret)

lemma dispatch_guarded:
  assumes "grants (dAuth d0) args \<subseteq> W" "E args" "ext_ok ext" "ext_keeps J E W (dAuth d0) ext"
  shows "keeps (conn_inv J E (RegisterAll ext h) W d0 i) (dispatch ext args)"
  unfolding dispatch_def
  by (rule Handle_all_guarded [where E = E, OF assms], rule conn_exec, rule inner_guarded [where E = E, OF _ _ assms(3,4)])

section \<open>The unrolling of EXEC is exact\<close>

lemma Handle_not_EXEC:
  "to_upper (hd args) \<noteq> ''EXEC'' \<Longrightarrow> Handle (RegisterAll ext h) args = Handle (RegisterAll ext h') args"
  using lookup_exec [of "to_upper (hd args)" ext h h'] by (simp add: Handle_def)

lemma mapC_cong: "(\<And>a. a \<in> set as \<Longrightarrow> f a = g a) \<Longrightarrow> mapC f as = mapC g as"
  by (induction as) auto

text \<open>
  The recursive equation of the source: EXEC hands the queued commands to the very dispatcher it
  was called from.
\<close>

lemma dispatch_fixpoint:
  assumes "\<forall>q \<in> set (Queued (client se)). queueable (RegisterAll ext h) q"
  shows "run_state (dispatch ext args) se = run_state (Handle (RegisterAll ext (dispatch ext)) args) se"
proof (cases "to_upper (hd args) = ''EXEC''")
  case False
  then show ?thesis by (metis dispatch_def Handle_not_EXEC)
next
  case True
  have "mapC (dispatchInner ext) (Queued (client se)) = mapC (dispatch ext) (Queued (client se))"
    by (rule mapC_cong) (use assms queueable_not_EXEC in \<open>auto simp: dispatch_def dispatchInner_def intro!: Handle_not_EXEC\<close>)
  then have "run_state (handleExec (dispatchInner ext) args) se = run_state (handleExec (dispatch ext) args) se"
    by (simp add: handleExec_def)
  with True show ?thesis
    by (simp add: dispatch_def [of ext] Handle_def lookup_EXEC flag_defs arityOK_def)
qed

end
