(* ===== verification/Connection.thy ===== *)
theory Connection
  imports Isolation
begin

text \<open>
  One connection from its first byte to its last, \<^verbatim>\<open>internal/server/resp/conn.go\<close>. The input is
  what the client will have sent when it stops sending; \<open>connLoop\<close> reads a command, dispatches it,
  records its latency, writes the reply, and stops at QUIT, at the end of the input, at a protocol
  error, or when the reader panics on a length that cannot be allocated (nothing recovers from it:
  the process dies). Flushing decides when bytes leave, not which bytes.

  \<open>HandleConn\<close> runs the loop between the bookkeeping of \<^verbatim>\<open>ConnectionOpened\<close> and the deferred
  clean-up.
\<close>

section \<open>Commands consume input\<close>

lemma splitLine_shorter: "splitLine inp = Some (l, rest) \<Longrightarrow> length rest < length inp"
  by (induction inp arbitrary: l) (fastforce split: if_splits)+

lemma readLine_shorter: "readLine inp = Some (l, rest) \<Longrightarrow> length rest < length inp"
  by (auto simp: readLine_def dest: splitLine_shorter)

lemma readBulks_shorter: "readBulks n inp args = Command args' rest \<Longrightarrow> length rest \<le> length inp"
proof (induction n inp args rule: readBulks.induct)
  case (2 n inp args)
  from 2(3) obtain hdr r where l: "readLine inp = Some (hdr, r)" by (auto split: option.splits)
  note sh = readLine_shorter [OF l]
  from 2(3) l obtain blen where h: "\<not> (length hdr < 1 \<or> hd hdr \<noteq> CHR ''$'')" "Atoi (tl hdr) = Some blen"
    by (auto split: if_splits option.splits)
  show ?case
    using 2(1) [OF l refl h] 2(2) [OF l refl h] 2(3) l h sh
    by (auto split: if_splits)
qed simp

lemma readArrayCommand_shorter: "readArrayCommand inp = Command args rest \<Longrightarrow> length rest < length inp"
  unfolding readArrayCommand_def
  by (fastforce dest: readLine_shorter readBulks_shorter split: if_splits option.splits prod.splits)

lemma readInlineCommand_shorter: "readInlineCommand inp = Command args rest \<Longrightarrow> length rest < length inp"
  unfolding readInlineCommand_def
  by (fastforce dest: readLine_shorter split: if_splits option.splits prod.splits)

lemma ReadCommand_shorter: "ReadCommand inp = Command args rest \<Longrightarrow> length rest < length inp"
  by (auto simp: ReadCommand_def dest: readArrayCommand_shorter readInlineCommand_shorter
      split: list.splits if_splits)

section \<open>The connection loop\<close>

datatype conn_end = Closed | Disconnected | BadProtocol | Crashed

definition clock :: "('x, instant) cmd" \<comment> \<open>\<^verbatim>\<open>time.Now()\<close>\<close>
  where "clock = State (\<lambda>se. (now (dEnv (deps se) (dCalls (deps se))),
    se\<lparr>deps := (deps se)\<lparr>dCalls := Suc (dCalls (deps se))\<rparr>\<rparr>))"

definition metric :: "(Metrics \<Rightarrow> Metrics) \<Rightarrow> ('x, unit) cmd"
  where "metric f = State (\<lambda>se. ((), se\<lparr>deps := (deps se)\<lparr>dMetrics := f (dMetrics (deps se))\<rparr>\<rparr>))"

definition serveCommand :: "(string \<Rightarrow> 'x HandlerFunc) \<Rightarrow> string list \<Rightarrow> ('x, Reply) cmd" \<comment> \<open>one turn of the loop\<close>
  where "serveCommand ext args = do {
     start \<leftarrow> clock;
     reply \<leftarrow> dispatch ext args;
     stop \<leftarrow> clock;
     metric (RecordCommandLatency (commandFamily (hd args)) (time_sub stop start));
     metric CommandExecuted;
     ret reply
   }"

function connLoop :: "(string \<Rightarrow> 'x HandlerFunc) \<Rightarrow> string \<Rightarrow> ('x, string \<times> conn_end) cmd" where
  "connLoop ext inp =
    (case ReadCommand inp of
       Command args rest \<Rightarrow>
         if args = [] then connLoop ext rest
         else do {
           reply \<leftarrow> serveCommand ext args;
           quit \<leftarrow> asks (\<lambda>se. Quit (client se));
           (if quit then ret (encode reply, Closed)
            else do {
              (out, e) \<leftarrow> connLoop ext rest;
              ret (encode reply @ out, e)
            })
         }
     | ReadError \<Rightarrow> ret ([], Disconnected)
     | ProtocolError \<Rightarrow> ret ([], BadProtocol)
     | Panic \<Rightarrow> ret ([], Crashed))"
  by pat_completeness auto
termination
  by (relation "measure (\<lambda>(ext, inp). length inp)") (auto dest: ReadCommand_shorter)

declare connLoop.simps [simp del]

definition HandleConn :: "(string \<Rightarrow> 'x HandlerFunc) \<Rightarrow> string \<Rightarrow> ('x, string \<times> conn_end) cmd"
  where "HandleConn ext inp = do {
     metric ConnectionOpened;
     r \<leftarrow> connLoop ext inp;
     cleanupSubscriptions;
     metric ConnectionClosed;
     ret r
   }"

lemma run_clock [simp]: "run_state clock se = (now (dEnv (deps se) (dCalls (deps se))),
    se\<lparr>deps := (deps se)\<lparr>dCalls := Suc (dCalls (deps se))\<rparr>\<rparr>)"
  by (simp add: clock_def)

lemma run_metric [simp]: "run_state (metric f) se = ((), se\<lparr>deps := (deps se)\<lparr>dMetrics := f (dMetrics (deps se))\<rparr>\<rparr>)"
  by (simp add: metric_def)

section \<open>Pipelining\<close>

text \<open>
  The reference: commands handed to the dispatcher one after the other until one sets \<open>Quit\<close>.
\<close>

fun serveAll :: "(string \<Rightarrow> 'x HandlerFunc) \<Rightarrow> string list list \<Rightarrow> ('x, Reply list \<times> bool) cmd" where
  "serveAll ext [] = ret ([], False)"
| "serveAll ext (args # cmds) = do {
     reply \<leftarrow> serveCommand ext args;
     quit \<leftarrow> asks (\<lambda>se. Quit (client se));
     (if quit then ret ([reply], True)
      else do { (rs, q) \<leftarrow> serveAll ext cmds; ret (reply # rs, q) })
   }"

definition sendable :: "string list \<Rightarrow> bool"
  where "sendable args \<longleftrightarrow> args \<noteq> [] \<and> list_all arg_ok args \<and> 16 * int (length args) \<le> 281474976710656"

lemma connLoop_pipeline:
  assumes "\<forall>args \<in> set cmds. sendable args"
  shows "run_state (connLoop ext (concat (map encodeCommand cmds))) se =
    (case run_state (serveAll ext cmds) se of
       ((rs, quit), se') \<Rightarrow> ((concat (map encode rs), if quit then Closed else Disconnected), se'))"
  using assms
proof (induction cmds arbitrary: se)
  case Nil
  show ?case by (subst connLoop.simps) (simp add: ReadCommand_def)
next
  case (Cons args cmds)
  have "ReadCommand (encodeCommand args @ concat (map encodeCommand cmds)) = Command args (concat (map encodeCommand cmds))"
    by (rule ReadCommand_encodeCommand) (use Cons.prems in \<open>auto simp: sendable_def\<close>)
  moreover have "args \<noteq> []" using Cons.prems by (simp add: sendable_def)
  ultimately show ?case
    using Cons by (subst connLoop.simps) (simp add: split_beta)
qed

section \<open>Connections keep the invariant\<close>

lemma keeps_metric [keeps_intros]: "keeps (conn_inv J E reg W d0 i) (metric f)"
proof (rule keepsI)
  fix se
  assume "conn_inv J E reg W d0 i se"
  then show "conn_inv J E reg W d0 i (snd (run_state (metric f) se))"
    by (auto simp: conn_inv_def intro: served_idle)
qed

lemma keeps_clock [keeps_intros]: "keeps (conn_inv J E reg W d0 i) clock"
proof (rule keepsI)
  fix se
  assume "conn_inv J E reg W d0 i se"
  then show "conn_inv J E reg W d0 i (snd (run_state clock se))"
    by (auto simp: conn_inv_def intro: served_idle)
qed

lemma serveCommand_guarded:
  assumes "grants (dAuth d0) args \<subseteq> W" "E args" "ext_ok ext" "ext_keeps J E W (dAuth d0) ext"
  shows "keeps (conn_inv J E (RegisterAll ext h) W d0 i) (serveCommand ext args)"
  unfolding serveCommand_def by (intro keeps_intros dispatch_guarded [where E = E, OF assms])

text \<open>The passwords that a client sent, in any command of its input.\<close>

function commandsOf :: "string \<Rightarrow> string list list" where
  "commandsOf inp = (case ReadCommand inp of Command args rest \<Rightarrow> args # commandsOf rest | _ \<Rightarrow> [])"
  by pat_completeness auto
termination
  by (relation "measure length") (auto dest: ReadCommand_shorter)

declare commandsOf.simps [simp del]

definition presented :: "Authenticator \<Rightarrow> string \<Rightarrow> string set"
  where "presented a inp = \<Union> (grants a ` set (commandsOf inp))"

lemma connLoop_guarded:
  assumes "presented (dAuth d0) inp \<subseteq> W" "\<forall>args \<in> set (commandsOf inp). E args" "ext_ok ext"
    and "ext_keeps J E W (dAuth d0) ext"
  shows "keeps (conn_inv J E (RegisterAll ext h) W d0 i) (connLoop ext inp)"
  using assms(1,2)
proof (induction inp rule: length_induct)
  case (1 inp)
  show ?case
  proof (cases "ReadCommand inp")
    case (Command args rest)
    have cs: "commandsOf inp = args # commandsOf rest" using Command by (subst commandsOf.simps) simp
    have "keeps (conn_inv J E (RegisterAll ext h) W d0 i) (connLoop ext rest)"
      using 1 cs ReadCommand_shorter [OF Command] by (auto simp: presented_def)
    moreover have "keeps (conn_inv J E (RegisterAll ext h) W d0 i) (serveCommand ext args)"
      by (rule serveCommand_guarded [where E = E, OF _ _ assms(3,4)]) (use 1 cs in \<open>auto simp: presented_def\<close>)
    ultimately have "keeps (conn_inv J E (RegisterAll ext h) W d0 i) (do {
           reply \<leftarrow> serveCommand ext args;
           quit \<leftarrow> asks (\<lambda>se. Quit (client se));
           (if quit then ret (encode reply, Closed)
            else do { (out, e) \<leftarrow> connLoop ext rest; ret (encode reply @ out, e) })
         })" "keeps (conn_inv J E (RegisterAll ext h) W d0 i) (connLoop ext rest)"
      by (auto simp: keeps_def split_beta)
    then show ?thesis using Command by (subst connLoop.simps) simp
  qed (subst connLoop.simps, simp add: keeps_ret)+
qed

lemma subs_wf_drop:
  assumes "subs_wf chs m" "\<And>ch. cs |\<notin>| subscribersOf ch m"
  shows "subs_wf (fmdrop cs chs) m"
  unfolding subs_wf_def
proof (intro allI impI conjI)
  fix ch subs c
  assume look: "fmlookup m ch = Some subs"
  show "subs \<noteq> {||}" using assms(1) look by (auto simp: subs_wf_def)
  assume c: "c |\<in>| subs"
  have "c \<noteq> cs" using assms(2) [of ch] look c by (auto simp: subscribersOf_def)
  moreover have "fmlookup chs c \<noteq> None" using assms(1) look c by (auto simp: subs_wf_def)
  ultimately show "fmlookup (fmdrop cs chs) c \<noteq> None" by simp
qed

lemma ps_wf_leave:
  assumes "ps_wf p" "env_ok env"
  shows "ps_wf ((UnsubscribeAll env cs p)\<lparr>subChs := fmdrop cs (subChs (UnsubscribeAll env cs p))\<rparr>)"
proof -
  let ?q = "UnsubscribeAll env cs p"
  have wf: "ps_wf ?q" using assms(1) by (rule ps_wf_ops)
  have "subs_wf (fmdrop cs (subChs ?q)) (channels ?q)" "subs_wf (fmdrop cs (subChs ?q)) (patterns ?q)"
    using wf by (auto intro!: subs_wf_drop simp: ps_wf_def UnsubscribeAll_subscribers [OF assms(2)])
  then show ?thesis using wf by (simp add: ps_wf_def)
qed

lemma keeps_cleanup [keeps_intros]: "keeps (conn_inv J E reg W d0 i) cleanupSubscriptions"
proof (rule keepsI)
  fix se
  assume c: "conn_inv J E reg W d0 i se"
  have env: "env_ok (dEnv (deps se) (dCalls (deps se)))" using c by (simp add: conn_inv_def served_def)
  have "ps_wf (dPubSub (deps se))" using c by (simp add: conn_inv_def)
  moreover have "subChs (UnsubscribeAll env' cs p) = subChs p" for env' cs p by (simp add: UnsubscribeAll_def)
  ultimately show "conn_inv J E reg W d0 i (snd (run_state cleanupSubscriptions se))"
    using ps_wf_leave [OF _ env, of "dPubSub (deps se)"] c by (auto simp: conn_inv_def cleanupSubscriptions_def hasSubCh_def run_broker Let_def intro: served_idle)
qed

lemma HandleConn_guarded:
  assumes "presented (dAuth d0) inp \<subseteq> W" "\<forall>args \<in> set (commandsOf inp). E args" "ext_ok ext"
    and "ext_keeps J E W (dAuth d0) ext"
  shows "keeps (conn_inv J E (RegisterAll ext h) W d0 i) (HandleConn ext inp)"
  unfolding HandleConn_def
  by (intro keeps_intros connLoop_guarded [OF assms])

end
