(* ===== verification/Reaper.thy ===== *)
theory Reaper
  imports Refinement
begin

text \<open>
  Active expiry, \<^verbatim>\<open>internal/storage/ttl/reaper.go\<close>. The reaper knows its store only through
  the interface \<^verbatim>\<open>Sweepable\<close>: here the two functions that \<open>tick\<close> takes, and the locale
  \<open>sweepable\<close> with what a sweep promises. The store's own operations are interpreted against it.
  The background goroutine is a sequence of ticks; every sweep of a shard reads the clock anew.
\<close>

section \<open>The reaper\<close>

record Reaper =
  interval :: duration
  sampleSize :: int

definition newReaper :: "duration \<Rightarrow> int \<Rightarrow> Reaper"
  where "newReaper itv n =
    \<lparr>interval = (if itv \<le> 0 then 100 * Millisecond else itv), sampleSize = (if n \<le> 0 then 20 else n)\<rparr>"

definition tick :: "('s \<Rightarrow> int) \<Rightarrow> (goenv \<Rightarrow> nat \<Rightarrow> int \<Rightarrow> 's \<Rightarrow> int \<times> 's) \<Rightarrow> Reaper \<Rightarrow> (nat \<Rightarrow> goenv) \<Rightarrow> 's \<Rightarrow> 's"
  where "tick numShards sweepShard r envs st =
    fold (\<lambda>i st. snd (sweepShard (envs i) i (sampleSize r) st)) [0..<nat (numShards st)] st"

definition reaperRun :: "('s \<Rightarrow> int) \<Rightarrow> (goenv \<Rightarrow> nat \<Rightarrow> int \<Rightarrow> 's \<Rightarrow> int \<times> 's) \<Rightarrow> Reaper
    \<Rightarrow> (nat \<Rightarrow> goenv) list \<Rightarrow> 's \<Rightarrow> 's" \<comment> \<open>the ticks between start and cancellation\<close>
  where "reaperRun numShards sweepShard r ticks st = fold (tick numShards sweepShard r) ticks st"

section \<open>The interface\<close>

locale sweepable =
  fixes numShards :: "'s \<Rightarrow> int"
    and sweepShard :: "goenv \<Rightarrow> nat \<Rightarrow> int \<Rightarrow> 's \<Rightarrow> int \<times> 's"
    and inv :: "'s \<Rightarrow> bool"
    and visible :: "instant \<Rightarrow> 's \<Rightarrow> 'v" \<comment> \<open>what clients can see\<close>
    and indexed :: "'s \<Rightarrow> nat \<Rightarrow> string fset" \<comment> \<open>the keys with an expiry of a shard\<close>
    and lingering :: "instant \<Rightarrow> 's \<Rightarrow> nat \<Rightarrow> string set" \<comment> \<open>the expired keys a shard still holds\<close>
  assumes sweep_inv: "inv st \<Longrightarrow> env_ok env \<Longrightarrow> int i < numShards st \<Longrightarrow> inv (snd (sweepShard env i n st))"
    and sweep_num: "inv st \<Longrightarrow> env_ok env \<Longrightarrow> int i < numShards st \<Longrightarrow>
      numShards (snd (sweepShard env i n st)) = numShards st"
    and sweep_visible: "inv st \<Longrightarrow> env_ok env \<Longrightarrow> int i < numShards st \<Longrightarrow> now env \<le> t \<Longrightarrow>
      visible t (snd (sweepShard env i n st)) = visible t st"
    and sweep_complete: "inv st \<Longrightarrow> env_ok env \<Longrightarrow> int i < numShards st \<Longrightarrow> int (fcard (indexed st i)) \<le> n \<Longrightarrow>
      lingering (now env) (snd (sweepShard env i n st)) i = {}"
    and sweep_other: "inv st \<Longrightarrow> env_ok env \<Longrightarrow> int i < numShards st \<Longrightarrow> j \<noteq> i \<Longrightarrow>
      lingering t (snd (sweepShard env i n st)) j = lingering t st j \<and>
      indexed (snd (sweepShard env i n st)) j = indexed st j"
begin

lemma sweeps:
  fixes n :: int
  assumes "inv st" "\<forall>i. env_ok (envs i)" "int m \<le> numShards st"
  defines "st' \<equiv> fold (\<lambda>i st. snd (sweepShard (envs i) i n st)) [0..<m] st"
  shows "inv st' \<and> numShards st' = numShards st \<and>
    (\<forall>t. (\<forall>i<m. now (envs i) \<le> t) \<longrightarrow> visible t st' = visible t st) \<and>
    (\<forall>j\<ge>m. \<forall>t. lingering t st' j = lingering t st j \<and> indexed st' j = indexed st j) \<and>
    (\<forall>j<m. int (fcard (indexed st j)) \<le> n \<longrightarrow> lingering (now (envs j)) st' j = {})"
  using assms(3) unfolding st'_def
proof (induction m)
  case 0
  then show ?case using assms(1) by simp
next
  case (Suc m)
  let ?m = "fold (\<lambda>i st. snd (sweepShard (envs i) i n st)) [0..<m] st"
  let ?s = "snd (sweepShard (envs m) m n ?m)"
  have IH: "inv ?m" "numShards ?m = numShards st" "\<And>t. \<forall>i<m. now (envs i) \<le> t \<Longrightarrow> visible t ?m = visible t st"
    "\<And>j t. m \<le> j \<Longrightarrow> lingering t ?m j = lingering t st j \<and> indexed ?m j = indexed st j"
    "\<And>j. j < m \<Longrightarrow> int (fcard (indexed st j)) \<le> n \<Longrightarrow> lingering (now (envs j)) ?m j = {}"
    using Suc by auto
  have m: "int m < numShards ?m" using Suc.prems IH(2) by simp
  have e: "env_ok (envs m)" using assms(2) by simp
  note S = sweep_inv [OF IH(1) e m, of n] sweep_num [OF IH(1) e m, of n]
  have "visible t ?s = visible t st" if "\<forall>i<Suc m. now (envs i) \<le> t" for t
    using that IH(3) [of t] sweep_visible [OF IH(1) e m, of t n] by simp
  moreover have "lingering (now (envs j)) ?s j = {}" if "j < Suc m" "int (fcard (indexed st j)) \<le> n" for j
  proof (cases "j = m")
    case True
    with that IH(4) [of m] sweep_complete [OF IH(1) e m, of n] show ?thesis by simp
  next
    case False
    with that IH(5) [of j] sweep_other [OF IH(1) e m, of j "now (envs j)" n] show ?thesis by simp
  qed
  moreover have "lingering t ?s j = lingering t st j \<and> indexed ?s j = indexed st j" if "Suc m \<le> j" for j t
    using that IH(4) [of j] sweep_other [OF IH(1) e m, of j t n] by simp
  ultimately show ?case using S IH(2) by simp
qed

lemma tick_safe:
  assumes "inv st" "\<forall>i. env_ok (envs i)" "0 \<le> numShards st"
  shows "inv (tick numShards sweepShard r envs st)"
    and "numShards (tick numShards sweepShard r envs st) = numShards st"
    and "\<forall>i. int i < numShards st \<longrightarrow> now (envs i) \<le> t \<Longrightarrow> visible t (tick numShards sweepShard r envs st) = visible t st"
  using sweeps [OF assms(1,2), of "nat (numShards st)" "sampleSize r"] assms(3)
  by (simp_all add: tick_def zless_nat_conj nat_less_iff [symmetric] zless_nat_eq_int_zless)

lemma tick_complete:
  assumes "inv st" "\<forall>i. env_ok (envs i)" "int j < numShards st" "int (fcard (indexed st j)) \<le> sampleSize r"
  shows "lingering (now (envs j)) (tick numShards sweepShard r envs st) j = {}"
  using sweeps [OF assms(1,2), of "nat (numShards st)" "sampleSize r"] assms(3,4)
  by (simp add: tick_def)

lemma reaperRun_inv:
  assumes "inv st" "0 \<le> numShards st" "\<forall>envs \<in> set ticks. \<forall>i. env_ok (envs i)"
  shows "inv (reaperRun numShards sweepShard r ticks st) \<and>
    numShards (reaperRun numShards sweepShard r ticks st) = numShards st"
  using assms
proof (induction ticks arbitrary: st)
  case (Cons envs ticks)
  note T = tick_safe(1,2) [OF Cons.prems(1) _ Cons.prems(2), of envs r]
  from Cons T show ?case by (simp add: reaperRun_def)
qed (simp add: reaperRun_def)

end

section \<open>The store implements it\<close>

definition lingering_keys :: "instant \<Rightarrow> Store \<Rightarrow> nat \<Rightarrow> string set"
  where "lingering_keys t s i = {k. i < length (shards s) \<and> expired_in t (shards s ! i) k}"

definition ttl_index :: "Store \<Rightarrow> nat \<Rightarrow> string fset"
  where "ttl_index s i = ttlKeys (shards s ! i)"

lemma withShard_other:
  "j \<noteq> i \<Longrightarrow> shards (snd (withShard i f s)) ! j = shards s ! j"
  "length (shards (snd (withShard i f s))) = length (shards s)"
  by (simp_all add: withShard_snd unlockShard_def)

lemma SweepShard_complete:
  assumes wf: "store_wf s" and env: "env_ok env" and i: "i < length (shards s)"
    and n: "int (fcard (ttl_index s i)) \<le> n"
  shows "lingering_keys (now env) (snd (SweepShard env i n s)) i = {}"
proof -
  let ?s' = "snd (SweepShard env i n s)" and ?sh = "shards s ! i"
  obtain ks where ks: "ks = filter (expired_in (now env) ?sh) (take (nat n) (range_set env (ttlKeys ?sh)))"
      "\<And>k. entry ?s' k = (if k \<in> set ks then None else entry s k)"
      "sstep (set ks) 1 {} s ?s'"
    by (rule SweepShard_effect [OF wf env i, of n]) blast
  have whole: "take (nat n) (range_set env (ttlKeys ?sh)) = range_set env (ttlKeys ?sh)"
    using n env by (simp add: ttl_index_def)
  have len: "length (shards ?s') = length (shards s)" by (simp add: SweepShard_def withShard_other)
  have idx: "shardIndex ?s' = shardIndex s" using ks(3) by (auto simp: sstep_def intro: same_config_index)
  have shwf: "shard_wf (\<lambda>ck. shardIndex s ck = i) ?sh" using wf i by (simp add: store_wf_def)
  have "\<not> expired_in (now env) (shards ?s' ! i) k" for k
  proof
    assume ex: "expired_in (now env) (shards ?s' ! i) k"
    have wf': "store_wf ?s'" using ks(3) by (rule sstep_wf)
    then have "shard_wf (\<lambda>ck. shardIndex s ck = i) (shards ?s' ! i)"
      using i len idx by (simp add: store_wf_def)
    then have home: "shardIndex s k = i"
      using ex by (auto simp: shard_wf_def expired_in_def split: option.splits)
    then have e': "entry ?s' k = fmlookup (data (shards ?s' ! i)) k"
      by (simp add: entry_def shardFor_def idx)
    with ex ks(2) [of k] have "k \<notin> set ks" "entry s k = fmlookup (data (shards ?s' ! i)) k"
      by (auto simp: expired_in_def split: option.splits if_splits)
    moreover have "entry s k = fmlookup (data ?sh) k" using home by (simp add: entry_def shardFor_def)
    ultimately have "expired_in (now env) ?sh k" using ex by (simp add: expired_in_def)
    then have "k \<in> set ks"
      using expired_in_ttl [OF shwf] env by (simp add: ks(1) whole)
    with \<open>k \<notin> set ks\<close> show False by blast
  qed
  then show ?thesis by (simp add: lingering_keys_def)
qed

interpretation store_sweep: sweepable NumShards SweepShard store_wf view ttl_index lingering_keys
proof unfold_locales
  fix s env and i j :: nat and n and t
  assume wf: "store_wf s" and env: "env_ok env" and "int i < NumShards s"
  then have i: "i < length (shards s)" by (simp add: NumShards_def store_wf_def)
  obtain ks where st: "sstep (set ks) 1 {} s (snd (SweepShard env i n s))"
    by (rule SweepShard_effect [OF wf env i, of n])
  then show "store_wf (snd (SweepShard env i n s))" "NumShards (snd (SweepShard env i n s)) = NumShards s"
    by (auto simp: sstep_def same_config_def NumShards_def)
  show "view t (snd (SweepShard env i n s)) = view t s" if "now env \<le> t"
    using sweep_refines [OF wf env, of i n] i view_later [OF that] by simp
  show "lingering_keys (now env) (snd (SweepShard env i n s)) i = {}"
    if "int (fcard (ttl_index s i)) \<le> n"
    using SweepShard_complete [OF wf env i that] .
  show "lingering_keys t (snd (SweepShard env i n s)) j = lingering_keys t s j \<and>
      ttl_index (snd (SweepShard env i n s)) j = ttl_index s j" if "j \<noteq> i"
    using that by (simp add: lingering_keys_def ttl_index_def SweepShard_def withShard_other)
qed

end
