(* ===== verification/KeyspaceProperties.thy ===== *)
theory KeyspaceProperties
  imports StorageProperties
begin

text \<open>
  What the engine promises about whole keyspaces: KEYS and full SCAN iterations, RENAME, FLUSHDB,
  active expiry, the eviction victim and the entry cap.
\<close>

section \<open>KEYS and SCAN\<close>

text \<open>
  C28. KEYS returns exactly the live keys of the workspace that match the pattern, each once and in
  ascending order, whatever the order in which Go iterates the shards' maps. Matching is the
  declarative relation on pattern tokens, and the empty pattern matches everything.
\<close>

theorem keys_exact:
  assumes "store_wf s" "env_ok env"
  shows "Keys env ws pattern s = sorted_list_of_set
    {k. view (now env) s (nsKey ws k) \<noteq> None \<and> (pattern = [] \<or> matches (tokens True pattern) k)}"
  using Keys_eq [OF assms, of ws pattern]
  by (simp add: live_keys_def view_def globMatch_def glob_iff)

theorem keys_exact_witness:
  "store_wf demo \<and> env_ok (env_at 12) \<and>
   Keys (env_at 12) ''w'' ''[a-b]'' demo = sorted_list_of_set
     {k. view 12 demo (nsKey ''w'' k) \<noteq> None \<and> matches (tokens True ''[a-b]'') k} \<and>
   Keys (env_at 12) ''w'' ''[a-b]'' demo = [''a'', ''b'']"
proof -
  have "Keys (env_at 12) ''w'' ''[a-b]'' demo = [''a'', ''b'']" by code_simp
  with keys_exact [OF demo_wf, of "env_at 12" "''w''" "''[a-b]''"] demo_wf show ?thesis by simp
qed

text \<open>
  C27. A SCAN iteration that starts at cursor 0 and follows the returned cursors ends after at most
  one call more than there are live keys, and returns every live key that matches exactly once, for
  every COUNT, also zero and negative ones.
\<close>

theorem scan_complete:
  assumes "store_wf s" "env_ok env" "card (live_keys env ws s) < 2 ^ 63" "cnt \<le> MaxInt64"
  shows "scanAll (Suc (card (live_keys env ws s))) env ws 0 match cnt s = Some (sorted_list_of_set
    {k. view (now env) s (nsKey ws k) \<noteq> None \<and> (match = [] \<or> matches (tokens True match) k)})"
proof -
  note K = keysForWorkspace_keys [OF assms(1,2), of ws]
  have len: "length (keysForWorkspace env ws s) = card (live_keys env ws s)"
    using distinct_card [OF K(2)] K(1) by simp
  have "scanAll (Suc (card (live_keys env ws s))) env ws (of_nat 0) match cnt s =
      Some (filter (scan_match match) (drop 0 (sort (keysForWorkspace env ws s))))"
    by (rule scanAll_from) (use len assms(3,4) in simp_all)
  moreover have "filter (scan_match match) (sort (keysForWorkspace env ws s)) =
      sort (filter (scan_match match) (keysForWorkspace env ws s))"
    by (simp add: filter_sort)
  ultimately show ?thesis
    by (simp add: sort_keys [OF assms(1,2)] live_keys_def view_def scan_match_def globMatch_def glob_iff)
qed

theorem scan_complete_witness:
  "card (live_keys (env_at 12) ''w'' demo) = 2 \<and>
   scanAll 3 (env_at 12) ''w'' 0 [] 1 demo = Some (sorted_list_of_set
    {k. view 12 demo (nsKey ''w'' k) \<noteq> None})"
proof -
  have "card (set (keysForWorkspace (env_at 12) ''w'' demo)) = 2" by code_simp
  then have "card (live_keys (env_at 12) ''w'' demo) = 2"
    using keysForWorkspace_keys(1) [OF demo_wf, of "env_at 12" "''w''"] by simp
  with scan_complete [OF demo_wf, of "env_at 12" "''w''" 1 "[]"] show ?thesis by (simp add: numeral_3_eq_3)
qed

section \<open>RENAME and FLUSHDB\<close>

text \<open>
  C37. RENAME of a live key gives the new key the value and the expiry of the old one, removes the
  old one (unless it is the same key), changes no other key, evicts nothing, and moves the WATCH
  versions of both keys; RENAME of a key that is absent or past its expiry reports that and leaves
  all other keys alone.
\<close>

theorem rename_moves:
  assumes "store_wf s"
  shows "let (ok, s') = Rename env ws old new s; o' = nsKey ws old; n' = nsKey ws new
    in ok = (live (now env) (sraw s o') \<noteq> None) \<and> store_wf s' \<and> evictions s' = evictions s \<and>
       (\<forall>k. k \<noteq> o' \<and> (k \<noteq> n' \<or> \<not> ok) \<longrightarrow> sraw s' k = sraw s k) \<and>
       (ok \<longrightarrow> sraw s' n' = sraw s o' \<and> sversion s' n' \<noteq> sversion s n' \<and> sversion s' o' \<noteq> sversion s o') \<and>
       (old \<noteq> new \<or> \<not> ok \<longrightarrow> sraw s' o' = None)"
proof (cases "live (now env) (sraw s (nsKey ws old))")
  case None
  let ?s' = "snd (Rename env ws old new s)"
  note R = Rename_absent [OF assms None, of new]
  then have st: "sstep {nsKey ws old} 1 {} s ?s'" by blast
  have "store_wf ?s'" "evictions ?s' = evictions s" using st by (auto simp: sstep_def)
  moreover have "sraw ?s' k = sraw s k" if "k \<noteq> nsKey ws old" for k
    using st that by (auto simp: sstep_def sraw_entry)
  ultimately show ?thesis using R None by (simp add: split_beta Let_def)
next
  case (Some c)
  then obtain e where e: "entry s (nsKey ws old) = Some e" "\<not> expired e (now env)"
    by (cases "entry s (nsKey ws old)") (auto simp: sraw_entry live_acell split: if_splits)
  note R = Rename_present [OF assms e, of new]
  show ?thesis using R(1,4) Some e
    by (auto simp: split_beta Let_def R(2) R(3) sraw_entry)
qed

theorem rename_moves_witness:
  "let (ok, s') = Rename (env_at 12) ''w'' ''a'' ''c'' demo
   in ok \<and> sraw s' (nsKey ''w'' ''c'') = sraw demo (nsKey ''w'' ''a'') \<and> sraw s' (nsKey ''w'' ''a'') = None \<and>
      sraw s' (nsKey ''w'' ''b'') = sraw demo (nsKey ''w'' ''b'') \<and> store_wf demo"
proof -
  have "live 12 (sraw demo (nsKey ''w'' ''a'')) \<noteq> None" by code_simp
  with rename_moves [OF demo_wf, of "env_at 12" "''w''" "''a''" "''c''"] demo_wf show ?thesis
    by (auto simp: split_beta Let_def)
qed

text \<open>
  FLUSHDB removes every key of its workspace, live or expired, and leaves every key of every
  other workspace as it was, for workspace names without a NUL.
\<close>

theorem flushdb_exact:
  assumes "store_wf s" "env_ok env" "CHR 0x00 \<notin> set ws" "CHR 0x00 \<notin> set ws'"
  shows "store_wf (FlushDB env ws s) \<and>
    sraw (FlushDB env ws s) (nsKey ws' k) = (if ws' = ws then None else sraw s (nsKey ws' k))"
proof -
  have "hasPrefix (nsKey ws' k) (nsKey ws []) \<longleftrightarrow> ws' = ws"
    using nsKey_inject [OF assms(4,3), of k] by (auto simp: hasPrefix_nsKey)
  then show ?thesis
    using FlushDB_step [OF assms(1,2), of ws] by (simp add: sraw_entry sstep_def)
qed

theorem flushdb_exact_witness:
  "store_wf demo \<and> sraw (FlushDB (env_at 12) ''w'' demo) (nsKey ''w'' ''a'') = None \<and>
   sraw (FlushDB (env_at 12) ''v'' demo) (nsKey ''w'' ''a'') = sraw demo (nsKey ''w'' ''a'')"
  using flushdb_exact [OF demo_wf, of "env_at 12" "''w''" "''w''" "''a''"]
    flushdb_exact [OF demo_wf, of "env_at 12" "''v''" "''w''" "''a''"] demo_wf
  by simp

section \<open>Active expiry\<close>

text \<open>
  C31. A tick of the reaper, which reads the clock anew for every shard, keeps the invariant and
  changes nothing a client can see from its latest clock reading on, and it leaves in any shard whose
  TTL index is not larger than the sample size no entry that had expired when the shard was swept.
\<close>

theorem reaper_tick:
  assumes "store_wf s" "\<forall>i. env_ok (envs i)" "\<forall>i<length (shards s). now (envs i) \<le> t"
  shows "let s' = tick NumShards SweepShard r envs s
    in store_wf s' \<and> view t s' = view t s \<and>
       (\<forall>j < length (shards s). int (fcard (ttlKeys (shards s ! j))) \<le> sampleSize r \<longrightarrow>
          lingering_keys (now (envs j)) s' j = {})"
proof -
  have n: "NumShards s = int (length (shards s))" using assms(1) by (simp add: NumShards_def store_wf_def)
  show ?thesis
    using store_sweep.tick_safe(1) [OF assms(1,2), of r] store_sweep.tick_safe(3) [OF assms(1,2), of t r] store_sweep.tick_complete [OF assms(1,2), of _ r] n assms(3)
    by (simp add: Let_def ttl_index_def)
qed

theorem reaper_tick_witness:
  "let s' = tick NumShards SweepShard (newReaper 0 0) (\<lambda>i. env_at (20 + int i)) demo
   in store_wf s' \<and> view 30 s' = view 30 demo \<and>
      lingering_keys (20 + int (shardIndex demo (nsKey ''w'' ''a''))) s' (shardIndex demo (nsKey ''w'' ''a'')) = {} \<and>
      entry demo (nsKey ''w'' ''a'') \<noteq> None"
proof -
  let ?j = "shardIndex demo (nsKey ''w'' ''a'')"
  have "fcard (ttlKeys (shards demo ! ?j)) = 1" "entry demo (nsKey ''w'' ''a'') \<noteq> None" by code_simp+
  then show ?thesis
    using reaper_tick [OF demo_wf, of "\<lambda>i. env_at (20 + int i)" 30 "newReaper 0 0"] shardIndex_bound [OF demo_wf, of "nsKey ''w'' ''a''"]
      demo_config
    by (simp add: Let_def newReaper_def)
qed

section \<open>Eviction\<close>

context eviction_policy
begin

lemma victim_max:
  assumes "env_ok env" "0 \<le> now env" "now env \<le> 2 ^ 53 * Second"
    and "\<forall>k e. fmlookup (data l) k = Some e \<longrightarrow> is_int64 (eAccessCount e) \<and> 0 \<le> eAccessCount e"
    and "pickEvictionVictimLocked env score n l = v" "v \<noteq> []"
  shows "v \<in> fmdom' (data l) \<and> (\<forall>k \<in> fmdom' (data l). \<not> is_nan (score_of score (now env) (data l) k)) \<and>
    (\<forall>k \<in> set (take (nat n) (range_keys env (data l))).
      f64_le (score_of score (now env) (data l) k) (score_of score (now env) (data l) v))"
proof -
  have nan: "\<not> is_nan (score_of score (now env) (data l) k)" if "k \<in> fmdom' (data l)" for k
    using that assms(2-4) score_not_nan by (auto simp: score_of_def fmdom'_lookup)
  obtain sc where v: "victimLoop score (now env) n (data l) (range_keys env (data l)) 0 None = Some (v, sc)"
    using assms(5,6) by (auto simp: pickEvictionVictimLocked_def split: option.splits)
  have "v \<in> fmdom' (data l)" using pickVictim_dom [of env score n l] assms(5,6) by simp
  then show ?thesis using victimLoop_max [OF v] nan assms(1) by auto
qed

end

lemma Weighted_default: "Weighted_Score DefaultWeights = Weighted_Score fmempty"
proof -
  have "fmlookup DefaultWeights ''recency'' \<noteq> None" by (simp add: DefaultWeights_def fmlookup_of_list)
  then have "fsize DefaultWeights \<noteq> 0" by auto
  then show ?thesis by (simp add: Weighted_Score_def fun_eq_iff Let_def del: fsize_eq_0)
qed

text \<open>
  C30. The eviction victim, under the default LRU policy and under the Weighted policy with its
  default weights, is an entry of the shard whose score no sampled entry exceeds; the score of no
  entry of the shard is NaN, so the comparison of floats in the loop picks a true maximum. The sample
  is the first entries of the map iteration, at most the sample size many. The clock is at or after
  1970 and its seconds fit the 53 bits of a float, which holds for some 285 million years.
\<close>

theorem victim_has_max_score:
  assumes "pol = LRU_Score \<or> pol = Weighted_Score DefaultWeights"
    and "env_ok env" "0 \<le> now env" "now env \<le> 2 ^ 53 * Second"
    and "\<forall>k e. fmlookup (data l) k = Some e \<longrightarrow> is_int64 (eAccessCount e) \<and> 0 \<le> eAccessCount e"
    and "pickEvictionVictimLocked env pol n l = v" "v \<noteq> []"
  shows "v \<in> fmdom' (data l) \<and> (\<forall>k \<in> fmdom' (data l). \<not> is_nan (score_of pol (now env) (data l) k)) \<and>
    (\<forall>k \<in> set (take (nat n) (range_keys env (data l))).
      f64_le (score_of pol (now env) (data l) k) (score_of pol (now env) (data l) v))"
  using assms(1) lru.victim_max [OF assms(2-5)] weighted.victim_max [OF assms(2-5)] assms(6,7) Weighted_default
  by metis

definition two_keys :: shard \<comment> \<open>the older key is a\<close>
  where "two_keys = newShard\<lparr>data := fmupd ''a'' (newEntry KindString 3)
    (fmupd ''b'' (newEntry KindString 9) fmempty)\<rparr>"

theorem victim_has_max_score_witness:
  "pickEvictionVictimLocked (env_at 1750000000000000000) LRU_Score 20 two_keys = ''a'' \<and>
   f64_le (score_of LRU_Score 1750000000000000000 (data two_keys) ''b'')
     (score_of LRU_Score 1750000000000000000 (data two_keys) ''a'')"
proof -
  let ?env = "env_at 1750000000000000000" and ?score = "score_of LRU_Score 1750000000000000000 (data two_keys)"
  have keys: "range_keys ?env (data two_keys) = [''a'', ''b'']" by code_simp
  have dom: "fmlookup (data two_keys) ''a'' \<noteq> None" "fmlookup (data two_keys) ''b'' \<noteq> None"
    by (simp_all add: two_keys_def)
  have "f64_le (?score ''b'') (?score ''a'')"
    using lru.score_mono [of 3 9 1750000000000000000 0 0]
    by (simp add: score_of_def two_keys_def newEntry_def zero_time_def)
  then have "\<not> f64_lt (?score ''a'') (?score ''b'')" by (meson f64_le_def f64_eq_lt f64_lt_asym f64_lt_irrefl)
  then have v: "pickEvictionVictimLocked ?env LRU_Score 20 two_keys = ''a''"
    using dom by (simp add: pickEvictionVictimLocked_def keys victimLoop_Cons better_def)
  moreover have "\<forall>k e. fmlookup (data two_keys) k = Some e \<longrightarrow> is_int64 (eAccessCount e) \<and> 0 \<le> eAccessCount e"
    by (auto simp: two_keys_def newEntry_def is_int64_def)
  ultimately show ?thesis
    using victim_has_max_score [of LRU_Score ?env two_keys 20 "''a''"] keys by simp
qed

section \<open>The entry cap\<close>

text \<open>
  C29. The entry cap: from a fresh store on, with any number of shards and any eviction policy, any
  sequence of calls that does not RENAME a key into another shard keeps the entry counter at or below
  the cap plus the number of shards minus one (an insert evicts from its own shard only, so an empty
  shard accepts one key over the cap); with one shard the cap is exact.
\<close>

theorem capacity_bound:
  fixes num :: int and opts :: "Option list"
  defines "s \<equiv> newStore num opts"
  assumes "0 < maxEntries s" "num < 2 ^ 32" "maxEntries s + 2 ^ 32 \<le> MaxInt64" "envs_ok ops"
    and "\<forall>(env, op) \<in> set ops. cap_op s op"
  shows "EntryCount (snd (run ops s)) \<le> maxEntries s + NumShards s - 1"
proof -
  let ?s' = "snd (run ops s)"
  have wf: "store_wf s" unfolding s_def by (rule newStore_wf [OF assms(3)])
  then have n: "n_shards s < 2 ^ 32" by (simp add: store_wf_def)
  have st: "store_wf ?s'" "same_config s ?s'" using run_step [OF wf assms(5)] by auto
  have "capOK ?s'"
    by (rule run_cap [OF wf _ _ _ _ assms(5,6)]) (use newStore_cap [of num opts] n assms(2,4) in \<open>auto simp: s_def\<close>)
  then have le: "total ?s' \<le> maxEntries s + n_shards s - 1"
    using cap_bound [OF st(1)] st(2) by (simp add: same_config_def)
  moreover have "0 \<le> total ?s'" by (simp add: total_sizes)
  ultimately have "is_int64 (total ?s')" using n assms(4) by (simp add: is_int64_def)
  with le st(1) show ?thesis by (simp add: EntryCount_def NumShards_def store_wf_def)
qed

text \<open>The counter counts the entries.\<close>

lemma total_card:
  assumes "store_wf s"
  shows "total s = int (card {ck. entry s ck \<noteq> None})"
proof -
  let ?D = "\<lambda>i. fmdom' (data (shards s ! i))" and ?n = "length (shards s)"
  have home: "shardIndex s ck = i" if "i < ?n" "ck \<in> ?D i" for i ck
    using that assms by (auto simp: store_wf_def shard_wf_def fmdom'_lookup)
  have "{ck. entry s ck \<noteq> None} = (\<Union>i<?n. ?D i)"
  proof (intro set_eqI iffI)
    fix ck
    assume "ck \<in> {ck. entry s ck \<noteq> None}"
    then show "ck \<in> (\<Union>i<?n. ?D i)"
      using shardIndex_bound [OF assms, of ck] by (auto simp: entry_def shardFor_def fmdom'_lookup)
  qed (use home in \<open>auto simp: entry_def shardFor_def fmdom'_lookup\<close>)
  moreover have "card (\<Union>i<?n. ?D i) = (\<Sum>i<?n. card (?D i))"
  proof (rule card_UN_disjoint)
    show "\<forall>i \<in> {..<?n}. \<forall>j \<in> {..<?n}. i \<noteq> j \<longrightarrow> ?D i \<inter> ?D j = {}"
      using home by (metis disjoint_iff lessThan_iff)
  qed (simp_all add: fmdom'_alt_def)
  moreover have "card (?D i) = fsize (data (shards s ! i))" for i
    by (simp add: fsize_def fmdom'_alt_def fcard.rep_eq)
  ultimately show ?thesis
    by (simp add: total_sizes sum_list_sum_nth atLeast0LessThan)
qed

definition sets :: "string list \<Rightarrow> (goenv \<times> engineOp) list"
  where "sets ks = map (\<lambda>k. (env_at 1, KeyOp ''w'' k
    (OSet (bytes_of ''1'') \<lparr>oTTL = 0, OnlyIfNX = False, OnlyIfXX = False, GetOld = False\<rparr>))) ks"

theorem capacity_bound_witness:
  "EntryCount (snd (run (sets [''a'', ''b'', ''c'', ''d'', ''e''])
     (newStore 2 [WithMaxEntries 2, WithEvictionPolicy (Some (Weighted_Score DefaultWeights))]))) \<le> 3"
  using capacity_bound [of 2 "[WithMaxEntries 2, WithEvictionPolicy (Some (Weighted_Score DefaultWeights))]"
      "sets [''a'', ''b'', ''c'', ''d'', ''e'']"]
  by (simp add: sets_def envs_ok_def NumShards_def newStore_def Let_def)

text \<open>A SET into an empty shard evicts nothing.\<close>

lemma evict_empty: "data l = fmempty \<Longrightarrow> evictIfNeededLocked env s l = l"
  using pickVictim_dom [of env "policy_of s" evictionSampleSize l]
  by (auto simp: evictIfNeededLocked_def Let_def)

lemma Set_empty_shard:
  fixes env v
  assumes wf: "store_wf s" and empty: "data (shards s ! shardIndex s (nsKey ws k)) = fmempty"
    and opts: "\<not> OnlyIfNX opts" "\<not> OnlyIfXX opts" "\<not> GetOld opts"
  defines "s' \<equiv> snd (Set env ws k v opts s)"
  shows "store_wf s' \<and> same_config s s' \<and> evictions s' = evictions s"
    and "sraw s' ck = (if ck = nsKey ws k
      then Some (VString (copy_bytes v), if 0 < oTTL opts then Some (time_add (now env) (oTTL opts)) else None)
      else sraw s ck)"
proof -
  have ev: "evictions s' = evictions s"
    using empty opts
    by (simp add: s'_def Set_def Let_def onShard_def withShard_snd getForWriteLocked_def evict_empty setEntryLocked_def)
  have impl: "implements (nsKey ws k) (now env) 3 (max_evict s) (cSet (now env) v opts) s (Set env ws k v opts s)"
    by (rule Set_implements [OF wf])
  then obtain V where st: "sstep {nsKey ws k} 3 V s s'" by (auto simp: implements_def s'_def)
  with ev have V: "V = {}" by (auto simp: sstep_def)
  with st show "store_wf s' \<and> same_config s s' \<and> evictions s' = evictions s" by (auto simp: sstep_def)
  show "sraw s' ck = (if ck = nsKey ws k
      then Some (VString (copy_bytes v), if 0 < oTTL opts then Some (time_add (now env) (oTTL opts)) else None)
      else sraw s ck)"
    using impl sstep_sraw [OF st, of ck] V opts by (auto simp: implements_def cSet_def s'_def)
qed

text \<open>
  RENAME into another shard escapes the cap. Alternating a SET of one key with a RENAME of it
  to a fresh key of another shard adds an entry in every round and evicts nothing, whatever the
  cap: the counter grows without bound, while the entry cap is meant to bound it.
\<close>

definition cycle :: "string \<Rightarrow> string list \<Rightarrow> (goenv \<times> engineOp) list"
  where "cycle b ks = concat (map (\<lambda>k. sets [b] @ [(env_at 1, ORename ''w'' b k)]) ks)"

lemma cycle_round:
  assumes wf: "store_wf s" and keys: "{ck. entry s ck \<noteq> None} = nsKey ''w'' ` K"
    and away: "\<forall>k \<in> insert new K. shardIndex s (nsKey ''w'' k) \<noteq> shardIndex s (nsKey ''w'' b)"
  defines "s' \<equiv> snd (run (cycle b [new]) s)"
  shows "store_wf s' \<and> same_config s s' \<and> evictions s' = evictions s \<and>
    {ck. entry s' ck \<noteq> None} = nsKey ''w'' ` insert new K"
proof -
  let ?opts = "\<lparr>oTTL = 0, OnlyIfNX = False, OnlyIfXX = False, GetOld = False\<rparr>"
  let ?s1 = "snd (Set (env_at 1) ''w'' b (bytes_of ''1'') ?opts s)"
  let ?b = "nsKey ''w'' b" and ?n = "nsKey ''w'' new"
  have s': "s' = snd (Rename (env_at 1) ''w'' b new ?s1)"
    by (simp add: s'_def cycle_def sets_def split_beta)
  have "fmlookup (data (shards s ! shardIndex s ?b)) ck = None" for ck
  proof (rule ccontr)
    assume ck: "fmlookup (data (shards s ! shardIndex s ?b)) ck \<noteq> None"
    then have "shardIndex s ck = shardIndex s ?b"
      using wf shardIndex_bound [OF wf, of ?b] by (auto simp: store_wf_def shard_wf_def)
    moreover from this ck have "ck \<in> {ck. entry s ck \<noteq> None}" by (simp add: entry_def shardFor_def)
    ultimately show False using away unfolding keys by auto
  qed
  then have "data (shards s ! shardIndex s ?b) = fmempty" by (intro fmap_ext) simp
  note S = Set_empty_shard [OF wf this, of ?opts "env_at 1" "bytes_of ''1''", simplified]
  have "sraw ?s1 ?b = Some (VString (copy_bytes (bytes_of ''1'')), None)" using S(2) by simp
  then obtain e where e: "entry ?s1 ?b = Some e" "eExpiresAt e = None"
    by (auto simp: sraw_entry acell_def)
  then have ne: "\<not> expired e (now (env_at 1))" by (simp add: expired_def)
  note R = Rename_present [OF conjunct1 [OF S(1)] e(1) ne, of new]
  have "entry ?s1 ck \<noteq> None \<longleftrightarrow> ck = ?b \<or> entry s ck \<noteq> None" for ck
    using S(2) [of ck] by (metis option.distinct(1) sraw_None)
  then have "{ck. entry s' ck \<noteq> None} = nsKey ''w'' ` insert new K"
    unfolding s' R(2) using keys away by auto
  with R(4) S(1) show ?thesis unfolding s' by (auto intro: same_config_trans)
qed

theorem rename_escapes_cap:
  fixes cap :: int
  defines "s0 \<equiv> newStore 2 [WithMaxEntries cap]"
  assumes "distinct ks" "length ks < 2 ^ 63"
    and "\<forall>k \<in> set ks. shardIndex s0 (nsKey ''w'' k) \<noteq> shardIndex s0 (nsKey ''w'' b)"
  shows "EntryCount (snd (run (cycle b ks) s0)) = int (length ks) \<and> evictions (snd (run (cycle b ks) s0)) = 0"
proof -
  have wf: "store_wf s0" unfolding s0_def by (rule newStore_wf) simp
  have inv: "store_wf (snd (run (cycle b ks) s0)) \<and> same_config s0 (snd (run (cycle b ks) s0)) \<and>
      evictions (snd (run (cycle b ks) s0)) = evictions s0 \<and>
      {ck. entry (snd (run (cycle b ks) s0)) ck \<noteq> None} = nsKey ''w'' ` set ks"
    using assms(4)
  proof (induction ks rule: rev_induct)
    case Nil
    have "shards s0 ! shardIndex s0 ck = newShard" for ck
      using shardIndex_bound [OF wf, of ck] by (simp add: s0_def newStore_def Let_def)
    then show ?case using wf by (simp add: cycle_def entry_def newShard_def shardFor_def)
  next
    case (snoc k ks)
    let ?s = "snd (run (cycle b ks) s0)"
    have IH: "store_wf ?s" "same_config s0 ?s" "evictions ?s = evictions s0"
      "{ck. entry ?s ck \<noteq> None} = nsKey ''w'' ` set ks" using snoc by auto
    have "snd (run (cycle b (ks @ [k])) s0) = snd (run (cycle b [k]) ?s)"
      by (simp add: cycle_def run_append)
    then show ?case
      using cycle_round [OF IH(1,4), of k b] IH(2,3) snoc.prems same_config_index [OF IH(2)]
      by (auto intro: same_config_trans)
  qed
  let ?s = "snd (run (cycle b ks) s0)"
  have "inj_on (nsKey ''w'') (set ks)" by (simp add: inj_on_def)
  then have "card {ck. entry ?s ck \<noteq> None} = length ks"
    using inv distinct_card [OF assms(2)] by (simp add: card_image)
  then have "total ?s = int (length ks)" using total_card [of ?s] inv by simp
  moreover have "is_int64 (int (length ks))" using assms(3) by (simp add: is_int64_def)
  moreover have "entryCount ?s = int64 (total ?s)" using inv unfolding store_wf_def by blast
  moreover have "evictions s0 = 0" by (simp add: s0_def newStore_def Let_def)
  ultimately show ?thesis using inv by (simp only: EntryCount_def int64_id)
qed

theorem rename_escapes_cap_witness:
  "EntryCount (snd (run (cycle ''b'' [''a'', ''c'', ''e'', ''g'', ''i'']) (newStore 2 [WithMaxEntries 1]))) = 5"
proof -
  let ?i = "\<lambda>k. shardIndex (newStore 2 [WithMaxEntries 1]) (nsKey ''w'' k)"
  have "?i ''a'' = 1" "?i ''c'' = 1" "?i ''e'' = 1" "?i ''g'' = 1" "?i ''i'' = 1" "?i ''b'' = 0"
    by code_simp+
  then have "\<forall>k \<in> set [''a'', ''c'', ''e'', ''g'', ''i'']. ?i k \<noteq> ?i ''b''" by simp
  from rename_escapes_cap [OF _ _ this] show ?thesis by simp
qed

end
