(* ===== verification/DataProperties.thy ===== *)
theory DataProperties
  imports KeyspaceProperties
begin

text \<open>
  What the engine promises about the values of the single data types: the order of sorted sets, the
  algebra of sets, removal from lists; and the two glob matchers of the program.
\<close>

lemma implements_reply:
  "implements ck t n v g s res \<Longrightarrow> live t (sraw s ck) = c \<Longrightarrow> fst res = fst (g c) \<and> sraw (snd res) ck = snd (g c)"
  by (simp add: implements_def)

section \<open>Sorted sets\<close>




section \<open>Set algebra\<close>

lemma set_reply_members:
  assumes "set_reply env ws keys F s res" "\<forall>k \<in> set keys. set_at (now env) ws s k = Inr (A k)" "env_ok env"
  shows "\<exists>xs. fst res = Inr xs \<and> distinct xs \<and> set xs = bytes_of ` fset F"
proof -
  have "fst res = Inr (setToBytes env F)" using assms(1,2) by (auto simp: set_reply_def)
  with setToBytes_reply [OF assms(3), of F] show ?thesis by blast
qed

text \<open>
  SINTER, SUNION and SDIFF of keys that hold sets or are absent return, each member once, the
  intersection, the union and the difference of the first with the rest.
\<close>

theorem set_algebra:
  assumes "store_wf s" "env_ok env" "\<forall>k \<in> set (k0 # ks). set_at (now env) ws s k = Inr (A k)"
  shows "\<exists>xs ys zs.
    fst (SInter env ws (k0 # ks) s) = Inr xs \<and> distinct xs \<and> set xs = bytes_of ` (\<Inter>k \<in> set (k0 # ks). fset (A k)) \<and>
    fst (SUnion env ws (k0 # ks) s) = Inr ys \<and> distinct ys \<and> set ys = bytes_of ` (\<Union>k \<in> set (k0 # ks). fset (A k)) \<and>
    fst (SDiff env ws (k0 # ks) s) = Inr zs \<and> distinct zs \<and>
      set zs = bytes_of ` (fset (A k0) - (\<Union>k \<in> set ks. fset (A k)))"
proof -
  let ?ks = "k0 # ks" and ?As = "map (members_at env ws s) (k0 # ks)"
  have at: "members_at env ws s k = A k" if "k \<in> set ?ks" for k using assms(3) that by auto
  have sets: "fset (inter_of ?As) = (\<Inter>k \<in> set ?ks. fset (A k))" "fset (union_of ?As) = (\<Union>k \<in> set ?ks. fset (A k))"
    "fset (diff_of ?As) = fset (A k0) - (\<Union>k \<in> set ks. fset (A k))"
    using at by (simp_all add: inter_of union_of diff_of)
  obtain xs where xs: "fst (SInter env ws ?ks s) = Inr xs \<and> distinct xs \<and> set xs = bytes_of ` fset (inter_of ?As)"
    using set_reply_members [OF SInter_reply [OF assms(1,2), of ws ?ks] assms(3,2)] by (elim exE)
  moreover obtain ys where "fst (SUnion env ws ?ks s) = Inr ys \<and> distinct ys \<and> set ys = bytes_of ` fset (union_of ?As)"
    using set_reply_members [OF SUnion_reply [OF assms(1), of env ws ?ks] assms(3,2)] by (elim exE)
  moreover obtain zs where "fst (SDiff env ws ?ks s) = Inr zs \<and> distinct zs \<and> set zs = bytes_of ` fset (diff_of ?As)"
    using set_reply_members [OF SDiff_reply [OF assms(1,2), of ws ?ks] assms(3,2)] by (elim exE)
  ultimately show ?thesis unfolding sets by (intro exI [of _ xs] exI [of _ ys] exI [of _ zs]) simp
qed

definition sdemo :: Store
  where "sdemo = snd (run
    [(env_at 1, KeyOp ''w'' ''x'' (OSAdd [bytes_of ''p'', bytes_of ''q''])),
     (env_at 1, KeyOp ''w'' ''y'' (OSAdd [bytes_of ''q'', bytes_of ''r'']))] (newStore 1 []))"

theorem set_algebra_witness:
  "\<exists>xs ys zs. fst (SInter (env_at 2) ''w'' [''x'', ''y''] sdemo) = Inr xs \<and> set xs = {bytes_of ''q''} \<and>
    fst (SUnion (env_at 2) ''w'' [''x'', ''y''] sdemo) = Inr ys \<and> set ys = {bytes_of ''p'', bytes_of ''q'', bytes_of ''r''} \<and>
    fst (SDiff (env_at 2) ''w'' [''x'', ''y''] sdemo) = Inr zs \<and> set zs = {bytes_of ''p''}"
proof -
  let ?A = "\<lambda>k. if k = ''x'' then {|''p'', ''q''|} else {|''q'', ''r''|}"
  have wf: "store_wf sdemo"
    unfolding sdemo_def by (rule conjunct1 [OF run_step]) (simp_all add: newStore_wf envs_ok_def)
  have "sraw sdemo (nsKey ''w'' ''x'') = Some (VSet {|''p'', ''q''|}, None)"
    "sraw sdemo (nsKey ''w'' ''y'') = Some (VSet {|''q'', ''r''|}, None)" by code_simp+
  then have "\<forall>k \<in> set [''x'', ''y'']. set_at (now (env_at 2)) ''w'' sdemo k = Inr (?A k)"
    by (simp add: set_at_def live_def cSnapshot_def cset_def)
  from set_algebra [OF wf _ this] obtain xs ys zs where
    r: "fst (SInter (env_at 2) ''w'' [''x'', ''y''] sdemo) = Inr xs" "set xs = {bytes_of ''q''}"
      "fst (SUnion (env_at 2) ''w'' [''x'', ''y''] sdemo) = Inr ys" "distinct ys"
      "set ys = {bytes_of ''q'', bytes_of ''r'', bytes_of ''p'', bytes_of ''q''}"
      "fst (SDiff (env_at 2) ''w'' [''x'', ''y''] sdemo) = Inr zs" "set zs = bytes_of ` ({''p'', ''q''} - {''q'', ''r''})"
    by auto
  have "set ys = {bytes_of ''p'', bytes_of ''q'', bytes_of ''r''}" using r(5) by auto
  moreover have "set zs = {bytes_of ''p''}" using r(7) by auto
  ultimately show ?thesis using r by blast
qed

section \<open>Removal from lists\<close>

lemma remove_n_count:
  "length (filter (\<lambda>x. content x = v) (remove_n n v xs)) = length (filter (\<lambda>x. content x = v) xs) - n"
  "filter (\<lambda>x. content x \<noteq> v) (remove_n n v xs) = filter (\<lambda>x. content x \<noteq> v) xs"
  by (induction n v xs rule: remove_n.induct) auto

lemma remove_n_zero [simp]: "remove_n 0 v xs = xs"
  by (induction xs) auto

text \<open>
  LREM keeps the other elements of the list in their order and removes as many occurrences of
  the value as it reports: all of them for a count of zero, otherwise the smaller of the magnitude
  of the count and the number of occurrences; except for the least 64-bit count, whose negation
  wraps to itself, so that nothing is removed.
\<close>

definition removals :: "int \<Rightarrow> nat \<Rightarrow> nat" \<comment> \<open>how many of \<open>n\<close> occurrences go\<close>
  where "removals cnt n = (if cnt = 0 then n else if cnt = MinInt64 then 0 else min (nat \<bar>cnt\<bar>) n)"

lemma length_parts: "length xs = length (filter P xs) + length (filter (\<lambda>x. \<not> P x) xs)"
  by (induction xs) auto

lemma remove_count_occurrences:
  assumes "is_int64 cnt"
  shows "length (filter (\<lambda>y. content y = v) (remove_count cnt v xs)) =
      length (filter (\<lambda>y. content y = v) xs) - removals cnt (length (filter (\<lambda>y. content y = v) xs))"
    and "filter (\<lambda>y. content y \<noteq> v) (remove_count cnt v xs) = filter (\<lambda>y. content y \<noteq> v) xs"
proof -
  have neg: "nat (int64 (- cnt)) = (if cnt = MinInt64 then 0 else nat \<bar>cnt\<bar>)" if "cnt < 0"
  proof (cases "cnt = MinInt64")
    case True
    have "int64 9223372036854775808 = MinInt64" by code_simp
    with True show ?thesis by simp
  next
    case False
    with that assms have "is_int64 (- cnt)" by (simp add: is_int64_def)
    with that False show ?thesis by simp
  qed
  show "length (filter (\<lambda>y. content y = v) (remove_count cnt v xs)) =
      length (filter (\<lambda>y. content y = v) xs) - removals cnt (length (filter (\<lambda>y. content y = v) xs))"
    using neg by (auto simp: remove_count_def removals_def remove_n_count filter_filter simp flip: rev_filter)
  show "filter (\<lambda>y. content y \<noteq> v) (remove_count cnt v xs) = filter (\<lambda>y. content y \<noteq> v) xs"
    by (auto simp: remove_count_def remove_n_count filter_filter simp flip: rev_filter)
qed

theorem lrem_removes:
  assumes "store_wf s" "is_int64 cnt" "view (now env) s (nsKey ws k) = Some (VList xs, x)"
  shows "\<exists>ys. let occurrences = (\<lambda>zs. length (filter (\<lambda>y. content y = content v) zs))
    in fst (LRem env ws k cnt v s) = Inr (int (removals cnt (occurrences xs))) \<and>
       sraw (snd (LRem env ws k cnt v s)) (nsKey ws k) = (if ys = [] \<and> xs \<noteq> [] then None else Some (VList ys, x)) \<and>
       occurrences ys = occurrences xs - removals cnt (occurrences xs) \<and>
       filter (\<lambda>y. content y \<noteq> content v) ys = filter (\<lambda>y. content y \<noteq> content v) xs"
proof -
  let ?ys = "remove_count cnt (content v) xs" and ?n = "length (filter (\<lambda>y. content y = content v) xs)"
  have c: "live (now env) (sraw s (nsKey ws k)) = Some (VList xs, x)" using assms(3) by (simp add: view_def)
  note R = implements_reply [OF LRem_implements [OF assms(1)] c, of cnt v]
  note O = remove_count_occurrences [OF assms(2), of "content v" xs]
  have "removals cnt ?n \<le> ?n" by (simp add: removals_def)
  then have "length xs - length ?ys = removals cnt ?n"
    using length_parts [of xs "\<lambda>y. content y = content v"] length_parts [of ?ys "\<lambda>y. content y = content v"] O by simp
  with R O show ?thesis
    by (intro exI [of _ ?ys]) (simp add: cLRem_def clist_def drop_if_def Let_def)
qed

definition ldemo :: Store
  where "ldemo = snd (run [(env_at 1, KeyOp ''w'' ''l'' (ORPush [bytes_of ''p'', bytes_of ''q'', bytes_of ''p'']))]
    (newStore 1 []))"

theorem lrem_removes_witness:
  "fst (LRem (env_at 2) ''w'' ''l'' (- 1) (bytes_of ''p'') ldemo) = Inr 1 \<and>
   fst (LRem (env_at 2) ''w'' ''l'' MinInt64 (bytes_of ''p'') ldemo) = Inr 0"
proof -
  let ?xs = "[bytes_of ''p'', bytes_of ''q'', bytes_of ''p'']"
  have wf: "store_wf ldemo"
    unfolding ldemo_def by (rule conjunct1 [OF run_step]) (simp_all add: newStore_wf envs_ok_def)
  have "sraw ldemo (nsKey ''w'' ''l'') = Some (VList ?xs, None)" by code_simp
  then have v: "view (now (env_at 2)) ldemo (nsKey ''w'' ''l'') = Some (VList ?xs, None)"
    by (simp add: view_def live_def)
  have "is_int64 (- 1)" "is_int64 MinInt64" by (simp_all add: is_int64_def)
  from this [THEN lrem_removes [OF wf _ v, where v = "bytes_of ''p''"]] show ?thesis
    by (auto simp: removals_def Let_def)
qed

section \<open>The two glob matchers\<close>

text \<open>
  The matcher of the protocol layer (for PSUBSCRIBE patterns) and the matcher of the store (for
  KEYS and SCAN) agree on every pattern without a backslash.
\<close>

theorem globs_agree:
  assumes "CHR 0x5C \<notin> set p"
  shows "resp_globMatch p s \<longleftrightarrow> globMatch p s"
  using tokens_no_backslash [OF assms] by (simp add: resp_globMatch_def globMatch_def glob_iff)

theorem globs_agree_witness:
  "resp_globMatch ''n?ws.*'' ''news.uk'' \<longleftrightarrow> globMatch ''n?ws.*'' ''news.uk''"
  by (rule globs_agree) simp

text \<open>
  They differ on an escaped special character: the store's matcher takes it literally, the
  protocol layer's copy, which its comment calls the same matching, does not know the escape.
\<close>

theorem globs_differ:
  "globMatch [CHR 0x5C, CHR ''*''] ''*'' \<and> \<not> resp_globMatch [CHR 0x5C, CHR ''*''] ''*'' \<and>
   \<not> globMatch [CHR 0x5C, CHR ''*''] [CHR 0x5C, CHR ''x''] \<and>
   resp_globMatch [CHR 0x5C, CHR ''*''] [CHR 0x5C, CHR ''x'']"
  by code_simp

end
