(* ===== verification/CommandProperties.thy ===== *)
theory CommandProperties
  imports Connection DataProperties
begin

text \<open>
  What a client of the RESP server can rely on, stated on the dispatcher and the handlers: the wire
  format, authentication, transactions and the commands on strings.
\<close>

section \<open>A concrete server\<close>

definition quietExt :: "string \<Rightarrow> unit HandlerFunc" \<comment> \<open>an instance of the handlers that are a parameter\<close>
  where "quietExt name args = ret OK"

lemma quietExt_ok: "ext_ok quietExt"
  by (simp add: ext_ok_def extCmd_def quietExt_def)

definition server :: "Authenticator \<Rightarrow> Store \<Rightarrow> unit Deps"
  where "server a st = \<lparr>dEngine = st, dAuth = a, dMetrics = NewMetrics, dPubSub = NewPubSub, dExt = (),
    dEnv = (\<lambda>n. env_at (20 + int n)), dCalls = 0\<rparr>"

definition fresh :: "Authenticator \<Rightarrow> Store \<Rightarrow> unit Session" \<comment> \<open>connection 1, just accepted\<close>
  where "fresh a st = \<lparr>client = NewClientState 1, deps = server a st\<rparr>"

lemma fresh_simps [simp]:
  "client (fresh a st) = NewClientState 1" "dAuth (deps (fresh a st)) = a" "dEngine (deps (fresh a st)) = st"
  "env_ok (dEnv (deps (fresh a st)) n)" "dCalls (deps (fresh a st)) = 0" "dPubSub (deps (fresh a st)) = NewPubSub"
  by (simp_all add: fresh_def server_def)

section \<open>The wire format\<close>

text \<open>
  A command that a client encodes as an array of bulk strings is read back argument by
  argument, whatever bytes the arguments hold, and the reader stops exactly behind it.
\<close>

theorem command_round_trip:
  assumes "list_all arg_ok args" "16 * int (length args) \<le> 281474976710656"
  shows "ReadCommand (encodeCommand args @ rest) = Command args rest"
  by (rule ReadCommand_encodeCommand [OF assms])

theorem command_round_trip_witness:
  "ReadCommand (encodeCommand [''SET'', ''k'', [CHR 0x0D, CHR 0x0A]] @ ''PING'') =
    Command [''SET'', ''k'', [CHR 0x0D, CHR 0x0A]] ''PING''"
  by (rule command_round_trip) (simp_all add: arg_ok_def)

text \<open>
  C36. Every reply whose texts hold no line feed, whose integers fit into 64 bits and whose bulk
  strings fit into memory is read back by a RESP client from its encoding, nested arrays included,
  and the client stops exactly behind it.
\<close>

theorem reply_round_trip:
  assumes "clean r" "depth r \<le> fuel"
  shows "decode fuel (encode r @ rest) = Some (r, rest)"
  by (rule decode_encode [OF assms])

theorem reply_round_trip_witness:
  "decode 9 (encode (ArraySlice [Integer (- 7), Bulk None, ArraySlice [Simple ''OK'']]) @ ''x'') =
    Some (ArraySlice [Integer (- 7), Bulk None, ArraySlice [Simple ''OK'']], ''x'')"
  by (rule reply_round_trip) (simp_all add: arg_ok_def is_int64_def content_def)

text \<open>
  An unknown command whose name holds a line break gets one error reply that a RESP client
  reads as two replies: error messages echo the bytes of the client unescaped, so every later reply
  on the connection is attributed to the wrong command.
\<close>

theorem error_reply_splits:
  "let name = [CHR ''X'', CHR 0x0D, CHR 0x0A, CHR ''+''];
       out = encode (Err (ErrUnknownCommand name []))
   in (case decode 1 out of
         Some (Err _, rest) \<Rightarrow> (case decode 1 rest of Some (Simple _, rest') \<Rightarrow> rest' = [] | _ \<Rightarrow> False)
       | _ \<Rightarrow> False)"
  by code_simp

text \<open>
  An array header that announces more elements than a Go slice can hold ends the process: the
  reader allocates before it reads the elements and nothing recovers from the panic. The client need
  not be authenticated.
\<close>

theorem huge_header_crashes:
  assumes "281474976710656 < 16 * n" "n \<le> MaxInt64"
  shows "run_state (connLoop ext (''*'' @ FormatInt n @ crlf @ rest)) se = (([], Crashed), se)"
proof -
  have "readLine (CHR ''*'' # FormatInt n @ crlf @ rest) = Some (CHR ''*'' # FormatInt n, rest)"
    by (rule readLine_header) simp
  moreover have "is_int64 n" using assms by (simp add: is_int64_def)
  ultimately have "ReadCommand (''*'' @ FormatInt n @ crlf @ rest) = Panic"
    using assms by (simp add: ReadCommand_def readArrayCommand_def ParseInt_FormatInt makeslice_ok_def)
  then show ?thesis by (subst connLoop.simps) simp
qed

theorem huge_header_crashes_witness:
  "run_state (connLoop quietExt (''*'' @ FormatInt MaxInt64 @ crlf @ [])) (fresh (auth_New ''secret'') demo) =
    (([], Crashed), fresh (auth_New ''secret'') demo)"
  by (rule huge_header_crashes) simp_all

section \<open>Authentication\<close>

definition openCommands :: "string list" \<comment> \<open>usable before authentication\<close>
  where "openCommands = [''HELLO'', ''AUTH'', ''COMMAND'', ''INFO'', ''QUIT'']"

lemma open_flags: "list_all (\<lambda>c. AllowedNoAuth c \<longleftrightarrow> cmdName c \<in> set openCommands) (allCommands ext n handle)"
  by (simp add: allCommands_def command_lists flag_defs openCommands_def)

lemma lookup_open:
  "fmlookup (RegisterAll ext handle) n = Some c \<Longrightarrow> AllowedNoAuth c \<longleftrightarrow> n \<in> set openCommands"
  using lookup_name [of ext handle n c] open_flags [of ext numCommands handle] by (auto simp: list_all_iff)

lemma gate_closed:
  assumes "Required (dAuth (deps se))" "\<not> Authenticated (client se)" "to_upper (hd args) \<notin> set openCommands" "args \<noteq> []"
  shows "\<exists>msg. fst (run_state (dispatch ext args) se) = Err msg"
    and "deps (snd (run_state (dispatch ext args) se)) = deps se"
    and "Lookup (RegisterAll ext (dispatch ext)) (hd args) \<noteq> None \<Longrightarrow> run_state (dispatch ext args) se = (Err ErrNoAuthMsg, se)"
proof -
  have "(\<exists>msg. fst (run_state (dispatch ext args) se) = Err msg) \<and> deps (snd (run_state (dispatch ext args) se)) = deps se \<and>
    (Lookup (RegisterAll ext (dispatch ext)) (hd args) \<noteq> None \<longrightarrow> run_state (dispatch ext args) se = (Err ErrNoAuthMsg, se))"
  proof (cases "fmlookup (RegisterAll ext (dispatchInner ext)) (to_upper (hd args))")
    case None
    then have "fmlookup (RegisterAll ext (dispatch ext)) (to_upper (hd args)) = None"
      using lookup_meta [of ext "dispatchInner ext" "to_upper (hd args)" ext "dispatch ext"]
      by (cases "fmlookup (RegisterAll ext (dispatch ext)) (to_upper (hd args))") auto
    with None assms(4) show ?thesis by (simp add: dispatch_def [of ext] Handle_def Lookup_def)
  next
    case (Some c)
    have "\<not> AllowedNoAuth c" using lookup_open [OF Some] assms(3) by simp
    with Some assms show ?thesis by (simp add: dispatch_def [of ext] Handle_def)
  qed
  then show "\<exists>msg. fst (run_state (dispatch ext args) se) = Err msg" "deps (snd (run_state (dispatch ext args) se)) = deps se"
    "Lookup (RegisterAll ext (dispatch ext)) (hd args) \<noteq> None \<Longrightarrow> run_state (dispatch ext args) se = (Err ErrNoAuthMsg, se)"
    by blast+
qed

text \<open>
  C32. While authentication is required and the connection has not authenticated, the loop answers
  every command but HELLO, AUTH, COMMAND, INFO and QUIT with an error, and of what is shared it changes
  only the statistics, which count the command and its latency like any other, and the clock moves
  on: the engine, the broker, the authenticator and the other caches are as before. A command that
  exists is answered with NOAUTH and leaves the connection as it was.
\<close>

theorem noauth_gate:
  assumes "Required (dAuth (deps se))" "\<not> Authenticated (client se)" "to_upper (hd args) \<notin> set openCommands" "args \<noteq> []"
  shows "let (reply, se') = run_state (serveCommand ext args) se; d = deps se;
      spent = time_sub (now (dEnv d (Suc (dCalls d)))) (now (dEnv d (dCalls d)))
    in (\<exists>msg. reply = Err msg) \<and>
       deps se' = d\<lparr>dMetrics := CommandExecuted (RecordCommandLatency (commandFamily (hd args)) spent (dMetrics d)),
                    dCalls := dCalls d + 2\<rparr> \<and>
       (Lookup (RegisterAll ext (dispatch ext)) (hd args) \<noteq> None \<longrightarrow> reply = Err ErrNoAuthMsg \<and> client se' = client se)"
proof -
  let ?se = "snd (run_state clock se)"
  have a: "Required (dAuth (deps ?se))" "\<not> Authenticated (client ?se)" using assms(1,2) by (simp_all add: clock_def)
  note G = gate_closed [OF a assms(3,4), of ext]
  show ?thesis
    using G by (auto simp: serveCommand_def split_beta Let_def clock_def)
qed

theorem noauth_gate_witness:
  "fst (run_state (serveCommand quietExt [''get'', ''a'']) (fresh (auth_New ''secret'') demo)) = Err ErrNoAuthMsg \<and>
   dEngine (deps (snd (run_state (serveCommand quietExt [''get'', ''a'']) (fresh (auth_New ''secret'') demo)))) = demo"
proof -
  let ?se = "fresh (auth_New ''secret'') demo"
  have up: "to_upper ''get'' = ''GET''" by code_simp
  have "Lookup (RegisterAll quietExt (dispatch quietExt)) ''get'' \<noteq> None"
    unfolding Lookup_def up lookup_all by (simp add: allCommands_def command_lists flag_defs)
  then show ?thesis
    using noauth_gate [of ?se "[''get'', ''a'']" quietExt]
    by (simp add: Let_def split_beta Required_def auth_New_def NewClientState_def openCommands_def up del: to_upper.simps)
qed

section \<open>Transactions\<close>

text \<open>
  Inside MULTI a command that may be queued is not run: a known command with an acceptable
  number of arguments is appended to the queue and answered with QUEUED, one with a wrong number of
  arguments and an unknown one flag the transaction as failed and are answered with an error; in
  every case the dependencies are untouched.
\<close>

theorem multi_queues:
  assumes "InMulti (client se)" "args \<noteq> []" "Required (dAuth (deps se)) \<longrightarrow> Authenticated (client se)"
    and "\<forall>c. Lookup (RegisterAll ext (dispatchInner ext)) (hd args) = Some c \<longrightarrow> \<not> NoQueue c"
  shows "let (r, se') = run_state (dispatch ext args) se
    in deps se' = deps se \<and>
       (if queueable (RegisterAll ext (dispatchInner ext)) args
        then r = Simple ''QUEUED'' \<and> client se' = (client se)\<lparr>Queued := Queued (client se) @ [args]\<rparr>
        else (\<exists>msg. r = Err msg) \<and> client se' = (client se)\<lparr>MultiError := True\<rparr>)"
  using assms
  by (cases "fmlookup (RegisterAll ext (dispatchInner ext)) (to_upper (hd args))")
    (auto simp: dispatch_def [of ext] Handle_def Lookup_def queueable_def)

theorem multi_queues_witness:
  "let se = (fresh (auth_New []) demo)\<lparr>client := (NewClientState 1)\<lparr>InMulti := True\<rparr>\<rparr>
   in run_state (dispatch quietExt [''GET'', ''a'']) se =
      (Simple ''QUEUED'', se\<lparr>client := (client se)\<lparr>Queued := [[''GET'', ''a'']]\<rparr>\<rparr>)"
proof -
  let ?se = "(fresh (auth_New []) demo)\<lparr>client := (NewClientState 1)\<lparr>InMulti := True\<rparr>\<rparr>"
  have up: "to_upper ''GET'' = ''GET''" by code_simp
  have look: "Lookup (RegisterAll quietExt (dispatchInner quietExt)) ''GET'' = Some (command ''GET'' 2 2 handleGet)"
    unfolding Lookup_def up lookup_all by (simp add: allCommands_def command_lists flag_defs)
  then have "queueable (RegisterAll quietExt (dispatchInner quietExt)) [''GET'', ''a'']"
    by (simp add: queueable_def Lookup_def flag_defs arityOK_def)
  with look multi_queues [of ?se "[''GET'', ''a'']" quietExt] show ?thesis
    by (auto simp: Let_def split_beta Required_def auth_New_def NewClientState_def flag_defs prod_eq_iff)
qed

definition leaveMulti :: "'x Session \<Rightarrow> 'x Session" \<comment> \<open>the transaction state reset\<close>
  where "leaveMulti se = se\<lparr>client := (client se)\<lparr>InMulti := False, Queued := [], MultiError := False, Watched := fmempty\<rparr>\<rparr>"

lemma run_EXEC:
  assumes "to_upper name = ''EXEC''" "Required (dAuth (deps se)) \<longrightarrow> Authenticated (client se)" "InMulti (client se)"
    and "\<forall>q \<in> set (Queued (client se)). queueable (RegisterAll ext h) q"
  shows "run_state (dispatch ext [name]) se =
    (if MultiError (client se)
     then (Err ''EXECABORT Transaction discarded because of previous errors.'', leaveMulti se)
     else if \<not> watchesHold (Watched (client se)) se then (NullArray, leaveMulti se)
     else apfst ArraySlice (run_state (mapC (dispatch ext) (Queued (client se))) (leaveMulti se)))"
proof -
  have w: "watchesHold m (leaveMulti se) = watchesHold m se" for m
    by (simp add: watchesHold_def currentVersion_def leaveMulti_def)
  show ?thesis
    unfolding dispatch_fixpoint [OF assms(4)] using assms(1-3) w
    by (auto simp: Handle_def lookup_EXEC flag_defs arityOK_def handleExec_def leaveMulti_def split_beta apfst_def
        map_prod_def simp del: to_upper.simps)
qed

text \<open>
  C15. EXEC ends the transaction and does one of three things: after an error while queueing it runs
  nothing and replies EXECABORT; if a watched key has another version than WATCH recorded it runs
  nothing and replies the null array; otherwise it hands the queued commands to the dispatcher in
  their order, each seeing the effects of the ones before, and replies the array of their replies.
  The queue holds only queueable commands, which is part of the invariant of connections.
\<close>

theorem exec_outcome:
  assumes "to_upper name = ''EXEC''" "Required (dAuth (deps se)) \<longrightarrow> Authenticated (client se)" "InMulti (client se)"
    and "\<forall>q \<in> set (Queued (client se)). queueable (RegisterAll ext (dispatch ext)) q"
  shows "run_state (dispatch ext [name]) se =
    (if MultiError (client se)
     then (Err ''EXECABORT Transaction discarded because of previous errors.'', leaveMulti se)
     else if \<not> watchesHold (Watched (client se)) se then (NullArray, leaveMulti se)
     else apfst ArraySlice (run_state (mapC (dispatch ext) (Queued (client se))) (leaveMulti se)))"
  by (rule run_EXEC [OF assms])

definition inTx :: "unit Session" \<comment> \<open>a transaction with one queued PING\<close>
  where "inTx = (fresh (auth_New []) demo)\<lparr>client := (NewClientState 1)\<lparr>InMulti := True, Queued := [[''PING'']]\<rparr>\<rparr>"

lemma inTx_queue: "\<forall>q \<in> set (Queued (client inTx)). queueable (RegisterAll quietExt h) q"
proof -
  have up: "to_upper ''PING'' = ''PING''" by code_simp
  have "fmlookup (RegisterAll quietExt h) ''PING'' = Some (command ''PING'' 1 2 handlePing)"
    unfolding lookup_all by (simp add: allCommands_def command_lists flag_defs)
  then show ?thesis by (simp add: inTx_def queueable_def up flag_defs arityOK_def del: to_upper.simps)
qed

theorem exec_outcome_witness:
  "fst (run_state (dispatch quietExt [''exec'']) inTx) =
    ArraySlice (fst (run_state (mapC (dispatch quietExt) [[''PING'']]) (leaveMulti inTx)))"
proof -
  have up: "to_upper ''exec'' = ''EXEC''" by code_simp
  have "Required (dAuth (deps inTx)) = False" "InMulti (client inTx)" "\<not> MultiError (client inTx)"
      "Watched (client inTx) = fmempty" "Queued (client inTx) = [[''PING'']]"
    by (simp_all add: inTx_def Required_def auth_New_def NewClientState_def)
  then show ?thesis
    using exec_outcome [OF up, of inTx quietExt] inTx_queue
    by (simp add: watchesHold_def list_all_iff)
qed




section \<open>Commands on strings\<close>

definition ready :: "'x Session \<Rightarrow> bool" \<comment> \<open>a connection whose commands run at once, on a sound server\<close>
  where "ready se \<longleftrightarrow> (Required (dAuth (deps se)) \<longrightarrow> Authenticated (client se)) \<and> \<not> InMulti (client se) \<and>
    store_wf (dEngine (deps se)) \<and> (\<forall>n. env_ok (dEnv (deps se) n))"

abbreviation cell_of :: "'x Session \<Rightarrow> string \<Rightarrow> cell option" \<comment> \<open>what a key of the workspace holds\<close>
  where "cell_of se k \<equiv> sraw (dEngine (deps se)) (nsKey (Workspace (client se)) k)"

abbreviation clock_of :: "'x Session \<Rightarrow> instant" \<comment> \<open>the clock reading of the next call\<close>
  where "clock_of se \<equiv> now (dEnv (deps se) (dCalls (deps se)))"

lemma dispatch_runs:
  assumes "fmlookup (RegisterAll ext (dispatchInner ext)) (to_upper (hd args)) = Some c"
    and "arityOK c (int (length args))" "ready se" "args \<noteq> []"
  shows "run_state (dispatch ext args) se = run_state (Handler c args) se"
  using assms by (auto simp: dispatch_def [of ext] Handle_def ready_def)

lemma string_lookups:
  "fmlookup (RegisterAll ext h) ''GET'' = Some (command ''GET'' 2 2 handleGet)"
  "fmlookup (RegisterAll ext h) ''SET'' = Some (command ''SET'' 3 (- 1) handleSet)"
  "fmlookup (RegisterAll ext h) ''INCR'' = Some (command ''INCR'' 2 2 handleIncr)"
  "fmlookup (RegisterAll ext h) ''EXPIRE'' = Some (command ''EXPIRE'' 3 3 handleExpire)"
  unfolding lookup_all by (simp_all add: allCommands_def command_lists flag_defs)

lemma ready_commands:
  assumes "ready se"
  shows "to_upper c = ''GET'' \<Longrightarrow> run_state (dispatch ext [c, k]) se = run_state (handleGet [c, k]) se"
    and "to_upper c = ''SET'' \<Longrightarrow> run_state (dispatch ext [c, k, v]) se = run_state (handleSet [c, k, v]) se"
    and "to_upper c = ''INCR'' \<Longrightarrow> run_state (dispatch ext [c, k]) se = run_state (handleIncr [c, k]) se"
    and "to_upper c = ''EXPIRE'' \<Longrightarrow> run_state (dispatch ext [c, k, v]) se = run_state (handleExpire [c, k, v]) se"
  using assms
  by (auto simp: dispatch_runs string_lookups arityOK_def flag_defs simp del: to_upper.simps)

text \<open>An engine call on one key of the workspace, in terms of what the key holds.\<close>

lemma call_cell:
  assumes "ready se"
    and "implements (nsKey (Workspace (client se)) k) (clock_of se) n v g (dEngine (deps se))
      (f (Workspace (client se)) (dEnv (deps se) (dCalls (deps se))) (dEngine (deps se)))"
  shows "fst (run_state (call f) se) = fst (g (live (clock_of se) (cell_of se k)))"
    and "ready (snd (run_state (call f) se))"
    and "client (snd (run_state (call f) se)) = client se"
    and "cell_of (snd (run_state (call f) se)) k = snd (g (live (clock_of se) (cell_of se k)))"
  using assms by (auto simp: call_def run_eng ready_def implements_def dest: sstep_wf)

text \<open>
  C35. SET and then GET of the same key, in any workspace and with any values of other keys, returns
  the value that was set, except that an empty value comes back as the null bulk string, which is
  also the reply for a key that does not exist.
\<close>

theorem set_get:
  assumes "ready se" "to_upper s = ''SET''" "to_upper g = ''GET''"
  shows "fst (run_state (do { dispatch ext [s, k, v]; dispatch ext [g, k] }) se) =
    (if v = [] then NullBulk else BulkString v)"
proof -
  let ?set = "\<lambda>ws env. Set env ws k (bytes_of v) noOpts"
  define se1 where "se1 = snd (run_state (call ?set) se)"
  have wf: "store_wf (dEngine (deps se))" using assms(1) by (simp add: ready_def)
  note C = call_cell [where f = ?set, OF assms(1) Set_implements [OF wf]]
  have se1: "ready se1" "cell_of se1 k = Some (VString (copy_bytes (bytes_of v)), None)"
    using C by (simp_all add: se1_def cSet_def noOpts_def Let_def)
  have set: "snd (run_state (dispatch ext [s, k, v]) se) = se1"
    using ready_commands(2) [OF assms(1,2)] by (simp add: handleSet_def noOpts_def se1_def split_beta)
  have wf1: "store_wf (dEngine (deps se1))" using se1(1) by (simp add: ready_def)
  note G = call_cell(1) [where f = "\<lambda>ws env. Get env ws k", OF se1(1) Get_implements [OF wf1]]
  have "fst (run_state (dispatch ext [g, k]) se1) = (if v = [] then NullBulk else BulkString v)"
    using ready_commands(1) [OF se1(1) assms(3)] G se1(2)
    by (simp add: handleGet_def split_beta cGet_def live_def valueReply_def copy_bytes_def bytes_of_def)
  with set show ?thesis by (simp add: split_beta)
qed

lemma fresh_ready: "store_wf st \<Longrightarrow> ready (fresh (auth_New []) st)"
  by (simp add: ready_def Required_def auth_New_def NewClientState_def)

theorem set_get_witness:
  "fst (run_state (do { dispatch quietExt [''set'', ''k'', ''v'']; dispatch quietExt [''GET'', ''k''] })
     (fresh (auth_New []) demo)) = BulkString ''v'' \<and>
   fst (run_state (do { dispatch quietExt [''set'', ''k'', []]; dispatch quietExt [''GET'', ''k''] })
     (fresh (auth_New []) demo)) = NullBulk"
proof -
  have up: "to_upper ''set'' = ''SET''" "to_upper ''GET'' = ''GET''" by code_simp+
  show ?thesis using set_get [OF fresh_ready [OF demo_wf] up] by simp
qed

text \<open>
  EXPIRE with a positive number of seconds whose nanoseconds wrap to a number that is not
  positive removes the key at once and reports success, instead of setting a distant expiry.
\<close>

theorem expire_overflow_deletes:
  assumes "ready se" "to_upper c = ''EXPIRE''" "is_int64 secs" "int64 (secs * Second) \<le> 0"
    and "live (clock_of se) (cell_of se k) \<noteq> None"
  shows "fst (run_state (dispatch ext [c, k, FormatInt secs]) se) = Integer 1 \<and>
    cell_of (snd (run_state (dispatch ext [c, k, FormatInt secs]) se)) k = None"
proof -
  have wf: "store_wf (dEngine (deps se))" using assms(1) by (simp add: ready_def)
  note C = call_cell [where f = "\<lambda>ws env. Expire env ws k (int64 (secs * Second))", OF assms(1) Expire_implements [OF wf]]
  show ?thesis
    using C assms(4,5) ready_commands(4) [OF assms(1,2)]
    by (auto simp: handleExpire_def ParseInt_FormatInt [OF assms(3)] cExpire_def boolReply_def split_beta)
qed

theorem expire_overflow_deletes_witness:
  "let se = fresh (auth_New []) (snd (run [(env_at 12, KeyOp ''default'' ''a'' (OSet (bytes_of ''2'') noOpts))] (newStore 1 [])))
   in fst (run_state (dispatch quietExt [''EXPIRE'', ''a'', FormatInt 9223372037]) se) = Integer 1 \<and>
      cell_of (snd (run_state (dispatch quietExt [''EXPIRE'', ''a'', FormatInt 9223372037]) se)) ''a'' = None"
proof -
  let ?st = "snd (run [(env_at 12, KeyOp ''default'' ''a'' (OSet (bytes_of ''2'') noOpts))] (newStore 1 []))"
  let ?se = "fresh (auth_New []) ?st"
  have wf: "store_wf ?st" by (rule conjunct1 [OF run_step]) (simp_all add: newStore_wf envs_ok_def)
  have up: "to_upper ''EXPIRE'' = ''EXPIRE''" by code_simp
  have neg: "int64 (9223372037 * Second) \<le> 0" by code_simp
  have "sraw ?st (nsKey ''default'' ''a'') = Some (VString (bytes_of ''2''), None)" by code_simp
  then have "live (clock_of ?se) (cell_of ?se ''a'') \<noteq> None"
    by (simp add: NewClientState_def defaultWorkspace_def live_def)
  then show ?thesis
    using expire_overflow_deletes [OF fresh_ready [OF wf] up _ neg, of "''a''" quietExt]
    by (simp add: is_int64_def del: to_upper.simps run.simps)
qed

text \<open>
  INCR on a live string that holds the decimal form of a number adds one, and wraps from the
  largest to the smallest 64-bit integer without an error; and the key loses its expiry.
\<close>

theorem incr_wraps:
  assumes "ready se" "to_upper c = ''INCR''" "is_int64 n"
    and "live (clock_of se) (cell_of se k) = Some (VString (bytes_of (FormatInt n)), x)"
  shows "fst (run_state (dispatch ext [c, k]) se) = Integer (if n = MaxInt64 then MinInt64 else n + 1) \<and>
    cell_of (snd (run_state (dispatch ext [c, k]) se)) k =
      Some (VString (bytes_of (FormatInt (if n = MaxInt64 then MinInt64 else n + 1))), None)"
proof -
  have wf: "store_wf (dEngine (deps se))" using assms(1) by (simp add: ready_def)
  let ?get = "\<lambda>ws env. Get env ws k" and ?m = "int64 (n + 1)"
  let ?set = "\<lambda>ws env. Set env ws k (bytes_of (FormatInt ?m)) noOpts"
  define se1 where "se1 = snd (run_state (call ?get) se)"
  note G = call_cell [where f = ?get, OF assms(1) Get_implements [OF wf], folded se1_def]
  have wf1: "store_wf (dEngine (deps se1))" using G(2) by (simp add: ready_def)
  note S = call_cell [where f = ?set, OF G(2) Set_implements [OF wf1]]
  have nil: "FormatInt j \<noteq> []" for j by simp
  have get: "fst (run_state (call ?get) se) = Inr (bytes_of (FormatInt n), True)"
    using G(1) assms(4) by (simp add: cGet_def copy_bytes_def bytes_of_def)
  have m: "?m = (if n = MaxInt64 then MinInt64 else n + 1)"
  proof (cases "n = MaxInt64")
    case True
    have "int64 9223372036854775808 = MinInt64" by code_simp
    with True show ?thesis by simp
  next
    case False
    with assms(3) have "is_int64 (n + 1)" by (simp add: is_int64_def)
    with False show ?thesis by simp
  qed
  show ?thesis
    unfolding m [symmetric]
    using get S ready_commands(3) [OF assms(1,2)]
    by (simp add: handleIncr_def incrBy_def split_beta se1_def [symmetric] bytes_of_def ParseInt_FormatInt [OF assms(3)]
        cSet_def noOpts_def countReply_def copy_bytes_def Let_def)
qed

theorem incr_wraps_witness:
  "let se = fresh (auth_New []) (snd (run [(env_at 12, KeyOp ''default'' ''n''
       (OSet (bytes_of ''9223372036854775807'') (noOpts\<lparr>oTTL := 100\<rparr>)))] (newStore 1 [])))
   in fst (run_state (dispatch quietExt [''INCR'', ''n'']) se) = Integer MinInt64 \<and>
      cell_of (snd (run_state (dispatch quietExt [''INCR'', ''n'']) se)) ''n'' =
        Some (VString (bytes_of ''-9223372036854775808''), None)"
proof -
  let ?st = "snd (run [(env_at 12, KeyOp ''default'' ''n''
       (OSet (bytes_of ''9223372036854775807'') (noOpts\<lparr>oTTL := 100\<rparr>)))] (newStore 1 []))"
  let ?se = "fresh (auth_New []) ?st"
  have wf: "store_wf ?st" by (rule conjunct1 [OF run_step]) (simp_all add: newStore_wf envs_ok_def)
  have up: "to_upper ''INCR'' = ''INCR''" by code_simp
  have digits: "digit_char 0 = CHR ''0''" "digit_char 2 = CHR ''2''" "digit_char 3 = CHR ''3''" "digit_char 4 = CHR ''4''"
      "digit_char 5 = CHR ''5''" "digit_char 6 = CHR ''6''" "digit_char 7 = CHR ''7''" "digit_char 8 = CHR ''8''"
      "digit_char 9 = CHR ''9''" by code_simp+
  have fmt: "''9223372036854775807'' = FormatInt MaxInt64" "FormatInt MinInt64 = ''-9223372036854775808''"
    by (simp_all add: FormatInt_def format_nat.simps digits)
  have "sraw ?st (nsKey ''default'' ''n'') = Some (VString (bytes_of ''9223372036854775807''), Some 112)" by code_simp
  then have "live (clock_of ?se) (cell_of ?se ''n'') = Some (VString (bytes_of (FormatInt MaxInt64)), Some 112)"
    by (simp add: fmt(1) [symmetric] NewClientState_def defaultWorkspace_def live_def)
      (simp add: fresh_def server_def)
  moreover have "is_int64 MaxInt64" by (simp add: is_int64_def)
  ultimately show ?thesis
    using incr_wraps [OF fresh_ready [OF wf] up, of MaxInt64 "''n''" "Some 112" quietExt] fmt(2)
    by (simp only: Let_def refl if_True simp_thms)
qed

end
