(* ===== verification/ConnectionProperties.thy ===== *)
theory ConnectionProperties
  imports CommandProperties
begin

text \<open>
  What whole connections do, from the first byte to the clean-up: pipelining, the invariants they
  keep, workspace isolation, deliveries of published messages, and the statistics.
\<close>

section \<open>Engine calls of other workspaces\<close>

text \<open>A key of another workspace keeps its value, or an insert into a store with a cap has evicted it.\<close>

definition spared :: "Store \<Rightarrow> cell option \<Rightarrow> cell option \<Rightarrow> bool"
  where "spared s x y \<longleftrightarrow> y = x \<or> 0 < maxEntries s \<and> y = None"

lemma exec_other:
  assumes wf: "store_wf s" and env: "env_ok env" and ws: "op_ws op = Some ws" and ck: "\<not> hasPrefix ck (nsKey ws [])"
  shows "spared s (sraw s ck) (sraw (snd (exec env op s)) ck)"
proof -
  have out: "ck \<notin> nsKey ws ` A" for A using ck by (auto simp: hasPrefix_nsKey)
  have keep: "spared s (sraw s ck) (sraw s' ck)" if "sstep C n {} s s'" "ck \<notin> C" for C n s'
    using sstep_sraw [OF that] by (simp add: spared_def)
  show ?thesis
  proof (cases op)
    case (KeyOp w k kop)
    have i: "implements (nsKey ws k) (now env) 4 (max_evict s) (cellKey env kop) s (execKey env ws k kop s)"
      by (rule keyOp_implements [OF wf env])
    show ?thesis
    proof (cases "0 < maxEntries s")
      case True
      obtain V where "sstep {nsKey ws k} 4 V s (snd (execKey env ws k kop s))" using i by (auto simp: implements_def)
      with sstep_sraw [OF this, of ck] True KeyOp ws out [of "{k}"] show ?thesis by (simp add: spared_def)
    next
      case False
      then have "sstep {nsKey ws k} 4 {} s (snd (execKey env ws k kop s))" using i by (auto intro: implements_step0)
      with KeyOp ws keep out [of "{k}"] show ?thesis by auto
    qed
  next
    case (ODels w ks)
    with ws keep [OF Del_step [OF wf, of ws ks env] out] show ?thesis by simp
  next
    case (ORename w old new)
    with ws keep [OF Rename_step [OF wf, of ws old new env]] out [of "{old, new}"] show ?thesis by simp
  next
    case (OFlushDB w)
    with ws keep [OF FlushDB_step(1) [OF wf env, of ws]] ck show ?thesis by simp
  next
    case (OSInter w ks)
    with ws SInter_reply [OF wf env, of ws ks] keep [OF _ out] show ?thesis by (auto simp: set_reply_def)
  next
    case (OSUnion w ks)
    with ws SUnion_reply [OF wf, of env ws ks] keep [OF _ out] show ?thesis by (auto simp: set_reply_def)
  next
    case (OSDiff w ks)
    with ws SDiff_reply [OF wf env, of ws ks] keep [OF _ out] show ?thesis by (auto simp: set_reply_def)
  qed (use ws in \<open>simp_all add: spared_def\<close>)
qed

lemma run_other:
  assumes "store_wf s" "envs_ok ops"
    and "\<forall>(env, op) \<in> set ops. \<exists>ws. op_ws op = Some ws \<and> \<not> hasPrefix ck (nsKey ws [])"
  shows "spared s (sraw s ck) (sraw (snd (run ops s)) ck)"
  using assms
proof (induction ops s rule: run.induct)
  case (2 env op ops s)
  obtain r s1 where e: "exec env op s = (r, s1)" by fastforce
  have env: "env_ok env" "envs_ok ops" using 2(3) by (auto simp: envs_ok_def)
  obtain ws where ws: "op_ws op = Some ws" "\<not> hasPrefix ck (nsKey ws [])" using 2(4) by auto
  obtain C V where "sstep C (bumps op) V s s1" using exec_step [OF 2(2) env(1), of op] e by auto
  then have s1: "store_wf s1" "maxEntries s1 = maxEntries s" by (auto simp: sstep_def same_config_def)
  have "spared s (sraw s ck) (sraw s1 ck)" using exec_other [OF 2(2) env(1) ws] e by simp
  moreover have "spared s1 (sraw s1 ck) (sraw (snd (run ops s1)) ck)"
    by (rule 2(1) [OF e [symmetric] s1(1) env(2)]) (use 2(4) in auto)
  ultimately show ?case using e s1(2) by (auto simp: split_beta spared_def)
qed (simp add: spared_def)

lemma served_other:
  assumes "served W d d'" "store_wf (dEngine d)" "\<forall>n. env_ok (dEnv d n)"
    and "\<forall>ws \<in> W. \<not> hasPrefix ck (nsKey ws [])"
  shows "spared (dEngine d) (sraw (dEngine d) ck) (sraw (dEngine d') ck)"
proof -
  from assms(1) obtain ops ts where o: "length ts = length ops" "list_all (\<lambda>op. op_ws op \<in> Some ` W) ops"
      "dEngine d' = snd (run (zip (map (dEnv d) ts) ops) (dEngine d))"
    unfolding served_def by blast
  have "\<exists>ws. op_ws op = Some ws \<and> \<not> hasPrefix ck (nsKey ws [])" if "(env, op) \<in> set (zip (map (dEnv d) ts) ops)" for env op
  proof -
    have "op \<in> set ops" using that by (rule set_zip_rightD)
    with o(2) assms(4) show ?thesis by (auto simp: list_all_iff)
  qed
  then show ?thesis
    unfolding o(3) by (intro run_other [OF assms(2) served_envs_ok [OF assms(3)]]) auto
qed

section \<open>Pipelining\<close>

text \<open>
  C16. A client that sends any number of commands in one go, without waiting for replies, gets
  exactly the replies, in order, that the commands produce when they are dispatched one after the
  other, up to the first QUIT, and the connection then ends: closed by QUIT, or at the end of the
  input.
\<close>

theorem pipeline_in_order:
  assumes "\<forall>args \<in> set cmds. sendable args"
  shows "run_state (connLoop ext (concat (map encodeCommand cmds))) se =
    (case run_state (serveAll ext cmds) se of
       ((rs, quit), se') \<Rightarrow> ((concat (map encode rs), if quit then Closed else Disconnected), se'))"
  by (rule connLoop_pipeline [OF assms])

theorem pipeline_in_order_witness:
  "run_state (connLoop quietExt (concat (map encodeCommand [[''SET'', ''k'', ''v''], [''GET'', ''k'']]))) (fresh (auth_New []) demo) =
    (case run_state (serveAll quietExt [[''SET'', ''k'', ''v''], [''GET'', ''k'']]) (fresh (auth_New []) demo) of
       ((rs, quit), se') \<Rightarrow> ((concat (map encode rs), if quit then Closed else Disconnected), se'))"
  by (rule pipeline_in_order) (simp add: sendable_def arg_ok_def)

section \<open>What connections keep\<close>

definition accepted :: "nat \<Rightarrow> 'x Deps \<Rightarrow> 'x Session" \<comment> \<open>a new connection on running dependencies\<close>
  where "accepted i d = \<lparr>client = NewClientState i, deps = d\<rparr>"

lemma accepted_inv:
  assumes "ps_wf (dPubSub d)" "\<forall>n. env_ok (dEnv d n)" "MultiWorkspace (dAuth d) \<or> defaultWorkspace \<in> W" "J (dExt d)"
  shows "conn_inv J E reg W d i (accepted i d)"
  using assms by (auto simp: conn_inv_def cleared_def accepted_def NewClientState_def)

lemma cleanup_leaves:
  assumes "ps_wf (dPubSub (deps se))" "env_ok (dEnv (deps se) (dCalls (deps se)))"
  shows "fmlookup (subChs (dPubSub (deps (snd (run_state cleanupSubscriptions se))))) (clientId (client se)) = None"
  by (auto simp: cleanupSubscriptions_def hasSubCh_def run_broker Let_def)

lemma subs_wf_none: "subs_wf chs m \<Longrightarrow> fmlookup chs i = None \<Longrightarrow> i |\<notin>| subscribersOf ch m"
  by (cases "fmlookup m ch") (fastforce simp: subs_wf_def subscribersOf_def)+

lemma no_channel_no_subscription:
  "ps_wf p \<Longrightarrow> fmlookup (subChs p) i = None \<Longrightarrow> i |\<notin>| subscribersOf ch (channels p) \<and> i |\<notin>| subscribersOf ch (patterns p)"
  by (auto simp: ps_wf_def dest: subs_wf_none)

text \<open>
  At the end of a connection, whatever bytes it sent: the invariant of \<open>Isolation\<close> holds, and the
  connection has no message buffer.
\<close>

lemma connection_final:
  assumes "ps_wf (dPubSub d)" "\<forall>n. env_ok (dEnv d n)" "MultiWorkspace (dAuth d) \<or> defaultWorkspace \<in> W" "J (dExt d)"
    and "presented (dAuth d) inp \<subseteq> W" "\<forall>args \<in> set (commandsOf inp). E args" "ext_ok ext" "ext_keeps J E W (dAuth d) ext"
  shows "conn_inv J E (RegisterAll ext (\<lambda>args. ret NoReply)) W d i (snd (run_state (HandleConn ext inp) (accepted i d)))"
    and "fmlookup (subChs (dPubSub (deps (snd (run_state (HandleConn ext inp) (accepted i d)))))) i = None"
proof -
  let ?I = "conn_inv J E (RegisterAll ext (\<lambda>args. ret NoReply)) W d i"
  have start: "?I (accepted i d)" by (rule accepted_inv [where J = J, OF assms(1-4)])
  show "?I (snd (run_state (HandleConn ext inp) (accepted i d)))"
    by (rule keepsD [where I = ?I, OF HandleConn_guarded [where E = E, OF assms(5-8)] start])
  define se1 where "se1 = snd (run_state (connLoop ext inp) (snd (run_state (metric ConnectionOpened) (accepted i d))))"
  have "?I (snd (run_state (metric ConnectionOpened) (accepted i d)))"
    by (rule keepsD [where I = ?I, OF keeps_metric start])
  then have "?I se1"
    unfolding se1_def by (rule keepsD [where I = ?I, OF connLoop_guarded [where E = E, OF assms(5-8)]])
  then have se1: "ps_wf (dPubSub (deps se1))" "clientId (client se1) = i" "env_ok (dEnv (deps se1) (dCalls (deps se1)))"
    using assms(2) by (auto simp: conn_inv_def served_def)
  have "dPubSub (deps (snd (run_state (HandleConn ext inp) (accepted i d)))) =
      dPubSub (deps (snd (run_state cleanupSubscriptions se1)))"
    by (simp add: HandleConn_def se1_def split_beta)
  then show "fmlookup (subChs (dPubSub (deps (snd (run_state (HandleConn ext inp) (accepted i d)))))) i = None"
    using cleanup_leaves [OF se1(1,3)] se1(2) by simp
qed

definition tenants :: Authenticator \<comment> \<open>two workspaces with their passwords\<close>
  where "tenants = NewMultiWorkspace
    [\<lparr>credWorkspace = ''A'', credPassword = ''pa''\<rparr>, \<lparr>credWorkspace = ''w'', credPassword = ''pw''\<rparr>]"

section \<open>Publishing\<close>

text \<open>
  C34. PUBLISH appends to the buffer of every subscriber exactly the messages its subscriptions call
  for, one for the channel and one for every matching pattern, as far as the buffer has room; it
  drops the rest; and the count it returns is the number of messages it delivered to all buffers.
\<close>

theorem publish_delivers:
  assumes "env_ok env"
  shows "let (n, p') = Publish env channel payload p
    in (\<forall>cs. buffer cs (subChs p') = buffer cs (subChs p) @ take (room cs (subChs p)) (offered env channel payload cs p)) \<and>
       n = int (backlog (subChs p')) - int (backlog (subChs p)) \<and> channels p' = channels p \<and> patterns p' = patterns p"
  using Publish_buffer [OF assms, of _ channel payload p] Publish_count [of env channel payload p]
  by (simp add: split_beta)

theorem publish_delivers_witness:
  "let p = Subscribe 7 ''news'' (NewPubSub\<lparr>subChs := fmupd 7 [] fmempty\<rparr>)
   in buffer 7 (subChs (snd (Publish (env_at 1) ''news'' (bytes_of ''hi'') p))) =
      take subChCap [\<lparr>msgChannel = ''news'', msgPattern = [], msgPayload = bytes_of ''hi''\<rparr>]"
proof -
  let ?p = "Subscribe 7 ''news'' (NewPubSub\<lparr>subChs := fmupd 7 [] fmempty\<rparr>)"
  have "range_keys (env_at 1) (patterns ?p) = []" by code_simp
  then have o: "offered (env_at 1) ''news'' (bytes_of ''hi'') 7 ?p = [\<lparr>msgChannel = ''news'', msgPattern = [], msgPayload = bytes_of ''hi''\<rparr>]"
    by (simp add: offered_def Subscribe_def subscribers_add)
  have "buffer 7 (subChs ?p) = []" "room 7 (subChs ?p) = subChCap"
    by (simp_all add: buffer_def room_def Subscribe_def)
  with publish_delivers [of "env_at 1" "''news''" "bytes_of ''hi''" ?p] o show ?thesis
    by (simp add: split_beta Let_def)
qed

section \<open>Statistics\<close>

text \<open>
  The latency statistics are exact: after durations have been recorded for a family, and as
  long as their sum and number fit into 64 bits, its line of the snapshot holds their number, their
  truncated average and their maximum (or zero if all are negative).
\<close>

theorem latency_exact:
  assumes "ds \<noteq> []" "is_int64 (int (length ds))" "is_int64 (sum_list ds)"
  shows "latencyStats (latency (recordAll family ds NewMetrics)) family =
    \<lparr>lFamily = family, lCount = int (length ds), AvgNanos = quot (sum_list ds) (int (length ds)), MaxNanos = fold max ds 0\<rparr>"
proof -
  let ?z = "\<lparr>accCount = 0, sumNanos = 0, maxNanos = 0\<rparr>" and ?m = "recordAll family ds NewMetrics"
  have z: "is_int64 0" by (simp add: is_int64_def)
  have fin: "fmlookup (latency (fold (RecordCommandLatency family) ds m)) family \<noteq> None" if "ds \<noteq> []" for ds m
    using that by (induction ds rule: rev_induct) (simp_all add: RecordCommandLatency_def Let_def)
  have "accOf ?m family = fold recordLatency ds ?z" by (simp add: accOf_all NewMetrics_def)
  moreover obtain acc where acc: "fmlookup (latency ?m) family = Some acc"
    using fin [OF assms(1), of NewMetrics] by (auto simp: recordAll_def)
  ultimately have a: "acc = fold recordLatency ds ?z" by simp
  have "accCount acc = int (length ds)" "sumNanos acc = sum_list ds" "maxNanos acc = fold max ds 0"
    unfolding a using recorded_count [of ?z ds] recorded_sum [of ?z ds] recorded_max [of ds ?z] assms(2,3) z by simp_all
  with acc assms(1) show ?thesis by (simp add: latencyStats_def)
qed

theorem latency_exact_witness:
  "latencyStats (latency (recordAll ''strings'' [3, 8, 4] NewMetrics)) ''strings'' =
    \<lparr>lFamily = ''strings'', lCount = 3, AvgNanos = 5, MaxNanos = 8\<rparr>"
  using latency_exact [of "[3, 8, 4]" "''strings''"] by (simp add: is_int64_def quot_def)

text \<open>
  The set of latency families is not bounded by the command set: a client that sends unknown
  commands with made-up names before a dot, authenticated or not, adds a family for each of them.
\<close>

lemma no_junk: "fmlookup (RegisterAll ext h) (junk n) = None"
proof (rule ccontr)
  assume "fmlookup (RegisterAll ext h) (junk n) \<noteq> None"
  then obtain c where "cmdName c = junk n" "c \<in> set (allCommands ext numCommands h)" by (auto dest: lookup_name)
  moreover have "list_all (\<lambda>c. dropWhile (\<lambda>x. x = CHR ''A'') (cmdName c) \<noteq> ''.X'') (allCommands ext numCommands h)"
    by (simp add: allCommands_def command_lists flag_defs)
  ultimately have "dropWhile (\<lambda>x. x = CHR ''A'') (junk n) \<noteq> ''.X''" by (auto simp: list_all_iff)
  moreover have "dropWhile (\<lambda>x. x = CHR ''A'') (replicate (Suc n) (CHR ''A'') @ ''.X'') = ''.X''"
    by (subst dropWhile_append2) (simp_all del: replicate.simps)
  ultimately show False by (simp only: junk_def)
qed

abbreviation families :: "'x Session \<Rightarrow> string set"
  where "families se \<equiv> fmdom' (latency (dMetrics (deps se)))"

lemma serve_junk:
  "Quit (client (snd (run_state (serveCommand ext [junk n]) se))) = Quit (client se)"
  "families (snd (run_state (serveCommand ext [junk n]) se)) = insert (replicate (Suc n) (CHR ''a'')) (families se)"
  by (simp_all add: serveCommand_def dispatch_def Handle_def to_upper_junk no_junk commandFamily_junk
      RecordCommandLatency_def CommandExecuted_def Let_def del: replicate.simps)

lemma serveAll_junk:
  "\<not> Quit (client se) \<Longrightarrow> families (snd (run_state (serveAll ext (map (\<lambda>i. [junk i]) ns)) se)) =
    families se \<union> (\<lambda>i. replicate (Suc i) (CHR ''a'')) ` set ns"
proof (induction ns arbitrary: se)
  case (Cons i ns)
  then show ?case using serve_junk [of ext i se] by (auto simp: split_beta simp del: replicate.simps)
qed simp

theorem families_unbounded:
  assumes "\<not> Quit (client se)"
  shows "n \<le> fsize (latency (dMetrics (deps (snd (run_state (serveAll ext (map (\<lambda>i. [junk i]) [0..<n])) se)))))"
proof -
  let ?m = "latency (dMetrics (deps (snd (run_state (serveAll ext (map (\<lambda>i. [junk i]) [0..<n])) se))))"
  let ?F = "(\<lambda>i. replicate (Suc i) (CHR ''a'')) ` {0..<n}"
  have "?F \<subseteq> fmdom' ?m" using serveAll_junk [OF assms, of ext "[0..<n]"] by simp
  then have "card ?F \<le> card (fmdom' ?m)" by (intro card_mono) (simp_all add: fmdom'_alt_def)
  moreover have "inj_on (\<lambda>i. replicate (Suc i) (CHR ''a'')) {0..<n}"
    by (rule inj_onI) (metis length_replicate Suc_inject)
  ultimately show ?thesis by (simp add: card_image fsize_def fcard.rep_eq fmdom'_alt_def del: replicate.simps)
qed

theorem families_unbounded_witness:
  "1000 \<le> fsize (latency (dMetrics (deps (snd (run_state (serveAll quietExt (map (\<lambda>i. [junk i]) [0..<1000]))
     (fresh (auth_New ''secret'') demo))))))"
  by (rule families_unbounded) (simp add: NewClientState_def)

section \<open>The command table\<close>

lemma fsize_register:
  "distinct (map (\<lambda>c. to_upper (cmdName c)) cs) \<Longrightarrow> \<forall>c \<in> set cs. fmlookup r (to_upper (cmdName c)) = None \<Longrightarrow>
    fsize (fold Register cs r) = fsize r + length cs"
proof (induction cs arbitrary: r)
  case (Cons c cs)
  have "fsize (fold Register cs (Register c r)) = fsize (Register c r) + length cs"
    by (rule Cons.IH) (use Cons.prems in \<open>auto simp: Register_def\<close>)
  moreover have "fsize (Register c r) = Suc (fsize r)" using Cons.prems by (simp add: Register_def fsize_upd)
  ultimately show ?case by simp
qed simp

text \<open>
  The command table has the 93 commands of the registrations under 93 different names, and
  that is the number COMMAND COUNT replies, to any client at any time outside a transaction.
\<close>

theorem command_count:
  assumes "to_upper c = ''COMMAND''" "map upper_char n = ''COUNT''" "\<not> InMulti (client se)"
  shows "run_state (dispatch ext [c, n]) se = (Integer (int (fsize (RegisterAll ext (dispatch ext)))), se) \<and>
    fsize (RegisterAll ext (dispatch ext)) = 93"
proof -
  let ?cs = "allCommands ext numCommands (dispatch ext)"
  have names: "map (\<lambda>c. to_upper (cmdName c)) ?cs = map cmdName ?cs"
    using names_upper [of ext numCommands "dispatch ext"] by (simp add: list_all_iff)
  have "distinct (map cmdName ?cs)" by (simp add: allCommands_def command_lists flag_defs)
  then have size: "fsize (RegisterAll ext (dispatch ext)) = length ?cs"
    using fsize_register [of ?cs fmempty] unfolding names by (simp add: RegisterAll_def NewRegistry_def)
  have len: "length ?cs = 93" by (simp add: allCommands_def command_lists)
  have "fmlookup (RegisterAll ext (dispatchInner ext)) ''COMMAND'' = Some (noAuth (command ''COMMAND'' 1 (- 1) (handleCommand numCommands)))"
    unfolding lookup_all by (simp add: allCommands_def command_lists flag_defs)
  with assms size len show ?thesis
    by (simp add: dispatch_def [of ext] Handle_def flag_defs arityOK_def handleCommand_def numCommands_def del: to_upper.simps)
qed

theorem command_count_witness:
  "run_state (dispatch quietExt [''command'', ''count'']) (fresh (auth_New ''secret'') demo) =
    (Integer 93, fresh (auth_New ''secret'') demo)"
proof -
  have up: "to_upper ''command'' = ''COMMAND''" "map upper_char ''count'' = ''COUNT''" by code_simp+
  show ?thesis using command_count [OF up, of "fresh (auth_New ''secret'') demo" quietExt]
    by (simp add: NewClientState_def)
qed

section \<open>Passwords\<close>

text \<open>
  On a server with workspace credentials, AUTH with a password that belongs to a workspace logs
  the connection in to the workspace of the last credential with that password, and any other
  password is answered with WRONGPASS and changes nothing.
\<close>

theorem auth_selects_workspace:
  assumes "dAuth (deps se) = NewMultiWorkspace creds" "to_upper c = ''AUTH''" "\<not> InMulti (client se)"
  shows "run_state (dispatch ext [c, pw]) se =
    (case find (\<lambda>cr. credPassword cr = pw) (rev creds) of
       None \<Rightarrow> (Err ErrInvalidPasswordMsg, se)
     | Some cr \<Rightarrow> (OK, se\<lparr>client := (client se)\<lparr>Authenticated := True, Workspace := credWorkspace cr\<rparr>\<rparr>))"
proof -
  have m: "MultiWorkspace (NewMultiWorkspace creds)" "Required (NewMultiWorkspace creds)"
    by (simp_all add: MultiWorkspace_def Required_def NewMultiWorkspace_def)
  have "fmlookup (RegisterAll ext (dispatchInner ext)) ''AUTH'' = Some (noAuth (command ''AUTH'' 2 3 handleAuth))"
    unfolding lookup_all by (simp add: allCommands_def command_lists flag_defs)
  with assms m show ?thesis
    by (simp add: dispatch_def [of ext] Handle_def flag_defs arityOK_def handleAuth_def WorkspaceForPassword_last
        split: option.splits del: to_upper.simps)
qed

theorem auth_selects_workspace_witness:
  "run_state (dispatch quietExt [''AUTH'', ''nope'']) (fresh tenants demo) = (Err ErrInvalidPasswordMsg, fresh tenants demo)"
proof -
  have up: "to_upper ''AUTH'' = ''AUTH''" by code_simp
  show ?thesis
    using auth_selects_workspace [OF _ up, of "fresh tenants demo" _ quietExt "''nope''"]
    by (simp add: NewClientState_def tenants_def)
qed

end
