(* ===== verification/Vector.thy ===== *)
theory Vector
  imports Float64 SortSlice
begin

text \<open>
  Similarity of embeddings (\<^verbatim>\<open>embed/similarity.go\<close>) and the flat vector index
  (\<^verbatim>\<open>vector/index.go\<close>, \<^verbatim>\<open>vector/store.go\<close>). A \<^verbatim>\<open>float32\<close> is kept as
  the \<^verbatim>\<open>float64\<close> of the same value, so that the conversion \<^verbatim>\<open>float64(a[i])\<close> is the
  identity. Products and sums are rounded separately, as the amd64 compiler does (the language lets a
  compiler for other targets fuse them). The mutex of the index makes every operation atomic.

  \<^verbatim>\<open>tokenize\<close> splits and lower-cases Unicode text. The ASCII case is written out; for a text with
  other bytes the fields are those of an arbitrary function \<open>uni\<close>, an argument of the operations
  that tokenize.
\<close>

section \<open>Square root\<close>

function isqrt :: "int \<Rightarrow> int" where
  "isqrt n = (if n \<le> 0 then 0 else
     let r = 2 * isqrt (n div 4) in if (r + 1) * (r + 1) \<le> n then r + 1 else r)"
  by auto
termination by (relation "measure nat") auto

declare isqrt.simps [simp del]

text \<open>The integer nearest to the square root of \<open>y\<close>, ties to even.\<close>

definition round_sqrt :: "rat \<Rightarrow> int"
  where "round_sqrt y =
    (let f = isqrt \<lfloor>y\<rfloor>; m = (of_int f + 1 / 2) * (of_int f + 1 / 2)
     in if y < m then f else if m < y then f + 1 else if even f then f else f + 1)"

fun f64_sqrt :: "float64 \<Rightarrow> float64" where \<comment> \<open>\<^verbatim>\<open>math.Sqrt\<close>\<close>
  "f64_sqrt NaN = NaN"
| "f64_sqrt (Inf s) = (if s then NaN else Inf False)"
| "f64_sqrt (Fin s q) =
    (if q = 0 then Fin s 0 else if s then NaN else
       let j = ilog2 q div 2 - 52
       in Fin False (of_int (round_sqrt (q / (2 powi j * 2 powi j))) * 2 powi j))"

section \<open>Similarity\<close>

type_synonym vec = "float64 list" \<comment> \<open>\<^verbatim>\<open>[]float32\<close>\<close>

definition cosineStep :: "float64 \<times> float64 \<Rightarrow> float64 \<times> float64 \<times> float64 \<Rightarrow> float64 \<times> float64 \<times> float64"
  where "cosineStep = (\<lambda>(ai, bi) (dot, normA, normB).
    (f64_add dot (f64_mul ai bi), f64_add normA (f64_mul ai ai), f64_add normB (f64_mul bi bi)))"

definition Cosine :: "vec \<Rightarrow> vec \<Rightarrow> float64"
  where "Cosine a b =
    (if length a \<noteq> length b \<or> length a = 0 then NaN
     else case fold cosineStep (zip a b) (f64_zero, f64_zero, f64_zero) of
       (dot, normA, normB) \<Rightarrow>
         if f64_eq normA f64_zero \<or> f64_eq normB f64_zero then NaN
         else f64_div dot (f64_mul (f64_sqrt normA) (f64_sqrt normB)))"

definition Dot :: "vec \<Rightarrow> vec \<Rightarrow> float64"
  where "Dot a b =
    (if length a \<noteq> length b \<or> length a = 0 then NaN
     else fold (\<lambda>(ai, bi) dot. f64_add dot (f64_mul ai bi)) (zip a b) f64_zero)"

definition Euclidean :: "vec \<Rightarrow> vec \<Rightarrow> float64"
  where "Euclidean a b =
    (if length a \<noteq> length b \<or> length a = 0 then NaN
     else f64_sqrt (fold (\<lambda>(ai, bi) sumSq.
            let d = f64_sub ai bi in f64_add sumSq (f64_mul d d)) (zip a b) f64_zero))"

section \<open>The index\<close>

datatype DistanceMetric = MCosine | MDot | MEuclidean

record vecEntry =
  veVector :: vec
  veMetadata :: "(string, string) fmap"
  veText :: string

record Result =
  rID :: string
  rScore :: float64

record HybridOpts =
  QueryText :: string
  Alpha :: float64

type_synonym vectorStore = "(string, (string, vecEntry) fmap) fmap"

definition vector_New :: vectorStore
  where "vector_New = fmempty"

definition vector_ns :: "string \<Rightarrow> vectorStore \<Rightarrow> (string, vecEntry) fmap" \<comment> \<open>\<^verbatim>\<open>s.namespaces[namespace]\<close>\<close>
  where "vector_ns namespace s = (case fmlookup s namespace of None \<Rightarrow> fmempty | Some ns \<Rightarrow> ns)"

definition vector_Upsert :: "string \<Rightarrow> string \<Rightarrow> vec \<Rightarrow> (string, string) fmap \<Rightarrow> string \<Rightarrow> vectorStore \<Rightarrow> vectorStore"
  where "vector_Upsert namespace vid vec metadata text s =
    (let ns = vector_ns namespace s
     in fmupd namespace (fmupd vid \<lparr>veVector = vec, veMetadata = metadata, veText = text\<rparr> ns) s)"

definition vector_Delete :: "string \<Rightarrow> string \<Rightarrow> vectorStore \<Rightarrow> bool \<times> vectorStore"
  where "vector_Delete namespace vid s =
    (case fmlookup s namespace of
       None \<Rightarrow> (False, s)
     | Some ns \<Rightarrow>
         (case fmlookup ns vid of
            None \<Rightarrow> (False, s)
          | Some _ \<Rightarrow> (True, fmupd namespace (fmdrop vid ns) s)))"

definition rawScore :: "vec \<Rightarrow> vec \<Rightarrow> DistanceMetric \<Rightarrow> float64 option" \<comment> \<open>\<open>None\<close> for \<^verbatim>\<open>ok = false\<close>\<close>
  where "rawScore a b metric =
    (let v = (case metric of MDot \<Rightarrow> Dot a b | MEuclidean \<Rightarrow> Euclidean a b | MCosine \<Rightarrow> Cosine a b)
     in if is_nan v then None else Some v)"

definition normalizeForBlend :: "float64 \<Rightarrow> DistanceMetric \<Rightarrow> float64"
  where "normalizeForBlend score metric =
    (if metric = MEuclidean then f64_div f64_one (f64_add f64_one score) else score)"

definition matchesFilter :: "goenv \<Rightarrow> (string, string) fmap \<Rightarrow> (string, string) fmap \<Rightarrow> bool"
  where "matchesFilter env metadata flt \<longleftrightarrow>
    list_all (\<lambda>k. fmlookup metadata k = fmlookup flt k) (range_keys env flt)"

definition is_space :: "char \<Rightarrow> bool" \<comment> \<open>tab to carriage return, and the space\<close>
  where "is_space c \<longleftrightarrow> c \<in> {CHR 0x09, CHR 0x0A, CHR 0x0B, CHR 0x0C, CHR 0x0D, CHR '' ''}"

fun ascii_fields :: "string \<Rightarrow> string \<Rightarrow> string list" \<comment> \<open>\<^verbatim>\<open>strings.Fields\<close>; the field being read comes first, reversed\<close>
where
  "ascii_fields w [] = (if w = [] then [] else [rev w])"
| "ascii_fields w (c # cs) =
    (if is_space c then (if w = [] then ascii_fields [] cs else rev w # ascii_fields [] cs)
     else ascii_fields (c # w) cs)"

definition tokenize :: "(string \<Rightarrow> string list) \<Rightarrow> string \<Rightarrow> string fset"
  where "tokenize uni s = fset_of_list (if ascii s then ascii_fields [] (to_lower s) else uni s)"

definition keywordScore :: "(string \<Rightarrow> string list) \<Rightarrow> string \<Rightarrow> string \<Rightarrow> float64"
  where "keywordScore uni query text =
    (let qTokens = tokenize uni query in
     if fcard qTokens = 0 then f64_zero else
     let tTokens = tokenize uni text in
     if fcard tTokens = 0 then f64_zero else
     let matched = fcard (ffilter (\<lambda>t. t |\<in>| tTokens) qTokens)
     in f64_div (f64_of_int (int matched)) (f64_of_int (int (fcard qTokens))))"

text \<open>One iteration of the loop of \<^verbatim>\<open>Search\<close>; \<open>None\<close> is its \<^verbatim>\<open>continue\<close>.\<close>

definition searchHit :: "goenv \<Rightarrow> (string \<Rightarrow> string list) \<Rightarrow> vec \<Rightarrow> DistanceMetric \<Rightarrow> (string, string) fmap
    \<Rightarrow> HybridOpts option \<Rightarrow> string \<times> vecEntry \<Rightarrow> Result option"
  where "searchHit env uni vec metric flt hybrid = (\<lambda>(vid, e).
    if \<not> matchesFilter env (veMetadata e) flt then None
    else if length (veVector e) \<noteq> length vec then None
    else case rawScore vec (veVector e) metric of
      None \<Rightarrow> None
    | Some score \<Rightarrow>
        Some \<lparr>rID = vid, rScore =
          (case hybrid of
             None \<Rightarrow> score
           | Some h \<Rightarrow>
               f64_add (f64_mul (Alpha h) (normalizeForBlend score metric))
                 (f64_mul (f64_sub f64_one (Alpha h)) (keywordScore uni (QueryText h) (veText e))))\<rparr>)"

definition betterHit :: "bool \<Rightarrow> Result \<Rightarrow> Result \<Rightarrow> bool" \<comment> \<open>the comparison given to \<^verbatim>\<open>sort.Slice\<close>\<close>
  where "betterHit higherIsBetter a b =
    (if \<not> f64_eq (rScore a) (rScore b)
     then (if higherIsBetter then f64_lt (rScore b) (rScore a) else f64_lt (rScore a) (rScore b))
     else rID a < rID b)"

definition vector_Search :: "goenv \<Rightarrow> (string \<Rightarrow> string list) \<Rightarrow> string \<Rightarrow> vec \<Rightarrow> int \<Rightarrow> DistanceMetric
    \<Rightarrow> (string, string) fmap \<Rightarrow> HybridOpts option \<Rightarrow> vectorStore \<Rightarrow> Result list"
  where "vector_Search env uni namespace vec k metric flt hybrid s =
    (if k \<le> 0 then []
     else
       let ns = vector_ns namespace s;
           candidates = List.map_filter (\<lambda>vid. map_option (Pair vid) (fmlookup ns vid)) (range_keys env ns);
           results = List.map_filter (searchHit env uni vec metric flt hybrid) candidates;
           higherIsBetter = (hybrid \<noteq> None \<or> metric \<noteq> MEuclidean)
       in take (nat k) (insertionSort (betterHit higherIsBetter) results))"

section \<open>Rounding of the square root\<close>

lemma isqrt_bounds:
  assumes "0 \<le> n"
  shows "0 \<le> isqrt n \<and> isqrt n * isqrt n \<le> n \<and> n < (isqrt n + 1) * (isqrt n + 1)"
  using assms
proof (induction n rule: isqrt.induct)
  case (1 n)
  show ?case
  proof (cases "n = 0")
    case False
    define r where "r = isqrt (n div 4)"
    have ih: "0 \<le> r" "r * r \<le> n div 4" "n div 4 < (r + 1) * (r + 1)"
      using 1 False by (simp_all add: r_def)
    have lo: "(2 * r) * (2 * r) \<le> n" using ih(2) by linarith
    have "n div 4 + 1 \<le> (r + 1) * (r + 1)" using ih(3) by simp
    then have hi: "n < (2 * r + 2) * (2 * r + 2)" by (simp add: algebra_simps)
    have "isqrt n = (if (2 * r + 1) * (2 * r + 1) \<le> n then 2 * r + 1 else 2 * r)"
      using False 1(2) by (simp add: isqrt.simps [of n] r_def Let_def)
    with lo hi ih(1) show ?thesis by (simp add: add.commute)
  qed (simp add: isqrt.simps)
qed

text \<open>The rounded square root is within one half of the exact one: its square brackets the radicand.\<close>

lemma round_sqrt_nearest:
  assumes "0 \<le> y"
  defines "n \<equiv> of_int (round_sqrt y) :: rat"
  shows "0 \<le> n" and "y \<le> (n + 1 / 2) * (n + 1 / 2)" and "1 / 2 \<le> n \<longrightarrow> (n - 1 / 2) * (n - 1 / 2) \<le> y"
proof -
  define f where "f = isqrt \<lfloor>y\<rfloor>"
  have "0 \<le> \<lfloor>y\<rfloor>" using assms(1) by simp
  from isqrt_bounds [OF this] have f0: "0 \<le> f" and b: "f * f \<le> \<lfloor>y\<rfloor>" "\<lfloor>y\<rfloor> + 1 \<le> (f + 1) * (f + 1)"
    by (simp_all add: f_def)
  have "(of_int (f * f) :: rat) \<le> of_int \<lfloor>y\<rfloor>" using b(1) by (simp only: of_int_le_iff)
  then have lo: "of_int f * of_int f \<le> y"
    by (simp only: of_int_mult le_floor_iff order.trans [OF _ of_int_floor_le])
  have "(of_int (\<lfloor>y\<rfloor> + 1) :: rat) \<le> of_int ((f + 1) * (f + 1))" using b(2) by (simp only: of_int_le_iff)
  then have hi: "y < (of_int f + 1) * (of_int f + 1)"
    using floor_correct [of y] by simp
  have n: "n = of_int f \<and> y \<le> (of_int f + 1 / 2) * (of_int f + 1 / 2)
    \<or> n = of_int f + 1 \<and> (of_int f + 1 / 2) * (of_int f + 1 / 2) \<le> y"
    unfolding n_def round_sqrt_def f_def [symmetric] Let_def by (auto simp: not_less)
  have sq: "x * x \<le> z * z" if "0 \<le> x" "x \<le> z" for x z :: rat
    using that by (intro mult_mono) auto
  show "0 \<le> n" using n f0 by auto
  show "y \<le> (n + 1 / 2) * (n + 1 / 2)"
    using n hi sq [of "of_int f + 1" "3 / 2 + of_int f"] f0 by (auto simp: add.commute)
  show "1 / 2 \<le> n \<longrightarrow> (n - 1 / 2) * (n - 1 / 2) \<le> y"
    using n lo sq [of "of_int f - 1 / 2" "of_int f"] by (auto simp: add.commute)
qed

text \<open>Evaluation: a square root is known from the interval around it.\<close>

lemma isqrt_eqI:
  assumes "0 \<le> r" "r * r \<le> n" "n < (r + 1) * (r + 1)"
  shows "isqrt n = r"
proof -
  have "0 \<le> n" using assms(1,2) by (meson mult_nonneg_nonneg order.trans)
  note b = isqrt_bounds [OF this]
  have "\<not> r + 1 \<le> isqrt n"
  proof
    assume "r + 1 \<le> isqrt n"
    then have "(r + 1) * (r + 1) \<le> isqrt n * isqrt n" using assms(1) by (intro mult_mono) auto
    with b assms(3) show False by linarith
  qed
  moreover have "\<not> isqrt n + 1 \<le> r"
  proof
    assume "isqrt n + 1 \<le> r"
    then have "(isqrt n + 1) * (isqrt n + 1) \<le> r * r" using b by (intro mult_mono) auto
    with b assms(2) show False by linarith
  qed
  ultimately show ?thesis by linarith
qed

lemma f64_sqrtI:
  assumes "2 powi e \<le> q" "q < 2 powi (e + 1)" "0 \<le> f"
    and "q / (2 powi (e div 2 - 52) * 2 powi (e div 2 - 52)) = of_int y"
    and "f * f \<le> y" "y < (f + 1) * (f + 1)" "n = (if y \<le> f * f + f then f else f + 1)"
  shows "f64_sqrt (Fin False q) = Fin False (of_int n * 2 powi (e div 2 - 52))"
proof -
  have q: "0 < q" using assms(1) powi_two_pos [of e] by linarith
  have "isqrt y = f" using assms(3,5,6) by (rule isqrt_eqI)
  moreover have "of_int y < (of_int f + 1 / 2) * (of_int f + 1 / 2 :: rat) \<longleftrightarrow> y \<le> f * f + f"
  proof -
    have "(of_int f + 1 / 2) * (of_int f + 1 / 2 :: rat) = of_int (f * f + f) + 1 / 4"
      by (simp add: algebra_simps)
    then show ?thesis by linarith
  qed
  moreover have "(of_int f + 1 / 2) * (of_int f + 1 / 2 :: rat) \<noteq> of_int y"
  proof
    assume "(of_int f + 1 / 2) * (of_int f + 1 / 2 :: rat) = of_int y"
    then have "of_int (4 * (f * f + f) + 1) = (of_int (4 * y) :: rat)" by (simp add: algebra_simps)
    then have "4 * (f * f + f) + 1 = 4 * y" by (simp only: of_int_eq_iff)
    then show False by presburger
  qed
  ultimately have "round_sqrt (of_int y) = n" using assms(7) by (auto simp: round_sqrt_def Let_def)
  then show ?thesis using q ilog2_eqI [OF assms(1,2)] assms(4) by (simp add: Let_def)
qed

section \<open>Similarity is symmetric\<close>

lemma f64_mul_commute: "f64_mul x y = f64_mul y x"
  by (cases x; cases y) (auto simp: mult.commute intro!: arg_cong2 [where f = f64_round])

lemma cosine_fold_swap:
  "fold cosineStep (zip b a) (d, q, p) =
    (case fold cosineStep (zip a b) (d, p, q) of (d', p', q') \<Rightarrow> (d', q', p'))"
proof (induction a b arbitrary: d p q rule: list_induct2')
  case (4 x xs y ys)
  then show ?case by (simp add: cosineStep_def f64_mul_commute [of y x])
qed simp_all

lemma Cosine_commute: "Cosine a b = Cosine b a"
  using cosine_fold_swap [of a b f64_zero f64_zero f64_zero]
  by (auto simp: Cosine_def f64_mul_commute split: prod.splits)

section \<open>The ranking\<close>

lemma betterHit_alt:
  "betterHit True a b \<longleftrightarrow> f64_lt (rScore b) (rScore a) \<or> f64_eq (rScore a) (rScore b) \<and> rID a < rID b"
  "betterHit False a b \<longleftrightarrow> f64_lt (rScore a) (rScore b) \<or> f64_eq (rScore a) (rScore b) \<and> rID a < rID b"
  using f64_lt_eq [of "rScore a" "rScore b" "rScore a"] f64_eq_sym [of "rScore a" "rScore b"]
    f64_lt_eq [of "rScore b" "rScore a" "rScore b"]
  by (auto simp: betterHit_def)

lemma betterHit_orders:
  assumes "\<And>a. a \<in> A \<Longrightarrow> \<not> is_nan (rScore a)" "inj_on rID A"
  shows "orders (betterHit hb) A"
  unfolding orders_def
proof (intro conjI ballI impI)
  fix x y z
  assume "betterHit hb x y" "betterHit hb y z"
  then show "betterHit hb x z"
    by (cases hb; simp only: betterHit_alt;
      meson f64_lt_trans f64_eq_lt f64_lt_eq f64_eq_trans f64_eq_sym order.strict_trans)
next
  fix x y
  assume xy: "x \<in> A" "y \<in> A" "x \<noteq> y"
  then have "rID x \<noteq> rID y" using assms(2) by (auto simp: inj_on_def)
  moreover have "f64_lt (rScore x) (rScore y) \<or> f64_eq (rScore x) (rScore y) \<or> f64_lt (rScore y) (rScore x)"
    using assms(1) xy f64_trichotomy by blast
  ultimately show "betterHit hb x y \<or> betterHit hb y x"
    using f64_eq_sym [of "rScore x" "rScore y"] by (cases hb) (auto simp: betterHit_alt)
qed (auto simp: betterHit_def)

text \<open>
  What a search has to choose from: the hits of the entries of the namespace, one per entry that
  passes the filter, has the query's dimension and a defined score.
\<close>

definition hits :: "(string \<Rightarrow> string list) \<Rightarrow> string \<Rightarrow> vec \<Rightarrow> DistanceMetric \<Rightarrow> (string, string) fmap
    \<Rightarrow> HybridOpts option \<Rightarrow> vectorStore \<Rightarrow> Result set"
  where "hits uni namespace vec metric flt hybrid s =
    {r. \<exists>e sc. fmlookup (vector_ns namespace s) (rID r) = Some e \<and>
       (\<forall>k v. fmlookup flt k = Some v \<longrightarrow> fmlookup (veMetadata e) k = Some v) \<and>
       length (veVector e) = length vec \<and> rawScore vec (veVector e) metric = Some sc \<and>
       rScore r = (case hybrid of None \<Rightarrow> sc | Some h \<Rightarrow>
         f64_add (f64_mul (Alpha h) (normalizeForBlend sc metric))
           (f64_mul (f64_sub f64_one (Alpha h)) (keywordScore uni (QueryText h) (veText e))))}"

lemma matchesFilter_iff:
  "env_ok env \<Longrightarrow> matchesFilter env md flt \<longleftrightarrow> (\<forall>k v. fmlookup flt k = Some v \<longrightarrow> fmlookup md k = Some v)"
  by (auto simp: matchesFilter_def list_all_iff fmdom'_lookup)

lemma searchHit_Some:
  assumes "env_ok env" "fmlookup (vector_ns namespace s) vid = Some e"
  shows "searchHit env uni vec metric flt hybrid (vid, e) = Some r \<longleftrightarrow>
    rID r = vid \<and> r \<in> hits uni namespace vec metric flt hybrid s"
  using assms by (cases r) (auto simp: searchHit_def hits_def matchesFilter_iff split: option.splits)

definition searchResults :: "goenv \<Rightarrow> (string \<Rightarrow> string list) \<Rightarrow> string \<Rightarrow> vec \<Rightarrow> DistanceMetric
    \<Rightarrow> (string, string) fmap \<Rightarrow> HybridOpts option \<Rightarrow> vectorStore \<Rightarrow> Result list"
  where "searchResults env uni namespace vec metric flt hybrid s =
    List.map_filter (searchHit env uni vec metric flt hybrid)
      (List.map_filter (\<lambda>vid. map_option (Pair vid) (fmlookup (vector_ns namespace s) vid))
        (range_keys env (vector_ns namespace s)))"

lemma vector_Search_alt:
  "vector_Search env uni namespace vec k metric flt hybrid s =
    take (nat k) (insertionSort (betterHit (hybrid \<noteq> None \<or> metric \<noteq> MEuclidean))
      (searchResults env uni namespace vec metric flt hybrid s))"
  by (simp add: vector_Search_def searchResults_def Let_def)

lemma set_map_filter: "set (List.map_filter f xs) = {y. \<exists>x\<in>set xs. f x = Some y}"
  by (force simp: List.map_filter_def)

lemma set_searchResults:
  assumes "env_ok env"
  shows "set (searchResults env uni namespace vec metric flt hybrid s) =
    hits uni namespace vec metric flt hybrid s"
  using searchHit_Some [OF assms]
  by (force simp: searchResults_def set_map_filter assms fmdom'_lookup hits_def)

lemma distinct_rIDs:
  assumes "env_ok env"
  shows "distinct (map rID (searchResults env uni namespace vec metric flt hybrid s))"
proof -
  have "distinct (map rID (List.map_filter (searchHit env uni vec metric flt hybrid)
      (List.map_filter (\<lambda>vid. map_option (Pair vid) (fmlookup ns vid)) ids)))
    \<and> rID ` set (List.map_filter (searchHit env uni vec metric flt hybrid)
      (List.map_filter (\<lambda>vid. map_option (Pair vid) (fmlookup ns vid)) ids)) \<subseteq> set ids"
    if "distinct ids" for ids ns
    using that
    by (induction ids) (auto simp: map_filter_simps searchHit_def split: option.splits if_splits)
  then show ?thesis using assms by (simp add: searchResults_def)
qed

lemma distinct_searchResults: "env_ok env \<Longrightarrow> distinct (searchResults env uni namespace vec metric flt hybrid s)"
  using distinct_rIDs by (simp add: distinct_map)

text \<open>Without NaN scores the hits are strictly ordered, and a search returns their first \<open>k\<close>.\<close>

lemma hits_plain_no_nan: "r \<in> hits uni namespace vec metric flt None s \<Longrightarrow> \<not> is_nan (rScore r)"
  by (auto simp: hits_def rawScore_def Let_def split: if_splits)

lemma hits_orders:
  assumes "\<forall>r\<in>hits uni namespace vec metric flt hybrid s. \<not> is_nan (rScore r)"
  shows "orders (betterHit hb) (hits uni namespace vec metric flt hybrid s)"
proof (rule betterHit_orders)
  show "inj_on rID (hits uni namespace vec metric flt hybrid s)"
    by (rule inj_onI) (auto simp: hits_def intro!: Result.equality)
qed (use assms in blast)

lemma orders_top:
  assumes "orders lt (set xs)" "distinct xs" "a \<in> set (take n (insertionSort lt xs))"
    "b \<in> set xs" "b \<notin> set (take n (insertionSort lt xs))"
  shows "lt a b"
proof -
  let ?ys = "insertionSort lt xs"
  have "sorted_wrt lt (take n ?ys @ drop n ?ys)" using insertionSort_sorted [OF assms(1,2)] by simp
  moreover have "b \<in> set (take n ?ys @ drop n ?ys)" using assms(4) by simp
  ultimately show ?thesis using assms(3,5) by (auto simp: sorted_wrt_append simp del: append_take_drop_id)
qed

lemma vector_Search_top:
  fixes k :: int
  assumes "env_ok env" "\<forall>r\<in>hits uni namespace vec metric flt hybrid s. \<not> is_nan (rScore r)"
  defines "H \<equiv> hits uni namespace vec metric flt hybrid s"
    and "hb \<equiv> hybrid \<noteq> None \<or> metric \<noteq> MEuclidean"
    and "out \<equiv> vector_Search env uni namespace vec k metric flt hybrid s"
  shows "finite H" "set out \<subseteq> H" "length out = min (nat k) (card H)" "sorted_wrt (betterHit hb) out"
    "\<And>a b. a \<in> set out \<Longrightarrow> b \<in> H - set out \<Longrightarrow> betterHit hb a b"
proof -
  let ?xs = "searchResults env uni namespace vec metric flt hybrid s"
  have H: "set ?xs = H" unfolding H_def by (rule set_searchResults [OF assms(1)])
  have d: "distinct ?xs" by (rule distinct_searchResults [OF assms(1)])
  have o: "orders (betterHit hb) (set ?xs)"
    unfolding H unfolding H_def by (rule hits_orders [OF assms(2)])
  have out: "out = take (nat k) (insertionSort (betterHit hb) ?xs)"
    by (simp add: out_def hb_def vector_Search_alt)
  show "finite H" using H by (metis finite_set)
  show "set out \<subseteq> H" using set_take_subset [of "nat k" "insertionSort (betterHit hb) ?xs"] by (simp add: out H)
  have "length (insertionSort (betterHit hb) ?xs) = length ?xs" by (metis mset_insertionSort size_mset)
  then show "length out = min (nat k) (card H)" using distinct_card [OF d] by (simp add: out H min.commute)
  show "sorted_wrt (betterHit hb) out" unfolding out by (rule sorted_wrt_take [OF insertionSort_sorted [OF o d]])
  show "betterHit hb a b" if "a \<in> set out" "b \<in> H - set out" for a b
    using orders_top [OF o d] that by (auto simp: out H)
qed

text \<open>Nor does its result depend on the order in which the map of the namespace is ranged over.\<close>

lemma vector_Search_env:
  assumes "env_ok env" "env_ok env'" "\<forall>r\<in>hits uni namespace vec metric flt hybrid s. \<not> is_nan (rScore r)"
  shows "vector_Search env uni namespace vec k metric flt hybrid s =
    vector_Search env' uni namespace vec k metric flt hybrid s"
proof -
  have "mset (searchResults env uni namespace vec metric flt hybrid s) =
      mset (searchResults env' uni namespace vec metric flt hybrid s)"
    by (simp add: set_eq_iff_mset_eq_distinct [symmetric] distinct_searchResults set_searchResults assms(1,2))
  then have "insertionSort (betterHit hb) (searchResults env uni namespace vec metric flt hybrid s) =
      insertionSort (betterHit hb) (searchResults env' uni namespace vec metric flt hybrid s)" for hb
    by (intro insertionSort_cong_mset)
      (simp_all add: set_searchResults [OF assms(1)] hits_orders [OF assms(3)] distinct_searchResults [OF assms(1)])
  then show ?thesis by (simp only: vector_Search_alt)
qed

section \<open>What the index stores\<close>

lemma vector_ns_Upsert [simp]:
  "vector_ns n (vector_Upsert m i v md t s) =
    (if n = m then fmupd i \<lparr>veVector = v, veMetadata = md, veText = t\<rparr> (vector_ns m s) else vector_ns n s)"
  by (auto simp: vector_ns_def vector_Upsert_def Let_def)

lemma vector_ns_Delete [simp]:
  "vector_ns n (snd (vector_Delete m i s)) = (if n = m then fmdrop i (vector_ns m s) else vector_ns n s)"
  by (auto simp: vector_ns_def vector_Delete_def fmdrop_idle fmdom_lookup split: option.splits)

lemma vector_Delete_found: "fst (vector_Delete m i s) \<longleftrightarrow> fmlookup (vector_ns m s) i \<noteq> None"
  by (auto simp: vector_ns_def vector_Delete_def split: option.splits)

lemma vector_ns_New [simp]: "vector_ns n vector_New = fmempty"
  by (simp add: vector_ns_def vector_New_def)

text \<open>A search that does not blend text never tokenizes.\<close>

lemma vector_Search_uni:
  "vector_Search env uni namespace vec k metric flt None s = vector_Search env uni' namespace vec k metric flt None s"
proof -
  have "searchHit env uni vec metric flt None = searchHit env uni' vec metric flt None"
    by (auto simp: searchHit_def fun_eq_iff split: option.splits)
  then show ?thesis by (simp add: vector_Search_def)
qed

end
