(* ===== verification/Caches.thy ===== *)
theory Caches
  imports Vector
begin

text \<open>
  The response caches: \<^verbatim>\<open>semantic.SemanticCache\<close> (\<^verbatim>\<open>semantic/cache.go\<close>), which answers with
  the closest prompt of a partition; and two exact-match caches, \<^verbatim>\<open>semantic.PromptCache\<close>
  (\<^verbatim>\<open>semantic/keying.go\<close>) and \<^verbatim>\<open>toolcache.ToolCache\<close> (\<^verbatim>\<open>toolcache/toolcache.go\<close>). The
  latter two satisfy one contract, the locale \<open>expiring_cache\<close>: a lookup answers with the last value
  stored under the key as long as it has not expired, whatever was looked up in between.

  The embedding provider is an interface of the program; the operations that embed take it as an
  argument \<open>provider\<close>, the outcome of \<^verbatim>\<open>embed.EmbedOne\<close> for every text at the time of the call.
\<close>

section \<open>Expiry\<close>

definition expiredAt :: "instant option \<Rightarrow> instant \<Rightarrow> bool"
  where "expiredAt expiresAt t = (case expiresAt of None \<Rightarrow> False | Some x \<Rightarrow> \<not> x > t)"

definition deadline :: "instant \<Rightarrow> duration \<Rightarrow> instant option" \<comment> \<open>the \<^verbatim>\<open>expiresAt\<close> of an entry stored at an instant\<close>
  where "deadline t ttl = (if ttl > 0 then Some (time_add t ttl) else None)"

lemma expiredAt_simps [simp]: "\<not> expiredAt None t" "expiredAt (Some x) t \<longleftrightarrow> x \<le> t"
  by (auto simp: expiredAt_def)

lemma expiredAt_mono: "t \<le> u \<Longrightarrow> expiredAt x t \<Longrightarrow> expiredAt x u"
  by (cases x) auto

lemma expired_deadline: "expiredAt (deadline t ttl) u \<longleftrightarrow> 0 < ttl \<and> t + ttl \<le> u"
  by (simp add: deadline_def time_add_def)

section \<open>The semantic cache\<close>

type_synonym provider = "string \<Rightarrow> string + vec" \<comment> \<open>\<open>Inl\<close> the text of the error\<close>

record semanticEntry =
  sePrompt :: string
  seEmbedding :: vec
  seResponse :: string
  seExpiresAt :: "instant option"
  seCost :: float64

type_synonym SemanticCache = "(string, semanticEntry list) fmap"

definition semantic_New :: SemanticCache
  where "semantic_New = fmempty"

definition partitionKey :: "string \<Rightarrow> string \<Rightarrow> string"
  where "partitionKey model temp = model @ [CHR 0x00] @ temp"

definition partition_of :: "string \<Rightarrow> SemanticCache \<Rightarrow> semanticEntry list" \<comment> \<open>\<^verbatim>\<open>c.partitions[key]\<close>\<close>
  where "partition_of key c = (case fmlookup c key of None \<Rightarrow> [] | Some es \<Rightarrow> es)"

definition semantic_Set :: "instant \<Rightarrow> provider \<Rightarrow> string \<Rightarrow> string \<Rightarrow> string \<Rightarrow> string \<Rightarrow> duration \<Rightarrow> float64
    \<Rightarrow> SemanticCache \<Rightarrow> (string + unit) \<times> SemanticCache"
  where "semantic_Set t provider prompt model temp response ttl cost c =
    (case provider prompt of
       Inl err \<Rightarrow> (Inl err, c)
     | Inr v \<Rightarrow>
         (let e = \<lparr>sePrompt = prompt, seEmbedding = v, seResponse = response,
                   seExpiresAt = deadline t ttl, seCost = cost\<rparr>;
              key = partitionKey model temp
          in (Inr (), fmupd key (partition_of key c @ [e]) c)))"

fun semanticScan :: "instant \<Rightarrow> vec \<Rightarrow> semanticEntry list \<Rightarrow> semanticEntry list \<Rightarrow> int \<Rightarrow> float64
    \<Rightarrow> semanticEntry list \<times> int \<times> float64" where
  "semanticScan t v [] kept bestIdx bestScore = (kept, bestIdx, bestScore)"
| "semanticScan t v (e # es) kept bestIdx bestScore =
    (if expiredAt (seExpiresAt e) t then semanticScan t v es kept bestIdx bestScore
     else
       let kept' = kept @ [e]; score = Cosine v (seEmbedding e)
       in if is_nan score then semanticScan t v es kept' bestIdx bestScore
          else if f64_lt bestScore score then semanticScan t v es kept' (int (length kept') - 1) score
          else semanticScan t v es kept' bestIdx bestScore)"

definition semantic_Get :: "instant \<Rightarrow> provider \<Rightarrow> string \<Rightarrow> string \<Rightarrow> string \<Rightarrow> float64
    \<Rightarrow> SemanticCache \<Rightarrow> (string + (string \<times> float64) option) \<times> SemanticCache"
  where "semantic_Get t provider prompt model temp threshold c =
    (case provider prompt of
       Inl err \<Rightarrow> (Inl err, c)
     | Inr v \<Rightarrow>
         (let key = partitionKey model temp in
          case semanticScan t v (partition_of key c) [] (- 1) (Inf True) of
            (kept, bestIdx, bestScore) \<Rightarrow>
              (Inr (if bestIdx < 0 \<or> f64_lt bestScore threshold then None
                    else Some (seResponse (kept ! nat bestIdx), seCost (kept ! nat bestIdx))),
               fmupd key kept c)))"

section \<open>The prompt cache\<close>

record promptEntry =
  peResponse :: string
  peExpiresAt :: "instant option"
  peCost :: float64

type_synonym PromptCache = "(string, promptEntry) fmap"

definition NewPromptCache :: PromptCache
  where "NewPromptCache = fmempty"

definition PromptCache_Set :: "instant \<Rightarrow> string \<Rightarrow> string \<Rightarrow> duration \<Rightarrow> float64 \<Rightarrow> PromptCache \<Rightarrow> PromptCache"
  where "PromptCache_Set t key response ttl cost p =
    fmupd key \<lparr>peResponse = response, peExpiresAt = deadline t ttl, peCost = cost\<rparr> p"

definition PromptCache_Get :: "instant \<Rightarrow> string \<Rightarrow> PromptCache \<Rightarrow> (string \<times> float64) option \<times> PromptCache"
  where "PromptCache_Get t key p =
    (case fmlookup p key of
       None \<Rightarrow> (None, p)
     | Some e \<Rightarrow>
         if expiredAt (peExpiresAt e) t then (None, fmdrop key p)
         else (Some (peResponse e, peCost e), p))"

section \<open>The tool cache\<close>

record toolEntry =
  teResult :: string
  teExpiresAt :: "instant option"

type_synonym ToolCache = "(string, toolEntry) fmap"

definition toolcache_New :: ToolCache
  where "toolcache_New = fmempty"

definition ToolCache_Set :: "instant \<Rightarrow> string \<Rightarrow> string \<Rightarrow> duration \<Rightarrow> ToolCache \<Rightarrow> ToolCache"
  where "ToolCache_Set t key result ttl c = fmupd key \<lparr>teResult = result, teExpiresAt = deadline t ttl\<rparr> c"

text \<open>
  \<^verbatim>\<open>Get\<close> reads under the read lock and, when the entry has expired, takes the write lock to evict it.
  The two critical sections are two steps; another goroutine may run between them, and each reads the
  clock itself.
\<close>

definition toolRead :: "instant \<Rightarrow> string \<Rightarrow> ToolCache \<Rightarrow> toolEntry option \<times> bool" \<comment> \<open>the entry, and whether it has expired\<close>
  where "toolRead t key c =
    (case fmlookup c key of None \<Rightarrow> (None, False) | Some e \<Rightarrow> (Some e, expiredAt (teExpiresAt e) t))"

definition toolEvict :: "instant \<Rightarrow> string \<Rightarrow> ToolCache \<Rightarrow> ToolCache"
  where "toolEvict t key c =
    (case fmlookup c key of
       None \<Rightarrow> c
     | Some e2 \<Rightarrow> if expiredAt (teExpiresAt e2) t then fmdrop key c else c)"

definition ToolCache_Get :: "instant \<Rightarrow> instant \<Rightarrow> string \<Rightarrow> ToolCache \<Rightarrow> string option \<times> ToolCache"
  where "ToolCache_Get t1 t2 key c =
    (case toolRead t1 key c of
       (None, _) \<Rightarrow> (None, c)
     | (Some e, expired) \<Rightarrow> if expired then (None, toolEvict t2 key c) else (Some (teResult e), c))"

section \<open>The contract of the exact-match caches\<close>

text \<open>
  \<open>live t c k\<close> is the value a cache holds for a key at an instant. A client sees a cache only through
  it: lookups report it and leave it alone, a store overrides one key until the deadline.
\<close>

datatype 'v cacheOp = CSet string 'v duration | CGet string

primrec lastSet :: "string \<Rightarrow> (instant \<times> 'v cacheOp) list \<Rightarrow> (instant \<times> 'v \<times> duration) option" where
  "lastSet k [] = None"
| "lastSet k (x # xs) =
    (case lastSet k xs of
       Some r \<Rightarrow> Some r
     | None \<Rightarrow> (case x of (t, CSet k' v ttl) \<Rightarrow> if k' = k then Some (t, v, ttl) else None | _ \<Rightarrow> None))"

locale expiring_cache =
  fixes put :: "instant \<Rightarrow> string \<Rightarrow> 'v \<Rightarrow> duration \<Rightarrow> 'c \<Rightarrow> 'c"
    and get :: "instant \<Rightarrow> string \<Rightarrow> 'c \<Rightarrow> 'v option \<times> 'c"
    and live :: "instant \<Rightarrow> 'c \<Rightarrow> string \<Rightarrow> 'v option"
  assumes get_live: "fst (get t k c) = live t c k"
    and get_keeps: "t \<le> u \<Longrightarrow> live u (snd (get t k c)) = live u c"
    and put_live: "t \<le> u \<Longrightarrow> live u (put t k v ttl c) =
      (live u c)(k := if ttl \<le> 0 \<or> u < t + ttl then Some v else None)"
begin

primrec run :: "(instant \<times> 'v cacheOp) list \<Rightarrow> 'c \<Rightarrow> 'c" where
  "run [] c = c"
| "run (x # xs) c = run xs (case x of (t, CSet k v ttl) \<Rightarrow> put t k v ttl c | (t, CGet k) \<Rightarrow> snd (get t k c))"

lemma live_run:
  assumes "\<forall>x\<in>set xs. fst x \<le> u"
  shows "live u (run xs c) k =
    (case lastSet k xs of
       None \<Rightarrow> live u c k
     | Some (t, v, ttl) \<Rightarrow> if ttl \<le> 0 \<or> u < t + ttl then Some v else None)"
  using assms
proof (induction xs arbitrary: c)
  case (Cons x xs)
  obtain t op where x: "x = (t, op)" by (cases x)
  then have t: "t \<le> u" using Cons.prems by simp
  show ?case
    using Cons t by (cases op) (auto simp: x put_live get_keeps split: option.splits)
qed simp

theorem get_run:
  assumes "\<forall>x\<in>set xs. fst x \<le> u"
  shows "fst (get u k (run xs c)) =
    (case lastSet k xs of
       None \<Rightarrow> fst (get u k c)
     | Some (t, v, ttl) \<Rightarrow> if ttl \<le> 0 \<or> u < t + ttl then Some v else None)"
  using live_run [OF assms] by (simp add: get_live cong: option.case_cong)

end

definition prompt_live :: "instant \<Rightarrow> PromptCache \<Rightarrow> string \<Rightarrow> (string \<times> float64) option"
  where "prompt_live t p k =
    (case fmlookup p k of
       None \<Rightarrow> None
     | Some e \<Rightarrow> if expiredAt (peExpiresAt e) t then None else Some (peResponse e, peCost e))"

definition tool_live :: "instant \<Rightarrow> ToolCache \<Rightarrow> string \<Rightarrow> string option"
  where "tool_live t c k =
    (case fmlookup c k of
       None \<Rightarrow> None
     | Some e \<Rightarrow> if expiredAt (teExpiresAt e) t then None else Some (teResult e))"

interpretation prompt: expiring_cache
  "\<lambda>t k v ttl p. PromptCache_Set t k (fst v) ttl (snd v) p" PromptCache_Get prompt_live
proof unfold_locales
  fix t u :: instant and k c
  assume "t \<le> u"
  then show "prompt_live u (snd (PromptCache_Get t k c)) = prompt_live u c"
    by (auto simp: PromptCache_Get_def prompt_live_def fun_eq_iff dest: expiredAt_mono split: option.splits)
next
  fix t u ttl :: int and k v c
  assume "t \<le> u"
  then show "prompt_live u (PromptCache_Set t k (fst v) ttl (snd v) c) =
      (prompt_live u c)(k := if ttl \<le> 0 \<or> u < t + ttl then Some v else None)"
    by (auto simp: PromptCache_Set_def prompt_live_def expired_deadline fun_eq_iff)
qed (auto simp: PromptCache_Get_def prompt_live_def split: option.splits)

text \<open>Evicting never loses a live entry, whatever was stored since the entry was read.\<close>

lemma toolEvict_live: "t \<le> u \<Longrightarrow> tool_live u (toolEvict t key c) = tool_live u c"
  by (auto simp: toolEvict_def tool_live_def fun_eq_iff dest: expiredAt_mono split: option.splits)

interpretation tool: expiring_cache ToolCache_Set "\<lambda>t. ToolCache_Get t t" tool_live
proof unfold_locales
  fix t u :: instant and k c
  assume "t \<le> u"
  then show "tool_live u (snd (ToolCache_Get t t k c)) = tool_live u c"
    by (auto simp: ToolCache_Get_def toolRead_def toolEvict_live split: option.splits)
next
  fix t u ttl :: int and k v c
  assume "t \<le> u"
  then show "tool_live u (ToolCache_Set t k v ttl c) =
      (tool_live u c)(k := if ttl \<le> 0 \<or> u < t + ttl then Some v else None)"
    by (auto simp: ToolCache_Set_def tool_live_def expired_deadline fun_eq_iff)
qed (auto simp: ToolCache_Get_def toolRead_def tool_live_def split: option.splits)

section \<open>The best match of the semantic cache\<close>

definition live_entries :: "instant \<Rightarrow> string \<Rightarrow> SemanticCache \<Rightarrow> semanticEntry list"
  where "live_entries t key c = filter (\<lambda>e. \<not> expiredAt (seExpiresAt e) t) (partition_of key c)"

text \<open>
  Entry \<open>i\<close> is the best match: its score is defined, no other is higher, and an earlier one is
  strictly lower.
\<close>

definition best_at :: "vec \<Rightarrow> semanticEntry list \<Rightarrow> nat \<Rightarrow> bool"
  where "best_at v es i \<longleftrightarrow> i < length es \<and> f64_lt (Inf True) (Cosine v (seEmbedding (es ! i))) \<and>
    (\<forall>j<length es. \<not> f64_lt (Cosine v (seEmbedding (es ! i))) (Cosine v (seEmbedding (es ! j)))) \<and>
    (\<forall>j<i. is_nan (Cosine v (seEmbedding (es ! j))) \<or>
       f64_lt (Cosine v (seEmbedding (es ! j))) (Cosine v (seEmbedding (es ! i))))"

definition no_match :: "vec \<Rightarrow> semanticEntry list \<Rightarrow> bool"
  where "no_match v es \<longleftrightarrow> (\<forall>e\<in>set es. \<not> f64_lt (Inf True) (Cosine v (seEmbedding e)))"

lemma best_at_unique: "best_at v es i \<Longrightarrow> best_at v es j \<Longrightarrow> i = j"
  using f64_lt_not_nan unfolding best_at_def by (metis linorder_neqE_nat)

lemma best_at_append:
  "best_at v es i \<Longrightarrow> \<not> f64_lt (Cosine v (seEmbedding (es ! i))) (Cosine v (seEmbedding e)) \<Longrightarrow> best_at v (es @ [e]) i"
  by (auto simp: best_at_def nth_append less_Suc_eq)

lemma best_at_new:
  assumes "no_match v es \<or> best_at v es i \<and> f64_lt (Cosine v (seEmbedding (es ! i))) (Cosine v (seEmbedding e))"
    and "f64_lt (Inf True) (Cosine v (seEmbedding e))"
  shows "best_at v (es @ [e]) (length es)"
proof -
  let ?s = "\<lambda>e. Cosine v (seEmbedding e)"
  have low: "is_nan (?s x) \<or> f64_lt (?s x) (?s e)" if "x \<in> set es" for x
    using assms(1)
  proof
    assume "no_match v es"
    then have "\<not> f64_lt (Inf True) (?s x)" using that by (auto simp: no_match_def)
    then show ?thesis using assms(2) by (cases "?s x"; cases "?s e") auto
  next
    assume b: "best_at v es i \<and> f64_lt (?s (es ! i)) (?s e)"
    then have "\<not> f64_lt (?s (es ! i)) (?s x)" using that by (auto simp: best_at_def in_set_conv_nth)
    then show ?thesis
      using b f64_lt_not_nan [of "?s (es ! i)" "?s e"] f64_trichotomy [of "?s x" "?s (es ! i)"]
      by (metis f64_eq_lt f64_lt_trans)
  qed
  then have "\<not> f64_lt (?s e) (?s x)" if "x \<in> set es" for x
    using that f64_lt_asym f64_lt_not_nan by blast
  with low assms(2) show ?thesis by (auto simp: best_at_def nth_append less_Suc_eq)
qed

definition scanned :: "vec \<Rightarrow> semanticEntry list \<Rightarrow> int \<Rightarrow> float64 \<Rightarrow> bool"
  where "scanned v kept bestIdx bestScore \<longleftrightarrow>
    bestIdx = - 1 \<and> bestScore = Inf True \<and> no_match v kept \<or>
    0 \<le> bestIdx \<and> best_at v kept (nat bestIdx) \<and> bestScore = Cosine v (seEmbedding (kept ! nat bestIdx))"

lemma semanticScan_best:
  assumes "scanned v kept bestIdx bestScore"
    and "semanticScan t v es kept bestIdx bestScore = (kept', idx, score)"
  shows "kept' = kept @ filter (\<lambda>e. \<not> expiredAt (seExpiresAt e) t) es \<and> scanned v kept' idx score"
  using assms
proof (induction es arbitrary: kept bestIdx bestScore)
  case (Cons e es)
  let ?s = "Cosine v (seEmbedding e)"
  show ?case
  proof (cases "expiredAt (seExpiresAt e) t")
    case False
    have skip: "scanned v (kept @ [e]) bestIdx bestScore" if "\<not> f64_lt bestScore ?s"
      using Cons.prems(1) that best_at_append [of v kept "nat bestIdx" e]
      unfolding scanned_def best_at_def no_match_def by (auto simp: nth_append)
    have take: "scanned v (kept @ [e]) (int (length kept)) ?s" if "f64_lt bestScore ?s"
    proof -
      have "f64_lt (Inf True) ?s"
        using that Cons.prems(1) f64_lt_trans unfolding scanned_def best_at_def by metis
      moreover have "no_match v kept \<or> best_at v kept (nat bestIdx) \<and> f64_lt (Cosine v (seEmbedding (kept ! nat bestIdx))) ?s"
        using that Cons.prems(1) unfolding scanned_def by metis
      ultimately show ?thesis using best_at_new [of v kept "nat bestIdx" e] by (simp add: scanned_def)
    qed
    have nan: "\<not> f64_lt bestScore ?s" if "is_nan ?s" using that f64_lt_not_nan by blast
    from Cons.prems(2) False show ?thesis
      using Cons.IH [OF skip] Cons.IH [OF take] nan by (auto simp: Let_def split: if_splits)
  qed (use Cons in simp)
qed simp

lemma semantic_Get_char:
  fixes t :: instant and model temp :: string and c :: SemanticCache
  assumes "provider prompt = Inr v"
  defines "L \<equiv> live_entries t (partitionKey model temp) c"
  shows "snd (semantic_Get t provider prompt model temp threshold c) = fmupd (partitionKey model temp) L c"
    and "fst (semantic_Get t provider prompt model temp threshold c) = Inr r \<longleftrightarrow>
      (case r of
         Some (response, cost) \<Rightarrow> \<exists>i. best_at v L i \<and> \<not> f64_lt (Cosine v (seEmbedding (L ! i))) threshold \<and>
           response = seResponse (L ! i) \<and> cost = seCost (L ! i)
       | None \<Rightarrow> \<forall>i. best_at v L i \<longrightarrow> f64_lt (Cosine v (seEmbedding (L ! i))) threshold)"
proof -
  obtain kept idx score where
    s: "semanticScan t v (partition_of (partitionKey model temp) c) [] (- 1) (Inf True) = (kept, idx, score)"
    using prod_cases3 by blast
  have "scanned v [] (- 1) (Inf True)" by (simp add: scanned_def no_match_def)
  from semanticScan_best [OF this s] have k: "kept = L" and sc: "scanned v L idx score"
    by (auto simp: L_def live_entries_def)
  show "snd (semantic_Get t provider prompt model temp threshold c) = fmupd (partitionKey model temp) L c"
    using s k assms(1) by (simp add: semantic_Get_def Let_def)
  have nm: "\<not> best_at v L i" if "no_match v L" for i using that by (auto simp: no_match_def best_at_def)
  have res: "fst (semantic_Get t provider prompt model temp threshold c) =
      Inr (if idx < 0 \<or> f64_lt score threshold then None
           else Some (seResponse (L ! nat idx), seCost (L ! nat idx)))"
    using s k assms(1) by (simp add: semantic_Get_def Let_def)
  show "fst (semantic_Get t provider prompt model temp threshold c) = Inr r \<longleftrightarrow>
      (case r of
         Some (response, cost) \<Rightarrow> \<exists>i. best_at v L i \<and> \<not> f64_lt (Cosine v (seEmbedding (L ! i))) threshold \<and>
           response = seResponse (L ! i) \<and> cost = seCost (L ! i)
       | None \<Rightarrow> \<forall>i. best_at v L i \<longrightarrow> f64_lt (Cosine v (seEmbedding (L ! i))) threshold)"
    using sc nm best_at_unique [of v L "nat idx"]
    unfolding res scanned_def by (auto split: option.splits)
qed

end
