(* ===== verification/Memory.thy ===== *)
theory Memory
  imports Caches
begin

text \<open>
  Agent memory (\<^verbatim>\<open>memory/kinds.go\<close>, \<^verbatim>\<open>memory/memory.go\<close>, \<^verbatim>\<open>memory/store.go\<close>): versioned
  records per workspace with lazy expiry, a bounded history of the versions each record replaced, and
  a vector index for similarity search. \<open>mem_ok\<close> is the invariant of the store: the index holds exactly
  the embeddings of the records, a history belongs to a record and leads up to it version by version,
  and no history exceeds its bound.

  \<^verbatim>\<open>crypto/rand\<close> is an argument: the sixteen bytes it returns, or its error. The mutex makes every
  operation atomic, except that \<^verbatim>\<open>Search\<close> queries the index before it takes the lock
  (\<open>searchRank\<close>, \<open>searchCollect\<close>).
\<close>

section \<open>Kinds\<close>

datatype MemKind = ShortTerm | LongTerm | Episodic | Semantic

fun MemKind_String :: "MemKind \<Rightarrow> string" where
  "MemKind_String ShortTerm = ''short_term''"
| "MemKind_String LongTerm = ''long_term''"
| "MemKind_String Episodic = ''episodic''"
| "MemKind_String Semantic = ''semantic''"

definition ParseKind :: "string \<Rightarrow> MemKind option"
  where "ParseKind s =
    (let l = to_lower s in
     if l = ''short_term'' then Some ShortTerm
     else if l = ''long_term'' then Some LongTerm
     else if l = ''episodic'' then Some Episodic
     else if l = ''semantic'' then Some Semantic
     else None)"

lemma ParseKind_String: "ParseKind (MemKind_String k) = Some k"
  by (cases k) (simp_all add: ParseKind_def Let_def, code_simp+)

lemma MemKind_String_inj [simp]: "MemKind_String a = MemKind_String b \<longleftrightarrow> a = b"
  by (cases a; cases b) simp_all

section \<open>Records\<close>

record Memory =
  mID :: string
  mAgentID :: string
  mWorkspaceID :: string
  mKind :: MemKind
  mContent :: string
  mEmbedding :: vec
  mMetadata :: "(string, string) fmap"
  mCreatedAt :: instant
  mVersion :: int
  mExpiresAt :: "instant option"

definition memory_expired :: "Memory \<Rightarrow> instant \<Rightarrow> bool"
  where "memory_expired m t = expiredAt (mExpiresAt m) t"

record SearchOptions =
  soAgentID :: string
  soKind :: "MemKind option"
  soK :: int
  soThreshold :: "float64 option"

record ListOptions =
  loAgentID :: string
  loKind :: "MemKind option"

record MemoryStore =
  msVec :: vectorStore
  msRecords :: "(string, (string, Memory) fmap) fmap"
  msHistory :: "(string, (string, Memory list) fmap) fmap"

definition memory_New :: MemoryStore
  where "memory_New = \<lparr>msVec = vector_New, msRecords = fmempty, msHistory = fmempty\<rparr>"

definition maxMemoryHistoryPerRecord :: nat where "maxMemoryHistoryPerRecord = 100"
definition memory_defaultSearchK :: int where "memory_defaultSearchK = 10"

definition records_of :: "string \<Rightarrow> MemoryStore \<Rightarrow> (string, Memory) fmap" \<comment> \<open>\<^verbatim>\<open>s.records[workspaceID]\<close>\<close>
  where "records_of w s = (case fmlookup (msRecords s) w of None \<Rightarrow> fmempty | Some ws \<Rightarrow> ws)"

definition history_of :: "string \<Rightarrow> string \<Rightarrow> MemoryStore \<Rightarrow> Memory list" \<comment> \<open>\<^verbatim>\<open>s.history[workspaceID][id]\<close>\<close>
  where "history_of w i s =
    (case fmlookup (msHistory s) w of
       None \<Rightarrow> []
     | Some ws \<Rightarrow> (case fmlookup ws i of None \<Rightarrow> [] | Some h \<Rightarrow> h))"

section \<open>Operations\<close>

definition hex_digit :: "nat \<Rightarrow> char"
  where "hex_digit n = (if n < 10 then char_of (48 + n) else char_of (87 + n))"

definition hex_encode :: "nat list \<Rightarrow> string" \<comment> \<open>\<^verbatim>\<open>hex.EncodeToString\<close>\<close>
  where "hex_encode bs = concat (map (\<lambda>b. [hex_digit (b div 16), hex_digit (b mod 16)]) bs)"

definition newID :: "string + nat list \<Rightarrow> string + string"
  where "newID rnd = (case rnd of Inl err \<Rightarrow> Inl (''memory: generate id: '' @ err) | Inr b \<Rightarrow> Inr (hex_encode b))"

definition recordHistoryLocked :: "string \<Rightarrow> string \<Rightarrow> Memory \<Rightarrow> MemoryStore \<Rightarrow> MemoryStore"
  where "recordHistoryLocked w i prior s =
    (let ws = (case fmlookup (msHistory s) w of None \<Rightarrow> fmempty | Some ws \<Rightarrow> ws);
         h = history_of w i s @ [prior];
         h' = (if length h > maxMemoryHistoryPerRecord then drop (length h - maxMemoryHistoryPerRecord) h else h)
     in s\<lparr>msHistory := fmupd w (fmupd i h' ws) (msHistory s)\<rparr>)"

definition deleteHistoryLocked :: "string \<Rightarrow> string \<Rightarrow> MemoryStore \<Rightarrow> MemoryStore"
  where "deleteHistoryLocked w i s =
    (case fmlookup (msHistory s) w of
       None \<Rightarrow> s
     | Some ws \<Rightarrow> s\<lparr>msHistory := fmupd w (fmdrop i ws) (msHistory s)\<rparr>)"

definition evictLocked :: "string \<Rightarrow> string \<Rightarrow> MemoryStore \<Rightarrow> MemoryStore" \<comment> \<open>what every read does with an expired record\<close>
  where "evictLocked w i s =
    (let s1 = s\<lparr>msRecords := fmupd w (fmdrop i (records_of w s)) (msRecords s)\<rparr>;
         s2 = s1\<lparr>msVec := snd (vector_Delete w i (msVec s1))\<rparr>
     in deleteHistoryLocked w i s2)"

definition indexMetadata :: "string \<Rightarrow> MemKind \<Rightarrow> (string, string) fmap"
  where "indexMetadata agent kind = fmap_of_list [(''agent_id'', agent), (''kind'', MemKind_String kind)]"

definition memory_Put :: "instant \<Rightarrow> provider \<Rightarrow> string + nat list \<Rightarrow> Memory \<Rightarrow> duration
    \<Rightarrow> MemoryStore \<Rightarrow> (string + string) \<times> MemoryStore"
  where "memory_Put t provider rnd m ttl s =
    (if mWorkspaceID m = [] then (Inl ''memory: workspace is required'', s)
     else case provider (mContent m) of
       Inl err \<Rightarrow> (Inl err, s)
     | Inr v \<Rightarrow>
         (case (if mID m = [] then newID rnd else Inr (mID m)) of
            Inl err \<Rightarrow> (Inl err, s)
          | Inr i \<Rightarrow>
              (let w = mWorkspaceID m;
                   ws = records_of w s;
                   (version, createdAt, s1) =
                     (case fmlookup ws i of
                        None \<Rightarrow> (1, t, s)
                      | Some existing \<Rightarrow>
                          (int64 (mVersion existing + 1), mCreatedAt existing, recordHistoryLocked w i existing s));
                   rec = \<lparr>mID = i, mAgentID = mAgentID m, mWorkspaceID = w, mKind = mKind m,
                          mContent = mContent m, mEmbedding = v, mMetadata = mMetadata m,
                          mCreatedAt = createdAt, mVersion = version, mExpiresAt = deadline t ttl\<rparr>
               in (Inr i,
                   s1\<lparr>msRecords := fmupd w (fmupd i rec ws) (msRecords s1),
                      msVec := vector_Upsert w i v (indexMetadata (mAgentID m) (mKind m)) [] (msVec s1)\<rparr>))))"

definition memory_Get :: "instant \<Rightarrow> string \<Rightarrow> string \<Rightarrow> MemoryStore \<Rightarrow> Memory option \<times> MemoryStore"
  where "memory_Get t w i s =
    (case fmlookup (msRecords s) w of
       None \<Rightarrow> (None, s)
     | Some ws \<Rightarrow>
         (case fmlookup ws i of
            None \<Rightarrow> (None, s)
          | Some rec \<Rightarrow> if memory_expired rec t then (None, evictLocked w i s) else (Some rec, s)))"

definition searchFilter :: "SearchOptions \<Rightarrow> (string, string) fmap"
  where "searchFilter opts =
    (let f0 = fmempty;
         f1 = (if soAgentID opts \<noteq> [] then fmupd ''agent_id'' (soAgentID opts) f0 else f0)
     in case soKind opts of None \<Rightarrow> f1 | Some k \<Rightarrow> fmupd ''kind'' (MemKind_String k) f1)"

definition searchRank :: "goenv \<Rightarrow> string \<Rightarrow> vec \<Rightarrow> SearchOptions \<Rightarrow> MemoryStore \<Rightarrow> Result list"
  where "searchRank env w v opts s =
    vector_Search env (\<lambda>_. []) w v (if soK opts \<le> 0 then memory_defaultSearchK else soK opts)
      MCosine (searchFilter opts) None (msVec s)"

fun searchCollect :: "instant \<Rightarrow> string \<Rightarrow> float64 option \<Rightarrow> Result list \<Rightarrow> MemoryStore \<Rightarrow> Result list \<times> MemoryStore" where
  "searchCollect t w threshold [] s = ([], s)"
| "searchCollect t w threshold (r # rs) s =
    (case fmlookup (records_of w s) (rID r) of
       None \<Rightarrow> searchCollect t w threshold rs s
     | Some rec \<Rightarrow>
         if memory_expired rec t then searchCollect t w threshold rs (evictLocked w (rID r) s)
         else if (case threshold of None \<Rightarrow> False | Some th \<Rightarrow> f64_lt (rScore r) th)
         then searchCollect t w threshold rs s
         else (case searchCollect t w threshold rs s of (out, s') \<Rightarrow> (r # out, s')))"

definition memory_Search :: "goenv \<Rightarrow> provider \<Rightarrow> string \<Rightarrow> string \<Rightarrow> SearchOptions
    \<Rightarrow> MemoryStore \<Rightarrow> (string + Result list) \<times> MemoryStore"
  where "memory_Search env provider w query opts s =
    (case provider query of
       Inl err \<Rightarrow> (Inl err, s)
     | Inr v \<Rightarrow>
         (case searchCollect (now env) w (soThreshold opts) (searchRank env w v opts s) s of
            (out, s') \<Rightarrow> (Inr out, s')))"

definition memory_History :: "instant \<Rightarrow> string \<Rightarrow> string \<Rightarrow> MemoryStore \<Rightarrow> Memory list \<times> MemoryStore" \<comment> \<open>nil is \<open>[]\<close>\<close>
  where "memory_History t w i s =
    (case fmlookup (msRecords s) w of
       None \<Rightarrow> ([], s)
     | Some ws \<Rightarrow>
         (case fmlookup ws i of
            None \<Rightarrow> ([], s)
          | Some rec \<Rightarrow>
              if memory_expired rec t then ([], evictLocked w i s)
              else (history_of w i s @ [rec], s)))"

fun listLoop :: "instant \<Rightarrow> string \<Rightarrow> ListOptions \<Rightarrow> string list \<Rightarrow> MemoryStore \<Rightarrow> Memory list \<times> MemoryStore" where
  "listLoop t w opts [] s = ([], s)"
| "listLoop t w opts (i # is) s =
    (case fmlookup (records_of w s) i of
       None \<Rightarrow> listLoop t w opts is s
     | Some rec \<Rightarrow>
         if memory_expired rec t then listLoop t w opts is (evictLocked w i s)
         else if loAgentID opts \<noteq> [] \<and> mAgentID rec \<noteq> loAgentID opts then listLoop t w opts is s
         else if (case loKind opts of None \<Rightarrow> False | Some k \<Rightarrow> mKind rec \<noteq> k) then listLoop t w opts is s
         else (case listLoop t w opts is s of (out, s') \<Rightarrow> (rec # out, s')))"

definition memory_List :: "goenv \<Rightarrow> string \<Rightarrow> ListOptions \<Rightarrow> MemoryStore \<Rightarrow> Memory list \<times> MemoryStore"
  where "memory_List env w opts s =
    (case fmlookup (msRecords s) w of
       None \<Rightarrow> ([], s)
     | Some ws \<Rightarrow> listLoop (now env) w opts (range_keys env ws) s)"

section \<open>The parts of the store that an operation touches\<close>

lemma records_of_upd [simp]: "records_of w (s\<lparr>msRecords := fmupd w' ws R\<rparr>) =
    (if w = w' then ws else records_of w (s\<lparr>msRecords := R\<rparr>))"
  by (simp add: records_of_def)

lemma view_frames [simp]:
  "records_of w (s\<lparr>msVec := V\<rparr>) = records_of w s" "records_of w (s\<lparr>msHistory := H\<rparr>) = records_of w s"
  "history_of w i (s\<lparr>msVec := V\<rparr>) = history_of w i s" "history_of w i (s\<lparr>msRecords := R\<rparr>) = history_of w i s"
  by (simp_all add: records_of_def history_of_def)

lemma records_same [simp]: "records_of w (s\<lparr>msRecords := msRecords s'\<rparr>) = records_of w s'"
  by (simp add: records_of_def)

lemma deleteHistory_views [simp]:
  "records_of w' (deleteHistoryLocked w i s) = records_of w' s" "msVec (deleteHistoryLocked w i s) = msVec s"
  "history_of w' j (deleteHistoryLocked w i s) = (if w' = w \<and> j = i then [] else history_of w' j s)"
  by (auto simp: deleteHistoryLocked_def records_of_def history_of_def split: option.splits)

lemma recordHistory_views [simp]:
  "records_of w' (recordHistoryLocked w i p s) = records_of w' s" "msVec (recordHistoryLocked w i p s) = msVec s"
  "msRecords (recordHistoryLocked w i p s) = msRecords s"
  "history_of w' j (recordHistoryLocked w i p s) =
    (if w' = w \<and> j = i then drop (Suc (length (history_of w i s)) - maxMemoryHistoryPerRecord) (history_of w i s @ [p])
     else history_of w' j s)"
  by (auto simp: recordHistoryLocked_def records_of_def history_of_def Let_def split: option.splits)

lemma evict_views [simp]:
  "records_of w' (evictLocked w i s) = (if w' = w then fmdrop i (records_of w s) else records_of w' s)"
  "vector_ns w' (msVec (evictLocked w i s)) = (if w' = w then fmdrop i (vector_ns w (msVec s)) else vector_ns w' (msVec s))"
  "history_of w' j (evictLocked w i s) = (if w' = w \<and> j = i then [] else history_of w' j s)"
  by (auto simp: evictLocked_def Let_def)

lemma memory_Get_alt:
  "memory_Get t w i s =
    (case fmlookup (records_of w s) i of
       None \<Rightarrow> (None, s)
     | Some rec \<Rightarrow> if memory_expired rec t then (None, evictLocked w i s) else (Some rec, s))"
  by (simp add: memory_Get_def records_of_def split: option.splits)

lemma memory_History_alt:
  "memory_History t w i s =
    (case fmlookup (records_of w s) i of
       None \<Rightarrow> ([], s)
     | Some rec \<Rightarrow> if memory_expired rec t then ([], evictLocked w i s) else (history_of w i s @ [rec], s))"
  by (simp add: memory_History_def records_of_def split: option.splits)

lemma range_keys_empty [simp]: "env_ok env \<Longrightarrow> range_keys env fmempty = []"
  by (metis fsize_empty length_0_conv length_range_keys)

lemma memory_List_alt:
  "env_ok env \<Longrightarrow> memory_List env w opts s = listLoop (now env) w opts (range_keys env (records_of w s)) s"
  by (simp add: memory_List_def records_of_def split: option.splits)

text \<open>What a successful \<^verbatim>\<open>Put\<close> stores, given the record it replaces.\<close>

definition newVersion :: "instant \<Rightarrow> vec \<Rightarrow> string \<Rightarrow> Memory \<Rightarrow> duration \<Rightarrow> Memory option \<Rightarrow> Memory"
  where "newVersion t v i m ttl old =
    \<lparr>mID = i, mAgentID = mAgentID m, mWorkspaceID = mWorkspaceID m, mKind = mKind m,
     mContent = mContent m, mEmbedding = v, mMetadata = mMetadata m,
     mCreatedAt = (case old of None \<Rightarrow> t | Some r \<Rightarrow> mCreatedAt r),
     mVersion = (case old of None \<Rightarrow> 1 | Some r \<Rightarrow> int64 (mVersion r + 1)),
     mExpiresAt = deadline t ttl\<rparr>"

lemma newVersion_sel [simp]:
  "mID (newVersion t v i m ttl old) = i" "mWorkspaceID (newVersion t v i m ttl old) = mWorkspaceID m"
  "mCreatedAt (newVersion t v i m ttl (Some r)) = mCreatedAt r"
  "mVersion (newVersion t v i m ttl (Some r)) = int64 (mVersion r + 1)"
  "mVersion (newVersion t v i m ttl None) = 1" "mExpiresAt (newVersion t v i m ttl old) = deadline t ttl"
  by (simp_all add: newVersion_def)

lemma Put_result:
  fixes s :: MemoryStore
  assumes "mWorkspaceID m \<noteq> []" "provider (mContent m) = Inr v"
    "(if mID m = [] then newID rnd else Inr (mID m)) = Inr i"
  defines "w \<equiv> mWorkspaceID m"
  defines "old \<equiv> fmlookup (records_of w s) i"
  shows "fst (memory_Put t provider rnd m ttl s) = Inr i"
    and "records_of w' (snd (memory_Put t provider rnd m ttl s)) =
      (if w' = w then fmupd i (newVersion t v i m ttl old) (records_of w s) else records_of w' s)"
    and "vector_ns w' (msVec (snd (memory_Put t provider rnd m ttl s))) =
      (if w' = w then fmupd i \<lparr>veVector = v, veMetadata = indexMetadata (mAgentID m) (mKind m), veText = []\<rparr>
         (vector_ns w (msVec s)) else vector_ns w' (msVec s))"
    and "history_of w' j (snd (memory_Put t provider rnd m ttl s)) =
      (case old of
         Some r \<Rightarrow> if w' = w \<and> j = i
           then drop (Suc (length (history_of w i s)) - maxMemoryHistoryPerRecord) (history_of w i s @ [r])
           else history_of w' j s
       | None \<Rightarrow> history_of w' j s)"
  using assms(1-3) unfolding w_def old_def
  by (simp_all add: memory_Put_def newVersion_def Let_def split: option.splits)

section \<open>The invariant\<close>

text \<open>
  The lineage of a record: the versions kept, oldest first, and the current one last. Each version
  follows the one before it; the first is version 1 unless the bound has been reached.
\<close>

definition indexEntry :: "Memory \<Rightarrow> vecEntry"
  where "indexEntry r = \<lparr>veVector = mEmbedding r, veMetadata = indexMetadata (mAgentID r) (mKind r), veText = []\<rparr>"

fun consecutive :: "Memory list \<Rightarrow> bool" where
  "consecutive (a # b # ms) \<longleftrightarrow>
    mVersion b = int64 (mVersion a + 1) \<and> mCreatedAt b = mCreatedAt a \<and> consecutive (b # ms)"
| "consecutive _ \<longleftrightarrow> True"

definition lineage_ok :: "string \<Rightarrow> string \<Rightarrow> Memory list \<Rightarrow> Memory \<Rightarrow> bool"
  where "lineage_ok w i h r \<longleftrightarrow>
    (\<forall>m\<in>set (h @ [r]). mID m = i \<and> mWorkspaceID m = w) \<and> consecutive (h @ [r]) \<and>
    length h \<le> maxMemoryHistoryPerRecord \<and>
    (length h < maxMemoryHistoryPerRecord \<longrightarrow> mVersion (hd (h @ [r])) = 1)"

definition id_ok :: "string \<Rightarrow> string \<Rightarrow> MemoryStore \<Rightarrow> bool"
  where "id_ok w i s \<longleftrightarrow>
    fmlookup (vector_ns w (msVec s)) i = map_option indexEntry (fmlookup (records_of w s) i) \<and>
    (case fmlookup (records_of w s) i of
       None \<Rightarrow> history_of w i s = []
     | Some r \<Rightarrow> lineage_ok w i (history_of w i s) r)"

definition mem_ok :: "MemoryStore \<Rightarrow> bool"
  where "mem_ok s \<longleftrightarrow> (\<forall>w i. id_ok w i s)"

lemma mem_ok_id: "mem_ok s \<Longrightarrow> id_ok w i s"
  by (simp add: mem_ok_def)

lemma mem_ok_index: "mem_ok s \<Longrightarrow> fmlookup (vector_ns w (msVec s)) i = map_option indexEntry (fmlookup (records_of w s) i)"
  by (simp add: mem_ok_def id_ok_def)

lemma mem_ok_lineage: "mem_ok s \<Longrightarrow> fmlookup (records_of w s) i = Some r \<Longrightarrow> lineage_ok w i (history_of w i s) r"
  using mem_ok_id [of s w i] by (simp add: id_ok_def)

lemma mem_ok_gone: "mem_ok s \<Longrightarrow> fmlookup (records_of w s) i = None \<Longrightarrow> history_of w i s = []"
  using mem_ok_id [of s w i] by (simp add: id_ok_def)

lemma consecutive_snoc:
  "consecutive (ms @ [a]) \<Longrightarrow> mVersion b = int64 (mVersion a + 1) \<Longrightarrow> mCreatedAt b = mCreatedAt a \<Longrightarrow>
    consecutive (ms @ [a, b])"
proof (induction ms)
  case (Cons m ms)
  then show ?case by (cases ms) auto
qed simp

lemma consecutive_drop: "consecutive ms \<Longrightarrow> consecutive (drop n ms)"
proof (induction ms arbitrary: n)
  case (Cons m ms)
  then show ?case by (cases n; cases ms) auto
qed simp

lemma mem_ok_New [inv_intros]: "mem_ok memory_New"
  by (simp add: mem_ok_def id_ok_def memory_New_def records_of_def history_of_def)

lemma mem_ok_evict [inv_intros]: "mem_ok s \<Longrightarrow> mem_ok (evictLocked w i s)"
proof -
  assume ok: "mem_ok s"
  have "id_ok w' j (evictLocked w i s)" for w' j
    using mem_ok_id [OF ok, of w' j] by (cases "w' = w"; cases "j = i") (auto simp: id_ok_def cong: option.case_cong)
  then show ?thesis by (simp add: mem_ok_def)
qed

lemma lineage_put:
  assumes "lineage_ok w i h r" "mID r' = i" "mWorkspaceID r' = w"
    "mVersion r' = int64 (mVersion r + 1)" "mCreatedAt r' = mCreatedAt r"
  shows "lineage_ok w i (drop (Suc (length h) - maxMemoryHistoryPerRecord) (h @ [r])) r'"
proof -
  define n where "n = Suc (length h) - maxMemoryHistoryPerRecord"
  define h' where "h' = drop n (h @ [r])"
  have n: "n \<le> 1" using assms(1) by (simp add: lineage_ok_def n_def) arith
  then have h': "h' @ [r'] = drop n (h @ [r, r'])"
    using drop_append [of n "h @ [r]" "[r']"] by (simp add: h'_def)
  have "consecutive (h' @ [r'])"
    unfolding h' using assms by (intro consecutive_drop consecutive_snoc) (auto simp: lineage_ok_def)
  moreover have "\<forall>m\<in>set h'. mID m = i \<and> mWorkspaceID m = w"
    using assms(1) unfolding h'_def lineage_ok_def by (meson in_set_dropD)
  moreover have "length h' \<le> maxMemoryHistoryPerRecord"
    by (simp add: h'_def n_def maxMemoryHistoryPerRecord_def)
  moreover have "mVersion (hd (h' @ [r'])) = 1" if "length h' < maxMemoryHistoryPerRecord"
  proof -
    have "n = 0" "length h < maxMemoryHistoryPerRecord"
      using that by (auto simp: h'_def n_def simp del: drop_append)
    then have "mVersion (hd (h @ [r])) = 1" and "h' = h @ [r]"
      using assms(1) by (simp_all add: lineage_ok_def h'_def)
    then show ?thesis by (cases h) auto
  qed
  ultimately show ?thesis
    using assms(2,3) unfolding n_def [symmetric] h'_def [symmetric] by (simp add: lineage_ok_def)
qed

lemma mem_ok_Put [inv_intros]:
  assumes "mem_ok s"
  shows "mem_ok (snd (memory_Put t provider rnd m ttl s))"
proof (cases "mWorkspaceID m \<noteq> [] \<and> (\<exists>v. provider (mContent m) = Inr v) \<and>
    (\<exists>i. (if mID m = [] then newID rnd else Inr (mID m)) = Inr i)")
  case False
  then have "snd (memory_Put t provider rnd m ttl s) = s"
    by (auto simp: memory_Put_def split: sum.splits)
  then show ?thesis using assms by simp
next
  case True
  let ?w = "mWorkspaceID m"
  from True obtain v i where "?w \<noteq> []" "provider (mContent m) = Inr v"
    "(if mID m = [] then newID rnd else Inr (mID m)) = Inr i" by blast
  note put = Put_result [of m provider v rnd i, OF this]
  have e: "indexEntry (newVersion t v i m ttl old) =
      \<lparr>veVector = v, veMetadata = indexMetadata (mAgentID m) (mKind m), veText = []\<rparr>" for old
    by (simp add: indexEntry_def newVersion_def)
  have "id_ok w j (snd (memory_Put t provider rnd m ttl s))" for w j
  proof (cases "w = ?w \<and> j = i")
    case False
    then show ?thesis
      using mem_ok_id [OF assms, of w j] by (auto simp: id_ok_def put split: option.splits)
  next
    case True
    show ?thesis
    proof (cases "fmlookup (records_of ?w s) i")
      case None
      have "lineage_ok ?w i [] (newVersion t v i m ttl None)" by (simp add: lineage_ok_def)
      then show ?thesis using True None mem_ok_gone [OF assms None] by (simp add: id_ok_def put e)
    next
      case (Some r)
      from lineage_put [OF mem_ok_lineage [OF assms Some], of "newVersion t v i m ttl (Some r)"]
      show ?thesis using True Some by (simp add: id_ok_def put e)
    qed
  qed
  then show ?thesis by (simp add: mem_ok_def)
qed

lemma mem_ok_Get [inv_intros]: "mem_ok s \<Longrightarrow> mem_ok (snd (memory_Get t w i s))"
  by (auto simp: memory_Get_alt intro: inv_intros split: option.splits)

lemma mem_ok_History [inv_intros]: "mem_ok s \<Longrightarrow> mem_ok (snd (memory_History t w i s))"
  by (auto simp: memory_History_alt intro: inv_intros split: option.splits)

lemma mem_ok_fold [inv_intros]: "mem_ok s \<Longrightarrow> mem_ok (fold (evictLocked w) is s)"
  by (induction "is" arbitrary: s) (auto intro: inv_intros)

section \<open>Reads answer from the live records\<close>

text \<open>
  The live records of the store. A read evicts the expired records it meets, which changes no live
  record, no matter which of them it meets.
\<close>

definition live_rec :: "instant \<Rightarrow> string \<Rightarrow> MemoryStore \<Rightarrow> string \<Rightarrow> Memory option"
  where "live_rec t w s i =
    (case fmlookup (records_of w s) i of None \<Rightarrow> None | Some r \<Rightarrow> if memory_expired r t then None else Some r)"

definition dead_rec :: "instant \<Rightarrow> string \<Rightarrow> MemoryStore \<Rightarrow> string \<Rightarrow> bool"
  where "dead_rec t w s i \<longleftrightarrow> (\<exists>r. fmlookup (records_of w s) i = Some r \<and> memory_expired r t)"

definition below :: "float64 option \<Rightarrow> Result \<Rightarrow> bool"
  where "below th r \<longleftrightarrow> (case th of None \<Rightarrow> False | Some x \<Rightarrow> f64_lt (rScore r) x)"

definition listed :: "ListOptions \<Rightarrow> Memory \<Rightarrow> bool"
  where "listed opts r \<longleftrightarrow> (loAgentID opts = [] \<or> mAgentID r = loAgentID opts) \<and>
    (case loKind opts of None \<Rightarrow> True | Some k \<Rightarrow> mKind r = k)"

lemma evict_other:
  "live_rec t w (evictLocked w i s) j = (if j = i then None else live_rec t w s j)"
  "dead_rec t w (evictLocked w i s) j = (j \<noteq> i \<and> dead_rec t w s j)"
  by (simp_all add: live_rec_def dead_rec_def)

lemma live_evict: "dead_rec t w s i \<Longrightarrow> t \<le> u \<Longrightarrow> live_rec u w' (evictLocked w i s) j = live_rec u w' s j"
  by (auto simp: live_rec_def dead_rec_def memory_expired_def dest: expiredAt_mono split: option.splits)

lemma live_evicts:
  "distinct is \<Longrightarrow> list_all (dead_rec t w s) is \<Longrightarrow> t \<le> u \<Longrightarrow>
    live_rec u w' (fold (evictLocked w) is s) j = live_rec u w' s j"
proof (induction "is" arbitrary: s)
  case (Cons i "is")
  have "list_all (dead_rec t w (evictLocked w i s)) is"
    using Cons.prems by (auto simp: list_all_iff evict_other)
  then show ?case using Cons live_evict [of t w s i u w' j] by simp
qed simp

lemma searchCollect_char:
  "distinct (map rID rs) \<Longrightarrow> searchCollect t w th rs s =
    (filter (\<lambda>r. live_rec t w s (rID r) \<noteq> None \<and> \<not> below th r) rs,
     fold (evictLocked w) (filter (dead_rec t w s) (map rID rs)) s)"
proof (induction rs arbitrary: s)
  case (Cons r rs)
  have ne: "rID x \<noteq> rID r" if "x \<in> set rs" for x using Cons.prems imageI [OF that, of rID] by auto
  have "filter (\<lambda>x. live_rec t w (evictLocked w (rID r) s) (rID x) \<noteq> None \<and> \<not> below th x) rs =
      filter (\<lambda>x. live_rec t w s (rID x) \<noteq> None \<and> \<not> below th x) rs"
    "filter (dead_rec t w (evictLocked w (rID r) s)) (map rID rs) = filter (dead_rec t w s) (map rID rs)"
    by (auto intro!: filter_cong simp: evict_other ne)
  then show ?case
    using Cons by (auto simp: live_rec_def [of t w s "rID r"] dead_rec_def [of t w s "rID r"] below_def split: option.splits)
qed simp

lemma listLoop_char:
  "distinct is \<Longrightarrow> listLoop t w opts is s =
    (filter (listed opts) (List.map_filter (live_rec t w s) is),
     fold (evictLocked w) (filter (dead_rec t w s) is) s)"
proof (induction "is" arbitrary: s)
  case (Cons i "is")
  have "List.map_filter (live_rec t w (evictLocked w i s)) is = List.map_filter (live_rec t w s) is"
    using Cons.prems by (auto simp: List.map_filter_def evict_other intro!: map_cong filter_cong)
  moreover have "filter (dead_rec t w (evictLocked w i s)) is = filter (dead_rec t w s) is"
    using Cons.prems by (auto intro!: filter_cong simp: evict_other)
  ultimately show ?case
    using Cons by (auto simp: live_rec_def [of t w s i] dead_rec_def [of t w s i] listed_def split: option.splits)
qed simp

lemma memory_Get_live: "fst (memory_Get t w i s) = live_rec t w s i"
  by (simp add: memory_Get_alt live_rec_def split: option.splits)

lemma memory_History_live:
  "fst (memory_History t w i s) = (case live_rec t w s i of None \<Rightarrow> [] | Some r \<Rightarrow> history_of w i s @ [r])"
  by (simp add: memory_History_alt live_rec_def split: option.splits)

lemma distinct_searchRank: "env_ok env \<Longrightarrow> distinct (map rID (searchRank env w v opts s))"
proof -
  assume env: "env_ok env"
  have "mset (map rID (insertionSort lt xs)) = mset (map rID xs)" for lt and xs :: "Result list" by simp
  then have "distinct (map rID (insertionSort lt xs)) = distinct (map rID xs)" for lt and xs :: "Result list"
    by (metis mset_eq_imp_distinct_iff)
  then show ?thesis
    using distinct_rIDs [OF env] by (simp add: searchRank_def vector_Search_alt flip: take_map)
qed

lemma mem_ok_Search [inv_intros]:
  "env_ok env \<Longrightarrow> mem_ok s \<Longrightarrow> mem_ok (snd (memory_Search env provider w q opts s))"
  by (auto simp: memory_Search_def searchCollect_char [OF distinct_searchRank] intro: inv_intros split: sum.splits)

lemma mem_ok_List [inv_intros]: "env_ok env \<Longrightarrow> mem_ok s \<Longrightarrow> mem_ok (snd (memory_List env w opts s))"
  by (simp add: memory_List_alt listLoop_char mem_ok_fold)

text \<open>What a search ranks: the records of the workspace that pass the filters and compare with the query.\<close>

definition search_hits :: "string \<Rightarrow> vec \<Rightarrow> SearchOptions \<Rightarrow> MemoryStore \<Rightarrow> Result set"
  where "search_hits w v opts s =
    {r. \<exists>m. fmlookup (records_of w s) (rID r) = Some m \<and> rScore r = Cosine v (mEmbedding m) \<and>
       \<not> is_nan (Cosine v (mEmbedding m)) \<and>
       (soAgentID opts = [] \<or> mAgentID m = soAgentID opts) \<and>
       (case soKind opts of None \<Rightarrow> True | Some k \<Rightarrow> mKind m = k)}"

lemma searchFilter_index:
  "(\<forall>k v. fmlookup (searchFilter opts) k = Some v \<longrightarrow> fmlookup (indexMetadata a kd) k = Some v) \<longleftrightarrow>
    (soAgentID opts = [] \<or> a = soAgentID opts) \<and> (case soKind opts of None \<Rightarrow> True | Some k \<Rightarrow> kd = k)"
proof -
  have f: "fmlookup (searchFilter opts) k =
      (if k = ''kind'' \<and> soKind opts \<noteq> None then map_option MemKind_String (soKind opts)
       else if k = ''agent_id'' \<and> soAgentID opts \<noteq> [] then Some (soAgentID opts) else None)" for k
    by (cases "soKind opts") (auto simp: searchFilter_def)
  have i: "fmlookup (indexMetadata a kd) k =
      (if k = ''kind'' then Some (MemKind_String kd) else if k = ''agent_id'' then Some a else None)" for k
    by (simp add: indexMetadata_def fmlookup_of_list)
  have "(\<forall>k v. fmlookup (searchFilter opts) k = Some v \<longrightarrow> fmlookup (indexMetadata a kd) k = Some v) \<longleftrightarrow>
      (\<forall>k\<in>{''kind'', ''agent_id''}. \<forall>v. fmlookup (searchFilter opts) k = Some v \<longrightarrow> fmlookup (indexMetadata a kd) k = Some v)"
    by (auto simp: f)
  also have "\<dots> \<longleftrightarrow> (soAgentID opts = [] \<or> a = soAgentID opts) \<and> (case soKind opts of None \<Rightarrow> True | Some k \<Rightarrow> kd = k)"
    unfolding f i by (cases "soKind opts") auto
  finally show ?thesis .
qed

lemma Cosine_length: "\<not> is_nan (Cosine a b) \<Longrightarrow> length b = length a"
  by (auto simp: Cosine_def split: if_splits)

lemma hits_index:
  assumes "mem_ok s"
  shows "hits uni w v MCosine (searchFilter opts) None (msVec s) = search_hits w v opts s"
proof (intro set_eqI)
  fix r
  show "r \<in> hits uni w v MCosine (searchFilter opts) None (msVec s) \<longleftrightarrow> r \<in> search_hits w v opts s"
    using searchFilter_index [of opts] Cosine_length
    unfolding hits_def search_hits_def mem_ok_index [OF assms] rawScore_def
    by (cases "fmlookup (records_of w s) (rID r)") (auto simp: indexEntry_def Let_def)
qed

lemma searchRank_top:
  fixes opts :: SearchOptions
  assumes "env_ok env" "mem_ok s"
  defines "k \<equiv> if soK opts \<le> 0 then memory_defaultSearchK else soK opts"
  shows "finite (search_hits w v opts s)" "set (searchRank env w v opts s) \<subseteq> search_hits w v opts s"
    "length (searchRank env w v opts s) = min (nat k) (card (search_hits w v opts s))"
    "sorted_wrt (betterHit True) (searchRank env w v opts s)"
    "\<And>a b. a \<in> set (searchRank env w v opts s) \<Longrightarrow> b \<in> search_hits w v opts s - set (searchRank env w v opts s) \<Longrightarrow>
      betterHit True a b"
proof -
  have n: "\<forall>r\<in>hits (\<lambda>_. []) w v MCosine (searchFilter opts) None (msVec s). \<not> is_nan (rScore r)"
    using hits_plain_no_nan by blast
  have rank: "searchRank env w v opts s = vector_Search env (\<lambda>_. []) w v k MCosine (searchFilter opts) None (msVec s)"
    by (simp add: searchRank_def k_def)
  show "finite (search_hits w v opts s)" using vector_Search_top(1) [OF assms(1) n] by (simp add: hits_index [OF assms(2)])
  note top = vector_Search_top(2-5) [OF assms(1) n, where k = k, unfolded hits_index [OF assms(2)], folded rank]
  show "set (searchRank env w v opts s) \<subseteq> search_hits w v opts s"
    "length (searchRank env w v opts s) = min (nat k) (card (search_hits w v opts s))"
    "sorted_wrt (betterHit True) (searchRank env w v opts s)"
    "\<And>a b. a \<in> set (searchRank env w v opts s) \<Longrightarrow> b \<in> search_hits w v opts s - set (searchRank env w v opts s) \<Longrightarrow>
      betterHit True a b"
    using top by simp_all
qed

end
