(* ===== verification/Consolidate.thy ===== *)
theory Consolidate
  imports Memory Strconv
begin

text \<open>
  Memory consolidation (\<^verbatim>\<open>consolidate/consolidate.go\<close>): the memories of an agent are listed,
  near-duplicates dropped, and the rest summarised into a new long-term memory. The completion provider
  is an interface of the program and an argument here: the outcome of \<^verbatim>\<open>Complete\<close> for every pair
  of prompts at the time of the call.
\<close>

section \<open>Deduplication\<close>

definition newer :: "Memory \<Rightarrow> Memory \<Rightarrow> bool" \<comment> \<open>the comparison given to \<^verbatim>\<open>sort.Slice\<close>\<close>
  where "newer a b =
    (if mCreatedAt a \<noteq> mCreatedAt b then mCreatedAt a > mCreatedAt b else mID a < mID b)"

definition duplicate_of :: "float64 \<Rightarrow> Memory \<Rightarrow> Memory \<Rightarrow> bool"
  where "duplicate_of threshold m rep =
    (let score = Cosine (mEmbedding m) (mEmbedding rep) in \<not> is_nan score \<and> f64_le threshold score)"

definition dedupe :: "Memory list \<Rightarrow> float64 \<Rightarrow> Memory list"
  where "dedupe ms threshold =
    fold (\<lambda>m reps. if list_ex (duplicate_of threshold m) reps then reps else reps @ [m])
      (insertionSort newer ms) []"

section \<open>Consolidation\<close>

type_synonym completer = "string \<Rightarrow> string \<Rightarrow> string + string \<times> int" \<comment> \<open>system and user prompt; text and tokens\<close>

record ConsolidateResult =
  SummaryID :: string
  SourceCount :: int
  DedupedCount :: int

definition DefaultDedupThreshold :: float64
  where "DefaultDedupThreshold = f64_of_rat (95 / 100)"

definition summarySystemPrompt :: string
  where "summarySystemPrompt =
    ''You are consolidating an AI agent'' @ [CHR 0x27] @ ''s accumulated memories into a single, concise long-term summary. Read the numbered memory contents below and produce one coherent summary that preserves the important facts and drops redundancy.''"

fun joinLines :: "string list \<Rightarrow> string" where \<comment> \<open>\<^verbatim>\<open>strings.Join(contents, "\n")\<close>\<close>
  "joinLines [] = []"
| "joinLines [l] = l"
| "joinLines (l # m # ms) = l @ [CHR 0x0A] @ joinLines (m # ms)"

definition userPromptOf :: "Memory list \<Rightarrow> string"
  where "userPromptOf reps =
    ''Memories:'' @ [CHR 0x0A] @
    joinLines (map (\<lambda>(i, m). FormatInt (int i + 1) @ ''. '' @ mContent m) (enumerate 0 reps))"

definition summaryMemory :: "string \<Rightarrow> string \<Rightarrow> MemKind \<Rightarrow> string \<Rightarrow> int \<Rightarrow> int \<Rightarrow> Memory"
  where "summaryMemory w agent kind summary sources deduped =
    \<lparr>mID = [], mAgentID = agent, mWorkspaceID = w, mKind = LongTerm, mContent = summary, mEmbedding = [],
     mMetadata = fmap_of_list [(''consolidated_from_kind'', MemKind_String kind),
       (''source_count'', FormatInt sources), (''deduped_count'', FormatInt deduped)],
     mCreatedAt = zero_time, mVersion = 0, mExpiresAt = None\<rparr>"

text \<open>
  \<open>env\<close> is what the listing meets, \<open>t\<close> the clock when the summary is stored.
\<close>

definition Consolidate :: "goenv \<Rightarrow> instant \<Rightarrow> provider \<Rightarrow> completer \<Rightarrow> string + nat list \<Rightarrow> string \<Rightarrow> string
    \<Rightarrow> MemKind \<Rightarrow> float64 \<Rightarrow> MemoryStore \<Rightarrow> (string + ConsolidateResult) \<times> MemoryStore"
  where "Consolidate env t provider llm rnd w agent kind threshold s =
    (let th = (if f64_le threshold f64_zero then DefaultDedupThreshold else threshold) in
     case memory_List env w \<lparr>loAgentID = agent, loKind = Some kind\<rparr> s of
       (ms, s1) \<Rightarrow>
         (let sourceCount = int (length ms) in
          if sourceCount = 0 then (Inr \<lparr>SummaryID = [], SourceCount = 0, DedupedCount = 0\<rparr>, s1)
          else
            let reps = dedupe ms th in
            case llm summarySystemPrompt (userPromptOf reps) of
              Inl err \<Rightarrow> (Inl (''consolidate: complete: '' @ err), s1)
            | Inr (summary, _) \<Rightarrow>
                (case memory_Put t provider rnd
                        (summaryMemory w agent kind summary sourceCount (int (length reps))) 0 s1 of
                   (Inl err, s2) \<Rightarrow> (Inl (''consolidate: store summary: '' @ err), s2)
                 | (Inr summaryID, s2) \<Rightarrow>
                     (Inr \<lparr>SummaryID = summaryID, SourceCount = sourceCount, DedupedCount = int (length reps)\<rparr>, s2))))"

section \<open>Deduplication keeps one representative for every memory\<close>

lemma newer_orders: "inj_on mID A \<Longrightarrow> orders newer A"
  unfolding orders_def newer_def inj_on_def by (auto split: if_splits) (metis linorder_cases)

lemma duplicate_sym: "duplicate_of th a b = duplicate_of th b a"
  by (simp add: duplicate_of_def Cosine_commute [of "mEmbedding a"])

definition covers :: "float64 \<Rightarrow> Memory list \<Rightarrow> Memory list \<Rightarrow> bool"
  where "covers th seen reps \<longleftrightarrow>
    set reps \<subseteq> set seen \<and> sorted_wrt (\<lambda>a b. \<not> duplicate_of th a b) reps \<and>
    (\<forall>m\<in>set seen - set reps. \<exists>rep\<in>set reps. newer rep m \<and> duplicate_of th m rep)"

lemma dedupe_covers:
  assumes "orders newer (set ms)" "distinct ms"
  shows "covers th ms (dedupe ms th)" "sorted_wrt newer (dedupe ms th)"
proof -
  let ?step = "\<lambda>m reps. if list_ex (duplicate_of th m) reps then reps else reps @ [m]"
  have *: "covers th (seen @ rest) (fold ?step rest reps) \<and> sorted_wrt newer (fold ?step rest reps)"
    if "sorted_wrt newer (seen @ rest)" "covers th seen reps" "sorted_wrt newer reps" for seen rest reps
    using that
  proof (induction rest arbitrary: seen reps)
    case (Cons m rest)
    have newest: "newer r m" if "r \<in> set reps" for r
      using that Cons.prems(1,2) by (auto simp: covers_def sorted_wrt_append)
    show ?case
    proof (cases "list_ex (duplicate_of th m) reps")
      case True
      then have "covers th (seen @ [m]) reps"
        using Cons.prems(2) newest by (fastforce simp: covers_def list_ex_iff)
      then show ?thesis using Cons.IH [of "seen @ [m]" reps] Cons.prems True by simp
    next
      case False
      then have "covers th (seen @ [m]) (reps @ [m])"
        using Cons.prems(2) by (auto simp: covers_def list_ex_iff sorted_wrt_append duplicate_sym [of th m])
      moreover have "sorted_wrt newer (reps @ [m])"
        using Cons.prems(3) newest by (simp add: sorted_wrt_append)
      ultimately show ?thesis using Cons.IH [of "seen @ [m]" "reps @ [m]"] Cons.prems False by simp
    qed
  qed simp
  have "sorted_wrt newer (insertionSort newer ms)" by (rule insertionSort_sorted [OF assms])
  then have "covers th (insertionSort newer ms) (dedupe ms th) \<and> sorted_wrt newer (dedupe ms th)"
    using * [of "[]" "insertionSort newer ms" "[]"] by (simp add: dedupe_def covers_def)
  then show "covers th ms (dedupe ms th)" "sorted_wrt newer (dedupe ms th)" by (auto simp: covers_def)
qed

text \<open>The memories of a store that a listing returns: live, of that agent and kind, once each.\<close>

lemma memory_List_result:
  assumes "env_ok env"
  shows "set (fst (memory_List env w opts s)) = {r. \<exists>i. live_rec (now env) w s i = Some r \<and> listed opts r}"
    and "snd (memory_List env w opts s) =
      fold (evictLocked w) (filter (dead_rec (now env) w s) (range_keys env (records_of w s))) s"
proof -
  have "i \<in> fmdom' (records_of w s)" if "live_rec t w s i = Some r" for t i r
    using that by (auto simp: live_rec_def fmdom'_lookup split: option.splits)
  then show "set (fst (memory_List env w opts s)) = {r. \<exists>i. live_rec (now env) w s i = Some r \<and> listed opts r}"
    using assms by (auto simp: memory_List_alt listLoop_char set_map_filter)
  show "snd (memory_List env w opts s) =
      fold (evictLocked w) (filter (dead_rec (now env) w s) (range_keys env (records_of w s))) s"
    using assms by (simp add: memory_List_alt listLoop_char)
qed

lemma live_rec_Some:
  "live_rec t w s i = Some r \<longleftrightarrow> fmlookup (records_of w s) i = Some r \<and> \<not> memory_expired r t"
  by (simp add: live_rec_def split: option.splits) metis

lemma live_rec_id: "mem_ok s \<Longrightarrow> live_rec t w s i = Some r \<Longrightarrow> mID r = i \<and> mWorkspaceID r = w"
  using mem_ok_lineage [of s w i r] unfolding live_rec_Some lineage_ok_def by simp

lemma memory_List_distinct:
  assumes "env_ok env" "mem_ok s"
  shows "distinct (map mID (fst (memory_List env w opts s)))"
proof -
  have "distinct (map mID (List.map_filter (live_rec t w s) is)) \<and>
      mID ` set (List.map_filter (live_rec t w s) is) \<subseteq> set is" if "distinct is" for "is" t
    using that
  proof (induction "is")
    case (Cons i "is")
    then show ?case using live_rec_id [OF assms(2), of t w i] by (cases "live_rec t w s i") auto
  qed simp
  then show ?thesis using assms(1) by (simp add: memory_List_alt listLoop_char distinct_map_filter)
qed

lemma memory_List_keeps_live:
  assumes "env_ok env" "now env \<le> u"
  shows "live_rec u w' (snd (memory_List env w opts s)) j = live_rec u w' s j"
  unfolding memory_List_result(2) [OF assms(1)]
  by (rule live_evicts [where t = "now env"]) (use assms in \<open>auto simp: list_all_iff\<close>)

text \<open>Consolidation keeps the invariant of the memory store.\<close>

lemma mem_ok_Consolidate [inv_intros]:
  assumes "env_ok env" "mem_ok s"
  shows "mem_ok (snd (Consolidate env t provider llm rnd w agent kind th s))"
proof -
  obtain ms s1 where l: "memory_List env w \<lparr>loAgentID = agent, loKind = Some kind\<rparr> s = (ms, s1)" by fastforce
  have "mem_ok s1" using mem_ok_List [OF assms, of w "\<lparr>loAgentID = agent, loKind = Some kind\<rparr>"] l by simp
  then have put: "mem_ok (snd (memory_Put t provider rnd m 0 s1))" for m by (rule mem_ok_Put)
  show ?thesis
  proof (cases "ms = []")
    case False
    show ?thesis
      using False \<open>mem_ok s1\<close> put
      by (auto simp: Consolidate_def l Let_def split: sum.splits prod.splits) (metis snd_conv)+
  qed (use \<open>mem_ok s1\<close> in \<open>simp add: Consolidate_def l Let_def\<close>)
qed

end
