(* ===== verification/Graph.thy ===== *)
theory Graph
  imports Float64 "HOL-Library.Product_Lexorder"
begin

text \<open>
  The knowledge graph (\<^verbatim>\<open>graph/graph.go\<close>): nodes and labelled edges per workspace, and the
  breadth-first traversal \<^verbatim>\<open>Related\<close>. The main result, \<open>Related_layers\<close>, is that the traversal
  reports exactly the real nodes at each distance, measured along undirected edges through real nodes.
  A Go map may be ranged over in another order on every hop, so the order of the edges is a function
  of the hop.
\<close>

section \<open>The graph\<close>

record Node =
  nID :: string
  nLabel :: string
  nMetadata :: "(string, string) fmap"

record Edge =
  FromID :: string
  ToID :: string
  eLabel :: string
  Weight :: float64

type_synonym edgeKey = "string \<times> string \<times> string"

definition keyOf :: "Edge \<Rightarrow> edgeKey"
  where "keyOf e = (FromID e, ToID e, eLabel e)"

record workspaceGraph =
  nodes :: "(string, Node) fmap"
  edges :: "(edgeKey, Edge) fmap"

type_synonym graphStore = "(string, workspaceGraph) fmap"

definition graph_New :: graphStore
  where "graph_New = fmempty"

definition getOrCreate :: "string \<Rightarrow> graphStore \<Rightarrow> workspaceGraph"
  where "getOrCreate workspace s =
    (case fmlookup s workspace of None \<Rightarrow> \<lparr>nodes = fmempty, edges = fmempty\<rparr> | Some ws \<Rightarrow> ws)"

definition UpsertNode :: "string \<Rightarrow> Node \<Rightarrow> graphStore \<Rightarrow> graphStore"
  where "UpsertNode workspace n s =
    (let ws = getOrCreate workspace s in fmupd workspace (ws\<lparr>nodes := fmupd (nID n) n (nodes ws)\<rparr>) s)"

definition UpsertEdge :: "string \<Rightarrow> Edge \<Rightarrow> graphStore \<Rightarrow> graphStore"
  where "UpsertEdge workspace e s =
    (let ws = getOrCreate workspace s in fmupd workspace (ws\<lparr>edges := fmupd (keyOf e) e (edges ws)\<rparr>) s)"

definition GetNode :: "string \<Rightarrow> string \<Rightarrow> graphStore \<Rightarrow> Node option"
  where "GetNode workspace nid s =
    (case fmlookup s workspace of None \<Rightarrow> None | Some ws \<Rightarrow> fmlookup (nodes ws) nid)"

section \<open>The traversal\<close>

record RelatedNode =
  rnNode :: Node
  rnEdge :: Edge
  Hops :: int

type_synonym bfs_state = "string fset \<times> RelatedNode list \<times> string list" \<comment> \<open>visited, out, next\<close>

definition far :: "Edge \<Rightarrow> string \<Rightarrow> string option" \<comment> \<open>the \<^verbatim>\<open>switch\<close>; \<open>None\<close> is its \<^verbatim>\<open>default\<close>\<close>
  where "far e i = (if FromID e = i then Some (ToID e) else if ToID e = i then Some (FromID e) else None)"

definition relatedStep :: "(string, Node) fmap \<Rightarrow> int \<Rightarrow> Edge \<Rightarrow> string \<Rightarrow> bfs_state \<Rightarrow> bfs_state"
  where "relatedStep ns hop e i = (\<lambda>(visited, out, nxt).
    case far e i of
      None \<Rightarrow> (visited, out, nxt)
    | Some other \<Rightarrow>
        if other |\<in>| visited then (visited, out, nxt)
        else (case fmlookup ns other of
                None \<Rightarrow> (finsert other visited, out, nxt)
              | Some n \<Rightarrow> (finsert other visited, out @ [\<lparr>rnNode = n, rnEdge = e, Hops = hop\<rparr>], nxt @ [other])))"

definition edgeList :: "(edgeKey list \<Rightarrow> edgeKey list) \<Rightarrow> workspaceGraph \<Rightarrow> Edge list"
  where "edgeList eorder ws = List.map_filter (fmlookup (edges ws)) (eorder (fkeys (edges ws)))"

function relatedLoop :: "(int \<Rightarrow> edgeKey list \<Rightarrow> edgeKey list) \<Rightarrow> workspaceGraph \<Rightarrow> int \<Rightarrow> int
    \<Rightarrow> string fset \<Rightarrow> string list \<Rightarrow> RelatedNode list \<Rightarrow> RelatedNode list" where
  "relatedLoop eorder ws depth hop visited frontier out =
    (if hop \<le> depth \<and> frontier \<noteq> []
     then case fold (\<lambda>e. fold (relatedStep (nodes ws) hop e) frontier) (edgeList (eorder hop) ws) (visited, out, []) of
            (visited', out', nxt) \<Rightarrow> relatedLoop eorder ws depth (hop + 1) visited' nxt out'
     else out)"
  by auto
termination by (relation "measure (\<lambda>(_, _, depth, hop, _). nat (depth + 1 - hop))") auto

declare relatedLoop.simps [simp del]

definition Related :: "(int \<Rightarrow> edgeKey list \<Rightarrow> edgeKey list) \<Rightarrow> string \<Rightarrow> string \<Rightarrow> int \<Rightarrow> graphStore \<Rightarrow> RelatedNode list"
  where "Related eorder workspace nodeID depth s =
    (let depth' = (if depth \<le> 0 then 1 else depth) in
     case fmlookup s workspace of
       None \<Rightarrow> []
     | Some ws \<Rightarrow>
         (case fmlookup (nodes ws) nodeID of
            None \<Rightarrow> []
          | Some _ \<Rightarrow> relatedLoop eorder ws depth' 1 {|nodeID|} [nodeID] []))"

section \<open>Well-formed graphs\<close>

text \<open>Nodes and edges are stored under their own keys.\<close>

definition graph_ok :: "graphStore \<Rightarrow> bool"
  where "graph_ok s \<longleftrightarrow> (\<forall>w ws. fmlookup s w = Some ws \<longrightarrow>
    (\<forall>k n. fmlookup (nodes ws) k = Some n \<longrightarrow> nID n = k) \<and>
    (\<forall>k e. fmlookup (edges ws) k = Some e \<longrightarrow> keyOf e = k))"

lemma graph_ok_New [inv_intros]: "graph_ok graph_New"
  by (simp add: graph_ok_def graph_New_def)

lemma graph_ok_UpsertNode [inv_intros]: "graph_ok s \<Longrightarrow> graph_ok (UpsertNode w n s)"
  by (auto simp: graph_ok_def UpsertNode_def getOrCreate_def Let_def split: option.splits)

lemma graph_ok_UpsertEdge [inv_intros]: "graph_ok s \<Longrightarrow> graph_ok (UpsertEdge w e s)"
  by (auto simp: graph_ok_def UpsertEdge_def getOrCreate_def Let_def split: option.splits)

lemma GetNode_UpsertNode:
  "GetNode w' i (UpsertNode w n s) = (if w' = w \<and> i = nID n then Some n else GetNode w' i s)"
  by (auto simp: GetNode_def UpsertNode_def getOrCreate_def Let_def split: option.splits)

lemma GetNode_UpsertEdge [simp]: "GetNode w' i (UpsertEdge w e s) = GetNode w' i s"
  by (auto simp: GetNode_def UpsertEdge_def getOrCreate_def Let_def split: option.splits)

section \<open>Distance\<close>

text \<open>
  The nodes within \<open>n\<close> hops of \<open>s\<close>: each hop follows an edge in either direction to a node that
  exists in the workspace.
\<close>

definition adjacent :: "workspaceGraph \<Rightarrow> string \<Rightarrow> string \<Rightarrow> bool"
  where "adjacent ws a b \<longleftrightarrow> (\<exists>k e. fmlookup (edges ws) k = Some e \<and> {FromID e, ToID e} = {a, b})"

primrec near :: "workspaceGraph \<Rightarrow> string \<Rightarrow> nat \<Rightarrow> string set" where
  "near ws s 0 = {s}"
| "near ws s (Suc n) = near ws s n \<union> {b. fmlookup (nodes ws) b \<noteq> None \<and> (\<exists>a\<in>near ws s n. adjacent ws a b)}"

definition layer :: "workspaceGraph \<Rightarrow> string \<Rightarrow> nat \<Rightarrow> string set" \<comment> \<open>the nodes at distance \<open>n\<close>\<close>
  where "layer ws s n = near ws s n - (if n = 0 then {} else near ws s (n - 1))"

lemma far_iff: "far e a = Some b \<longleftrightarrow> {FromID e, ToID e} = {a, b}"
  by (auto simp: far_def doubleton_eq_iff)

lemma near_mono: "m \<le> n \<Longrightarrow> near ws s m \<subseteq> near ws s n"
  by (induction n) (auto simp: le_Suc_eq)

lemma near_layers: "near ws s n = (\<Union>k\<le>n. layer ws s k)"
  by (induction n) (auto simp: layer_def atMost_Suc)

text \<open>A node one hop further is adjacent to the last layer: earlier layers add nothing new.\<close>

lemma near_Suc_layer:
  "near ws s (Suc n) =
    near ws s n \<union> {b. fmlookup (nodes ws) b \<noteq> None \<and> (\<exists>a\<in>layer ws s n. adjacent ws a b)}"
proof (cases n)
  case (Suc m)
  have "b \<in> near ws s n" if "a \<in> near ws s m" "fmlookup (nodes ws) b \<noteq> None" "adjacent ws a b" for a b
    using that Suc by auto
  then show ?thesis using Suc by (auto simp: layer_def)
qed (simp add: layer_def)

section \<open>One hop\<close>

text \<open>What a pass over (edge, frontier node) pairs discovers.\<close>

definition found :: "(Edge \<times> string) set \<Rightarrow> string set"
  where "found ps = {b. \<exists>(e, a)\<in>ps. far e a = Some b}"

lemma nested_fold: "fold (\<lambda>e. fold (f e) ys) xs z = fold (\<lambda>(e, y). f e y) (List.product xs ys) z"
proof (induction xs arbitrary: z)
  case (Cons x xs)
  have "fold (f x) ys z = fold (\<lambda>(e, y). f e y) (map (Pair x) ys) z" for z
    by (induction ys arbitrary: z) auto
  with Cons show ?case by simp
qed simp

definition discovered :: "(string, Node) fmap \<Rightarrow> int \<Rightarrow> (Edge \<times> string) set \<Rightarrow> string fset \<Rightarrow> RelatedNode list \<Rightarrow> bool"
  where "discovered ns hop ps visited new \<longleftrightarrow>
    distinct (map (nID \<circ> rnNode) new) \<and>
    (nID \<circ> rnNode) ` set new = {b \<in> found ps. fmlookup ns b \<noteq> None \<and> b |\<notin>| visited} \<and>
    (\<forall>r\<in>set new. Hops r = hop \<and> fmlookup ns (nID (rnNode r)) = Some (rnNode r) \<and>
       (\<exists>a. (rnEdge r, a) \<in> ps \<and> far (rnEdge r) a = Some (nID (rnNode r))))"

lemma discovered_mono:
  assumes "discovered ns hop ps visited new" "ps \<subseteq> ps'"
    and "{b \<in> found ps'. fmlookup ns b \<noteq> None \<and> b |\<notin>| visited'} = {b \<in> found ps. fmlookup ns b \<noteq> None \<and> b |\<notin>| visited}"
  shows "discovered ns hop ps' visited' new"
  using assms(1,2) unfolding discovered_def assms(3) by (meson subsetD)

lemma relatedStep_fold:
  assumes "\<And>k n. fmlookup ns k = Some n \<Longrightarrow> nID n = k"
  shows "\<exists>new visited'. fold (\<lambda>(e, i). relatedStep ns hop e i) ps (visited, out, nxt) =
      (visited', out @ new, nxt @ map (nID \<circ> rnNode) new) \<and>
    fset visited' = fset visited \<union> found (set ps) \<and> discovered ns hop (set ps) visited new"
proof (induction ps arbitrary: visited out nxt)
  case Nil
  show ?case by (rule exI [of _ "[]"]) (auto simp: discovered_def found_def)
next
  case (Cons p ps)
  obtain e i where p: "p = (e, i)" by (cases p)
  have found: "found (insert p (set ps)) = (case far e i of None \<Rightarrow> {} | Some b \<Rightarrow> {b}) \<union> found (set ps)"
    by (auto simp: found_def p split: option.splits)
  show ?case
  proof (cases "case far e i of None \<Rightarrow> False | Some b \<Rightarrow> b |\<notin>| visited")
    case False
    then have "relatedStep ns hop e i (visited, out, nxt) = (visited, out, nxt)"
      by (auto simp: relatedStep_def split: option.splits)
    with Cons [of visited out nxt] obtain new visited' where
      new: "fold (\<lambda>(e, i). relatedStep ns hop e i) (p # ps) (visited, out, nxt) =
        (visited', out @ new, nxt @ map (nID \<circ> rnNode) new)"
      "fset visited' = fset visited \<union> found (set ps)" "discovered ns hop (set ps) visited new"
      by (auto simp: p)
    have old: "found (insert p (set ps)) \<union> fset visited = found (set ps) \<union> fset visited"
      unfolding found using False by (cases "far e i") auto
    then have "fset visited' = fset visited \<union> found (set (p # ps))" using new(2) by auto
    moreover have "discovered ns hop (set (p # ps)) visited new"
      by (rule discovered_mono [OF new(3)]) (use old in auto)
    ultimately show ?thesis using new(1) by blast
  next
    case True
    then obtain b where b: "far e i = Some b" "b |\<notin>| visited" by (auto split: option.splits)
    show ?thesis
    proof (cases "fmlookup ns b")
      case None
      with b have st: "relatedStep ns hop e i (visited, out, nxt) = (finsert b visited, out, nxt)"
        by (simp add: relatedStep_def)
      from Cons [of "finsert b visited" out nxt] obtain new visited' where
        new: "fold (\<lambda>(e, i). relatedStep ns hop e i) (p # ps) (visited, out, nxt) =
          (visited', out @ new, nxt @ map (nID \<circ> rnNode) new)"
        "fset visited' = insert b (fset visited) \<union> found (set ps)"
        "discovered ns hop (set ps) (finsert b visited) new"
        by (auto simp: p st)
      moreover have "discovered ns hop (set (p # ps)) visited new"
        by (rule discovered_mono [OF new(3)]) (use None b in \<open>auto simp: found\<close>)
      ultimately show ?thesis using b by (auto simp: found)
    next
      case (Some n)
      let ?r = "\<lparr>rnNode = n, rnEdge = e, Hops = hop\<rparr>"
      have n: "nID n = b" using assms Some by blast
      from b Some have st: "relatedStep ns hop e i (visited, out, nxt) = (finsert b visited, out @ [?r], nxt @ [b])"
        by (simp add: relatedStep_def)
      from Cons [of "finsert b visited" "out @ [?r]" "nxt @ [b]"] obtain new visited' where
        new: "fold (\<lambda>(e, i). relatedStep ns hop e i) (p # ps) (visited, out, nxt) =
          (visited', out @ ?r # new, nxt @ map (nID \<circ> rnNode) (?r # new))"
        "fset visited' = insert b (fset visited) \<union> found (set ps)"
        "discovered ns hop (set ps) (finsert b visited) new"
        by (auto simp: p st n)
      moreover have "discovered ns hop (set (p # ps)) visited (?r # new)"
        using new(3) Some b n unfolding discovered_def list.set found by (auto simp: p)
      ultimately show ?thesis using b by (intro exI [of _ "?r # new"] exI [of _ visited']) (auto simp: found)
    qed
  qed
qed

text \<open>One hop from the nodes at distance \<open>n\<close> finds the nodes at distance \<open>n + 1\<close>.\<close>

lemma set_edgeList:
  assumes "mset (eorder (fkeys (edges ws))) = mset (fkeys (edges ws))"
  shows "set (edgeList eorder ws) = {e. \<exists>k. fmlookup (edges ws) k = Some e}"
proof -
  have "set (eorder (fkeys (edges ws))) = fmdom' (edges ws)"
    using mset_eq_setD [OF assms] by simp
  then show ?thesis by (force simp: edgeList_def List.map_filter_def fmdom'_lookup)
qed

lemma found_adjacent:
  assumes "mset (eorder (fkeys (edges ws))) = mset (fkeys (edges ws))"
  shows "found (set (List.product (edgeList eorder ws) frontier)) = {b. \<exists>a\<in>set frontier. adjacent ws a b}"
proof -
  have "b \<in> found (set (List.product (edgeList eorder ws) frontier)) \<longleftrightarrow>
      (\<exists>a\<in>set frontier. \<exists>e\<in>set (edgeList eorder ws). {FromID e, ToID e} = {a, b})" for b
    unfolding found_def far_iff by auto
  then show ?thesis unfolding set_edgeList [of eorder ws, OF assms] adjacent_def by blast
qed

definition bfs_inv :: "workspaceGraph \<Rightarrow> string \<Rightarrow> nat \<Rightarrow> string fset \<Rightarrow> string list \<Rightarrow> bool"
  where "bfs_inv ws s n visited frontier \<longleftrightarrow>
    fset visited \<inter> fmdom' (nodes ws) = near ws s n \<and> set frontier = layer ws s n"

text \<open>
  A reported node is a node of the workspace at the distance reported, and the edge it comes with joins
  it to a node one hop closer. The output after the hops up to \<open>n\<close> has every node up to that distance once.
\<close>

definition discovery :: "workspaceGraph \<Rightarrow> string \<Rightarrow> RelatedNode \<Rightarrow> bool"
  where "discovery ws s r \<longleftrightarrow>
    1 \<le> Hops r \<and> fmlookup (nodes ws) (nID (rnNode r)) = Some (rnNode r) \<and>
    nID (rnNode r) \<in> layer ws s (nat (Hops r)) \<and> fmlookup (edges ws) (keyOf (rnEdge r)) = Some (rnEdge r) \<and>
    (\<exists>a\<in>layer ws s (nat (Hops r) - 1). {FromID (rnEdge r), ToID (rnEdge r)} = {a, nID (rnNode r)})"

definition reported :: "workspaceGraph \<Rightarrow> string \<Rightarrow> nat \<Rightarrow> RelatedNode list \<Rightarrow> bool"
  where "reported ws s n out \<longleftrightarrow>
    distinct (map (nID \<circ> rnNode) out) \<and> sorted (map Hops out) \<and>
    (\<forall>r\<in>set out. discovery ws s r \<and> Hops r \<le> int n) \<and>
    (\<forall>k. 1 \<le> k \<and> k \<le> n \<longrightarrow> layer ws s k \<subseteq> (nID \<circ> rnNode) ` set out)"

lemma layer_Suc:
  "layer ws s (Suc n) = {b. fmlookup (nodes ws) b \<noteq> None \<and> (\<exists>a\<in>layer ws s n. adjacent ws a b)} - near ws s n"
  by (auto simp: layer_def [of ws s "Suc n"] near_Suc_layer simp del: near.simps(2))

lemma layer_disjoint: "j < k \<Longrightarrow> layer ws s j \<inter> layer ws s k = {}"
proof -
  assume "j < k"
  then have "near ws s j \<subseteq> near ws s (k - 1)" by (intro near_mono) simp
  with \<open>j < k\<close> show ?thesis by (auto simp: layer_def)
qed

lemma layer_empty: "layer ws s n = {} \<Longrightarrow> layer ws s (n + k) = {}"
  by (induction k) (auto simp: layer_Suc)

lemma reported_end:
  assumes "reported ws s n out" "n \<le> m" "layer ws s n = {}"
  shows "reported ws s m out"
proof -
  have "layer ws s k = {}" if "n < k" for k using layer_empty [OF assms(3), of "k - n"] that by simp
  then have "layer ws s k \<subseteq> (nID \<circ> rnNode) ` set out" if "1 \<le> k" for k
    using assms(1) that by (cases "k \<le> n") (auto simp: reported_def)
  then show ?thesis using assms(1,2) by (force simp: reported_def)
qed

text \<open>A graph whose nodes and edges sit under their own keys, and a real start node.\<close>

definition bfs_start :: "workspaceGraph \<Rightarrow> string \<Rightarrow> bool"
  where "bfs_start ws s \<longleftrightarrow> fmlookup (nodes ws) s \<noteq> None \<and>
    (\<forall>k n. fmlookup (nodes ws) k = Some n \<longrightarrow> nID n = k) \<and>
    (\<forall>k e. fmlookup (edges ws) k = Some e \<longrightarrow> keyOf e = k)"

lemma hop_invariant:
  assumes ok: "bfs_start ws s" and perm: "mset (eorder (fkeys (edges ws))) = mset (fkeys (edges ws))"
    and inv: "bfs_inv ws s n visited frontier" and rep: "reported ws s n out"
  shows "\<exists>visited' new. fold (\<lambda>e. fold (relatedStep (nodes ws) (int n + 1) e) frontier) (edgeList eorder ws)
      (visited, out, []) = (visited', out @ new, map (nID \<circ> rnNode) new) \<and>
    bfs_inv ws s (Suc n) visited' (map (nID \<circ> rnNode) new) \<and> reported ws s (Suc n) (out @ new)"
proof -
  let ?ps = "List.product (edgeList eorder ws) frontier"
  have wf: "\<And>k m. fmlookup (nodes ws) k = Some m \<Longrightarrow> nID m = k" using ok by (simp add: bfs_start_def)
  obtain new visited' where
    st: "fold (\<lambda>(e, i). relatedStep (nodes ws) (int n + 1) e i) ?ps (visited, out, []) =
      (visited', out @ new, [] @ map (nID \<circ> rnNode) new)" and
    vis: "fset visited' = fset visited \<union> found (set ?ps)" and
    new: "discovered (nodes ws) (int n + 1) (set ?ps) visited new"
    using relatedStep_fold [OF wf, of "nodes ws" "int n + 1" ?ps visited out "[]"] by blast
  have f: "found (set ?ps) = {b. \<exists>a\<in>layer ws s n. adjacent ws a b}"
    using found_adjacent [of eorder ws frontier, OF perm] inv by (simp add: bfs_inv_def)
  have v: "fset visited \<inter> fmdom' (nodes ws) = near ws s n" and fr: "set frontier = layer ws s n"
    using inv by (simp_all add: bfs_inv_def)
  have ids: "(nID \<circ> rnNode) ` set new = layer ws s (Suc n)"
  proof -
    have "(nID \<circ> rnNode) ` set new = {b \<in> found (set ?ps). fmlookup (nodes ws) b \<noteq> None \<and> b |\<notin>| visited}"
      using new by (simp add: discovered_def)
    also have "\<dots> = layer ws s (Suc n)" unfolding f layer_Suc v [symmetric] by (auto simp: fmdom'_lookup)
    finally show ?thesis .
  qed
  have "bfs_inv ws s (Suc n) visited' (map (nID \<circ> rnNode) new)"
    unfolding bfs_inv_def vis f near_Suc_layer
    using v ids by (auto simp: fmdom'_lookup simp flip: image_image)
  moreover have "reported ws s (Suc n) (out @ new)"
  proof -
    have hops: "Hops r = int n + 1" if "r \<in> set new" for r using new that by (simp add: discovered_def)
    have below: "Hops r \<le> int n" "nID (rnNode r) \<in> layer ws s (nat (Hops r))" if "r \<in> set out" for r
      using rep that by (simp_all add: reported_def discovery_def)
    have "(nID \<circ> rnNode) ` set out \<inter> (nID \<circ> rnNode) ` set new = {}"
    proof -
      have "nID (rnNode r) \<notin> layer ws s (Suc n)" if "r \<in> set out" for r
        using below [OF that] layer_disjoint [of "nat (Hops r)" "Suc n" ws s] by fastforce
      then show ?thesis unfolding ids by auto
    qed
    then have d: "distinct (map (nID \<circ> rnNode) (out @ new))"
      using rep new by (simp add: reported_def discovered_def)
    have "sorted (map Hops new)" using hops by (simp add: sorted_iff_nth_mono)
    then have srt: "sorted (map Hops (out @ new))"
      using rep hops below by (force simp: reported_def sorted_append)
    have each: "discovery ws s r" if r: "r \<in> set new" for r
    proof -
      obtain a where a: "(rnEdge r, a) \<in> set ?ps" "far (rnEdge r) a = Some (nID (rnNode r))"
        and node: "fmlookup (nodes ws) (nID (rnNode r)) = Some (rnNode r)"
        using new r unfolding discovered_def by blast
      have e: "rnEdge r \<in> set (edgeList eorder ws)" and a': "a \<in> layer ws s n" using a(1) fr by auto
      obtain k where "fmlookup (edges ws) k = Some (rnEdge r)"
        using e unfolding set_edgeList [of eorder ws, OF perm] by blast
      with ok have edge: "fmlookup (edges ws) (keyOf (rnEdge r)) = Some (rnEdge r)"
        unfolding bfs_start_def by metis
      have "nID (rnNode r) \<in> layer ws s (Suc n)" using ids r by auto
      then show ?thesis
        unfolding discovery_def using hops [OF r] node edge a(2) a' by (auto simp: far_iff nat_add_distrib)
    qed
    have "layer ws s k \<subseteq> (nID \<circ> rnNode) ` set (out @ new)" if "1 \<le> k" "k \<le> Suc n" for k
      using that rep ids by (cases "k = Suc n") (auto simp: reported_def image_Un)
    moreover have "discovery ws s r \<and> Hops r \<le> int (Suc n)" if "r \<in> set (out @ new)" for r
      using that each hops rep by (force simp: reported_def)
    ultimately show ?thesis using d srt unfolding reported_def by blast
  qed
  ultimately show ?thesis using st by (intro exI [of _ visited'] exI [of _ new]) (simp add: nested_fold)
qed

lemma relatedLoop_reported:
  assumes "bfs_start ws s" "\<And>h. mset (eorder h (fkeys (edges ws))) = mset (fkeys (edges ws))"
    and "bfs_inv ws s n visited frontier" "reported ws s n out" "int n \<le> depth"
  shows "reported ws s (nat depth) (relatedLoop eorder ws depth (int n + 1) visited frontier out)"
  using assms(3-5)
proof (induction "nat depth - n" arbitrary: n visited frontier out)
  case 0
  then have "nat depth = n" by simp
  with 0 show ?case by (subst relatedLoop.simps) auto
next
  case (Suc d)
  show ?case
  proof (cases "frontier = []")
    case True
    then have "layer ws s n = {}" using Suc.prems(1) by (simp add: bfs_inv_def)
    moreover have "n \<le> nat depth" using Suc.hyps(2) by simp
    ultimately show ?thesis using True reported_end [OF Suc.prems(2)] by (simp add: relatedLoop.simps)
  next
    case False
    have lt: "int n + 1 \<le> depth" using Suc.hyps(2) by linarith
    obtain visited' new where
      st: "fold (\<lambda>e. fold (relatedStep (nodes ws) (int n + 1) e) frontier) (edgeList (eorder (int n + 1)) ws)
        (visited, out, []) = (visited', out @ new, map (nID \<circ> rnNode) new)"
      and inv: "bfs_inv ws s (Suc n) visited' (map (nID \<circ> rnNode) new)" "reported ws s (Suc n) (out @ new)"
      using hop_invariant [of ws s "eorder (int n + 1)", OF assms(1,2) Suc.prems(1,2)] by blast
    have "reported ws s (nat depth)
        (relatedLoop eorder ws depth (int (Suc n) + 1) visited' (map (nID \<circ> rnNode) new) (out @ new))"
      by (rule Suc.hyps(1)) (use Suc.hyps(2) lt inv in auto)
    then show ?thesis using False lt st by (subst relatedLoop.simps) (simp add: add.commute)
  qed
qed

lemma Related_layers:
  assumes "graph_ok g" "fmlookup g workspace = Some ws" "fmlookup (nodes ws) nodeID \<noteq> None"
    and "\<And>h. mset (eorder h (fkeys (edges ws))) = mset (fkeys (edges ws))"
  shows "reported ws nodeID (nat (if depth \<le> 0 then 1 else depth)) (Related eorder workspace nodeID depth g)"
proof -
  have "bfs_start ws nodeID" using assms(1-3) by (auto simp: graph_ok_def bfs_start_def)
  moreover have "bfs_inv ws nodeID 0 {|nodeID|} [nodeID]"
    using assms(3) by (auto simp: bfs_inv_def layer_def fmdom'_lookup)
  moreover have "reported ws nodeID 0 []" by (simp add: reported_def)
  ultimately show ?thesis
    using relatedLoop_reported [of ws nodeID eorder 0 "{|nodeID|}" "[nodeID]" "[]" "if depth \<le> 0 then 1 else depth"]
      assms(2,3,4) by (auto simp: Related_def Let_def)
qed

end
