(* ===== verification/Analytics.thy ===== *)
theory Analytics
  imports SortSlice Float64
begin

text \<open>
  The cost tracker (\<^verbatim>\<open>analytics/tracker.go\<close>): token usage and estimated cost per model, the money
  saved by cache hits, and a bounded list of the most expensive entries that were hit. The list is
  exact: \<open>top_exact\<close> shows that an entry left out never reported a cost above one that is listed.
\<close>

section \<open>State\<close>

record ModelUsage =
  Tokens :: int
  CostUSD :: float64
  PricingKnown :: bool

record ExpensiveEntry =
  CacheType :: string
  Prompt :: string
  Cost :: float64
  Hits :: int

record Tracker =
  byModel :: "(string, ModelUsage) fmap"
  completionByModel :: "(string, ModelUsage) fmap"
  moneySavedTotalUSD :: float64
  topList :: "ExpensiveEntry list"

definition maxTopEntries :: nat where "maxTopEntries = 20"

definition pricePerMillionTokensUSD :: "(string, float64) fmap"
  where "pricePerMillionTokensUSD = fmap_of_list
    [(''text-embedding-3-small'', f64_of_rat (2 / 100)),
     (''text-embedding-3-large'', f64_of_rat (13 / 100)),
     (''text-embedding-ada-002'', f64_of_rat (10 / 100))]"

definition completionPricePerMillionTokensUSD :: "(string, float64) fmap"
  where "completionPricePerMillionTokensUSD = fmap_of_list
    [(''gpt-4o-mini'', f64_of_rat (375 / 1000)), (''gpt-4o'', f64_of_rat (625 / 100))]"

definition tracker_New :: Tracker
  where "tracker_New = \<lparr>byModel = fmempty, completionByModel = fmempty, moneySavedTotalUSD = f64_zero, topList = []\<rparr>"

section \<open>Operations\<close>

fun cutColon :: "string \<Rightarrow> string option" where \<comment> \<open>\<^verbatim>\<open>strings.Cut(name, ":")\<close>: what follows the first colon\<close>
  "cutColon [] = None"
| "cutColon (c # cs) = (if c = CHR '':'' then Some cs else cutColon cs)"

definition normalizeModelName :: "string \<Rightarrow> string"
  where "normalizeModelName name = (case cutColon name of Some after \<Rightarrow> after | None \<Rightarrow> name)"

definition addUsage :: "(string, float64) fmap \<Rightarrow> string \<Rightarrow> int \<Rightarrow> (string, ModelUsage) fmap \<Rightarrow> (string, ModelUsage) fmap"
  where "addUsage prices name tokens usage =
    (let u = (case fmlookup usage name of
                None \<Rightarrow> \<lparr>Tokens = 0, CostUSD = f64_zero, PricingKnown = False\<rparr> | Some u \<Rightarrow> u);
         u1 = u\<lparr>Tokens := int64 (Tokens u + tokens)\<rparr>;
         u2 = (case fmlookup prices name of
                 None \<Rightarrow> u1
               | Some price \<Rightarrow>
                   u1\<lparr>PricingKnown := True,
                      CostUSD := f64_add (CostUSD u1)
                        (f64_div (f64_mul (f64_of_int tokens) price) (f64_of_int 1000000))\<rparr>)
     in fmupd name u2 usage)"

definition RecordEmbeddingUsage :: "string \<Rightarrow> int \<Rightarrow> Tracker \<Rightarrow> Tracker"
  where "RecordEmbeddingUsage model tokens t =
    (if tokens \<le> 0 then t
     else t\<lparr>byModel := addUsage pricePerMillionTokensUSD (normalizeModelName model) tokens (byModel t)\<rparr>)"

definition RecordCompletionUsage :: "string \<Rightarrow> int \<Rightarrow> Tracker \<Rightarrow> Tracker"
  where "RecordCompletionUsage model tokens t =
    (if tokens \<le> 0 then t
     else t\<lparr>completionByModel :=
            addUsage completionPricePerMillionTokensUSD (normalizeModelName model) tokens (completionByModel t)\<rparr>)"

fun bumpEntry :: "string \<Rightarrow> string \<Rightarrow> float64 \<Rightarrow> ExpensiveEntry list \<Rightarrow> ExpensiveEntry list option" where
  "bumpEntry cacheType prompt cost [] = None"
| "bumpEntry cacheType prompt cost (e # es) =
    (if CacheType e = cacheType \<and> Prompt e = prompt
     then Some (e\<lparr>Hits := int64 (Hits e + 1), Cost := (if f64_lt (Cost e) cost then cost else Cost e)\<rparr> # es)
     else map_option (Cons e) (bumpEntry cacheType prompt cost es))"

definition cheapest :: "ExpensiveEntry list \<Rightarrow> nat"
  where "cheapest es =
    fold (\<lambda>i minIdx. if f64_lt (Cost (es ! i)) (Cost (es ! minIdx)) then i else minIdx) [1..<length es] 0"

definition RecordCacheHitSavings :: "string \<Rightarrow> string \<Rightarrow> float64 \<Rightarrow> Tracker \<Rightarrow> Tracker"
  where "RecordCacheHitSavings cacheType prompt cost t =
    (if f64_le cost f64_zero then t
     else
       let t1 = t\<lparr>moneySavedTotalUSD := f64_add (moneySavedTotalUSD t) cost\<rparr> in
       case bumpEntry cacheType prompt cost (topList t) of
         Some es \<Rightarrow> t1\<lparr>topList := es\<rparr>
       | None \<Rightarrow>
           let entry = \<lparr>CacheType = cacheType, Prompt = prompt, Cost = cost, Hits = 1\<rparr> in
           if length (topList t) < maxTopEntries then t1\<lparr>topList := topList t @ [entry]\<rparr>
           else
             let minIdx = cheapest (topList t)
             in if f64_lt (Cost (topList t ! minIdx)) cost then t1\<lparr>topList := (topList t)[minIdx := entry]\<rparr> else t1)"

record TrackerSnapshot =
  EmbeddingByModel :: "(string, ModelUsage) fmap"
  CompletionByModel :: "(string, ModelUsage) fmap"
  MoneySavedTotalUSD :: float64
  TopExpensiveEntries :: "ExpensiveEntry list"

definition tracker_Snapshot :: "Tracker \<Rightarrow> TrackerSnapshot" \<comment> \<open>entries of equal cost may come in any order\<close>
  where "tracker_Snapshot t =
    \<lparr>EmbeddingByModel = byModel t, CompletionByModel = completionByModel t,
     MoneySavedTotalUSD = moneySavedTotalUSD t,
     TopExpensiveEntries = insertionSort (\<lambda>a b. f64_lt (Cost b) (Cost a)) (topList t)\<rparr>"

section \<open>The list of expensive entries\<close>

abbreviation entryKey :: "ExpensiveEntry \<Rightarrow> string \<times> string"
  where "entryKey e \<equiv> (CacheType e, Prompt e)"

definition top_ok :: "Tracker \<Rightarrow> bool"
  where "top_ok t \<longleftrightarrow> length (topList t) \<le> maxTopEntries \<and> distinct (map entryKey (topList t)) \<and>
    (\<forall>e\<in>set (topList t). f64_lt f64_zero (Cost e))"

lemma f64_pos: "\<not> is_nan c \<Longrightarrow> \<not> f64_le c f64_zero \<longleftrightarrow> f64_lt f64_zero c"
  using f64_not_lt [of f64_zero c] by auto

lemma bumpEntry_None: "bumpEntry ty p c es = None \<longleftrightarrow> (ty, p) \<notin> entryKey ` set es"
  by (induction es) auto

lemma bumpEntry_keys: "bumpEntry ty p c es = Some es' \<Longrightarrow> map entryKey es' = map entryKey es"
  by (induction es arbitrary: es') (auto split: if_splits)

lemma bumpEntry_found:
  assumes "bumpEntry ty p c es = Some es'" "\<forall>e\<in>set es. \<not> is_nan (Cost e)" "\<not> is_nan c"
  shows "\<exists>e\<in>set es'. entryKey e = (ty, p) \<and> f64_le c (Cost e)"
  using assms
proof (induction es arbitrary: es')
  case (Cons e es)
  then show ?case using f64_not_lt [of "Cost e" c] by (auto simp: f64_le_def split: if_splits)
qed simp

text \<open>The loop finds a cheapest entry.\<close>

lemma cheapest_least:
  assumes "es \<noteq> []" "\<And>e. e \<in> set es \<Longrightarrow> \<not> is_nan (Cost e)"
  shows "cheapest es < length es" "e \<in> set es \<Longrightarrow> f64_le (Cost (es ! cheapest es)) (Cost e)"
proof -
  let ?f = "\<lambda>i m. if f64_lt (Cost (es ! i)) (Cost (es ! m)) then i else m"
  have nn: "\<not> is_nan (Cost (es ! i))" if "i < length es" for i using assms(2) that by simp
  have *: "fold ?f [1..<n] 0 < length es \<and>
      (\<forall>i<n. f64_le (Cost (es ! fold ?f [1..<n] 0)) (Cost (es ! i)))" if "1 \<le> n" "n \<le> length es" for n
    using that
  proof (induction n rule: dec_induct)
    case base
    then show ?case using assms(1) nn [of 0] by (simp add: f64_le_def)
  next
    case (step n)
    let ?m = "fold ?f [1..<n] 0"
    have ih: "?m < length es" "\<forall>i<n. f64_le (Cost (es ! ?m)) (Cost (es ! i))" using step by auto
    have "fold ?f [1..<Suc n] 0 = ?f n ?m" using step(1) by simp
    moreover have "f64_le (Cost (es ! ?m)) (Cost (es ! n))" if "\<not> f64_lt (Cost (es ! n)) (Cost (es ! ?m))"
      using that f64_not_lt nn ih(1) step.prems by simp
    moreover have "f64_le (Cost (es ! n)) (Cost (es ! i))" if "f64_lt (Cost (es ! n)) (Cost (es ! ?m))" "i < n" for i
    proof -
      have "f64_le (Cost (es ! n)) (Cost (es ! ?m))" using that(1) by (simp add: f64_le_def)
      then show ?thesis using ih(2) that(2) f64_le_trans by blast
    qed
    ultimately show ?case using ih nn [of n] step.prems by (auto simp: less_Suc_eq f64_le_def)
  qed
  have "1 \<le> length es" using assms(1) by (cases es) auto
  from * [OF this] have c: "cheapest es < length es" "\<forall>i<length es. f64_le (Cost (es ! cheapest es)) (Cost (es ! i))"
    by (simp_all add: cheapest_def)
  then show "cheapest es < length es" "e \<in> set es \<Longrightarrow> f64_le (Cost (es ! cheapest es)) (Cost e)"
    by (auto simp: in_set_conv_nth)
qed

text \<open>
  An entry \<open>(ty, p)\<close> that reported cost \<open>c\<close> is accounted for: it is listed with at least that cost, or
  the list is full and everything on it costs at least as much.
\<close>

definition accounted :: "string \<Rightarrow> string \<Rightarrow> float64 \<Rightarrow> Tracker \<Rightarrow> bool"
  where "accounted ty p c t \<longleftrightarrow>
    (\<exists>e\<in>set (topList t). entryKey e = (ty, p) \<and> f64_le c (Cost e)) \<or>
    length (topList t) = maxTopEntries \<and> (\<forall>e\<in>set (topList t). f64_le c (Cost e))"

lemma pos_not_nan: "f64_lt f64_zero c \<Longrightarrow> \<not> is_nan c"
  using f64_lt_not_nan by blast

lemma savings_cases:
  assumes "top_ok t" "f64_lt f64_zero c"
  obtains (bump) es where "bumpEntry ty p c (topList t) = Some es" "topList (RecordCacheHitSavings ty p c t) = es"
  | (add) "(ty, p) \<notin> entryKey ` set (topList t)" "length (topList t) < maxTopEntries"
      "topList (RecordCacheHitSavings ty p c t) = topList t @ [\<lparr>CacheType = ty, Prompt = p, Cost = c, Hits = 1\<rparr>]"
  | (replace) "(ty, p) \<notin> entryKey ` set (topList t)" "length (topList t) = maxTopEntries"
      "f64_lt (Cost (topList t ! cheapest (topList t))) c"
      "topList (RecordCacheHitSavings ty p c t) =
        (topList t)[cheapest (topList t) := \<lparr>CacheType = ty, Prompt = p, Cost = c, Hits = 1\<rparr>]"
  | (ignore) "(ty, p) \<notin> entryKey ` set (topList t)" "length (topList t) = maxTopEntries"
      "\<not> f64_lt (Cost (topList t ! cheapest (topList t))) c" "topList (RecordCacheHitSavings ty p c t) = topList t"
proof -
  have pos: "\<not> f64_le c f64_zero" using f64_pos [OF pos_not_nan [OF assms(2)]] assms(2) by simp
  have len: "length (topList t) \<le> maxTopEntries" using assms(1) by (simp add: top_ok_def)
  show thesis
  proof (cases "bumpEntry ty p c (topList t)")
    case None
    then have "(ty, p) \<notin> entryKey ` set (topList t)" by (simp add: bumpEntry_None)
    with None pos len show ?thesis
      by (cases "length (topList t) < maxTopEntries"; cases "f64_lt (Cost (topList t ! cheapest (topList t))) c")
        (auto simp: RecordCacheHitSavings_def Let_def intro: add replace ignore)
  qed (use pos in \<open>auto simp: RecordCacheHitSavings_def Let_def intro: bump\<close>)
qed

lemma bump_rel:
  assumes "bumpEntry ty p c es = Some es'" "\<forall>e\<in>set es. \<not> is_nan (Cost e)"
  shows "list_all2 (\<lambda>e e'. entryKey e = entryKey e' \<and> f64_le (Cost e) (Cost e')) es es'"
  using assms
proof (induction es arbitrary: es')
  case (Cons e es)
  then show ?case by (auto simp: f64_le_def list_all2_same split: if_splits)
qed simp

lemma list_all2_pick:
  "list_all2 P xs ys \<Longrightarrow> x \<in> set xs \<Longrightarrow> \<exists>y\<in>set ys. P x y"
  "list_all2 P xs ys \<Longrightarrow> y \<in> set ys \<Longrightarrow> \<exists>x\<in>set xs. P x y"
  by (induction rule: list_all2_induct) auto

lemma cheapest_top:
  assumes "top_ok t" "length (topList t) = maxTopEntries"
  shows "cheapest (topList t) < length (topList t)"
    "e \<in> set (topList t) \<Longrightarrow> f64_le (Cost (topList t ! cheapest (topList t))) (Cost e)"
proof -
  have "topList t \<noteq> []" using assms(2) by (auto simp: maxTopEntries_def)
  moreover have "\<not> is_nan (Cost e)" if "e \<in> set (topList t)" for e
    using assms(1) that by (auto simp: top_ok_def dest: pos_not_nan)
  ultimately show "cheapest (topList t) < length (topList t)"
    "e \<in> set (topList t) \<Longrightarrow> f64_le (Cost (topList t ! cheapest (topList t))) (Cost e)"
    using cheapest_least [of "topList t"] by blast+
qed

lemma bump_accounted:
  assumes "list_all2 (\<lambda>e e'. entryKey e = entryKey e' \<and> f64_le (Cost e) (Cost e')) (topList t) (topList t')"
    and "accounted ty p c t"
  shows "accounted ty p c t'"
proof -
  have up: "\<exists>e'\<in>set (topList t'). entryKey e' = entryKey e \<and> f64_le (Cost e) (Cost e')" if "e \<in> set (topList t)" for e
    using list_all2_pick(1) [OF assms(1) that] by metis
  have down: "\<exists>e\<in>set (topList t). f64_le (Cost e) (Cost e')" if "e' \<in> set (topList t')" for e'
    using list_all2_pick(2) [OF assms(1) that] by metis
  have len: "length (topList t') = length (topList t)" using assms(1) by (simp add: list_all2_lengthD)
  from assms(2) show ?thesis
    unfolding accounted_def len using up down f64_le_trans by (metis (no_types, lifting))
qed

lemma top_ok_costs: "top_ok t \<Longrightarrow> \<forall>e\<in>set (topList t). \<not> is_nan (Cost e)"
  by (auto simp: top_ok_def dest: pos_not_nan)

lemma top_ok_savings [inv_intros]:
  assumes "top_ok t" "f64_lt f64_zero c"
  shows "top_ok (RecordCacheHitSavings ty p c t)"
  using assms
proof (cases rule: savings_cases [where ty = ty and p = p])
  case (bump es)
  note rel = bump_rel [OF bump(1) top_ok_costs [OF assms(1)]]
  have "map entryKey es = map entryKey (topList t)" by (rule bumpEntry_keys [OF bump(1)])
  moreover have "length es = length (topList t)" using rel by (simp add: list_all2_lengthD)
  moreover have "f64_lt f64_zero (Cost e)" if e: "e \<in> set es" for e
  proof -
    obtain e0 where "e0 \<in> set (topList t)" "f64_le (Cost e0) (Cost e)"
      using list_all2_pick(2) [OF rel e] by metis
    then show ?thesis using assms(1) f64_lt_trans f64_lt_eq unfolding top_ok_def f64_le_def by blast
  qed
  ultimately show ?thesis using assms(1) bump(2) by (simp add: top_ok_def)
next
  case add
  then show ?thesis using assms by (auto simp: top_ok_def)
next
  case replace
  let ?e = "\<lparr>CacheType = ty, Prompt = p, Cost = c, Hits = 1\<rparr>"
  have "distinct ((map entryKey (topList t))[cheapest (topList t) := entryKey ?e])"
    using assms(1) replace(1) by (intro distinct_list_update) (auto simp: top_ok_def)
  then show ?thesis
    using assms replace(2,4) set_update_subset_insert [of "topList t" "cheapest (topList t)" ?e]
    by (auto simp: top_ok_def map_update)
next
  case ignore
  then show ?thesis using assms by (simp add: top_ok_def)
qed

lemma accounted_savings:
  assumes "top_ok t" "f64_lt f64_zero c'" "accounted ty p c t"
  shows "accounted ty p c (RecordCacheHitSavings ty' p' c' t)"
  using assms(1,2)
proof (cases rule: savings_cases [where ty = ty' and p = p'])
  case (bump es)
  then show ?thesis
    using bump_accounted [OF _ assms(3)] bump_rel [OF bump(1) top_ok_costs [OF assms(1)]] by simp
next
  case add
  then show ?thesis using assms(3) by (auto simp: accounted_def)
next
  case replace
  let ?i = "cheapest (topList t)" and ?e = "\<lparr>CacheType = ty', Prompt = p', Cost = c', Hits = 1\<rparr>"
  note low = cheapest_top [OF assms(1) replace(2)]
  have full: "accounted ty p c (RecordCacheHitSavings ty' p' c' t)" if "f64_le c (Cost (topList t ! ?i))"
  proof -
    have "f64_le c c'" using that replace(3) f64_le_trans by (metis f64_le_def)
    moreover have "f64_le c (Cost e)" if "e \<in> set (topList t)" for e
      using low(2) [OF that] \<open>f64_le c (Cost (topList t ! ?i))\<close> f64_le_trans by blast
    ultimately show ?thesis
      using replace(2,4) set_update_subset_insert [of "topList t" ?i ?e] by (auto simp: accounted_def)
  qed
  from assms(3) consider e where "e \<in> set (topList t)" "entryKey e = (ty, p)" "f64_le c (Cost e)"
    | "\<forall>e\<in>set (topList t). f64_le c (Cost e)" by (auto simp: accounted_def)
  then show ?thesis
  proof cases
    case (1 e)
    then obtain j where j: "j < length (topList t)" "topList t ! j = e" by (auto simp: in_set_conv_nth)
    show ?thesis
    proof (cases "j = ?i")
      case False
      then have "e \<in> set ((topList t)[?i := ?e])" using j by (metis length_list_update nth_list_update_neq nth_mem)
      then show ?thesis using 1 replace(4) by (auto simp: accounted_def)
    qed (use 1 j full in simp)
  next
    case 2
    then show ?thesis using full low(1) by simp
  qed
next
  case ignore
  then show ?thesis using assms(3) by (simp add: accounted_def)
qed

lemma accounted_new:
  assumes "top_ok t" "f64_lt f64_zero c"
  shows "accounted ty p c (RecordCacheHitSavings ty p c t)"
  using assms
proof (cases rule: savings_cases [where ty = ty and p = p])
  case (bump es)
  then show ?thesis
    using bumpEntry_found [OF bump(1) top_ok_costs [OF assms(1)] pos_not_nan [OF assms(2)]]
    by (auto simp: accounted_def)
next
  case add
  then show ?thesis using pos_not_nan [OF assms(2)] by (auto simp: accounted_def f64_le_def)
next
  case replace
  have "cheapest (topList t) < length (topList t)" by (rule cheapest_top(1) [OF assms(1) replace(2)])
  then show ?thesis
    using replace(4) pos_not_nan [OF assms(2)] set_update_memI [of "cheapest (topList t)" "topList t"]
    by (auto simp: accounted_def f64_le_def intro!: bexI)
next
  case ignore
  note low = cheapest_top [OF assms(1) ignore(2)]
  have "f64_le c (Cost (topList t ! cheapest (topList t)))"
    using ignore(3) f64_not_lt pos_not_nan [OF assms(2)] top_ok_costs [OF assms(1)] low(1) by simp
  then show ?thesis using ignore low(2) f64_le_trans by (auto simp: accounted_def)
qed

text \<open>Runs of cache hits.\<close>

definition recordHits :: "(string \<times> string \<times> float64) list \<Rightarrow> Tracker \<Rightarrow> Tracker"
  where "recordHits = fold (\<lambda>(ty, p, c). RecordCacheHitSavings ty p c)"

lemma top_ok_New [inv_intros]: "top_ok tracker_New"
  by (simp add: top_ok_def tracker_New_def)

lemma top_exact:
  assumes "top_ok t" "\<forall>(ty, p, c)\<in>set hs. f64_lt f64_zero c"
  shows "top_ok (recordHits hs t)" "accounted ty p c t \<or> (ty, p, c) \<in> set hs \<Longrightarrow> accounted ty p c (recordHits hs t)"
proof -
  have "top_ok (recordHits hs t) \<and>
      (accounted ty p c t \<or> (ty, p, c) \<in> set hs \<longrightarrow> accounted ty p c (recordHits hs t))"
    using assms
  proof (induction hs arbitrary: t)
    case (Cons h hs)
    obtain ty' p' c' where h: "h = (ty', p', c')" by (cases h)
    have pos: "f64_lt f64_zero c'" using Cons.prems h by simp
    note ih = Cons.IH [OF top_ok_savings [OF Cons.prems(1) pos, of ty' p']]
    show ?case
      using ih Cons.prems h accounted_savings [OF Cons.prems(1) pos] accounted_new [OF Cons.prems(1) pos]
      by (auto simp: recordHits_def)
  qed (simp add: recordHits_def)
  then show "top_ok (recordHits hs t)"
    "accounted ty p c t \<or> (ty, p, c) \<in> set hs \<Longrightarrow> accounted ty p c (recordHits hs t)" by auto
qed

end
