(* ===== verification/AIProperties.thy ===== *)
theory AIProperties
  imports StorageProperties Consolidate Graph Analytics
begin

text \<open>
  The properties of the stores behind the commands for language-model applications: the vector index,
  the knowledge graph, the response caches, agent memory, consolidation and the cost tracker.
\<close>

section \<open>The vector index\<close>

text \<open>
  C18. VECTOR search returns the best \<open>k\<close> hits, best first: of all entries of the namespace that pass
  the filter, have the query's dimension and a defined score, no entry left out ranks before one
  returned, and fewer than \<open>k\<close> come back only when there are no more. The answer does not depend on the
  order in which the namespace is iterated. With text blended in, the blended scores must not be NaN.
\<close>

theorem vector_search_top:
  assumes "env_ok env"
    and "hybrid = None \<or> (\<forall>r\<in>hits uni namespace vec metric flt hybrid s. \<not> is_nan (rScore r))"
  shows "let H = hits uni namespace vec metric flt hybrid s;
             better = betterHit (hybrid \<noteq> None \<or> metric \<noteq> MEuclidean);
             out = vector_Search env uni namespace vec k metric flt hybrid s
         in finite H \<and> set out \<subseteq> H \<and> length out = min (nat k) (card H) \<and> sorted_wrt better out \<and>
            (\<forall>a\<in>set out. \<forall>b\<in>H - set out. better a b) \<and>
            (\<forall>env'. env_ok env' \<longrightarrow> vector_Search env' uni namespace vec k metric flt hybrid s = out)"
proof -
  have n: "\<forall>r\<in>hits uni namespace vec metric flt hybrid s. \<not> is_nan (rScore r)"
    using assms(2) hits_plain_no_nan by blast
  show ?thesis
    using vector_Search_top [OF assms(1) n] vector_Search_env [OF _ assms(1) n]
    unfolding Let_def by blast
qed

definition demoVectors :: vectorStore \<comment> \<open>two one-dimensional vectors and one of another dimension\<close>
  where "demoVectors = vector_Upsert ''n'' ''a'' [f64_one] fmempty []
    (vector_Upsert ''n'' ''b'' [Fin False 2] fmempty [] (vector_Upsert ''n'' ''c'' [f64_one, f64_one] fmempty [] vector_New))"

lemma small_products [simp]:
  "f64_round s 1 = Fin s 1" "f64_round s 2 = Fin s 2" "f64_round s 0 = Fin s 0"
  using f64_round_nat [of 1 s] f64_round_nat [of 2 s] f64_round_nat [of 0 s] by simp_all

theorem vector_search_top_witness:
  "vector_Search (env_at 0) (\<lambda>_. []) ''n'' [f64_one] 1 MDot fmempty None demoVectors = [\<lparr>rID = ''b'', rScore = Fin False 2\<rparr>] \<and>
   vector_Search \<lparr>now = 0, order = rev\<rparr> (\<lambda>_. []) ''n'' [f64_one] 1 MDot fmempty None demoVectors =
     [\<lparr>rID = ''b'', rScore = Fin False 2\<rparr>]"
proof -
  have k: "range_keys (env_at 0) (vector_ns ''n'' demoVectors) = [''a'', ''b'', ''c'']"
    unfolding demoVectors_def by code_simp
  have f: "range_keys (env_at 0) (fmempty :: (string, string) fmap) = []" by code_simp
  have e: "fmlookup (vector_ns ''n'' demoVectors) ''a'' = Some \<lparr>veVector = [f64_one], veMetadata = fmempty, veText = []\<rparr>"
    "fmlookup (vector_ns ''n'' demoVectors) ''b'' = Some \<lparr>veVector = [Fin False 2], veMetadata = fmempty, veText = []\<rparr>"
    "fmlookup (vector_ns ''n'' demoVectors) ''c'' = Some \<lparr>veVector = [f64_one, f64_one], veMetadata = fmempty, veText = []\<rparr>"
    by (simp_all add: demoVectors_def)
  have "vector_Search (env_at 0) (\<lambda>_. []) ''n'' [f64_one] 1 MDot fmempty None demoVectors = [\<lparr>rID = ''b'', rScore = Fin False 2\<rparr>]"
    by (simp add: vector_Search_def k e searchHit_def matchesFilter_def f rawScore_def Dot_def f64_of_rat_def
        insertionSort_def betterHit_def)
  moreover have "env_ok \<lparr>now = 0, order = rev\<rparr>" by (simp add: env_ok_def)
  ultimately show ?thesis
    using vector_search_top [of "env_at 0" None "\<lambda>_. []" "''n''" "[f64_one]" MDot fmempty demoVectors 1] by (simp add: Let_def)
qed

section \<open>The knowledge graph\<close>

text \<open>
  C19. \<^verbatim>\<open>Related\<close> is breadth-first search: from an existing node of a well-formed graph it reports
  every node of the workspace within the depth exactly once, at its distance along undirected edges
  through existing nodes, nearest first, with an edge that joins it to a node one hop closer; and it
  reports nothing else, in whatever order the edges are iterated on each hop.
\<close>

theorem related_is_bfs:
  fixes depth :: int
  assumes "graph_ok g" "fmlookup g workspace = Some ws" "fmlookup (nodes ws) nodeID \<noteq> None"
    and "\<forall>h. mset (eorder h (fkeys (edges ws))) = mset (fkeys (edges ws))"
  defines "out \<equiv> Related eorder workspace nodeID depth g"
    and "d \<equiv> nat (if depth \<le> 0 then 1 else depth)"
  shows "distinct (map (nID \<circ> rnNode) out) \<and> sorted (map Hops out) \<and> (\<forall>r\<in>set out. discovery ws nodeID r) \<and>
    (\<forall>k i. 1 \<le> k \<and> k \<le> d \<and> i \<in> layer ws nodeID k \<longleftrightarrow> (\<exists>r\<in>set out. nID (rnNode r) = i \<and> Hops r = int k))"
proof -
  have rep: "reported ws nodeID d out"
    unfolding out_def d_def by (rule Related_layers [OF assms(1-3)]) (use assms(4) in blast)
  have hit: "(\<exists>r\<in>set out. nID (rnNode r) = i \<and> Hops r = int k)" if "1 \<le> k" "k \<le> d" "i \<in> layer ws nodeID k" for k i
  proof -
    have "i \<in> (nID \<circ> rnNode) ` set out" using rep that unfolding reported_def by blast
    then obtain r where r: "r \<in> set out" "nID (rnNode r) = i" by auto
    then have "1 \<le> Hops r" "i \<in> layer ws nodeID (nat (Hops r))" using rep by (auto simp: reported_def discovery_def)
    with that(3) layer_disjoint [of "nat (Hops r)" k ws nodeID] layer_disjoint [of k "nat (Hops r)" ws nodeID]
    have "nat (Hops r) = k" by (metis disjoint_iff linorder_neqE_nat)
    with r \<open>1 \<le> Hops r\<close> show ?thesis by auto
  qed
  have sound: "1 \<le> k \<and> k \<le> d \<and> nID (rnNode r) \<in> layer ws nodeID k" if "r \<in> set out" "Hops r = int k" for r k
    using rep that by (auto simp: reported_def discovery_def)
  show ?thesis using rep hit sound unfolding reported_def by metis
qed

definition demoGraph :: graphStore \<comment> \<open>a - b - c, and an edge from b to a node that does not exist\<close>
  where "demoGraph =
    (let n = (\<lambda>i. UpsertNode ''w'' \<lparr>nID = i, nLabel = [], nMetadata = fmempty\<rparr>);
         e = (\<lambda>i j. UpsertEdge ''w'' \<lparr>FromID = i, ToID = j, eLabel = [], Weight = f64_zero\<rparr>)
     in e ''b'' ''x'' (e ''c'' ''b'' (e ''a'' ''b'' (n ''c'' (n ''b'' (n ''a'' graph_New))))))"

lemma demoGraph_ok: "graph_ok demoGraph"
  by (simp add: demoGraph_def Let_def inv_intros)

theorem related_is_bfs_witness:
  "\<exists>ws. fmlookup demoGraph ''w'' = Some ws \<and> fmlookup (nodes ws) ''a'' \<noteq> None \<and>
     map (\<lambda>r. (nID (rnNode r), Hops r)) (Related (\<lambda>_ es. es) ''w'' ''a'' 5 demoGraph) = [(''b'', 1), (''c'', 2)] \<and>
     ''c'' \<in> layer ws ''a'' 2"
proof -
  define ws where "ws = the (fmlookup demoGraph ''w'')"
  have ws: "fmlookup demoGraph ''w'' = Some ws" "fmlookup (nodes ws) ''a'' \<noteq> None"
    by (simp_all add: ws_def demoGraph_def Let_def UpsertNode_def UpsertEdge_def getOrCreate_def graph_New_def)
  have k: "fkeys (edges ws) = [(''a'', ''b'', []), (''b'', ''x'', []), (''c'', ''b'', [])]"
    unfolding ws_def demoGraph_def by code_simp
  let ?n = "\<lambda>i. Some \<lparr>nID = i, nLabel = [], nMetadata = fmempty\<rparr>"
  let ?e = "\<lambda>i j. Some \<lparr>FromID = i, ToID = j, eLabel = [], Weight = f64_zero\<rparr>"
  have n: "fmlookup (nodes ws) ''a'' = ?n ''a''" "fmlookup (nodes ws) ''b'' = ?n ''b''" "fmlookup (nodes ws) ''c'' = ?n ''c''"
    "fmlookup (nodes ws) ''x'' = None"
    and e: "fmlookup (edges ws) (''a'', ''b'', []) = ?e ''a'' ''b''" "fmlookup (edges ws) (''b'', ''x'', []) = ?e ''b'' ''x''"
    "fmlookup (edges ws) (''c'', ''b'', []) = ?e ''c'' ''b''"
    by (simp_all add: ws_def demoGraph_def Let_def UpsertNode_def UpsertEdge_def getOrCreate_def graph_New_def keyOf_def)
  note step = relatedLoop.simps [of _ ws 5 1] relatedLoop.simps [of _ ws 5 2] relatedLoop.simps [of _ ws 5 3] relatedLoop.simps [of _ ws 5 4]
  have run: "map (\<lambda>r. (nID (rnNode r), Hops r)) (Related (\<lambda>_ es. es) ''w'' ''a'' 5 demoGraph) = [(''b'', 1), (''c'', 2)]"
    by (simp add: Related_def ws n e k step edgeList_def relatedStep_def far_def)
  have "(''c'', 2) \<in> (\<lambda>r. (nID (rnNode r), Hops r)) ` set (Related (\<lambda>_ es. es) ''w'' ''a'' 5 demoGraph)"
    using arg_cong [OF run, of set] by simp
  then have hit: "\<exists>r\<in>set (Related (\<lambda>_ es. es) ''w'' ''a'' 5 demoGraph). nID (rnNode r) = ''c'' \<and> Hops r = int 2"
    by auto
  from related_is_bfs [OF demoGraph_ok ws, of "\<lambda>_ es. es" 5]
  have "1 \<le> k \<and> k \<le> nat 5 \<and> i \<in> layer ws ''a'' k \<longleftrightarrow>
      (\<exists>r\<in>set (Related (\<lambda>_ es. es) ''w'' ''a'' 5 demoGraph). nID (rnNode r) = i \<and> Hops r = int k)" for k i
    by simp
  from this [THEN iffD2, OF hit] have "''c'' \<in> layer ws ''a'' 2" by simp
  then show ?thesis by (intro exI [of _ ws] conjI ws run)
qed

section \<open>Similarities that the examples compute\<close>

lemma sqrt_one [simp]: "f64_sqrt f64_one = f64_one"
  by (subst f64_sqrtI [where e = 0 and f = "2 ^ 52" and y = "2 ^ 104" and n = "2 ^ 52"])
    (simp_all add: power_int_def power_one_over)

lemma Cosine_unit [simp]: "Cosine [f64_one] [Fin b 1] = Fin b 1"
  by (cases b) (simp_all add: Cosine_def cosineStep_def f64_of_rat_def del: f64_sqrt.simps)

lemma sqrt_two: "f64_sqrt (Fin False 2) = Fin False (6369051672525773 / 4503599627370496)"
  by (subst f64_sqrtI [where e = 1 and f = 6369051672525772 and y = "2 ^ 105" and n = 6369051672525773])
    (simp_all add: power_int_def power_one_over)

lemma sqrt_two_squared: "f64_round s (6369051672525773 / 4503599627370496 * (6369051672525773 / 4503599627370496)) =
    Fin s (4503599627370497 / 2251799813685248)"
  by (subst f64_roundI [where e = 1 and n = 4503599627370497]) (simp_all add: power_int_def power_one_over)

lemma two_over_squared: "f64_round s (2 / (4503599627370497 / 2251799813685248)) = Fin s (4503599627370495 / 4503599627370496)"
  by (subst f64_roundI [where e = "-1" and n = 9007199254740990]) (simp_all add: power_int_def power_one_over)

lemma Cosine_diagonal: "Cosine [f64_one, f64_one] [f64_one, f64_one] = Fin False (4503599627370495 / 4503599627370496)"
  using sqrt_two_squared two_over_squared
  by (simp del: f64_sqrt.simps add: Cosine_def cosineStep_def f64_of_rat_def sqrt_two)

section \<open>Agent memory\<close>

text \<open>
  The states of the memory store: every operation, and consolidation, which lists, summarises and
  stores. Every call may meet another clock, another iteration order, another outcome of the embedding
  and completion providers and other random bytes.
\<close>

inductive mem_reach :: "MemoryStore \<Rightarrow> bool" where
  reach_New: "mem_reach memory_New"
| reach_Put: "mem_reach s \<Longrightarrow> mem_reach (snd (memory_Put t provider rnd m ttl s))"
| reach_Get: "mem_reach s \<Longrightarrow> mem_reach (snd (memory_Get t w i s))"
| reach_Search: "mem_reach s \<Longrightarrow> env_ok env \<Longrightarrow> mem_reach (snd (memory_Search env provider w q opts s))"
| reach_History: "mem_reach s \<Longrightarrow> mem_reach (snd (memory_History t w i s))"
| reach_List: "mem_reach s \<Longrightarrow> env_ok env \<Longrightarrow> mem_reach (snd (memory_List env w lopts s))"
| reach_Consolidate: "mem_reach s \<Longrightarrow> env_ok env \<Longrightarrow>
    mem_reach (snd (Consolidate env t provider llm rnd w agent kind th s))"

text \<open>
  C17. In every reachable state of the memory store the similarity index holds exactly the embedding,
  agent and kind of every record; a history belongs to an existing record, holds at most 100 versions,
  each the successor of the one before and with the same creation time, and starts at version 1 unless
  it is full.
\<close>

theorem memory_invariant: "mem_reach s \<Longrightarrow> mem_ok s"
  by (induction rule: mem_reach.induct) (auto intro: inv_intros)

definition demoEmbed :: provider \<comment> \<open>a provider with one-dimensional embeddings\<close>
  where "demoEmbed p = (if p = ''bad'' then Inl ''unavailable'' else Inr [if p = ''far'' then Fin True 1 else f64_one])"

definition demoMemory :: "string \<Rightarrow> string \<Rightarrow> Memory"
  where "demoMemory i txt = \<lparr>mID = i, mAgentID = ''ag'', mWorkspaceID = ''w'', mKind = Episodic, mContent = txt,
    mEmbedding = [], mMetadata = fmempty, mCreatedAt = 0, mVersion = 0, mExpiresAt = None\<rparr>"

definition demoPut :: "instant \<Rightarrow> string \<Rightarrow> string \<Rightarrow> duration \<Rightarrow> MemoryStore \<Rightarrow> MemoryStore"
  where "demoPut t i txt ttl s = snd (memory_Put t demoEmbed (Inl ''no entropy'') (demoMemory i txt) ttl s)"

lemma reach_demoPut: "mem_reach s \<Longrightarrow> mem_reach (demoPut t i txt ttl s)"
  unfolding demoPut_def by (rule reach_Put)

theorem memory_invariant_witness:
  "mem_reach (demoPut 2 ''x'' ''b'' 0 (demoPut 1 ''x'' ''a'' 0 memory_New)) \<and>
   mem_ok (demoPut 2 ''x'' ''b'' 0 (demoPut 1 ''x'' ''a'' 0 memory_New))"
  using memory_invariant [of "demoPut 2 ''x'' ''b'' 0 (demoPut 1 ''x'' ''a'' 0 memory_New)"]
  by (simp add: reach_demoPut reach_New)

text \<open>
  C21. After a successful \<^verbatim>\<open>Put\<close>, and until the record expires, \<^verbatim>\<open>Get\<close> returns the new version
  (the version number is one more than the replaced record's, its creation time is kept), \<^verbatim>\<open>History\<close>
  ends with the replaced record and the new one after the newest of the versions kept before, and every
  other record of every workspace reads as before.
\<close>

theorem memory_put_read:
  fixes s :: MemoryStore and t ttl u :: int and rnd :: "string + nat list"
  assumes "mem_ok s" "mWorkspaceID m \<noteq> []" "provider (mContent m) = Inr v"
    and "(if mID m = [] then newID rnd else Inr (mID m)) = Inr i"
    and "ttl \<le> 0 \<or> u < t + ttl"
  defines "w \<equiv> mWorkspaceID m"
  defines "s' \<equiv> snd (memory_Put t provider rnd m ttl s)"
    and "old \<equiv> fmlookup (records_of w s) i"
  shows "fst (memory_Put t provider rnd m ttl s) = Inr i \<and>
    fst (memory_Get u w i s') = Some (newVersion t v i m ttl old) \<and>
    fst (memory_History u w i s') =
      (case old of
         None \<Rightarrow> [newVersion t v i m ttl old]
       | Some r \<Rightarrow> drop (length (history_of w i s) + 1 - 100) (history_of w i s @ [r]) @ [newVersion t v i m ttl old]) \<and>
    (\<forall>w' j. (w', j) \<noteq> (w, i) \<longrightarrow>
       fst (memory_Get u w' j s') = fst (memory_Get u w' j s) \<and>
       fst (memory_History u w' j s') = fst (memory_History u w' j s))"
proof -
  note put = Put_result [of m provider v rnd i, OF assms(2-4), where s = s and t = t and ttl = ttl, folded w_def s'_def, folded old_def]
  have live: "live_rec u w' s' j = (if w' = w \<and> j = i then Some (newVersion t v i m ttl old) else live_rec u w' s j)" for w' j
    using assms(5) by (auto simp: live_rec_def put(2) memory_expired_def expired_deadline)
  have gone: "history_of w i s = []" if "old = None" using mem_ok_gone [OF assms(1)] that by (simp add: old_def)
  have "fst (memory_History u w' j s') = fst (memory_History u w' j s)" if "(w', j) \<noteq> (w, i)" for w' j
    using that by (auto simp: memory_History_live live put(4) split: option.splits)
  then show ?thesis
    using gone by (auto simp: memory_Get_live memory_History_live live put maxMemoryHistoryPerRecord_def split: option.splits)
qed

theorem memory_put_read_witness:
  "map mContent (fst (memory_History 5 ''w'' ''x'' (demoPut 2 ''x'' ''b'' 0 (demoPut 1 ''x'' ''a'' 0 memory_New)))) = [''a'', ''b''] \<and>
   map_option mVersion (fst (memory_Get 5 ''w'' ''x'' (demoPut 2 ''x'' ''b'' 0 (demoPut 1 ''x'' ''a'' 0 memory_New)))) = Some 2"
proof -
  let ?s = "demoPut 1 ''x'' ''a'' 0 memory_New"
  have "mem_ok ?s" unfolding demoPut_def by (intro inv_intros)
  note put = memory_put_read [of ?s "demoMemory ''x'' ''b''" demoEmbed "[f64_one]" "Inl ''no entropy''" "''x''" 0 5 2, OF this]
  have old: "fmlookup (records_of ''w'' ?s) ''x'' = Some (newVersion 1 [f64_one] ''x'' (demoMemory ''x'' ''a'') 0 None)"
    "history_of ''w'' ''x'' ?s = []"
    by (simp_all add: demoPut_def demoMemory_def demoEmbed_def memory_Put_def newVersion_def Let_def memory_New_def
        records_of_def history_of_def)
  show ?thesis
    using put by (simp add: demoPut_def [of 2] demoMemory_def [of _ "''b''"] demoEmbed_def old [unfolded demoMemory_def]
        int64_def newVersion_def demoMemory_def)
qed

text \<open>
  C20. A memory search ranks all records of the workspace that pass the agent and kind filters and whose
  similarity to the query is defined, takes the \<open>k\<close> best, and only then drops the expired ones and those
  below the threshold; what remains comes best first. Reading changes no live record of any workspace.
\<close>

theorem memory_search_exact:
  fixes opts :: SearchOptions and w :: string
  assumes "env_ok env" "mem_ok s" "provider q = Inr v"
  defines "k \<equiv> if soK opts \<le> 0 then 10 else soK opts"
    and "H \<equiv> search_hits w v opts s"
    and "res \<equiv> memory_Search env provider w q opts s"
  shows "\<exists>ranked. set ranked \<subseteq> H \<and> length ranked = min (nat k) (card H) \<and> sorted_wrt (betterHit True) ranked \<and>
      (\<forall>a\<in>set ranked. \<forall>b\<in>H - set ranked. betterHit True a b) \<and>
      fst res = Inr (filter (\<lambda>r. live_rec (now env) w s (rID r) \<noteq> None \<and> \<not> below (soThreshold opts) r) ranked) \<and>
      (\<forall>u w' j. now env \<le> u \<longrightarrow> live_rec u w' (snd res) j = live_rec u w' s j)"
proof -
  let ?r = "searchRank env w v opts s"
  note d = distinct_searchRank [OF assms(1), of w v opts s]
  have res: "res = (Inr (filter (\<lambda>r. live_rec (now env) w s (rID r) \<noteq> None \<and> \<not> below (soThreshold opts) r) ?r),
      fold (evictLocked w) (filter (dead_rec (now env) w s) (map rID ?r)) s)"
    by (simp add: res_def memory_Search_def assms(3) searchCollect_char [OF d])
  have "live_rec u w' (snd res) j = live_rec u w' s j" if "now env \<le> u" for u w' j
    using live_evicts [OF _ _ that, of "filter (dead_rec (now env) w s) (map rID ?r)" w s] d
    by (simp add: res list_all_iff)
  then show ?thesis
    using searchRank_top [OF assms(1,2), where w = w and v = v and opts = opts] res
    unfolding H_def k_def memory_defaultSearchK_def by (intro exI [of _ ?r]) simp
qed

definition searchAll :: SearchOptions
  where "searchAll = \<lparr>soAgentID = [], soKind = None, soK = 0, soThreshold = None\<rparr>"

theorem memory_search_exact_witness:
  "\<exists>out. fst (memory_Search (env_at 9) demoEmbed ''w'' ''q'' searchAll (demoPut 1 ''x'' ''a'' 0 memory_New)) = Inr out \<and>
     rID ` set out \<subseteq> {''x''}"
proof -
  let ?s = "demoPut 1 ''x'' ''a'' 0 memory_New"
  have ok: "mem_ok ?s" unfolding demoPut_def by (intro inv_intros)
  have q: "demoEmbed ''q'' = Inr [f64_one]" by (simp add: demoEmbed_def)
  obtain ranked where r: "set ranked \<subseteq> search_hits ''w'' [f64_one] searchAll ?s"
    "fst (memory_Search (env_at 9) demoEmbed ''w'' ''q'' searchAll ?s) =
      Inr (filter (\<lambda>r. live_rec (now (env_at 9)) ''w'' ?s (rID r) \<noteq> None \<and> \<not> below (soThreshold searchAll) r) ranked)"
    using memory_search_exact [of "env_at 9" ?s demoEmbed "''q''", where w = "''w''" and opts = searchAll, OF env_at_simps(2) ok q]
    by blast
  have "rID r = ''x''" if "r \<in> search_hits ''w'' [f64_one] searchAll ?s" for r
    using that by (auto simp: search_hits_def demoPut_def demoMemory_def demoEmbed_def memory_Put_def Let_def
        memory_New_def records_of_def split: if_splits)
  with r show ?thesis by (intro exI [of _ "filter (\<lambda>r. live_rec (now (env_at 9)) ''w'' ?s (rID r) \<noteq> None \<and>
      \<not> below (soThreshold searchAll) r) ranked"]) auto
qed

definition demoShadowed :: MemoryStore \<comment> \<open>a live record, and an exact match that expires at 10\<close>
  where "demoShadowed = demoPut 2 ''y'' ''far'' 0 (demoPut 1 ''x'' ''a'' 9 memory_New)"

definition searchBest :: SearchOptions
  where "searchBest = \<lparr>soAgentID = [], soKind = None, soK = 1, soThreshold = None\<rparr>"

lemma search_shadowed:
  "memory_Search (env_at 20) demoEmbed ''w'' ''q'' searchBest demoShadowed = (Inr [], evictLocked ''w'' ''x'' demoShadowed)"
  "memory_Search (env_at 21) demoEmbed ''w'' ''q'' searchBest (evictLocked ''w'' ''x'' demoShadowed) =
    (Inr [\<lparr>rID = ''y'', rScore = Fin True 1\<rparr>], evictLocked ''w'' ''x'' demoShadowed)"
proof -
  let ?md = "indexMetadata ''ag'' Episodic"
  have k: "range_keys (env_at 20) (vector_ns ''w'' (msVec demoShadowed)) = [''x'', ''y'']"
    "range_keys (env_at 21) (fmdrop ''x'' (vector_ns ''w'' (msVec demoShadowed))) = [''y'']"
    "range_keys (env_at t) (fmempty :: (string, string) fmap) = []" for t
    unfolding demoShadowed_def by code_simp+
  have e: "fmlookup (vector_ns ''w'' (msVec demoShadowed)) ''x'' = Some \<lparr>veVector = [f64_one], veMetadata = ?md, veText = []\<rparr>"
    "fmlookup (vector_ns ''w'' (msVec demoShadowed)) ''y'' = Some \<lparr>veVector = [Fin True 1], veMetadata = ?md, veText = []\<rparr>"
    "map_option mExpiresAt (fmlookup (records_of ''w'' demoShadowed) ''x'') = Some (Some 10)"
    "map_option mExpiresAt (fmlookup (records_of ''w'' demoShadowed) ''y'') = Some None"
    by (simp_all add: demoShadowed_def demoPut_def demoMemory_def demoEmbed_def memory_Put_def Let_def memory_New_def
        records_of_def deadline_def time_add_def)
  have q: "demoEmbed ''q'' = Inr [f64_one]" by (simp add: demoEmbed_def)
  have th: "soThreshold searchBest = None" by (simp add: searchBest_def)
  have r: "searchRank (env_at 20) ''w'' [f64_one] searchBest demoShadowed = [\<lparr>rID = ''x'', rScore = f64_one\<rparr>]"
    "searchRank (env_at 21) ''w'' [f64_one] searchBest (evictLocked ''w'' ''x'' demoShadowed) = [\<lparr>rID = ''y'', rScore = Fin True 1\<rparr>]"
    by (simp_all add: searchRank_def searchBest_def searchFilter_def vector_Search_def k e searchHit_def matchesFilter_def
        rawScore_def insertionSort_def betterHit_def)
  show "memory_Search (env_at 20) demoEmbed ''w'' ''q'' searchBest demoShadowed = (Inr [], evictLocked ''w'' ''x'' demoShadowed)"
    "memory_Search (env_at 21) demoEmbed ''w'' ''q'' searchBest (evictLocked ''w'' ''x'' demoShadowed) =
      (Inr [\<lparr>rID = ''y'', rScore = Fin True 1\<rparr>], evictLocked ''w'' ''x'' demoShadowed)"
    using e(3,4) by (auto simp: memory_Search_def q r th memory_expired_def)
qed

text \<open>
  Expired records still take their places among the \<open>k\<close> best, so a search may return fewer than \<open>k\<close>
  results, or none, although a live record matches; repeating the same search, after the first has
  evicted them, finds it.
\<close>

theorem expired_hides_matches:
  "mem_reach demoShadowed \<and> live_rec 20 ''w'' demoShadowed ''y'' \<noteq> None \<and>
   (let (r1, s1) = memory_Search (env_at 20) demoEmbed ''w'' ''q'' searchBest demoShadowed;
        (r2, s2) = memory_Search (env_at 21) demoEmbed ''w'' ''q'' searchBest s1
    in r1 = Inr [] \<and> r2 = Inr [\<lparr>rID = ''y'', rScore = Fin True 1\<rparr>])"
proof -
  have "live_rec 20 ''w'' demoShadowed ''y'' \<noteq> None" unfolding demoShadowed_def by code_simp
  moreover have "mem_reach demoShadowed" unfolding demoShadowed_def by (intro reach_demoPut reach_New)
  ultimately show ?thesis by (simp add: search_shadowed)
qed

text \<open>
  A \<^verbatim>\<open>Put\<close> to an identifier whose record has expired continues the old lineage when no read
  has evicted the record in between: the new version is numbered after the expired one and
  \<^verbatim>\<open>History\<close> returns the expired content. After a read the same \<^verbatim>\<open>Put\<close> starts at version 1.
\<close>

theorem expired_versions_resurface:
  "let s = demoPut 1 ''x'' ''secret'' 9 memory_New; s1 = demoPut 20 ''x'' ''new'' 0 s;
       s2 = demoPut 20 ''x'' ''new'' 0 (snd (memory_Get 15 ''w'' ''x'' s))
   in fst (memory_Get 15 ''w'' ''x'' s) = None \<and>
      map (\<lambda>m. (mVersion m, mContent m)) (fst (memory_History 21 ''w'' ''x'' s1)) = [(1, ''secret''), (2, ''new'')] \<and>
      map (\<lambda>m. (mVersion m, mContent m)) (fst (memory_History 21 ''w'' ''x'' s2)) = [(1, ''new'')]"
  unfolding Let_def by code_simp

section \<open>Consolidation\<close>

lemma Put_ok:
  assumes "memory_Put t provider rnd m ttl s = (Inr i, s')"
  obtains v where "mWorkspaceID m \<noteq> []" "provider (mContent m) = Inr v"
    "(if mID m = [] then newID rnd else Inr (mID m)) = Inr i"
proof -
  obtain v j where v: "mWorkspaceID m \<noteq> []" "provider (mContent m) = Inr v"
    and j: "(if mID m = [] then newID rnd else Inr (mID m)) = Inr j"
    using assms unfolding memory_Put_def by (auto split: sum.splits if_splits)
  from Put_result(1) [of m provider v rnd j, OF v j, where s = s and t = t and ttl = ttl] assms have "j = i" by simp
  with v j that show thesis by blast
qed

text \<open>
  C22. A successful consolidation considers exactly the live memories of the agent and kind; the
  representatives it summarises are among them, newest first, no two of them duplicates, and every
  memory left out is a duplicate of a newer representative. It deletes no memory: every live record of
  every workspace reads as before, except that the summary is stored, as a long-term memory of the
  agent, under the identifier it returns. With nothing to summarise it stores nothing.
\<close>

theorem consolidate_exact:
  fixes w agent :: string
  assumes "env_ok env" "mem_ok s" "now env \<le> t"
    and "Consolidate env t provider llm rnd w agent kind threshold s = (Inr res, s')"
  defines "M \<equiv> {m. \<exists>i. live_rec (now env) w s i = Some m \<and> (agent = [] \<or> mAgentID m = agent) \<and> mKind m = kind}"
    and "th \<equiv> if f64_le threshold f64_zero then DefaultDedupThreshold else threshold"
  shows "finite M \<and> SourceCount res = int (card M) \<and>
    (if M = {} then SummaryID res = [] \<and> (\<forall>u w' j. t \<le> u \<longrightarrow> live_rec u w' s' j = live_rec u w' s j)
     else \<exists>reps summary tokens sm.
       DedupedCount res = int (length reps) \<and> set reps \<subseteq> M \<and> sorted_wrt newer reps \<and>
       sorted_wrt (\<lambda>a b. \<not> duplicate_of th a b) reps \<and>
       (\<forall>m\<in>M - set reps. \<exists>rep\<in>set reps. newer rep m \<and> duplicate_of th m rep) \<and>
       llm summarySystemPrompt (userPromptOf reps) = Inr (summary, tokens) \<and>
       mContent sm = summary \<and> mAgentID sm = agent \<and> mKind sm = LongTerm \<and>
       (\<forall>u w' j. t \<le> u \<longrightarrow>
          live_rec u w' s' j = (if w' = w \<and> j = SummaryID res then Some sm else live_rec u w' s j)))"
proof -
  let ?opts = "\<lparr>loAgentID = agent, loKind = Some kind\<rparr>"
  obtain ms s1 where l: "memory_List env w ?opts s = (ms, s1)" by fastforce
  have M: "set ms = M"
    using memory_List_result(1) [OF assms(1), of w ?opts s] l unfolding M_def listed_def by auto
  have d: "distinct (map mID ms)" using memory_List_distinct [OF assms(1,2), of w ?opts] l by simp
  have keeps: "live_rec u w' s1 j = live_rec u w' s j" if "t \<le> u" for u w' j
    using memory_List_keeps_live [OF assms(1), of u w' w ?opts s j] l that assms(3) by simp
  have card: "card M = length ms" using M d by (metis distinct_card distinct_map)
  show ?thesis
  proof (cases "ms = []")
    case True
    then have "res = \<lparr>SummaryID = [], SourceCount = 0, DedupedCount = 0\<rparr>" "s' = s1"
      using assms(4) by (simp_all add: Consolidate_def l Let_def)
    then show ?thesis using True M keeps by auto
  next
    case False
    let ?reps = "dedupe ms th"
    obtain summary tokens where answer: "llm summarySystemPrompt (userPromptOf ?reps) = Inr (summary, tokens)"
      using assms(4) False by (auto simp: Consolidate_def l Let_def th_def split: sum.splits if_splits)
    let ?m = "summaryMemory w agent kind summary (int (length ms)) (int (length ?reps))"
    obtain i where put: "memory_Put t provider rnd ?m 0 s1 = (Inr i, s')"
      and res: "res = \<lparr>SummaryID = i, SourceCount = int (length ms), DedupedCount = int (length ?reps)\<rparr>"
      using assms(4) False answer by (auto simp: Consolidate_def l Let_def th_def split: sum.splits prod.splits if_splits)
    obtain v where v: "mWorkspaceID ?m \<noteq> []" "provider (mContent ?m) = Inr v"
      "(if mID ?m = [] then newID rnd else Inr (mID ?m)) = Inr i"
      using Put_ok [OF put] by blast
    let ?sm = "newVersion t v i ?m 0 (fmlookup (records_of w s1) i)"
    have "live_rec u w' s' j = (if w' = w \<and> j = i then Some ?sm else live_rec u w' s1 j)" for u w' j
      using Put_result(2) [of ?m provider v rnd i, OF v, where s = s1 and t = t and ttl = 0] put
      by (auto simp: live_rec_def summaryMemory_def memory_expired_def deadline_def)
    moreover have "orders newer (set ms)" "distinct ms"
      using d newer_orders by (auto simp: distinct_map)
    ultimately show ?thesis
      using dedupe_covers [of ms th] M card res answer keeps False
      by (auto simp: covers_def newVersion_def summaryMemory_def
          intro!: exI [of _ ?reps] exI [of _ summary] exI [of _ tokens] exI [of _ ?sm])
  qed
qed

definition demoComplete :: completer \<comment> \<open>a completion provider that answers with a fixed text\<close>
  where "demoComplete sys user = Inr (''sum'', 3)"

theorem consolidate_exact_witness:
  "\<exists>res s'. Consolidate (env_at 9) 9 demoEmbed demoComplete (Inr [26]) ''w'' ''ag'' Episodic f64_zero
       (demoPut 1 ''x'' ''a'' 0 memory_New) = (Inr res, s') \<and>
     SummaryID res = ''1a'' \<and> finite {m. \<exists>i. live_rec 9 ''w'' (demoPut 1 ''x'' ''a'' 0 memory_New) i = Some m \<and>
       mAgentID m = ''ag'' \<and> mKind m = Episodic}"
proof -
  let ?s = "demoPut 1 ''x'' ''a'' 0 memory_New"
  have ok: "mem_ok ?s" unfolding demoPut_def by (intro inv_intros)
  have k: "range_keys (env_at 9) (records_of ''w'' ?s) = [''x'']" by code_simp
  have r: "fmlookup (records_of ''w'' ?s) ''x'' = Some (newVersion 1 [f64_one] ''x'' (demoMemory ''x'' ''a'') 0 None)"
    by (simp add: demoPut_def demoMemory_def demoEmbed_def memory_Put_def newVersion_def Let_def memory_New_def records_of_def)
  have l: "memory_List (env_at 9) ''w'' \<lparr>loAgentID = ''ag'', loKind = Some Episodic\<rparr> ?s =
      ([newVersion 1 [f64_one] ''x'' (demoMemory ''x'' ''a'') 0 None], ?s)"
    by (simp add: memory_List_alt k r memory_expired_def deadline_def newVersion_def demoMemory_def)
  let ?r = "newVersion 1 [f64_one] ''x'' (demoMemory ''x'' ''a'') 0 None"
  have h: "hex_encode [26] = ''1a''" by code_simp
  have reps: "dedupe [?r] th = [?r]" for th by (simp add: dedupe_def insertionSort_def)
  obtain s' where put: "memory_Put 9 demoEmbed (Inr [26]) (summaryMemory ''w'' ''ag'' Episodic ''sum'' 1 1) 0 ?s = (Inr ''1a'', s')"
    using Put_result(1) [of "summaryMemory ''w'' ''ag'' Episodic ''sum'' 1 1" demoEmbed "[f64_one]" "Inr [26]" "''1a''" 9 0 ?s]
    by (cases "memory_Put 9 demoEmbed (Inr [26]) (summaryMemory ''w'' ''ag'' Episodic ''sum'' 1 1) 0 ?s")
      (simp add: summaryMemory_def demoEmbed_def newID_def h)
  define res where "res = \<lparr>SummaryID = ''1a'', SourceCount = 1, DedupedCount = 1\<rparr>"
  have c: "Consolidate (env_at 9) 9 demoEmbed demoComplete (Inr [26]) ''w'' ''ag'' Episodic f64_zero ?s = (Inr res, s')"
    and i: "SummaryID res = ''1a''"
    by (simp_all add: Consolidate_def l Let_def demoComplete_def reps put res_def)
  show ?thesis
    using consolidate_exact [OF env_at_simps(2) ok _ c] c i by (intro exI [of _ res] exI [of _ s']) simp
qed

section \<open>The response caches\<close>

text \<open>
  C23. A lookup in the semantic cache drops the expired entries of the (model, temperature) partition
  and nothing else, and answers with the first of the most similar live entries of that partition,
  when its similarity is not below the threshold; otherwise it misses. In particular no other partition
  is read or changed.
\<close>

theorem semantic_best_match:
  fixes t :: instant and model temp :: string and c :: SemanticCache and threshold :: float64
  assumes "provider prompt = Inr v"
  defines "key \<equiv> partitionKey model temp"
  defines "L \<equiv> filter (\<lambda>e. \<not> expiredAt (seExpiresAt e) t) (partition_of key c)"
    and "res \<equiv> semantic_Get t provider prompt model temp threshold c"
  shows "snd res = fmupd key L c \<and>
    (fst res = Inr (Some (response, cost)) \<longleftrightarrow>
       (\<exists>i. best_at v L i \<and> \<not> f64_lt (Cosine v (seEmbedding (L ! i))) threshold \<and>
          response = seResponse (L ! i) \<and> cost = seCost (L ! i))) \<and>
    (fst res = Inr None \<longleftrightarrow> (\<forall>i. best_at v L i \<longrightarrow> f64_lt (Cosine v (seEmbedding (L ! i))) threshold))"
proof -
  have L: "live_entries t (partitionKey model temp) c = L" by (simp add: live_entries_def L_def key_def)
  note get = semantic_Get_char [of provider prompt v t model temp threshold c, OF assms(1), unfolded L]
  show ?thesis unfolding res_def key_def using get(1) get(2) [of "Some (response, cost)"] get(2) [of None] by simp
qed

theorem semantic_best_match_witness:
  "fst (semantic_Get 5 demoEmbed ''p'' ''m'' ''0'' (Fin False (1 / 2)) semantic_New) = Inr None \<and>
   fst (semantic_Get 5 demoEmbed ''p'' ''m'' ''0'' (Fin False (1 / 2)) (fmupd (partitionKey ''m'' ''0'')
     [\<lparr>sePrompt = ''q'', seEmbedding = [f64_one], seResponse = ''r'', seExpiresAt = None, seCost = f64_zero\<rparr>] semantic_New)) =
     Inr (Some (''r'', f64_zero))"
proof -
  let ?c = "fmupd (partitionKey ''m'' ''0'')
     [\<lparr>sePrompt = ''q'', seEmbedding = [f64_one], seResponse = ''r'', seExpiresAt = None, seCost = f64_zero\<rparr>] semantic_New"
  have "fst (semantic_Get 5 demoEmbed ''p'' ''m'' ''0'' (Fin False (1 / 2)) semantic_New) = Inr None"
    using semantic_best_match [of demoEmbed "''p''" "[f64_one]" 5 "''m''" "''0''" "Fin False (1 / 2)" semantic_New]
    by (simp add: demoEmbed_def semantic_New_def partition_of_def best_at_def)
  moreover have "fst (semantic_Get 5 demoEmbed ''p'' ''m'' ''0'' (Fin False (1 / 2)) ?c) = Inr (Some (''r'', f64_zero))"
    using semantic_best_match [of demoEmbed "''p''" "[f64_one]" 5 "''m''" "''0''" "Fin False (1 / 2)" ?c "''r''" f64_zero]
    by (auto simp: demoEmbed_def partition_of_def best_at_def)
  ultimately show ?thesis by blast
qed

lemma best_at_exists: "\<not> no_match v es \<Longrightarrow> \<exists>i. best_at v es i"
proof -
  assume nm: "\<not> no_match v es"
  obtain kept idx score where s: "semanticScan 0 v (map (seExpiresAt_update (\<lambda>_. None)) es) [] (- 1) (Inf True) = (kept, idx, score)"
    using prod_cases3 by blast
  have "scanned v [] (- 1) (Inf True)" by (simp add: scanned_def no_match_def)
  from semanticScan_best [OF this s]
  have "scanned v (map (seExpiresAt_update (\<lambda>_. None)) es) idx score" by (auto simp: filter_map o_def)
  moreover have "no_match v (map (seExpiresAt_update (\<lambda>_. None)) es) = no_match v es" by (simp add: no_match_def)
  moreover have "best_at v (map (seExpiresAt_update (\<lambda>_. None)) es) i \<Longrightarrow> best_at v es i" for i
    unfolding best_at_def by auto
  ultimately show ?thesis using nm unfolding scanned_def by blast
qed

text \<open>
  C24. A prompt that was stored is found again, in the same partition and before it expires, whenever
  the similarity of its embedding with itself reaches the threshold: the lookup answers with the stored
  response and cost, or with those of a live entry stored before that is at least as similar.
\<close>

theorem semantic_set_get:
  fixes u :: instant and model temp :: string
  defines "before \<equiv> \<lambda>c. filter (\<lambda>e. \<not> expiredAt (seExpiresAt e) u) (partition_of (partitionKey model temp) c)"
  assumes "provider prompt = Inr v" "f64_lt (Inf True) (Cosine v v)" "\<not> f64_lt (Cosine v v) threshold"
    and "ttl \<le> 0 \<or> u < t + ttl"
  shows "let got = fst (semantic_Get u provider prompt model temp threshold
      (snd (semantic_Set t provider prompt model temp response ttl cost c)))
    in got = Inr (Some (response, cost)) \<or>
       (\<exists>e\<in>set (before c). f64_le (Cosine v v) (Cosine v (seEmbedding e)) \<and> got = Inr (Some (seResponse e, seCost e)))"
proof -
  let ?c = "snd (semantic_Set t provider prompt model temp response ttl cost c)"
  let ?L = "live_entries u (partitionKey model temp) ?c"
  let ?e = "\<lparr>sePrompt = prompt, seEmbedding = v, seResponse = response, seExpiresAt = deadline t ttl, seCost = cost\<rparr>"
  have L: "?L = before c @ [?e]"
    using assms(2,5) by (auto simp: live_entries_def semantic_Set_def partition_of_def Let_def expired_deadline before_def)
  then have e: "?e \<in> set ?L" by simp
  then have "\<not> no_match v ?L" using assms(3) by (force simp: no_match_def)
  then obtain i where i: "best_at v ?L i" using best_at_exists by blast
  have "\<not> f64_lt (Cosine v (seEmbedding (?L ! i))) (Cosine v v)"
    using i e by (auto simp: best_at_def in_set_conv_nth)
  moreover have "\<not> is_nan (Cosine v (seEmbedding (?L ! i)))" "\<not> is_nan (Cosine v v)"
    using i assms(3) f64_lt_not_nan by (auto simp: best_at_def)
  ultimately have le: "f64_le (Cosine v v) (Cosine v (seEmbedding (?L ! i)))" by (simp add: f64_not_lt)
  then have "\<not> f64_lt (Cosine v (seEmbedding (?L ! i))) threshold"
    using assms(4) f64_lt_trans f64_eq_lt unfolding f64_le_def by blast
  then have got: "fst (semantic_Get u provider prompt model temp threshold ?c) = Inr (Some (seResponse (?L ! i), seCost (?L ! i)))"
    using semantic_Get_char(2) [of provider prompt v u model temp threshold ?c
        "Some (seResponse (?L ! i), seCost (?L ! i))", OF assms(2)] i by auto
  have "?L ! i \<in> set ?L" using i by (auto simp: best_at_def)
  then have "?L ! i = ?e \<or> ?L ! i \<in> set (before c)" unfolding L by auto
  then show ?thesis using got le by (auto simp: Let_def)
qed

theorem semantic_set_get_witness:
  "fst (semantic_Get 5 demoEmbed ''p'' ''m'' ''0'' (Fin False (1 / 2))
    (snd (semantic_Set 1 demoEmbed ''p'' ''m'' ''0'' ''r'' 0 f64_zero semantic_New))) = Inr (Some (''r'', f64_zero))"
  using semantic_set_get [of demoEmbed "''p''" "[f64_one]" "Fin False (1 / 2)" 0 5 1 "''m''" "''0''" "''r''" f64_zero semantic_New]
  by (simp add: demoEmbed_def semantic_New_def partition_of_def)

definition diagonalEmbed :: provider
  where "diagonalEmbed p = Inr [f64_one, f64_one]"

text \<open>
  Rounding can put the similarity of a prompt with itself below 1: with the embedding (1, 1) and
  a threshold of 1 a lookup of the very prompt that was just stored misses.
\<close>

theorem identical_prompt_misses:
  "fst (semantic_Get 1 diagonalEmbed ''p'' ''m'' ''0'' f64_one
    (snd (semantic_Set 1 diagonalEmbed ''p'' ''m'' ''0'' ''r'' 0 f64_zero semantic_New))) = Inr None"
  by (simp add: semantic_Set_def semantic_Get_def diagonalEmbed_def partition_of_def semantic_New_def Cosine_diagonal
      deadline_def Let_def)

text \<open>The two exact-match caches under a sequence of stores and lookups.\<close>

definition promptRun :: "(instant \<times> (string \<times> float64) cacheOp) list \<Rightarrow> PromptCache \<Rightarrow> PromptCache"
  where "promptRun = fold (\<lambda>(t, op) c. case op of
    CSet k v ttl \<Rightarrow> PromptCache_Set t k (fst v) ttl (snd v) c | CGet k \<Rightarrow> snd (PromptCache_Get t k c))"

definition toolRun :: "(instant \<times> string cacheOp) list \<Rightarrow> ToolCache \<Rightarrow> ToolCache"
  where "toolRun = fold (\<lambda>(t, op) c. case op of
    CSet k v ttl \<Rightarrow> ToolCache_Set t k v ttl c | CGet k \<Rightarrow> snd (ToolCache_Get t t k c))"

lemma promptRun_run: "promptRun xs c = prompt.run xs c"
  by (induction xs arbitrary: c) (auto simp: promptRun_def split: cacheOp.splits)

lemma toolRun_run: "toolRun xs c = tool.run xs c"
  by (induction xs arbitrary: c) (auto simp: toolRun_def split: cacheOp.splits)

text \<open>
  C25. The prompt and the tool cache answer a lookup with the value last stored under the key, with its
  cost, until its time to live has passed, whatever was stored and looked up before or after; a key
  never stored, or whose last value has expired, misses.
\<close>

theorem exact_caches_last_set:
  assumes "\<forall>x\<in>set xs. fst x \<le> u" "\<forall>x\<in>set ys. fst x \<le> u"
  shows "fst (PromptCache_Get u k (promptRun xs NewPromptCache)) =
      (case lastSet k xs of
         None \<Rightarrow> None
       | Some (t, v, ttl) \<Rightarrow> if ttl \<le> 0 \<or> u < t + ttl then Some v else None) \<and>
    fst (ToolCache_Get u u' k (toolRun ys toolcache_New)) =
      (case lastSet k ys of
         None \<Rightarrow> None
       | Some (t, v, ttl) \<Rightarrow> if ttl \<le> 0 \<or> u < t + ttl then Some v else None)"
proof -
  have "fst (ToolCache_Get u u' k c) = fst (ToolCache_Get u u k c)" for c
    by (auto simp: ToolCache_Get_def split: prod.splits option.splits)
  moreover have "fst (PromptCache_Get u k NewPromptCache) = None" "fst (ToolCache_Get u u k toolcache_New) = None"
    by (simp_all add: PromptCache_Get_def NewPromptCache_def ToolCache_Get_def toolRead_def toolcache_New_def)
  ultimately show ?thesis
    using prompt.get_run [OF assms(1)] tool.get_run [OF assms(2)]
    by (simp add: promptRun_run toolRun_run cong: option.case_cong)
qed

theorem exact_caches_last_set_witness:
  "fst (PromptCache_Get 9 ''k'' (promptRun [(1, CSet ''k'' (''a'', f64_zero) 0), (2, CGet ''j'')] NewPromptCache)) = Some (''a'', f64_zero) \<and>
   fst (ToolCache_Get 9 10 ''k'' (toolRun [(1, CSet ''k'' ''a'' 0), (2, CSet ''k'' ''b'' 5)] toolcache_New)) = None"
  using exact_caches_last_set [of "[(1, CSet ''k'' (''a'', f64_zero) 0), (2, CGet ''j'')]" 9
      "[(1, CSet ''k'' ''a'' 0), (2, CSet ''k'' ''b'' 5)]" "''k''" 10] by simp

section \<open>The cost tracker\<close>

text \<open>
  C26. The list of expensive entries holds at most 20 entries, no (cache, prompt) pair twice. Every hit
  with a positive cost is accounted for: its pair is listed with a cost at least as high, or the list is
  full of entries that cost at least as much.
\<close>

theorem tracker_top:
  assumes "\<forall>(ty, p, c)\<in>set hs. f64_lt f64_zero c"
  shows "let es = topList (recordHits hs tracker_New) in
    length es \<le> 20 \<and> distinct (map entryKey es) \<and>
    (\<forall>(ty, p, c)\<in>set hs.
       (\<exists>e\<in>set es. entryKey e = (ty, p) \<and> f64_le c (Cost e)) \<or> length es = 20 \<and> (\<forall>e\<in>set es. f64_le c (Cost e)))"
proof -
  note top = top_exact [OF top_ok_New assms]
  have "accounted ty p c (recordHits hs tracker_New)" if "(ty, p, c) \<in> set hs" for ty p c
    using top(2) that by blast
  with top(1) show ?thesis unfolding Let_def top_ok_def accounted_def maxTopEntries_def by blast
qed

theorem tracker_top_witness:
  "\<exists>e\<in>set (topList (recordHits [(''semantic'', ''p'', Fin False 1), (''semantic'', ''p'', Fin False 2)] tracker_New)).
     entryKey e = (''semantic'', ''p'') \<and> f64_le (Fin False 2) (Cost e)"
  using tracker_top [of "[(''semantic'', ''p'', Fin False 1), (''semantic'', ''p'', Fin False 2)]"]
  by (simp add: recordHits_def RecordCacheHitSavings_def tracker_New_def maxTopEntries_def f64_le_def Let_def)

end
