(* ===== verification/Json.thy ===== *)
theory Json
  imports Strfloat
begin

text \<open>
  The parts of Go's \<^verbatim>\<open>encoding/json\<close> and \<^verbatim>\<open>unicode/utf8\<close> that the sources use:
  \<^verbatim>\<open>json.Unmarshal\<close> into \<^verbatim>\<open>any\<close>, \<^verbatim>\<open>map[string]any\<close> and \<^verbatim>\<open>[]float64\<close>, and
  \<^verbatim>\<open>json.Marshal\<close> of what they produce.

  Like the package, the model first checks the syntax of the whole input and then decodes. The
  syntax check splits the input into tokens and runs a push-down machine over them with the modes
  of the package's scanner; its result is a tree that keeps number literals as text and the fields
  of an object in their order (\<open>jraw\<close>). Decoding converts the numbers and folds the fields into
  maps (\<open>json\<close>). An error is \<open>None\<close>: no caller looks at which one it is.
\<close>

section \<open>UTF-8\<close>

abbreviation byte :: "char \<Rightarrow> nat" where "byte c \<equiv> of_char c"

definition cont :: "nat \<Rightarrow> bool" \<comment> \<open>a continuation byte\<close>
  where "cont b \<longleftrightarrow> 0x80 \<le> b \<and> b \<le> 0xBF"

definition runeError :: nat where "runeError = 0xFFFD"

text \<open>\<^verbatim>\<open>utf8.DecodeRune\<close> on a nonempty input: the rune, and the number of bytes after the first.\<close>

definition decodeRune :: "nat \<Rightarrow> nat list \<Rightarrow> nat \<times> nat"
  where "decodeRune b bs =
    (if b < 0x80 then (b, 0)
     else if 0xC2 \<le> b \<and> b \<le> 0xDF then
       (case bs of
          b1 # _ \<Rightarrow> if cont b1 then ((b - 0xC0) * 64 + (b1 - 0x80), 1) else (runeError, 0)
        | _ \<Rightarrow> (runeError, 0))
     else if 0xE0 \<le> b \<and> b \<le> 0xEF then
       (case bs of
          b1 # b2 # _ \<Rightarrow>
            if (if b = 0xE0 then 0xA0 else 0x80) \<le> b1 \<and> b1 \<le> (if b = 0xED then 0x9F else 0xBF) \<and> cont b2
            then ((b - 0xE0) * 4096 + (b1 - 0x80) * 64 + (b2 - 0x80), 2) else (runeError, 0)
        | _ \<Rightarrow> (runeError, 0))
     else if 0xF0 \<le> b \<and> b \<le> 0xF4 then
       (case bs of
          b1 # b2 # b3 # _ \<Rightarrow>
            if (if b = 0xF0 then 0x90 else 0x80) \<le> b1 \<and> b1 \<le> (if b = 0xF4 then 0x8F else 0xBF) \<and> cont b2 \<and> cont b3
            then ((b - 0xF0) * 262144 + (b1 - 0x80) * 4096 + (b2 - 0x80) * 64 + (b3 - 0x80), 3) else (runeError, 0)
        | _ \<Rightarrow> (runeError, 0))
     else (runeError, 0))"

definition encodeRune :: "nat \<Rightarrow> nat list" \<comment> \<open>\<^verbatim>\<open>utf8.AppendRune\<close> on a Unicode scalar value\<close>
  where "encodeRune r =
    (if r < 0x80 then [r]
     else if r < 0x800 then [0xC0 + r div 64, 0x80 + r mod 64]
     else if r < 0x10000 then [0xE0 + r div 4096, 0x80 + r div 64 mod 64, 0x80 + r mod 64]
     else [0xF0 + r div 262144, 0x80 + r div 4096 mod 64, 0x80 + r div 64 mod 64, 0x80 + r mod 64])"

definition scalar :: "nat \<Rightarrow> bool" \<comment> \<open>a Unicode scalar value\<close>
  where "scalar r \<longleftrightarrow> r < 0xD800 \<or> 0xE000 \<le> r \<and> r < 0x110000"

definition is_surrogate :: "nat \<Rightarrow> bool" where "is_surrogate r \<longleftrightarrow> 0xD800 \<le> r \<and> r < 0xE000"

section \<open>Strings\<close>

definition hexDigit :: "nat \<Rightarrow> nat option"
  where "hexDigit b =
    (if 48 \<le> b \<and> b \<le> 57 then Some (b - 48)
     else if 97 \<le> b \<and> b \<le> 102 then Some (b - 87)
     else if 65 \<le> b \<and> b \<le> 70 then Some (b - 55)
     else None)"

fun getu4 :: "nat list \<Rightarrow> nat option" where \<comment> \<open>four hexadecimal digits at the start of the input\<close>
  "getu4 (a # b # c # d # _) =
    (case (hexDigit a, hexDigit b, hexDigit c, hexDigit d) of
       (Some w, Some x, Some y, Some z) \<Rightarrow> Some (w * 4096 + x * 256 + y * 16 + z)
     | _ \<Rightarrow> None)"
| "getu4 _ = None"

definition simpleEscape :: "nat \<Rightarrow> nat option"
  where "simpleEscape c =
    (if c = 34 \<or> c = 92 \<or> c = 47 then Some c
     else if c = 98 then Some 8 else if c = 102 then Some 12 else if c = 110 then Some 10
     else if c = 114 then Some 13 else if c = 116 then Some 9 else None)"

text \<open>
  A \<^verbatim>\<open>\u\<close> escape, after its four digits: the rune, and the number of further bytes that a low
  surrogate takes. Half a surrogate pair is the replacement character.
\<close>

definition escapedRune :: "nat \<Rightarrow> nat list \<Rightarrow> nat \<times> nat"
  where "escapedRune r bs =
    (if \<not> is_surrogate r then (r, 0)
     else
       (case (take 2 bs, getu4 (drop 2 bs)) of
          ([x, y], Some r1) \<Rightarrow>
            if x = 92 \<and> y = 117 \<and> r < 0xDC00 \<and> 0xDC00 \<le> r1 \<and> r1 < 0xE000
            then ((r - 0xD800) * 1024 + (r1 - 0xDC00) + 0x10000, 6) else (runeError, 0)
        | _ \<Rightarrow> (runeError, 0)))"

text \<open>The rest of a string literal after its opening quote: the decoded bytes and what follows.\<close>

function lexString :: "nat list \<Rightarrow> (nat list \<times> nat list) option" where
  "lexString [] = None"
| "lexString (b # bs) =
    (if b = 34 then Some ([], bs)
     else if b < 32 then None
     else if b = 92 then
       (case bs of
          [] \<Rightarrow> None
        | e # es \<Rightarrow>
            if e = 117 then
              (case getu4 es of
                 None \<Rightarrow> None
               | Some r \<Rightarrow>
                   (case escapedRune r (drop 4 es) of
                      (r', n) \<Rightarrow> map_option (apfst ((@) (encodeRune r'))) (lexString (drop (4 + n) es))))
            else
              (case simpleEscape e of
                 None \<Rightarrow> None
               | Some c \<Rightarrow> map_option (apfst (Cons c)) (lexString es)))
     else
       (case decodeRune b bs of
          (r, n) \<Rightarrow> map_option (apfst ((@) (encodeRune r))) (lexString (drop n bs))))"
  by pat_completeness auto
termination by (relation "measure length") auto

section \<open>Numbers\<close>

definition is_dig :: "nat \<Rightarrow> bool" where "is_dig b \<longleftrightarrow> 48 \<le> b \<and> b \<le> 57"

definition lexInt :: "nat list \<Rightarrow> (nat list \<times> nat list) option" \<comment> \<open>a zero, or digits that do not start with one\<close>
  where "lexInt bs =
    (case bs of
       [] \<Rightarrow> None
     | b # rest \<Rightarrow>
         if b = 48 then Some ([b], rest)
         else if is_dig b then Some (takeWhile is_dig bs, dropWhile is_dig bs)
         else None)"

definition lexDigits :: "nat list \<Rightarrow> (nat list \<times> nat list) option" \<comment> \<open>at least one digit\<close>
  where "lexDigits bs =
    (if takeWhile is_dig bs = [] then None else Some (takeWhile is_dig bs, dropWhile is_dig bs))"

definition lexFrac :: "nat list \<Rightarrow> (nat list \<times> nat list) option"
  where "lexFrac bs =
    (case bs of
       b # rest \<Rightarrow> if b = 46 then map_option (apfst (Cons b)) (lexDigits rest) else Some ([], bs)
     | [] \<Rightarrow> Some ([], []))"

definition lexExp :: "nat list \<Rightarrow> (nat list \<times> nat list) option"
  where "lexExp bs =
    (case bs of
       b # rest \<Rightarrow>
         if b = 101 \<or> b = 69 then
           (case rest of
              c # rest' \<Rightarrow>
                if c = 43 \<or> c = 45 then map_option (apfst (\<lambda>ds. b # c # ds)) (lexDigits rest')
                else map_option (apfst (Cons b)) (lexDigits rest)
            | [] \<Rightarrow> None)
         else Some ([], bs)
     | [] \<Rightarrow> Some ([], []))"

definition lexNumber :: "nat list \<Rightarrow> (nat list \<times> nat list) option"
  where "lexNumber bs =
    (let (sgn, bs0) = (case bs of b # rest \<Rightarrow> if b = 45 then ([b], rest) else ([], bs) | [] \<Rightarrow> ([], []))
     in case lexInt bs0 of
          None \<Rightarrow> None
        | Some (i, bs1) \<Rightarrow>
            (case lexFrac bs1 of
               None \<Rightarrow> None
             | Some (f, bs2) \<Rightarrow>
                 (case lexExp bs2 of None \<Rightarrow> None | Some (e, bs3) \<Rightarrow> Some (sgn @ i @ f @ e, bs3))))"

section \<open>Tokens\<close>

datatype jtok = TNull | TBool bool | TNum string | TStr string
  | LBrack | RBrack | LBrace | RBrace | Comma | Colon

definition str :: "nat list \<Rightarrow> string" where "str bs = map char_of bs"
definition bytesOf :: "string \<Rightarrow> nat list" where "bytesOf s = map of_char s"

definition punct :: "nat \<Rightarrow> jtok option"
  where "punct b =
    (if b = 91 then Some LBrack else if b = 93 then Some RBrack else if b = 123 then Some LBrace
     else if b = 125 then Some RBrace else if b = 44 then Some Comma else if b = 58 then Some Colon else None)"

definition word :: "nat list \<Rightarrow> (jtok \<times> nat list) option" \<comment> \<open>\<^verbatim>\<open>null\<close>, \<^verbatim>\<open>true\<close> and \<^verbatim>\<open>false\<close>\<close>
  where "word bs =
    (if take 4 bs = bytesOf ''null'' then Some (TNull, drop 4 bs)
     else if take 4 bs = bytesOf ''true'' then Some (TBool True, drop 4 bs)
     else if take 5 bs = bytesOf ''false'' then Some (TBool False, drop 5 bs)
     else None)"

definition lexToken :: "nat list \<Rightarrow> (jtok \<times> nat list) option"
  where "lexToken bs =
    (case bs of
       [] \<Rightarrow> None
     | b # rest \<Rightarrow>
         (case punct b of
            Some t \<Rightarrow> Some (t, rest)
          | None \<Rightarrow>
              if b = 34 then map_option (apfst (\<lambda>s. TStr (str s))) (lexString rest)
              else if b = 45 \<or> is_dig b then map_option (apfst (\<lambda>s. TNum (str s))) (lexNumber bs)
              else word bs))"

definition is_ws :: "nat \<Rightarrow> bool" where "is_ws b \<longleftrightarrow> b = 32 \<or> b = 9 \<or> b = 10 \<or> b = 13"

lemma lexString_shorter: "lexString bs = Some (s, rest) \<Longrightarrow> length rest < length bs"
proof (induction bs arbitrary: s rest rule: lexString.induct)
  case (2 b bs)
  show ?case
    using "2.prems" "2.IH"
    by (simp split: if_splits list.splits option.splits prod.splits; fastforce)
qed simp

lemma dropWhile_le: "length (dropWhile P xs) \<le> length xs"
  by (induction xs) auto

lemma lexDigits_shorter: "lexDigits bs = Some (s, rest) \<Longrightarrow> length rest < length bs"
  by (cases bs) (auto simp: lexDigits_def less_Suc_eq_le dropWhile_le split: if_splits)

lemma lexNumber_shorter: "lexNumber bs = Some (s, rest) \<Longrightarrow> length rest < length bs"
proof -
  assume n: "lexNumber bs = Some (s, rest)"
  define bs0 where "bs0 = (case bs of b # r \<Rightarrow> if b = 45 then r else bs | [] \<Rightarrow> [])"
  obtain i bs1 f bs2 e where l: "lexInt bs0 = Some (i, bs1)" "lexFrac bs1 = Some (f, bs2)" "lexExp bs2 = Some (e, rest)"
    using n unfolding lexNumber_def bs0_def Let_def by (auto split: list.splits if_splits option.splits)
  have "length bs0 \<le> length bs" by (auto simp: bs0_def split: list.splits)
  moreover have "length bs1 < length bs0"
    using l(1) dropWhile_le [of is_dig] by (auto simp: lexInt_def less_Suc_eq_le split: list.splits if_splits)
  moreover have "length bs2 \<le> length bs1"
    using l(2) by (auto simp: lexFrac_def split: list.splits if_splits dest: lexDigits_shorter)
  moreover have "length rest \<le> length bs2"
    using l(3) by (auto simp: lexExp_def split: list.splits if_splits dest!: lexDigits_shorter)
  ultimately show ?thesis by linarith
qed

lemma lexToken_shorter: "lexToken bs = Some (t, rest) \<Longrightarrow> length rest < length bs"
proof (cases bs)
  case (Cons b r)
  assume t: "lexToken bs = Some (t, rest)"
  have w: "word bs = Some (t, rest) \<Longrightarrow> length rest < length bs"
    using Cons by (auto simp: word_def bytesOf_def split: if_splits)
  show ?thesis
    using t Cons w lexNumber_shorter [of bs]
    by (auto simp: lexToken_def less_Suc_eq dest: lexString_shorter split: option.splits if_splits)
qed (simp add: lexToken_def)

function lexAll :: "nat list \<Rightarrow> jtok list option" where
  "lexAll bs =
    (case dropWhile is_ws bs of
       [] \<Rightarrow> Some []
     | b # rest \<Rightarrow>
         (case lexToken (b # rest) of
            None \<Rightarrow> None
          | Some (t, rest') \<Rightarrow> map_option (Cons t) (lexAll rest')))"
  by pat_completeness auto
termination
proof (relation "measure length")
  fix bs b rest x t rest'
  assume "dropWhile is_ws bs = b # rest" "lexToken (b # rest) = Some x" "(t, rest') = x"
  then show "(rest', bs) \<in> measure length"
    using lexToken_shorter [of "b # rest" t rest'] dropWhile_le [of is_ws bs] by simp
qed simp

declare lexAll.simps [simp del]

section \<open>The syntax check\<close>

datatype jraw = RNull | RBool bool | RNum string | RStr string | RArr "jraw list" | RObj "(string \<times> jraw) list"

text \<open>
  A frame is an open array with its elements so far, or an open object with its fields so far and
  the key of the field being read. The modes say what may come next: a value; a value or the end of
  an empty array; a key or the end of an empty object; a key; the colon; a comma or the end.
\<close>

datatype frame = AFrame "jraw list" | OFrame "(string \<times> jraw) list" string

datatype mode = MValue | MArr | MObj | MKey | MColon | MEnd | MDone jraw

fun deliver :: "frame list \<Rightarrow> jraw \<Rightarrow> frame list \<times> mode" where
  "deliver [] v = ([], MDone v)"
| "deliver (AFrame vs # st) v = (AFrame (vs @ [v]) # st, MEnd)"
| "deliver (OFrame fs k # st) v = (OFrame (fs @ [(k, v)]) k # st, MEnd)"

definition maxNestingDepth :: nat where "maxNestingDepth = 10000"

fun startValue :: "frame list \<Rightarrow> jtok \<Rightarrow> (frame list \<times> mode) option" where
  "startValue st TNull = Some (deliver st RNull)"
| "startValue st (TBool b) = Some (deliver st (RBool b))"
| "startValue st (TNum s) = Some (deliver st (RNum s))"
| "startValue st (TStr s) = Some (deliver st (RStr s))"
| "startValue st LBrack = (if length st < maxNestingDepth then Some (AFrame [] # st, MArr) else None)"
| "startValue st LBrace = (if length st < maxNestingDepth then Some (OFrame [] [] # st, MObj) else None)"
| "startValue st _ = None"

fun stepTok :: "frame list \<Rightarrow> mode \<Rightarrow> jtok \<Rightarrow> (frame list \<times> mode) option" where
  "stepTok st MValue t = startValue st t"
| "stepTok (AFrame vs # st) MArr RBrack = Some (deliver st (RArr vs))"
| "stepTok st MArr t = startValue st t"
| "stepTok (OFrame fs k # st) MObj RBrace = Some (deliver st (RObj fs))"
| "stepTok (OFrame fs _ # st) MObj (TStr k) = Some (OFrame fs k # st, MColon)"
| "stepTok (OFrame fs _ # st) MKey (TStr k) = Some (OFrame fs k # st, MColon)"
| "stepTok st MColon Colon = Some (st, MValue)"
| "stepTok (AFrame vs # st) MEnd Comma = Some (AFrame vs # st, MValue)"
| "stepTok (AFrame vs # st) MEnd RBrack = Some (deliver st (RArr vs))"
| "stepTok (OFrame fs k # st) MEnd Comma = Some (OFrame fs k # st, MKey)"
| "stepTok (OFrame fs k # st) MEnd RBrace = Some (deliver st (RObj fs))"
| "stepTok _ _ _ = None"

fun runToks :: "frame list \<Rightarrow> mode \<Rightarrow> jtok list \<Rightarrow> jraw option" where
  "runToks st m [] = (case m of MDone v \<Rightarrow> Some v | _ \<Rightarrow> None)"
| "runToks st m (t # ts) = (case stepTok st m t of None \<Rightarrow> None | Some (st', m') \<Rightarrow> runToks st' m' ts)"

definition parseRaw :: "string \<Rightarrow> jraw option"
  where "parseRaw s = (case lexAll (bytesOf s) of None \<Rightarrow> None | Some ts \<Rightarrow> runToks [] MValue ts)"

section \<open>Decoding\<close>

text \<open>
  What \<^verbatim>\<open>Unmarshal\<close> stores in an \<^verbatim>\<open>any\<close>. The fields of a map are kept in the order of their
  keys; of two fields with the same key the later one counts.
\<close>

datatype json = JNull | JBool bool | JNum float64 | JStr string | JArr "json list" | JObj "(string \<times> json) list"

fun setField :: "string \<Rightarrow> 'a \<Rightarrow> (string \<times> 'a) list \<Rightarrow> (string \<times> 'a) list" where
  "setField k v [] = [(k, v)]"
| "setField k v ((k', v') # fs) =
    (if k < k' then (k, v) # (k', v') # fs else if k = k' then (k, v) # fs else (k', v') # setField k v fs)"

definition objectOf :: "(string \<times> 'a) list \<Rightarrow> (string \<times> 'a) list"
  where "objectOf fs = fold (\<lambda>(k, v). setField k v) fs []"

fun sequence :: "'a option list \<Rightarrow> 'a list option" where
  "sequence [] = Some []"
| "sequence (x # xs) = (case x of None \<Rightarrow> None | Some a \<Rightarrow> map_option (Cons a) (sequence xs))"

fun decodeAny :: "jraw \<Rightarrow> json option" where
  "decodeAny RNull = Some JNull"
| "decodeAny (RBool b) = Some (JBool b)"
| "decodeAny (RNum s) = map_option JNum (ParseFloat s)"
| "decodeAny (RStr s) = Some (JStr s)"
| "decodeAny (RArr vs) = map_option JArr (sequence (map decodeAny vs))"
| "decodeAny (RObj fs) =
    map_option (\<lambda>xs. JObj (objectOf xs)) (sequence (map (\<lambda>(k, v). map_option (Pair k) (decodeAny v)) fs))"

definition UnmarshalAny :: "string \<Rightarrow> json option"
  where "UnmarshalAny s = (case parseRaw s of None \<Rightarrow> None | Some r \<Rightarrow> decodeAny r)"

text \<open>Into a \<^verbatim>\<open>map[string]any\<close>: an object, or null, which leaves the map nil (\<open>None\<close> inside).\<close>

definition UnmarshalMap :: "string \<Rightarrow> (string \<times> json) list option option"
  where "UnmarshalMap s =
    (case UnmarshalAny s of Some JNull \<Rightarrow> Some None | Some (JObj fs) \<Rightarrow> Some (Some fs) | _ \<Rightarrow> None)"

text \<open>Into a \<^verbatim>\<open>[]float64\<close>: an array or null. An element that is null stays zero.\<close>

fun decodeFloat :: "jraw \<Rightarrow> float64 option" where
  "decodeFloat RNull = Some f64_zero"
| "decodeFloat (RNum s) = ParseFloat s"
| "decodeFloat _ = None"

definition UnmarshalFloats :: "string \<Rightarrow> float64 list option"
  where "UnmarshalFloats s =
    (case parseRaw s of
       Some RNull \<Rightarrow> Some []
     | Some (RArr vs) \<Rightarrow> sequence (map decodeFloat vs)
     | _ \<Rightarrow> None)"

section \<open>Encoding\<close>

definition hexLow :: "nat \<Rightarrow> nat" where "hexLow n = (if n < 10 then 48 + n else 87 + n)"

definition uEscape :: "nat \<Rightarrow> nat list" \<comment> \<open>\<^verbatim>\<open>\u\<close> and four hexadecimal digits\<close>
  where "uEscape r = [92, 117, hexLow (r div 4096 mod 16), hexLow (r div 256 mod 16), hexLow (r div 16 mod 16), hexLow (r mod 16)]"

definition escapeASCII :: "nat \<Rightarrow> nat list" \<comment> \<open>with the escaping of \<^verbatim>\<open><\<close>, \<^verbatim>\<open>>\<close> and \<^verbatim>\<open>&\<close>\<close>
  where "escapeASCII b =
    (if b = 34 \<or> b = 92 then [92, b]
     else if b = 8 then [92, 98] else if b = 12 then [92, 102] else if b = 10 then [92, 110]
     else if b = 13 then [92, 114] else if b = 9 then [92, 116]
     else if b < 32 \<or> b = 60 \<or> b = 62 \<or> b = 38 then uEscape b
     else [b])"

function escapeBytes :: "nat list \<Rightarrow> nat list" where
  "escapeBytes [] = []"
| "escapeBytes (b # bs) =
    (if b < 128 then escapeASCII b @ escapeBytes bs
     else
       (case decodeRune b bs of
          (r, n) \<Rightarrow>
            (if n = 0 then uEscape runeError
             else if r = 0x2028 \<or> r = 0x2029 then uEscape r
             else b # take n bs) @ escapeBytes (drop n bs)))"
  by pat_completeness auto
termination by (relation "measure length") auto

definition marshalString :: "string \<Rightarrow> string"
  where "marshalString s = str ([34] @ escapeBytes (bytesOf s) @ [34])"

fun marshalNum :: "float64 \<Rightarrow> string" where
  "marshalNum (Fin s q) =
    (let (ds, dp) = (if q = 0 then ([], 0) else shortest q);
         sci = (q \<noteq> 0 \<and> (q < 1 / 1000000 \<or> 1000000000000000000000 \<le> q));
         txt = (if sci then fmtE ds dp else fmtF ds dp);
         n = length txt
     in (if s then ''-'' else []) @
        (if sci \<and> 4 \<le> n \<and> txt ! (n - 4) = CHR ''e'' \<and> txt ! (n - 3) = CHR ''-'' \<and> txt ! (n - 2) = CHR ''0''
         then take (n - 2) txt @ [last txt] else txt))"
| "marshalNum _ = []" \<comment> \<open>not the value of a JSON number\<close>

fun commas :: "string list \<Rightarrow> string" where
  "commas [] = []"
| "commas [s] = s"
| "commas (s # t # ts) = s @ '','' @ commas (t # ts)"

fun Marshal :: "json \<Rightarrow> string" where
  "Marshal JNull = ''null''"
| "Marshal (JBool b) = (if b then ''true'' else ''false'')"
| "Marshal (JNum x) = marshalNum x"
| "Marshal (JStr s) = marshalString s"
| "Marshal (JArr vs) = ''['' @ commas (map Marshal vs) @ '']''"
| "Marshal (JObj fs) = ''{'' @ commas (map (\<lambda>(k, v). marshalString k @ '':'' @ Marshal v) fs) @ ''}''"

definition MarshalMap :: "(string \<times> json) list option \<Rightarrow> string"
  where "MarshalMap m = (case m of None \<Rightarrow> ''null'' | Some fs \<Rightarrow> Marshal (JObj fs))"

definition MarshalStringMap :: "(string, string) fmap \<Rightarrow> string"
  where "MarshalStringMap m =
    ''{'' @ commas (map (\<lambda>k. marshalString k @ '':'' @ marshalString (the (fmlookup m k))) (fkeys m)) @ ''}''"

end
