(* ===== verification/Extract.thy ===== *)
theory Extract
  imports Graph Json
begin

text \<open>
  Extraction of entities and relations from a completion (\<^verbatim>\<open>graph/extract.go\<close>):
  \<^verbatim>\<open>json.Unmarshal\<close> into a struct of two slices of structs, and the nodes and edges it adds.

  Decoding follows \<^verbatim>\<open>encoding/json\<close>: field names match up to Unicode case folding, unknown
  fields are skipped, null leaves a string or a struct as it is and empties a slice, a later field
  with the same name decodes over what an earlier one left (a slice keeps its backing array, so its
  elements are decoded over old ones), and a value of another type is an error.
\<close>

section \<open>Decoding into structs\<close>

fun foldName :: "string \<Rightarrow> string" where \<comment> \<open>letters whose case folding is ASCII: also the long s and the Kelvin sign\<close>
  "foldName (c # d # e # s) =
    (if c = CHR 0xC5 \<and> d = CHR 0xBF then CHR ''S'' # foldName (e # s)
     else if c = CHR 0xE2 \<and> d = CHR 0x84 \<and> e = CHR 0xAA then CHR ''K'' # foldName s
     else upper_char c # foldName (d # e # s))"
| "foldName [c, d] = (if c = CHR 0xC5 \<and> d = CHR 0xBF then ''S'' else [upper_char c, upper_char d])"
| "foldName [c] = [upper_char c]"
| "foldName [] = []"

definition isField :: "string \<Rightarrow> string \<Rightarrow> bool"
  where "isField name key \<longleftrightarrow> foldName key = map upper_char name"

fun decodeStr :: "string \<Rightarrow> jraw \<Rightarrow> string option" where \<comment> \<open>over the old value\<close>
  "decodeStr old (RStr s) = Some s"
| "decodeStr old RNull = Some old"
| "decodeStr old _ = None"

record extractedEntity =
  entID :: string
  entLabel :: string

record extractedRelation =
  relFrom :: string
  relTo :: string
  relLabel :: string

fun entityFields :: "(string \<times> jraw) list \<Rightarrow> extractedEntity \<Rightarrow> extractedEntity option" where
  "entityFields [] e = Some e"
| "entityFields ((k, v) # fs) e =
    (if isField ''id'' k
     then (case decodeStr (entID e) v of None \<Rightarrow> None | Some s \<Rightarrow> entityFields fs (e\<lparr>entID := s\<rparr>))
     else if isField ''label'' k
     then (case decodeStr (entLabel e) v of None \<Rightarrow> None | Some s \<Rightarrow> entityFields fs (e\<lparr>entLabel := s\<rparr>))
     else entityFields fs e)"

fun relationFields :: "(string \<times> jraw) list \<Rightarrow> extractedRelation \<Rightarrow> extractedRelation option" where
  "relationFields [] r = Some r"
| "relationFields ((k, v) # fs) r =
    (if isField ''from'' k
     then (case decodeStr (relFrom r) v of None \<Rightarrow> None | Some s \<Rightarrow> relationFields fs (r\<lparr>relFrom := s\<rparr>))
     else if isField ''to'' k
     then (case decodeStr (relTo r) v of None \<Rightarrow> None | Some s \<Rightarrow> relationFields fs (r\<lparr>relTo := s\<rparr>))
     else if isField ''label'' k
     then (case decodeStr (relLabel r) v of None \<Rightarrow> None | Some s \<Rightarrow> relationFields fs (r\<lparr>relLabel := s\<rparr>))
     else relationFields fs r)"

fun decodeStruct :: "((string \<times> jraw) list \<Rightarrow> 'a \<Rightarrow> 'a option) \<Rightarrow> 'a \<Rightarrow> jraw \<Rightarrow> 'a option" where
  "decodeStruct dec old (RObj fs) = dec fs old"
| "decodeStruct dec old RNull = Some old"
| "decodeStruct dec old _ = None"

text \<open>A slice is its backing array and its length.\<close>

type_synonym 'a slice = "'a list \<times> nat"

definition elems :: "'a slice \<Rightarrow> 'a list" where "elems s = take (snd s) (fst s)"

fun decodeElems :: "('a \<Rightarrow> jraw \<Rightarrow> 'a option) \<Rightarrow> 'a \<Rightarrow> 'a list \<Rightarrow> jraw list \<Rightarrow> 'a list option" where
  "decodeElems dec zero back [] = Some back"
| "decodeElems dec zero [] (v # vs) =
    (case dec zero v of None \<Rightarrow> None | Some a \<Rightarrow> map_option (Cons a) (decodeElems dec zero [] vs))"
| "decodeElems dec zero (b # bs) (v # vs) =
    (case dec b v of None \<Rightarrow> None | Some a \<Rightarrow> map_option (Cons a) (decodeElems dec zero bs vs))"

fun decodeSlice :: "('a \<Rightarrow> jraw \<Rightarrow> 'a option) \<Rightarrow> 'a \<Rightarrow> 'a slice \<Rightarrow> jraw \<Rightarrow> 'a slice option" where
  "decodeSlice dec zero s RNull = Some ([], 0)"
| "decodeSlice dec zero s (RArr vs) =
    (if vs = [] then Some ([], 0)
     else map_option (\<lambda>back. (back, length vs)) (decodeElems dec zero (fst s) vs))"
| "decodeSlice dec zero s _ = None"

record extractionResponse =
  Entities :: "extractedEntity slice"
  Relations :: "extractedRelation slice"

definition zeroEntity :: extractedEntity where "zeroEntity = \<lparr>entID = [], entLabel = []\<rparr>"
definition zeroRelation :: extractedRelation where "zeroRelation = \<lparr>relFrom = [], relTo = [], relLabel = []\<rparr>"

fun responseFields :: "(string \<times> jraw) list \<Rightarrow> extractionResponse \<Rightarrow> extractionResponse option" where
  "responseFields [] r = Some r"
| "responseFields ((k, v) # fs) r =
    (if isField ''entities'' k
     then (case decodeSlice (decodeStruct entityFields) zeroEntity (Entities r) v of
             None \<Rightarrow> None | Some s \<Rightarrow> responseFields fs (r\<lparr>Entities := s\<rparr>))
     else if isField ''relations'' k
     then (case decodeSlice (decodeStruct relationFields) zeroRelation (Relations r) v of
             None \<Rightarrow> None | Some s \<Rightarrow> responseFields fs (r\<lparr>Relations := s\<rparr>))
     else responseFields fs r)"

definition UnmarshalExtraction :: "string \<Rightarrow> (extractedEntity list \<times> extractedRelation list) option"
  where "UnmarshalExtraction s =
    (case parseRaw s of
       None \<Rightarrow> None
     | Some v \<Rightarrow>
         map_option (\<lambda>r. (elems (Entities r), elems (Relations r)))
           (decodeStruct responseFields \<lparr>Entities = ([], 0), Relations = ([], 0)\<rparr> v))"

section \<open>Extraction\<close>

definition dq :: string where "dq = [CHR 0x22]"

definition extractSystemPrompt :: string
  where "extractSystemPrompt =
    ''You are extracting a knowledge graph from a single piece of text. Identify notable entities (people, systems, projects, organizations, and concepts) mentioned in the text, and directed relationships between them.'' @
    [CHR 0x0A] @
    [CHR 0x0A] @
    ''Respond with ONLY valid JSON -- no prose, no markdown code fences, no explanation -- in exactly this shape:'' @
    [CHR 0x0A] @
    [CHR 0x0A] @
    ''{'' @
    dq @
    ''entities'' @
    dq @
    '':[{'' @
    dq @
    ''id'' @
    dq @
    '':'' @
    dq @
    ''<id>'' @
    dq @
    '','' @
    dq @
    ''label'' @
    dq @
    '':'' @
    dq @
    ''<display name>'' @
    dq @
    ''}],'' @
    dq @
    ''relations'' @
    dq @
    '':[{'' @
    dq @
    ''from'' @
    dq @
    '':'' @
    dq @
    ''<entity id>'' @
    dq @
    '','' @
    dq @
    ''to'' @
    dq @
    '':'' @
    dq @
    ''<entity id>'' @
    dq @
    '','' @
    dq @
    ''label'' @
    dq @
    '':'' @
    dq @
    ''<relationship>'' @
    dq @
    ''}]}'' @
    [CHR 0x0A] @
    [CHR 0x0A] @
    ''Entity ids must be short, stable, lowercase, and use underscores instead of spaces or punctuation (e.g. '' @
    dq @
    ''redis'' @
    dq @
    '', '' @
    dq @
    ''project_a'' @
    dq @
    '', '' @
    dq @
    ''alice'' @
    dq @
    ''), derived consistently from the entity'' @
    [CHR 0x27] @
    ''s name so the same real-world entity produces the same id across separate calls. Every '' @
    dq @
    ''from'' @
    dq @
    ''/'' @
    dq @
    ''to'' @
    dq @
    '' value in '' @
    dq @
    ''relations'' @
    dq @
    '' must reference an id present in '' @
    dq @
    ''entities'' @
    dq @
    ''. If there is nothing worth extracting, respond with {'' @
    dq @
    ''entities'' @
    dq @
    '':[],'' @
    dq @
    ''relations'' @
    dq @
    '':[]}.''"

definition memoryNodeID :: "string \<Rightarrow> string"
  where "memoryNodeID memoryID = ''memory:'' @ memoryID"

definition addEntities :: "string \<Rightarrow> extractedEntity list \<Rightarrow> graphStore \<Rightarrow> int \<times> graphStore"
  where "addEntities workspaceID es g =
    fold (\<lambda>e (n, g). if entID e = [] then (n, g)
       else (n + 1, UpsertNode workspaceID \<lparr>nID = entID e, nLabel = entLabel e, nMetadata = fmempty\<rparr> g)) es (0, g)"

definition addRelations :: "string \<Rightarrow> extractedRelation list \<Rightarrow> graphStore \<Rightarrow> int \<times> graphStore"
  where "addRelations workspaceID rs g =
    fold (\<lambda>r (n, g). if relFrom r = [] \<or> relTo r = [] then (n, g)
       else (n + 1, UpsertEdge workspaceID
               \<lparr>FromID = relFrom r, ToID = relTo r, eLabel = relLabel r, Weight = f64_zero\<rparr> g)) rs (0, g)"

definition addMentions :: "string \<Rightarrow> string \<Rightarrow> extractedEntity list \<Rightarrow> graphStore \<Rightarrow> graphStore"
  where "addMentions workspaceID memNode es g =
    fold (\<lambda>e g. if entID e = [] then g
       else UpsertEdge workspaceID \<lparr>FromID = memNode, ToID = entID e, eLabel = ''mentions'', Weight = f64_zero\<rparr> g) es g"

text \<open>\<open>completion\<close> is the outcome of the completion call: an error, or the text.\<close>

definition Extract :: "string + string \<Rightarrow> string \<Rightarrow> string \<Rightarrow> graphStore \<Rightarrow> (string + int \<times> int) \<times> graphStore"
  where "Extract completion workspaceID memoryID g =
    (case completion of
       Inl err \<Rightarrow> (Inl (''graph: complete: '' @ err), g)
     | Inr raw \<Rightarrow>
         (case UnmarshalExtraction raw of
            None \<Rightarrow> (Inr (0, 0), g)
          | Some (entities, relations) \<Rightarrow>
              if entities = [] then (Inr (0, 0), g)
              else
                (case addEntities workspaceID entities g of
                   (entitiesAdded, g1) \<Rightarrow>
                     (case addRelations workspaceID relations g1 of
                        (relationsAdded, g2) \<Rightarrow>
                          if entitiesAdded = 0 then (Inr (0, relationsAdded), g2)
                          else
                            let memNode = memoryNodeID memoryID;
                                g3 = UpsertNode workspaceID \<lparr>nID = memNode, nLabel = ''memory'', nMetadata = fmempty\<rparr> g2
                            in (Inr (entitiesAdded, relationsAdded), addMentions workspaceID memNode entities g3)))))"

section \<open>What an extraction adds\<close>

text \<open>The graph stays well formed, and no other workspace is touched.\<close>

lemma upsert_other [simp]:
  "w \<noteq> w' \<Longrightarrow> fmlookup (UpsertNode w n g) w' = fmlookup g w'"
  "w \<noteq> w' \<Longrightarrow> fmlookup (UpsertEdge w e g) w' = fmlookup g w'"
  by (simp_all add: UpsertNode_def UpsertEdge_def Let_def)

lemma fold_keeps: "P (snd s) \<Longrightarrow> (\<And>x n g. P g \<Longrightarrow> P (snd (f x (n, g)))) \<Longrightarrow> P (snd (fold f xs s))"
proof (induction xs arbitrary: s)
  case (Cons x xs)
  have "P (snd (f x s))" using Cons.prems by (metis prod.collapse)
  then show ?case using Cons by simp
qed simp

lemma add_keeps:
  assumes "P g" "\<And>n g. P g \<Longrightarrow> P (UpsertNode w n g)" "\<And>e g. P g \<Longrightarrow> P (UpsertEdge w e g)"
  shows "P (snd (addEntities w es g))" "P (snd (addRelations w rs g))" "P (addMentions w m es g)"
proof -
  show "P (snd (addEntities w es g))" "P (snd (addRelations w rs g))"
    unfolding addEntities_def addRelations_def by (rule fold_keeps; use assms in simp)+
  show "P (addMentions w m es g)"
    unfolding addMentions_def using assms(1) by (induction es arbitrary: g) (simp_all add: assms(3))
qed

lemma Extract_keeps:
  assumes "P g" "\<And>n g. P g \<Longrightarrow> P (UpsertNode w n g)" "\<And>e g. P g \<Longrightarrow> P (UpsertEdge w e g)"
  shows "P (snd (Extract c w i g))"
proof (cases "\<exists>raw es rs. c = Inr raw \<and> UnmarshalExtraction raw = Some (es, rs) \<and> es \<noteq> []")
  case True
  then obtain raw es rs where c: "c = Inr raw" "UnmarshalExtraction raw = Some (es, rs)" "es \<noteq> []" by blast
  obtain n1 g1 where g1: "addEntities w es g = (n1, g1)" by fastforce
  obtain n2 g2 where g2: "addRelations w rs g1 = (n2, g2)" by fastforce
  have "P g1" using add_keeps(1) [of P g w es, OF assms] g1 by simp
  then have "P g2" using add_keeps(2) [of P g1 w rs, OF _ assms(2,3)] g2 by simp
  then show ?thesis
    using c g1 g2 add_keeps(3) [of P, OF assms(2) assms(2,3)] by (simp add: Extract_def Let_def)
next
  case False
  then show ?thesis using assms(1) by (auto simp: Extract_def split: sum.splits option.splits)
qed

lemma graph_ok_Extract [inv_intros]: "graph_ok g \<Longrightarrow> graph_ok (snd (Extract c w i g))"
  by (rule Extract_keeps) (auto intro: inv_intros)

lemma Extract_other: "w \<noteq> w' \<Longrightarrow> fmlookup (snd (Extract c w i g)) w' = fmlookup g w'"
  by (rule Extract_keeps [where P = "\<lambda>h. fmlookup h w' = fmlookup g w'"]) simp_all

end
