(* ===== verification/JsonRoundtrip.thy ===== *)
theory JsonRoundtrip
  imports Json
begin

text \<open>
  What the JSON encoder writes, the decoder reads back. Strings must be valid UTF-8 (the encoder
  replaces other bytes); number literals are kept as text. \<open>render\<close> writes a tree with its fields in
  their order, \<open>parse_render\<close> reads it back; the maps that \<^verbatim>\<open>MarshalStringMap\<close> writes are a special
  case.
\<close>

section \<open>UTF-8\<close>

lemma recompose3: "r div 4096 * 4096 + r div 64 mod 64 * 64 + r mod 64 = (r :: nat)"
proof -
  have "r = 64 * (r div 64) + r mod 64" "r div 64 = 64 * (r div 4096) + r div 64 mod 64"
    using mult_div_mod_eq [of 64 "r div 64"] by (simp_all add: div_mult2_eq [symmetric])
  then show ?thesis by linarith
qed

lemma recompose4: "r div 262144 * 262144 + r div 4096 mod 64 * 4096 + r div 64 mod 64 * 64 + r mod 64 = (r :: nat)"
proof -
  have "r div 4096 = 64 * (r div 262144) + r div 4096 mod 64"
    using mult_div_mod_eq [of 64 "r div 4096"] by (simp add: div_mult2_eq [symmetric])
  then show ?thesis using recompose3 [of r] by linarith
qed

lemma decode2: "2 \<le> a \<Longrightarrow> a \<le> 31 \<Longrightarrow> x \<le> 63 \<Longrightarrow> decodeRune (0xC0 + a) ((0x80 + x) # rest) = (a * 64 + x, 1)"
  by (simp add: decodeRune_def cont_def)

lemma decode3:
  "a \<le> 15 \<Longrightarrow> x \<le> 63 \<Longrightarrow> y \<le> 63 \<Longrightarrow> (a = 0 \<longrightarrow> 32 \<le> x) \<Longrightarrow> (a = 13 \<longrightarrow> x \<le> 31) \<Longrightarrow>
    decodeRune (0xE0 + a) ((0x80 + x) # (0x80 + y) # rest) = (a * 4096 + x * 64 + y, 2)"
  by (simp add: decodeRune_def cont_def)

lemma decode4:
  "a \<le> 4 \<Longrightarrow> x \<le> 63 \<Longrightarrow> y \<le> 63 \<Longrightarrow> z \<le> 63 \<Longrightarrow> (a = 0 \<longrightarrow> 16 \<le> x) \<Longrightarrow> (a = 4 \<longrightarrow> x \<le> 15) \<Longrightarrow>
    decodeRune (0xF0 + a) ((0x80 + x) # (0x80 + y) # (0x80 + z) # rest) = (a * 262144 + x * 4096 + y * 64 + z, 3)"
  by (simp add: decodeRune_def cont_def)

lemma mod64: "x mod 64 \<le> (63 :: nat)"
  by (simp add: less_Suc_eq_le [symmetric])

lemma decodeRune_encodeRune:
  assumes "scalar r" "128 \<le> r"
  shows "\<exists>b bs. encodeRune r = b # bs \<and> 128 \<le> b \<and> bs \<noteq> [] \<and> (\<forall>rest. decodeRune b (bs @ rest) = (r, length bs))"
proof -
  consider "r < 0x800" | "0x800 \<le> r" "r < 0x10000" | "0x10000 \<le> r" by linarith
  then show ?thesis
  proof cases
    case 1
    have "2 \<le> r div 64" "r div 64 \<le> 31" using 1 assms(2) by linarith+
    from decode2 [OF this mod64] show ?thesis using 1 assms(2) by (simp add: encodeRune_def)
  next
    case 2
    note r = recompose3 [of r] mod64 [of r] mod64 [of "r div 64"]
    have "r div 4096 \<le> 15" "r div 4096 = 0 \<longrightarrow> 32 \<le> r div 64 mod 64" "r div 4096 = 13 \<longrightarrow> r div 64 mod 64 \<le> 31"
      using 2 assms(1) r unfolding scalar_def by linarith+
    from decode3 [OF this(1) mod64 mod64 this(2,3)] show ?thesis using 2 assms(2) r(1) by (simp add: encodeRune_def)
  next
    case 3
    note r = recompose4 [of r] mod64 [of r] mod64 [of "r div 64"] mod64 [of "r div 4096"]
    have "r div 262144 \<le> 4" "r div 262144 = 0 \<longrightarrow> 16 \<le> r div 4096 mod 64" "r div 262144 = 4 \<longrightarrow> r div 4096 mod 64 \<le> 15"
      using 3 assms(1) r unfolding scalar_def by linarith+
    from decode4 [OF this(1) mod64 mod64 mod64 this(2,3)] show ?thesis using 3 assms(2) r(1) by (simp add: encodeRune_def)
  qed
qed

section \<open>Strings\<close>

definition utf8 :: "nat list \<Rightarrow> bool"
  where "utf8 bs \<longleftrightarrow> (\<exists>rs. list_all scalar rs \<and> bs = concat (map encodeRune rs))"

definition escapeRune :: "nat \<Rightarrow> nat list"
  where "escapeRune r =
    (if r < 128 then escapeASCII r else if r = 0x2028 \<or> r = 0x2029 then uEscape r else encodeRune r)"

lemma escape_step: "scalar r \<Longrightarrow> escapeBytes (encodeRune r @ bs) = escapeRune r @ escapeBytes bs"
proof (cases "r < 128")
  case False
  assume "scalar r"
  with False obtain b es where e: "encodeRune r = b # es" "128 \<le> b" "es \<noteq> []"
      "decodeRune b (es @ bs) = (r, length es)"
    using decodeRune_encodeRune [of r] by (metis not_less)
  then show ?thesis using False by (auto simp: escapeRune_def)
qed (simp add: encodeRune_def escapeRune_def)

lemma hexDigit_low: "n < 16 \<Longrightarrow> hexDigit (hexLow n) = Some n"
  by (auto simp: hexDigit_def hexLow_def)

lemma getu4_low:
  "w < 16 \<Longrightarrow> x < 16 \<Longrightarrow> y < 16 \<Longrightarrow> z < 16 \<Longrightarrow>
    getu4 (hexLow w # hexLow x # hexLow y # hexLow z # bs) = Some (w * 4096 + x * 256 + y * 16 + z)"
  by (simp add: hexDigit_low)

lemma lexString_uEscape:
  assumes "r < 0x10000" "\<not> is_surrogate r"
  shows "lexString (uEscape r @ bs) = map_option (apfst ((@) (encodeRune r))) (lexString bs)"
proof -
  define w x y z where "w = r div 4096 mod 16" and "x = r div 256 mod 16" and "y = r div 16 mod 16" and "z = r mod 16"
  have d: "w < 16" "x < 16" "y < 16" "z < 16" by (simp_all add: w_def x_def y_def z_def)
  have "r = 16 * (r div 16) + z" "r div 16 = 16 * (r div 256) + y" "r div 256 = 16 * (r div 4096) + x"
    using mult_div_mod_eq [of 16 "r div 16"] mult_div_mod_eq [of 16 "r div 256"]
    by (simp_all add: x_def y_def z_def div_mult2_eq [symmetric])
  moreover have "w = r div 4096" using assms(1) by (simp add: w_def)
  ultimately have "w * 4096 + x * 256 + y * 16 + z = r" by linarith
  with getu4_low [OF d] have g: "getu4 (hexLow w # hexLow x # hexLow y # hexLow z # bs) = Some r" by simp
  have "uEscape r = [92, 117, hexLow w, hexLow x, hexLow y, hexLow z]" by (simp add: uEscape_def w_def x_def y_def z_def)
  then show ?thesis using assms(2) g by (simp add: escapedRune_def del: getu4.simps)
qed

lemma lexString_escape:
  assumes "scalar r"
  shows "lexString (escapeRune r @ bs) = map_option (apfst ((@) (encodeRune r))) (lexString bs)"
proof -
  have ns: "\<not> is_surrogate r" using assms by (auto simp: scalar_def is_surrogate_def)
  have c: "(@) [r] = (#) r" by (simp add: fun_eq_iff)
  consider (ascii) "r < 128" | (line) "r = 0x2028 \<or> r = 0x2029" | (other) "128 \<le> r" "r \<noteq> 0x2028" "r \<noteq> 0x2029" by linarith
  then show ?thesis
  proof cases
    case ascii
    have e: "encodeRune r = [r]" using ascii by (simp add: encodeRune_def)
    consider (short) "r \<in> {34, 92, 8, 12, 10, 13, 9}"
      | (esc) "r \<notin> {34, 92, 8, 12, 10, 13, 9}" "r < 32 \<or> r = 60 \<or> r = 62 \<or> r = 38"
      | (plain) "r \<notin> {34, 92}" "32 \<le> r" "r \<noteq> 60" "r \<noteq> 62" "r \<noteq> 38" by fastforce
    then show ?thesis
    proof cases
      case short
      then show ?thesis unfolding e c by (elim insertE emptyE) (simp_all add: escapeRune_def escapeASCII_def simpleEscape_def)
    next
      case esc
      then have "escapeRune r = uEscape r" using ascii by (simp add: escapeRune_def escapeASCII_def)
      then show ?thesis using lexString_uEscape [of r bs] ns ascii by simp
    next
      case plain
      then show ?thesis
        using ascii unfolding e c by (simp add: escapeRune_def escapeASCII_def decodeRune_def e c)
    qed
  next
    case line
    then show ?thesis using lexString_uEscape [of r bs] ns by (auto simp: escapeRune_def)
  next
    case other
    then obtain b es where "encodeRune r = b # es" "128 \<le> b" "decodeRune b (es @ bs) = (r, length es)"
      using decodeRune_encodeRune [OF assms] by blast
    then show ?thesis using other by (auto simp: escapeRune_def)
  qed
qed

lemma lexString_escapeBytes:
  assumes "utf8 bs"
  shows "lexString (escapeBytes bs @ 34 # rest) = Some (bs, rest)"
proof -
  obtain rs where rs: "list_all scalar rs" "bs = concat (map encodeRune rs)" using assms by (auto simp: utf8_def)
  have "lexString (escapeBytes (concat (map encodeRune rs)) @ 34 # rest) = Some (concat (map encodeRune rs), rest)"
    using rs(1) by (induction rs) (simp_all add: escape_step lexString_escape del: lexString.simps(2), simp)
  then show ?thesis by (simp add: rs(2))
qed

section \<open>Trees as text and as tokens\<close>

fun render :: "jraw \<Rightarrow> string" where
  "render RNull = ''null''"
| "render (RBool b) = (if b then ''true'' else ''false'')"
| "render (RNum s) = s"
| "render (RStr s) = marshalString s"
| "render (RArr vs) = ''['' @ commas (map render vs) @ '']''"
| "render (RObj fs) = ''{'' @ commas (map (\<lambda>(k, v). marshalString k @ '':'' @ render v) fs) @ ''}''"

fun joinToks :: "jtok list list \<Rightarrow> jtok list" where
  "joinToks [] = []"
| "joinToks [s] = s"
| "joinToks (s # t # ts) = s @ Comma # joinToks (t # ts)"

fun tokens :: "jraw \<Rightarrow> jtok list" where
  "tokens RNull = [TNull]"
| "tokens (RBool b) = [TBool b]"
| "tokens (RNum s) = [TNum s]"
| "tokens (RStr s) = [TStr s]"
| "tokens (RArr vs) = LBrack # joinToks (map tokens vs) @ [RBrack]"
| "tokens (RObj fs) = LBrace # joinToks (map (\<lambda>(k, v). TStr k # Colon # tokens v) fs) @ [RBrace]"

definition number_ok :: "string \<Rightarrow> bool"
  where "number_ok s \<longleftrightarrow> lexNumber (bytesOf s) = Some (bytesOf s, [])"

text \<open>Well-formed literals, and at most \<open>n\<close> levels of nesting.\<close>

fun raw_ok :: "nat \<Rightarrow> jraw \<Rightarrow> bool" where
  "raw_ok n (RNum s) \<longleftrightarrow> number_ok s"
| "raw_ok n (RStr s) \<longleftrightarrow> utf8 (bytesOf s)"
| "raw_ok n (RArr vs) \<longleftrightarrow> 0 < n \<and> (\<forall>v\<in>set vs. raw_ok (n - 1) v)"
| "raw_ok n (RObj fs) \<longleftrightarrow> 0 < n \<and> (\<forall>f\<in>set fs. utf8 (bytesOf (fst f)) \<and> raw_ok (n - 1) (snd f))"
| "raw_ok n _ \<longleftrightarrow> True"

subsection \<open>The machine\<close>

abbreviation "after st v ts \<equiv> (case deliver st v of (st', m') \<Rightarrow> runToks st' m' ts)"

lemma first_tok: "\<exists>t ts. tokens v = t # ts \<and> t \<noteq> RBrack"
  by (cases v) auto

lemma run_elems:
  assumes "\<And>v st ts. v \<in> set vs \<Longrightarrow> length st = n \<Longrightarrow> runToks st MValue (tokens v @ ts) = after st v ts"
    and "vs \<noteq> []" "length st + 1 = n"
  shows "runToks (AFrame acc # st) MValue (joinToks (map tokens vs) @ RBrack # ts) = after st (RArr (acc @ vs)) ts"
  using assms
proof (induction vs arbitrary: acc)
  case (Cons v vs)
  have v: "runToks (AFrame acc # st) MValue (tokens v @ ts') = runToks (AFrame (acc @ [v]) # st) MEnd ts'" for ts'
    using Cons.prems(1) [of v "AFrame acc # st"] Cons.prems(3) by simp
  show ?case
  proof (cases vs)
    case Nil
    then show ?thesis by (simp add: v split: prod.splits)
  next
    case (Cons w ws)
    then show ?thesis using Cons.IH [of "acc @ [v]"] Cons.prems by (simp add: v)
  qed
qed simp

lemma run_fields:
  assumes "\<And>f st ts. f \<in> set fs \<Longrightarrow> length st = n \<Longrightarrow> runToks st MValue (tokens (snd f) @ ts) = after st (snd f) ts"
    and "fs \<noteq> []" "length st + 1 = n" "m = MObj \<or> m = MKey"
  shows "runToks (OFrame acc k # st) m (joinToks (map (\<lambda>(k, v). TStr k # Colon # tokens v) fs) @ RBrace # ts) =
    after st (RObj (acc @ fs)) ts"
  using assms
proof (induction fs arbitrary: acc k m)
  case (Cons f fs)
  obtain key v where f: "f = (key, v)" by (cases f)
  have v: "runToks (OFrame acc k # st) m (TStr key # Colon # tokens v @ ts') =
      runToks (OFrame (acc @ [(key, v)]) key # st) MEnd ts'" for ts'
    using Cons.prems(1) [of f "OFrame acc key # st"] Cons.prems(3,4) f by auto
  show ?case
  proof (cases fs)
    case Nil
    then show ?thesis using v by (simp add: f split: prod.splits)
  next
    case (Cons g gs)
    then show ?thesis using Cons.IH [of MKey "acc @ [(key, v)]" key] Cons.prems v by (simp add: f)
  qed
qed simp

lemma run_tokens:
  "raw_ok (maxNestingDepth - length st) t \<Longrightarrow> runToks st MValue (tokens t @ ts) = after st t ts"
proof (induction t arbitrary: st ts)
  case (RArr vs)
  have d: "length st < maxNestingDepth" using RArr.prems by simp
  show ?case
  proof (cases "vs = []")
    case False
    obtain t0 ts0 where t0: "joinToks (map tokens vs) = t0 # ts0" "t0 \<noteq> RBrack"
    proof -
      obtain v w where "vs = v # w" using False by (cases vs) auto
      with first_tok [of v] that show thesis by (cases w) auto
    qed
    have "runToks (AFrame [] # st) MArr (t0 # xs) = runToks (AFrame [] # st) MValue (t0 # xs)" for xs
      using t0(2) by (cases t0) auto
    then have "runToks st MValue (tokens (RArr vs) @ ts) =
        runToks (AFrame [] # st) MValue (joinToks (map tokens vs) @ RBrack # ts)"
      using d by (simp add: t0(1) del: runToks.simps(2)) (simp add: d)
    also have "\<dots> = after st (RArr vs) ts"
      using run_elems [of vs "Suc (length st)" st "[]" ts] RArr False by (simp add: Suc_diff_Suc)
    finally show ?thesis .
  qed (use d in \<open>simp split: prod.splits\<close>)
next
  case (RObj fs)
  have d: "length st < maxNestingDepth" using RObj.prems by simp
  show ?case
  proof (cases "fs = []")
    case False
    have "runToks st MValue (tokens (RObj fs) @ ts) =
        runToks (OFrame [] [] # st) MObj (joinToks (map (\<lambda>(k, v). TStr k # Colon # tokens v) fs) @ RBrace # ts)"
      using d by simp
    also have "\<dots> = after st (RObj fs) ts"
      using run_fields [of fs "Suc (length st)" st MObj "[]" "[]" ts] RObj False by (auto simp: snds.simps)
    finally show ?thesis .
  qed (use d in \<open>simp split: prod.splits\<close>)
qed (simp_all split: prod.splits)

subsection \<open>The lexer\<close>

lemma bytesOf_simps [simp]:
  "bytesOf [] = []" "bytesOf (c # s) = of_char c # bytesOf s" "bytesOf (s @ t) = bytesOf s @ bytesOf t"
  by (simp_all add: bytesOf_def)

lemma bytesOf_less: "b \<in> set (bytesOf s) \<Longrightarrow> b < 256"
  by (auto simp: bytesOf_def)

lemma str_bytesOf [simp]: "str (bytesOf s) = s"
  by (simp add: str_def bytesOf_def o_def)

lemma bytesOf_str: "\<forall>b\<in>set bs. b < 256 \<Longrightarrow> bytesOf (str bs) = bs"
  by (induction bs) (auto simp: str_def bytesOf_def)

lemma hexLow_less: "n < 16 \<Longrightarrow> hexLow n < 256"
  by (simp add: hexLow_def)

lemma escape_less: "\<forall>b\<in>set bs. b < 256 \<Longrightarrow> b \<in> set (escapeBytes bs) \<Longrightarrow> b < 256"
proof (induction bs rule: escapeBytes.induct)
  case (2 c bs)
  have u: "x < 256" if "x \<in> set (uEscape r)" for x r
    using that hexLow_less by (auto simp: uEscape_def)
  have a: "x < 256" if "x \<in> set (escapeASCII c)" for x
    using that u "2.prems"(1) by (auto simp: escapeASCII_def split: if_splits)
  obtain r n where d: "decodeRune c bs = (r, n)" by (cases "decodeRune c bs")
  have sub: "set (take n bs) \<subseteq> set bs" "set (drop n bs) \<subseteq> set bs" by (auto dest: in_set_takeD in_set_dropD)
  show ?case
  proof (cases "c < 128")
    case True
    then show ?thesis using 2 a by auto
  next
    case False
    have tl: "\<forall>b\<in>set (drop n bs). b < 256" using "2.prems"(1) sub by auto
    then have "b < 256" if "b \<in> set (escapeBytes (drop n bs))"
      using "2.IH"(2) [OF False] d that by simp
    then show ?thesis
      using False "2.prems" sub(1) u by (auto simp: d split: if_splits)
  qed
qed simp

lemma bytesOf_marshalString: "bytesOf (marshalString s) = 34 # escapeBytes (bytesOf s) @ [34]"
  unfolding marshalString_def using escape_less [of "bytesOf s"] bytesOf_less by (subst bytesOf_str) auto

lemma lexAll_token:
  assumes "lexToken (b # bs) = Some (t, rest)" "\<not> is_ws b"
  shows "lexAll (b # bs) = map_option (Cons t) (lexAll rest)"
  using assms by (simp add: lexAll.simps [of "b # bs"])

lemma lexAll_punct:
  "lexAll (91 # bs) = map_option (Cons LBrack) (lexAll bs)" "lexAll (93 # bs) = map_option (Cons RBrack) (lexAll bs)"
  "lexAll (123 # bs) = map_option (Cons LBrace) (lexAll bs)" "lexAll (125 # bs) = map_option (Cons RBrace) (lexAll bs)"
  "lexAll (44 # bs) = map_option (Cons Comma) (lexAll bs)" "lexAll (58 # bs) = map_option (Cons Colon) (lexAll bs)"
  by (rule lexAll_token; simp add: lexToken_def punct_def is_ws_def)+

lemma lexAll_string:
  "utf8 (bytesOf s) \<Longrightarrow> lexAll (bytesOf (marshalString s) @ rest) = map_option (Cons (TStr s)) (lexAll rest)"
  unfolding bytesOf_marshalString append_Cons
  by (rule lexAll_token) (simp_all add: lexToken_def punct_def is_ws_def lexString_escapeBytes)

text \<open>What may follow a number: the end, or a byte that cannot continue it.\<close>

definition sep :: "nat list \<Rightarrow> bool"
  where "sep bs \<longleftrightarrow> (case bs of [] \<Rightarrow> True | b # _ \<Rightarrow> \<not> is_dig b \<and> b \<notin> {46, 101, 69})"

lemma sep_dig: "sep rest \<Longrightarrow> takeWhile is_dig (ds @ rest) = takeWhile is_dig ds \<and>
    dropWhile is_dig (ds @ rest) = dropWhile is_dig ds @ rest"
  by (induction ds) (auto simp: sep_def split: list.splits)

lemma lexDigits_sep: "sep rest \<Longrightarrow> lexDigits bs = Some (d, bs') \<Longrightarrow> lexDigits (bs @ rest) = Some (d, bs' @ rest)"
  by (auto simp: lexDigits_def sep_dig split: if_splits)

lemma lexInt_sep: "sep rest \<Longrightarrow> lexInt bs = Some (d, bs') \<Longrightarrow> lexInt (bs @ rest) = Some (d, bs' @ rest)"
  using sep_dig [of rest bs] by (auto simp: lexInt_def split: list.splits if_splits)

lemma lexFrac_sep: "sep rest \<Longrightarrow> lexFrac bs = Some (d, bs') \<Longrightarrow> lexFrac (bs @ rest) = Some (d, bs' @ rest)"
proof (cases bs)
  case Nil
  assume "sep rest" "lexFrac bs = Some (d, bs')"
  then show ?thesis using Nil by (cases rest) (auto simp: lexFrac_def sep_def)
next
  case (Cons b bs1)
  assume "sep rest" "lexFrac bs = Some (d, bs')"
  then show ?thesis using Cons by (auto simp: lexFrac_def split: if_splits dest: lexDigits_sep)
qed

lemma lexExp_sep: "sep rest \<Longrightarrow> lexExp bs = Some (d, bs') \<Longrightarrow> lexExp (bs @ rest) = Some (d, bs' @ rest)"
proof (cases bs)
  case Nil
  assume "sep rest" "lexExp bs = Some (d, bs')"
  then show ?thesis using Nil by (cases rest) (auto simp: lexExp_def sep_def)
next
  case (Cons b bs1)
  assume a: "sep rest" "lexExp bs = Some (d, bs')"
  show ?thesis
  proof (cases bs1)
    case (Cons c cs)
    then show ?thesis
      using a \<open>bs = b # bs1\<close> lexDigits_sep [OF a(1), of cs] lexDigits_sep [OF a(1), of "c # cs"]
      by (auto simp: lexExp_def split: if_splits)
  qed (use a Cons in \<open>auto simp: lexExp_def split: if_splits\<close>)
qed

lemma lexNumber_sep:
  assumes "sep rest" "lexNumber bs = Some (d, bs')"
  shows "lexNumber (bs @ rest) = Some (d, bs' @ rest)"
proof -
  obtain sg bs0 where s: "(case bs of b # r \<Rightarrow> if b = 45 then ([b], r) else ([], bs) | [] \<Rightarrow> ([], [])) = (sg, bs0)"
    by fastforce
  obtain i bs1 f bs2 e where l: "lexInt bs0 = Some (i, bs1)" "lexFrac bs1 = Some (f, bs2)" "lexExp bs2 = Some (e, bs')"
      "d = sg @ i @ f @ e"
    using assms(2) s unfolding lexNumber_def by (auto split: option.splits)
  have "bs \<noteq> []" using s l(1) by (auto simp: lexInt_def)
  then have "(case bs @ rest of b # r \<Rightarrow> if b = 45 then ([b], r) else ([], bs @ rest) | [] \<Rightarrow> ([], [])) = (sg, bs0 @ rest)"
    using s by (auto split: list.splits if_splits)
  then show ?thesis
    using lexInt_sep [OF assms(1) l(1)] lexFrac_sep [OF assms(1) l(2)] lexExp_sep [OF assms(1) l(3)] l(4)
    by (simp add: lexNumber_def)
qed

lemma lexAll_number:
  assumes "number_ok s" "sep rest"
  shows "lexAll (bytesOf s @ rest) = map_option (Cons (TNum s)) (lexAll rest)"
proof -
  have n: "lexNumber (bytesOf s @ rest) = Some (bytesOf s, rest)"
    using lexNumber_sep [OF assms(2)] assms(1) by (simp add: number_ok_def)
  obtain b bs where b: "bytesOf s = b # bs" "b = 45 \<or> is_dig b"
    using assms(1) by (cases "bytesOf s") (auto simp: number_ok_def lexNumber_def lexInt_def is_dig_def split: if_splits option.splits)
  have "lexToken (b # bs @ rest) = Some (TNum s, rest)"
    using n b str_bytesOf [of s] by (auto simp: lexToken_def punct_def is_dig_def)
  moreover have "\<not> is_ws b" using b(2) by (auto simp: is_ws_def is_dig_def)
  ultimately show ?thesis using lexAll_token b(1) by simp
qed

lemma lexAll_word:
  "lexAll (bytesOf ''null'' @ rest) = map_option (Cons TNull) (lexAll rest)"
  "lexAll (bytesOf ''true'' @ rest) = map_option (Cons (TBool True)) (lexAll rest)"
  "lexAll (bytesOf ''false'' @ rest) = map_option (Cons (TBool False)) (lexAll rest)"
  by (simp, rule lexAll_token; simp add: lexToken_def punct_def word_def is_dig_def is_ws_def)+

lemma sep_punct [simp]: "sep []" "sep (44 # bs)" "sep (93 # bs)" "sep (125 # bs)"
  by (simp_all add: sep_def is_dig_def)

lemma option_append: "map_option (Cons t) (map_option ((@) ts) x) = map_option ((@) (t # ts)) x"
  by (cases x) auto

lemma lexAll_items:
  assumes "\<And>i rest. i \<in> set is \<Longrightarrow> sep rest \<Longrightarrow> lexAll (bytesOf (txt i) @ rest) = map_option ((@) (toks i)) (lexAll rest)"
    and "sep rest"
  shows "lexAll (bytesOf (commas (map txt is)) @ rest) = map_option ((@) (joinToks (map toks is))) (lexAll rest)"
  using assms
proof (induction "is")
  case Nil
  then show ?case by (cases "lexAll rest") auto
next
  case (Cons i "is")
  show ?case
  proof (cases "is")
    case Nil
    then show ?thesis using Cons.prems by simp
  next
    case (Cons j js)
    then show ?thesis
      using Cons.IH Cons.prems by (cases "lexAll rest") (simp_all add: lexAll_punct)
  qed
qed

lemma lexAll_render:
  "raw_ok n t \<Longrightarrow> sep rest \<Longrightarrow> lexAll (bytesOf (render t) @ rest) = map_option ((@) (tokens t)) (lexAll rest)"
proof (induction t arbitrary: n rest)
  case (RArr vs)
  have "lexAll (bytesOf (commas (map render vs)) @ 93 # rest) = map_option ((@) (joinToks (map tokens vs))) (lexAll (93 # rest))"
    by (rule lexAll_items) (use RArr in auto)
  then show ?case by (cases "lexAll rest") (simp_all add: lexAll_punct)
next
  case (RObj fs)
  have "lexAll (bytesOf (commas (map (\<lambda>(k, v). marshalString k @ '':'' @ render v) fs)) @ 125 # rest) =
      map_option ((@) (joinToks (map (\<lambda>(k, v). TStr k # Colon # tokens v) fs))) (lexAll (125 # rest))"
  proof (rule lexAll_items)
    fix f rest'
    assume f: "f \<in> set fs" "sep rest'"
    obtain k v where kv: "f = (k, v)" by (cases f)
    have "lexAll (bytesOf (render v) @ rest') = map_option ((@) (tokens v)) (lexAll rest')"
      using RObj.IH [of f v "n - 1" rest'] RObj.prems(1) f kv by (auto simp: snds.simps)
    then show "lexAll (bytesOf (case f of (k, v) \<Rightarrow> marshalString k @ '':'' @ render v) @ rest') =
        map_option ((@) (case f of (k, v) \<Rightarrow> TStr k # Colon # tokens v)) (lexAll rest')"
      using f RObj.prems(1) kv by (cases "lexAll rest'") (force simp: lexAll_string lexAll_punct)+
  qed simp
  then show ?case by (cases "lexAll rest") (simp_all add: lexAll_punct)
next
  case (RBool b)
  then show ?case using lexAll_word [of rest] by (cases "lexAll rest") auto
next
  case RNull
  then show ?case using lexAll_word [of rest] by (cases "lexAll rest") auto
next
  case (RNum s)
  then show ?case using lexAll_number [of s rest] by (cases "lexAll rest") auto
next
  case (RStr s)
  then show ?case using lexAll_string [of s rest] by (cases "lexAll rest") auto
qed

theorem parse_render: "raw_ok maxNestingDepth t \<Longrightarrow> parseRaw (render t) = Some t"
  using lexAll_render [of maxNestingDepth t "[]"] run_tokens [of "[]" t "[]"]
  by (simp add: parseRaw_def lexAll.simps [of "[]"])

section \<open>The order of fields\<close>

lemma setField_commute: "k \<noteq> k' \<Longrightarrow> setField k v (setField k' v' fs) = setField k' v' (setField k v fs)"
  by (induction fs) auto

lemma objectOf_perm:
  assumes "mset fs = mset gs" "distinct (map fst fs)"
  shows "objectOf fs = objectOf gs"
proof -
  have "(case x of (k, v) \<Rightarrow> setField k v) \<circ> (case y of (k, v) \<Rightarrow> setField k v) =
      (case y of (k, v) \<Rightarrow> setField k v) \<circ> (case x of (k, v) \<Rightarrow> setField k v)" if "x \<in> set fs" "y \<in> set fs" for x y
  proof (cases "x = y")
    case False
    then have "fst x \<noteq> fst y" using assms(2) that by (metis distinct_map inj_on_contraD)
    then show ?thesis by (cases x; cases y) (auto simp: fun_eq_iff setField_commute)
  qed simp
  then have "fold (\<lambda>(k, v). setField k v) fs = fold (\<lambda>(k, v). setField k v) gs"
    by (intro fold_multiset_equiv [OF _ assms(1)]) auto
  then show ?thesis by (simp add: objectOf_def)
qed

lemma sequence_Some: "sequence xs = Some ys \<longleftrightarrow> xs = map Some ys"
  by (induction xs arbitrary: ys) (auto split: option.splits)

lemma sequence_None: "sequence xs = None \<longleftrightarrow> None \<in> set xs"
  by (induction xs) (auto split: option.splits)

lemma sequence_keys:
  "sequence (map (\<lambda>(k, v). map_option (Pair k) (f v)) fs) = Some xs \<Longrightarrow> map fst xs = map fst fs"
  by (induction fs arbitrary: xs) (auto split: option.splits)

lemma decodeAny_perm:
  assumes "mset fs = mset gs" "distinct (map fst fs)"
  shows "decodeAny (RObj fs) = decodeAny (RObj gs)"
proof -
  let ?d = "\<lambda>(k, v). map_option (Pair k) (decodeAny v)"
  have m: "mset (map ?d fs) = mset (map ?d gs)" using assms(1) by simp
  show ?thesis
  proof (cases "sequence (map ?d fs)")
    case None
    then have "sequence (map ?d gs) = None" using m by (metis sequence_None set_mset_mset)
    with None show ?thesis by simp
  next
    case (Some xs)
    then have "sequence (map ?d gs) \<noteq> None" using m by (metis option.distinct(1) sequence_None set_mset_mset)
    then obtain ys where ys: "sequence (map ?d gs) = Some ys" by blast
    have "mset (map Some xs) = mset (map Some ys)" using m Some ys unfolding sequence_Some by metis
    then have "mset xs = mset ys" by (metis mset_map multiset.inj_map_strong option.inject)
    moreover have "map fst xs = map fst fs" by (rule sequence_keys [OF Some])
    ultimately show ?thesis using Some ys objectOf_perm [of xs ys] assms(2) by simp
  qed
qed

end
