(* ===== verification/Keys.thy ===== *)
theory Keys
  imports JsonRoundtrip Memory
begin

unbundle bit_operations_syntax

text \<open>
  The keys of the prompt and the tool cache (\<^verbatim>\<open>semantic/keying.go\<close>, \<^verbatim>\<open>toolcache/toolcache.go\<close>):
  the SHA-256 digest of a text that contains the canonical form of a JSON argument. And the JSON arguments
  of the vector and memory commands (\<^verbatim>\<open>handlers_vector.go\<close>): vectors, with the conversion to
  \<^verbatim>\<open>float32\<close>, and metadata.
\<close>

section \<open>SHA-256\<close>

definition sha_K :: "32 word list"
  where "sha_K =
    [0x428A2F98, 0x71374491, 0xB5C0FBCF, 0xE9B5DBA5, 0x3956C25B, 0x59F111F1, 0x923F82A4, 0xAB1C5ED5,
     0xD807AA98, 0x12835B01, 0x243185BE, 0x550C7DC3, 0x72BE5D74, 0x80DEB1FE, 0x9BDC06A7, 0xC19BF174,
     0xE49B69C1, 0xEFBE4786, 0x0FC19DC6, 0x240CA1CC, 0x2DE92C6F, 0x4A7484AA, 0x5CB0A9DC, 0x76F988DA,
     0x983E5152, 0xA831C66D, 0xB00327C8, 0xBF597FC7, 0xC6E00BF3, 0xD5A79147, 0x06CA6351, 0x14292967,
     0x27B70A85, 0x2E1B2138, 0x4D2C6DFC, 0x53380D13, 0x650A7354, 0x766A0ABB, 0x81C2C92E, 0x92722C85,
     0xA2BFE8A1, 0xA81A664B, 0xC24B8B70, 0xC76C51A3, 0xD192E819, 0xD6990624, 0xF40E3585, 0x106AA070,
     0x19A4C116, 0x1E376C08, 0x2748774C, 0x34B0BCB5, 0x391C0CB3, 0x4ED8AA4A, 0x5B9CCA4F, 0x682E6FF3,
     0x748F82EE, 0x78A5636F, 0x84C87814, 0x8CC70208, 0x90BEFFFA, 0xA4506CEB, 0xBEF9A3F7, 0xC67178F2]"

definition sha_init :: "32 word list"
  where "sha_init = [0x6A09E667, 0xBB67AE85, 0x3C6EF372, 0xA54FF53A, 0x510E527F, 0x9B05688C, 0x1F83D9AB, 0x5BE0CD19]"

definition rotr :: "nat \<Rightarrow> 32 word \<Rightarrow> 32 word"
  where "rotr n x = drop_bit n x OR push_bit (32 - n) x"

definition sha_extend :: "32 word list \<Rightarrow> nat \<Rightarrow> 32 word list"
  where "sha_extend w i =
    (let v1 = w ! (i - 2); t1 = rotr 17 v1 XOR rotr 19 v1 XOR drop_bit 10 v1;
         v2 = w ! (i - 15); t2 = rotr 7 v2 XOR rotr 18 v2 XOR drop_bit 3 v2
     in w @ [t1 + w ! (i - 7) + t2 + w ! (i - 16)])"

definition sha_round :: "32 word \<times> 32 word \<Rightarrow> 32 word list \<Rightarrow> 32 word list"
  where "sha_round kw st =
    (case (kw, st) of
       ((k, w), [a, b, c, d, e, f, g, h]) \<Rightarrow>
         (let t1 = h + (rotr 6 e XOR rotr 11 e XOR rotr 25 e) + ((e AND f) XOR (NOT e AND g)) + k + w;
              t2 = (rotr 2 a XOR rotr 13 a XOR rotr 22 a) + ((a AND b) XOR (a AND c) XOR (b AND c))
          in [t1 + t2, a, b, c, d + t1, e, f, g])
     | _ \<Rightarrow> st)"

definition be32 :: "nat list \<Rightarrow> 32 word" \<comment> \<open>four bytes, the most significant first\<close>
  where "be32 bs = foldl (\<lambda>w b. push_bit 8 w OR of_nat b) 0 bs"

fun chunks :: "nat \<Rightarrow> nat list \<Rightarrow> nat list list" where \<comment> \<open>pieces of \<open>Suc n\<close> bytes\<close>
  "chunks n [] = []"
| "chunks n (b # bs) = (b # take n bs) # chunks n (drop n bs)"

definition sha_block :: "nat list \<Rightarrow> 32 word list \<Rightarrow> 32 word list"
  where "sha_block blk h =
    (let w = foldl sha_extend (map be32 (chunks 3 blk)) [16..<64]
     in map2 (+) h (fold sha_round (zip sha_K w) h))"

definition be_bytes :: "nat \<Rightarrow> nat \<Rightarrow> nat list" \<comment> \<open>the lowest bytes of a number, the most significant first\<close>
  where "be_bytes n x = map (\<lambda>i. x div 256 ^ i mod 256) (rev [0..<n])"

definition sha_pad :: "nat list \<Rightarrow> nat list"
  where "sha_pad bs =
    (let n = length bs
     in bs @ [0x80] @ replicate ((119 - n mod 64) mod 64) 0 @ be_bytes 8 (8 * n))"

definition be_word :: "32 word \<Rightarrow> nat list"
  where "be_word w = map (\<lambda>i. unat (take_bit 8 (drop_bit (8 * i) w))) [3, 2, 1, 0]"

definition sha256 :: "nat list \<Rightarrow> nat list" \<comment> \<open>\<^verbatim>\<open>sha256.Sum256\<close>\<close>
  where "sha256 bs = concat (map be_word (fold sha_block (chunks 63 (sha_pad bs)) sha_init))"

section \<open>Keys\<close>

definition TemplateKey :: "string \<Rightarrow> string \<Rightarrow> string \<Rightarrow> string option"
  where "TemplateKey tmpl variablesJSON model =
    (case UnmarshalMap variablesJSON of
       None \<Rightarrow> None
     | Some vars \<Rightarrow>
         Some (hex_encode (sha256 (bytesOf (tmpl @ [CHR 0x00] @ MarshalMap vars @ [CHR 0x00] @ model)))))"

definition ToolKey :: "string \<Rightarrow> string \<Rightarrow> string option"
  where "ToolKey toolName argsJSON =
    (case UnmarshalAny argsJSON of
       None \<Rightarrow> None
     | Some args \<Rightarrow> Some (hex_encode (sha256 (bytesOf (toolName @ [CHR 0x00] @ Marshal args)))))"

section \<open>Vectors and metadata\<close>

definition quantum32 :: "rat \<Rightarrow> int" where "quantum32 q = max (ilog2 q - 23) (- 149)"

definition round_mag32 :: "rat \<Rightarrow> rat"
  where "round_mag32 q =
    (if q = 0 then 0 else of_int (round_even (q / 2 powi quantum32 q)) * 2 powi quantum32 q)"

fun float32 :: "float64 \<Rightarrow> float64" where \<comment> \<open>the conversion \<^verbatim>\<open>float32(v)\<close>, as the \<^verbatim>\<open>float64\<close> of the same value\<close>
  "float32 (Fin s q) = (if 2 powi 128 \<le> round_mag32 q then Inf s else Fin s (round_mag32 q))"
| "float32 x = x"

definition parseVectorJSON :: "string \<Rightarrow> vec option"
  where "parseVectorJSON s = map_option (map float32) (UnmarshalFloats s)"

fun metadataValueToString :: "json \<Rightarrow> string" where
  "metadataValueToString (JStr s) = s"
| "metadataValueToString v = Marshal v"

definition parseMetadataJSON :: "string \<Rightarrow> (string, string) fmap option"
  where "parseMetadataJSON s =
    (case UnmarshalMap s of
       None \<Rightarrow> None
     | Some raw \<Rightarrow>
         Some (fmap_of_list (map (apsnd metadataValueToString) (case raw of None \<Rightarrow> [] | Some fs \<Rightarrow> fs))))"

section \<open>Canonical keys\<close>

text \<open>Keys do not depend on the order of the fields of an object.\<close>

lemma ToolKey_perm:
  assumes "raw_ok maxNestingDepth (RObj fs)" "mset fs = mset gs" "distinct (map fst fs)"
  shows "ToolKey name (render (RObj fs)) = ToolKey name (render (RObj gs))"
proof -
  have "set fs = set gs" using assms(2) by (metis set_mset_mset)
  then have "raw_ok maxNestingDepth (RObj gs)" using assms(1) by simp
  then show ?thesis
    using parse_render [OF assms(1)] parse_render decodeAny_perm [OF assms(2,3)]
    by (simp add: ToolKey_def UnmarshalAny_def del: render.simps decodeAny.simps)
qed

lemma TemplateKey_perm:
  assumes "raw_ok maxNestingDepth (RObj fs)" "mset fs = mset gs" "distinct (map fst fs)"
  shows "TemplateKey tmpl (render (RObj fs)) model = TemplateKey tmpl (render (RObj gs)) model"
proof -
  have "set fs = set gs" using assms(2) by (metis set_mset_mset)
  then have "raw_ok maxNestingDepth (RObj gs)" using assms(1) by simp
  then show ?thesis
    using parse_render [OF assms(1)] parse_render decodeAny_perm [OF assms(2,3)]
    by (simp add: TemplateKey_def UnmarshalMap_def UnmarshalAny_def del: render.simps decodeAny.simps)
qed

text \<open>Metadata that was written as JSON is read back.\<close>

lemma setField_set: "set (setField k v fs) \<subseteq> insert (k, v) (set fs)"
  by (induction fs) (auto split: if_splits)

lemma map_of_setField: "sorted_wrt (<) (map fst fs) \<Longrightarrow> map_of (setField k v fs) = (map_of fs)(k \<mapsto> v) \<and>
    sorted_wrt (<) (map fst (setField k v fs))"
proof (induction fs)
  case (Cons f fs)
  obtain k' v' where f: "f = (k', v')" by (cases f)
  have "x = (k, v) \<or> x \<in> set fs" if "x \<in> set (setField k v fs)" for x
    using setField_set [of k v fs] that by blast
  then show ?case using Cons by (fastforce simp: f fun_eq_iff)
qed simp

lemma map_of_objectOf: "map_of (objectOf fs) = map_of (rev fs)"
proof -
  have "map_of (fold (\<lambda>(k, v). setField k v) fs acc) = map_of acc ++ map_of (rev fs) \<and>
      sorted_wrt (<) (map fst (fold (\<lambda>(k, v). setField k v) fs acc))" if "sorted_wrt (<) (map fst acc)" for acc
    using that
  proof (induction fs arbitrary: acc)
    case (Cons f fs)
    obtain k v where f: "f = (k, v)" by (cases f)
    show ?case
      using Cons.IH [of "setField k v acc"] map_of_setField [OF Cons.prems, of k v]
      by (simp add: f map_add_upd_left [symmetric]) (auto simp: map_add_def fun_eq_iff split: option.splits)
  qed simp
  then show ?thesis by (simp add: objectOf_def)
qed

definition stringFields :: "(string, string) fmap \<Rightarrow> (string \<times> jraw) list"
  where "stringFields m = map (\<lambda>k. (k, RStr (the (fmlookup m k)))) (fkeys m)"

lemma MarshalStringMap_render: "MarshalStringMap m = render (RObj (stringFields m))"
  by (simp add: MarshalStringMap_def stringFields_def o_def)

lemma decode_stringFields:
  "decodeAny (RObj (stringFields m)) = Some (JObj (objectOf (map (\<lambda>k. (k, JStr (the (fmlookup m k)))) (fkeys m))))"
proof -
  have "sequence (map (\<lambda>(k, v). map_option (Pair k) (decodeAny v)) (stringFields m)) =
      Some (map (\<lambda>k. (k, JStr (the (fmlookup m k)))) (fkeys m))"
    by (simp add: stringFields_def sequence_Some o_def)
  then show ?thesis by simp
qed

lemma metadata_read_back:
  assumes "\<forall>k v. fmlookup m k = Some v \<longrightarrow> utf8 (bytesOf k) \<and> utf8 (bytesOf v)"
  shows "parseMetadataJSON (MarshalStringMap m) = Some m"
proof -
  let ?xs = "map (\<lambda>k. (k, JStr (the (fmlookup m k)))) (fkeys m)"
  have "raw_ok maxNestingDepth (RObj (stringFields m))"
    using assms by (auto simp: stringFields_def maxNestingDepth_def fmdom'_lookup)
  from parse_render [OF this]
  have u: "UnmarshalMap (MarshalStringMap m) = Some (Some (objectOf ?xs))"
    unfolding MarshalStringMap_render UnmarshalMap_def UnmarshalAny_def
    by (simp add: decode_stringFields del: render.simps decodeAny.simps)
  have "map_of (map (apsnd metadataValueToString) (objectOf ?xs)) k = fmlookup m k" for k
  proof -
    have "map_of (map (apsnd metadataValueToString) (objectOf ?xs)) = map_option metadataValueToString \<circ> map_of (objectOf ?xs)"
      by (simp add: map_of_map [symmetric] apsnd_def map_prod_def)
    also have "map_of (objectOf ?xs) = map_of ?xs"
      unfolding map_of_objectOf by (subst map_of_inject_set) (auto simp: o_def rev_map)
    finally show ?thesis
      by (cases "fmlookup m k") (auto simp: map_of_map_restrict [unfolded restrict_map_def] fmdom'_lookup)
  qed
  then have "fmap_of_list (map (apsnd metadataValueToString) (objectOf ?xs)) = m"
    by (intro fmap_ext) (simp add: fmlookup_of_list)
  then show ?thesis by (simp add: parseMetadataJSON_def u)
qed

text \<open>
  Numbers are decoded to \<^verbatim>\<open>float64\<close>: integers above \<open>2 ^ 53\<close> that differ can have the same
  canonical form.
\<close>

lemma round_odd: "f64_round s 9007199254740993 = Fin s 9007199254740992" "f64_round s 9007199254740992 = Fin s 9007199254740992"
proof -
  have "ilog2 9007199254740993 = 53" by (rule ilog2_eqI) (simp_all add: power_int_def)
  moreover have "\<lfloor>9007199254740993 / 2 :: rat\<rfloor> = 4503599627370496" by (simp add: floor_eq_iff)
  ultimately have "round_mag 9007199254740993 = 9007199254740992"
    by (simp add: round_mag_def quantum_def round_even_def power_int_def)
  then show "f64_round s 9007199254740993 = Fin s 9007199254740992" by (simp add: f64_round_def power_int_def)
  show "f64_round s 9007199254740992 = Fin s 9007199254740992" using f64_round_nat [of "2 ^ 53" s] by simp
qed

end
