(* ===== verification/AIState.thy ===== *)
theory AIState
  imports Dispatch Consolidate Extract Keys Analytics
begin

text \<open>
  What the commands for language-model applications see beyond \<open>Session\<close>: the shared caches and
  stores of \<^verbatim>\<open>client.go\<close>'s \<^verbatim>\<open>Deps\<close>, the instrumented providers
  (\<^verbatim>\<open>observability/embed_instrument.go\<close>, \<^verbatim>\<open>completion_instrument.go\<close>, \<^verbatim>\<open>embed/provider.go\<close>),
  the mock completion provider (\<^verbatim>\<open>llm/mock.go\<close>), and the error texts of these commands.

  \<open>services\<close> is what one call meets outside the program: the outcomes of an embedding and of a
  completion, random bytes, the order in which a traversal iterates the edges, and a later reading of
  the clock. The state holds one for every call, as \<open>dEnv\<close> does for the clock and the map order.
\<close>

section \<open>State\<close>

record services =
  svEmbed :: "string \<Rightarrow> string + vec \<times> int" \<comment> \<open>an error, or the vector and the tokens reported\<close>
  svComplete :: "string \<Rightarrow> string \<Rightarrow> string + string \<times> int"
  svRand :: "string + nat list"
  svEdges :: "int \<Rightarrow> edgeKey list \<Rightarrow> edgeKey list"
  svLater :: instant

record AIState =
  aSemantic :: SemanticCache
  aPrompt :: PromptCache
  aTool :: ToolCache
  aVector :: vectorStore
  aMemory :: MemoryStore
  aGraph :: graphStore
  aTracker :: Tracker
  aServices :: "nat \<Rightarrow> services"
  aUsage :: bool \<comment> \<open>whether the embedding provider reports tokens\<close>
  aEmbedName :: string
  aCompleteName :: string
  aUni :: "string \<Rightarrow> string list" \<comment> \<open>the fields of a text that is not ASCII\<close>
  aQuote :: "string \<Rightarrow> string" \<comment> \<open>\<^verbatim>\<open>strconv.Quote\<close> of a text that is not ASCII\<close>
  aZone :: "instant \<Rightarrow> int" \<comment> \<open>the local time zone: seconds east of UTC\<close>

type_synonym 'a aicmd = "(AIState, 'a) cmd"
type_synonym AIHandler = "AIState HandlerFunc"

text \<open>A call into the stores meets the next environment and the next services.\<close>

definition ai :: "(goenv \<Rightarrow> services \<Rightarrow> AIState \<Rightarrow> 'a \<times> AIState) \<Rightarrow> 'a aicmd"
  where "ai f = State (\<lambda>se.
    let d = deps se; n = dCalls d
    in case f (dEnv d n) (aServices (dExt d) n) (dExt d) of
         (r, x) \<Rightarrow> (r, se\<lparr>deps := d\<lparr>dExt := x, dCalls := Suc n\<rparr>\<rparr>))"

definition meter :: "(Metrics \<Rightarrow> Metrics) \<Rightarrow> ('x, unit) cmd"
  where "meter f = State (\<lambda>se. ((), se\<lparr>deps := (deps se)\<lparr>dMetrics := f (dMetrics (deps se))\<rparr>\<rparr>))"

definition track :: "(Tracker \<Rightarrow> Tracker) \<Rightarrow> unit aicmd"
  where "track f = ai (\<lambda>env sv x. ((), x\<lparr>aTracker := f (aTracker x)\<rparr>))"

abbreviation ext_of :: "(AIState \<Rightarrow> 'a) \<Rightarrow> 'a aicmd" where "ext_of f \<equiv> asks (\<lambda>se. f (dExt (deps se)))"

section \<open>Providers\<close>

definition instrumented_Embed :: "string \<Rightarrow> (string + vec) aicmd"
  where "instrumented_Embed text = do {
    meter EmbeddingCallStarted;
    r \<leftarrow> ai (\<lambda>env sv x. (svEmbed sv text, x));
    meter (EmbeddingCallFinished (isl r));
    ret (map_sum (\<lambda>e. e) fst r)
  }"

definition EmbedBatchWithUsage :: "string \<Rightarrow> (string + vec) aicmd" \<comment> \<open>for one text\<close>
  where "EmbedBatchWithUsage text = do {
    meter EmbeddingCallStarted;
    r \<leftarrow> ai (\<lambda>env sv x. (svEmbed sv text, x));
    meter (EmbeddingCallFinished (isl r));
    name \<leftarrow> ext_of aEmbedName;
    (case r of
       Inl err \<Rightarrow> ret (Inl err)
     | Inr (v, ntok) \<Rightarrow> do {
         (if ntok > 0 then track (RecordEmbeddingUsage name ntok) else ret ());
         ret (Inr v)
       })
  }"

definition EmbedOne :: "string \<Rightarrow> (string + vec) aicmd"
  where "EmbedOne text = do {
    usage \<leftarrow> ext_of aUsage;
    (if usage then EmbedBatchWithUsage text else instrumented_Embed text)
  }"

definition Complete :: "string \<Rightarrow> string \<Rightarrow> (string + string) aicmd"
  where "Complete systemPrompt userPrompt = do {
    meter CompletionCallStarted;
    r \<leftarrow> ai (\<lambda>env sv x. (svComplete sv systemPrompt userPrompt, x));
    meter (CompletionCallFinished (isl r));
    name \<leftarrow> ext_of aCompleteName;
    (case r of
       Inl err \<Rightarrow> ret (Inl err)
     | Inr (out, ntok) \<Rightarrow> do {
         (if ntok > 0 then track (RecordCompletionUsage name ntok) else ret ());
         ret (Inr out)
       })
  }"

text \<open>The mock completion provider: the prompt, cut after 200 runes, behind a prefix.\<close>

definition mockEchoLimit :: nat where "mockEchoLimit = 200"

definition mockPrefix :: string where "mockPrefix = ''[mock completion, no real generation] ''"

function runesOf :: "nat list \<Rightarrow> nat list" where \<comment> \<open>\<^verbatim>\<open>[]rune(s)\<close>\<close>
  "runesOf [] = []"
| "runesOf (b # bs) = (case decodeRune b bs of (r, n) \<Rightarrow> r # runesOf (drop n bs))"
  by pat_completeness auto
termination by (relation "measure length") auto

definition truncate :: "string \<Rightarrow> nat \<Rightarrow> string"
  where "truncate s n =
    (let r = runesOf (bytesOf s)
     in if length r \<le> n then s else str (concat (map encodeRune (take n r))) @ ''...'')"

definition mock_Complete :: "string \<Rightarrow> string \<Rightarrow> string + string \<times> int"
  where "mock_Complete systemPrompt userPrompt = Inr (mockPrefix @ truncate userPrompt mockEchoLimit, 0)"

section \<open>Errors\<close>

definition ErrInvalidJSONMsg :: string where "ErrInvalidJSONMsg = ''ERR invalid variables JSON''"
definition ErrCostNegativeMsg :: string where "ErrCostNegativeMsg = ''ERR COST must be a non-negative float''"
definition ErrInvalidToolArgsJSONMsg :: string where "ErrInvalidToolArgsJSONMsg = ''ERR invalid args JSON''"
definition ErrInvalidVectorJSONMsg :: string where "ErrInvalidVectorJSONMsg = ''ERR invalid vector JSON''"
definition ErrInvalidMetadataJSONMsg :: string where "ErrInvalidMetadataJSONMsg = ''ERR invalid metadata JSON''"
definition ErrNoSuchMemoryMsg :: string where "ErrNoSuchMemoryMsg = ''ERR no such memory''"

definition quoteChar :: "char \<Rightarrow> string" \<comment> \<open>\<^verbatim>\<open>strconv.Quote\<close> on ASCII\<close>
  where "quoteChar c =
    (let b = byte c; bs = CHR 0x5C in
     if b = 34 \<or> b = 92 then [bs, c]
     else if b = 7 then [bs, CHR ''a''] else if b = 8 then [bs, CHR ''b''] else if b = 12 then [bs, CHR ''f'']
     else if b = 10 then [bs, CHR ''n''] else if b = 13 then [bs, CHR ''r''] else if b = 9 then [bs, CHR ''t'']
     else if b = 11 then [bs, CHR ''v'']
     else if b < 32 \<or> b = 127 then [bs, CHR ''x''] @ hex_encode [b]
     else [c])"

definition ErrWorkspaceNotAuthorized :: "(string \<Rightarrow> string) \<Rightarrow> string \<Rightarrow> string"
  where "ErrWorkspaceNotAuthorized uquote w =
    ''NOPERM this connection is not authorized for workspace '' @
    (if list_all (\<lambda>c. byte c < 128) w then dq @ concat (map quoteChar w) @ dq else uquote w)"

text \<open>The guard at the start of the commands with a workspace argument.\<close>

definition authorized :: "string \<Rightarrow> Reply aicmd \<Rightarrow> Reply aicmd"
  where "authorized w m = do {
    ok \<leftarrow> asks (\<lambda>se. authorizedForWorkspace se w);
    uq \<leftarrow> ext_of aQuote;
    (if \<not> ok then ret (Err (ErrWorkspaceNotAuthorized uq w)) else m)
  }"

section \<open>Dates\<close>

definition twoDigits :: "int \<Rightarrow> string" where "twoDigits n = (if n < 10 then ''0'' else []) @ Itoa n"

definition fourDigits :: "int \<Rightarrow> string"
  where "fourDigits n = (let s = Itoa n in replicate (4 - length s) (CHR ''0'') @ s)"

text \<open>Days since the epoch to the date, in eras of 400 years that begin in March.\<close>

definition civil :: "int \<Rightarrow> int \<times> int \<times> int"
  where "civil days =
    (let z = days + 719468; era = z div 146097; doe = z mod 146097;
         yoe = (doe - doe div 1460 + doe div 36524 - doe div 146096) div 365;
         doy = doe - (365 * yoe + yoe div 4 - yoe div 100);
         mp = (5 * doy + 2) div 153; d = doy - (153 * mp + 2) div 5 + 1;
         m = (if mp < 10 then mp + 3 else mp - 9)
     in (yoe + era * 400 + (if m \<le> 2 then 1 else 0), m, d))"

definition RFC3339 :: "int \<Rightarrow> instant \<Rightarrow> string" \<comment> \<open>\<^verbatim>\<open>t.Format(time.RFC3339)\<close> at an offset from UTC\<close>
  where "RFC3339 zone t =
    (let secs = t div Second + zone; sod = secs mod 86400; z = quot zone 60 in
     case civil (secs div 86400) of
       (y, m, d) \<Rightarrow>
         fourDigits y @ ''-'' @ twoDigits m @ ''-'' @ twoDigits d @ ''T'' @
         twoDigits (sod div 3600) @ '':'' @ twoDigits (sod div 60 mod 60) @ '':'' @ twoDigits (sod mod 60) @
         (if zone = 0 then ''Z''
          else (if z < 0 then ''-'' else ''+'') @ twoDigits (\<bar>z\<bar> div 60) @ '':'' @ twoDigits (\<bar>z\<bar> mod 60)))"

end
