(* ===== verification/AIHandlers.thy ===== *)
theory AIHandlers
  imports AIState
begin

text \<open>
  The handlers of the commands for language-model applications (\<^verbatim>\<open>handlers_semantic.go\<close>,
  \<^verbatim>\<open>handlers_toolcache.go\<close>, \<^verbatim>\<open>handlers_vector.go\<close>, \<^verbatim>\<open>handlers_memory.go\<close>,
  \<^verbatim>\<open>handlers_agent.go\<close>, \<^verbatim>\<open>handlers_consolidate.go\<close>, \<^verbatim>\<open>handlers_graph.go\<close>) and
  \<open>aiHandler\<close>, the instance of the dispatcher's parameter \<open>ext\<close> that they make.
\<close>

section \<open>Shared argument parsing\<close>

definition ttlArg :: "string \<Rightarrow> duration option" \<comment> \<open>seconds; the product wraps at 64 bits\<close>
  where "ttlArg s =
    (case ParseInt s of None \<Rightarrow> None | Some secs \<Rightarrow> Some (if secs > 0 then int64 (secs * Second) else 0))"

definition parseCostArg :: "string \<Rightarrow> string + float64"
  where "parseCostArg s =
    (case ParseFloat s of
       None \<Rightarrow> Inl ErrNotFloatMsg
     | Some v \<Rightarrow> if f64_lt v f64_zero then Inl ErrCostNegativeMsg else Inr v)"

section \<open>Calls into the stores\<close>

definition semanticSetCmd :: "string \<Rightarrow> string \<Rightarrow> string \<Rightarrow> string \<Rightarrow> duration \<Rightarrow> float64 \<Rightarrow> (string + unit) aicmd"
  where "semanticSetCmd prompt model temp response ttl cost = do {
    v \<leftarrow> EmbedOne prompt;
    ai (\<lambda>env sv x. case semantic_Set (now env) (\<lambda>_. v) prompt model temp response ttl cost (aSemantic x) of
          (r, c) \<Rightarrow> (r, x\<lparr>aSemantic := c\<rparr>))
  }"

definition semanticGetCmd :: "string \<Rightarrow> string \<Rightarrow> string \<Rightarrow> float64 \<Rightarrow> (string + (string \<times> float64) option) aicmd"
  where "semanticGetCmd prompt model temp threshold = do {
    v \<leftarrow> EmbedOne prompt;
    ai (\<lambda>env sv x. case semantic_Get (now env) (\<lambda>_. v) prompt model temp threshold (aSemantic x) of
          (r, c) \<Rightarrow> (r, x\<lparr>aSemantic := c\<rparr>))
  }"

definition promptSetCmd :: "string \<Rightarrow> string \<Rightarrow> duration \<Rightarrow> float64 \<Rightarrow> unit aicmd"
  where "promptSetCmd key response ttl cost =
    ai (\<lambda>env sv x. ((), x\<lparr>aPrompt := PromptCache_Set (now env) key response ttl cost (aPrompt x)\<rparr>))"

definition promptGetCmd :: "string \<Rightarrow> (string \<times> float64) option aicmd"
  where "promptGetCmd key =
    ai (\<lambda>env sv x. case PromptCache_Get (now env) key (aPrompt x) of (r, p) \<Rightarrow> (r, x\<lparr>aPrompt := p\<rparr>))"

definition toolSetCmd :: "string \<Rightarrow> string \<Rightarrow> duration \<Rightarrow> unit aicmd"
  where "toolSetCmd key result ttl =
    ai (\<lambda>env sv x. ((), x\<lparr>aTool := ToolCache_Set (now env) key result ttl (aTool x)\<rparr>))"

definition toolGetCmd :: "string \<Rightarrow> string option aicmd"
  where "toolGetCmd key =
    ai (\<lambda>env sv x. case ToolCache_Get (now env) (svLater sv) key (aTool x) of (r, c) \<Rightarrow> (r, x\<lparr>aTool := c\<rparr>))"

definition vectorUpsertCmd :: "string \<Rightarrow> string \<Rightarrow> vec \<Rightarrow> (string, string) fmap \<Rightarrow> string \<Rightarrow> unit aicmd"
  where "vectorUpsertCmd w i v metadata txt = ai (\<lambda>env sv x. ((), x\<lparr>aVector := vector_Upsert w i v metadata txt (aVector x)\<rparr>))"

definition vectorSearchCmd :: "string \<Rightarrow> vec \<Rightarrow> int \<Rightarrow> DistanceMetric \<Rightarrow> (string, string) fmap \<Rightarrow> HybridOpts option \<Rightarrow> Result list aicmd"
  where "vectorSearchCmd w v k metric flt hybrid =
    ai (\<lambda>env sv x. (vector_Search env (aUni x) w v k metric flt hybrid (aVector x), x))"

definition vectorDeleteCmd :: "string \<Rightarrow> string \<Rightarrow> bool aicmd"
  where "vectorDeleteCmd w i =
    ai (\<lambda>env sv x. case vector_Delete w i (aVector x) of (b, v) \<Rightarrow> (b, x\<lparr>aVector := v\<rparr>))"

definition putMemory :: "Memory \<Rightarrow> duration \<Rightarrow> (string + string) aicmd"
  where "putMemory m ttl = do {
    v \<leftarrow> (if mWorkspaceID m = [] then ret (Inr []) else EmbedOne (mContent m));
    ai (\<lambda>env sv x. case memory_Put (now env) (\<lambda>_. v) (svRand sv) m ttl (aMemory x) of (r, s) \<Rightarrow> (r, x\<lparr>aMemory := s\<rparr>))
  }"

definition getMemory :: "string \<Rightarrow> string \<Rightarrow> Memory option aicmd"
  where "getMemory w i = ai (\<lambda>env sv x. case memory_Get (now env) w i (aMemory x) of (r, s) \<Rightarrow> (r, x\<lparr>aMemory := s\<rparr>))"

definition searchMemory :: "string \<Rightarrow> string \<Rightarrow> SearchOptions \<Rightarrow> (string + Result list) aicmd"
  where "searchMemory w query opts = do {
    v \<leftarrow> EmbedOne query;
    ai (\<lambda>env sv x. case memory_Search env (\<lambda>_. v) w query opts (aMemory x) of (r, s) \<Rightarrow> (r, x\<lparr>aMemory := s\<rparr>))
  }"

definition memoryHistoryCmd :: "string \<Rightarrow> string \<Rightarrow> Memory list aicmd"
  where "memoryHistoryCmd w i =
    ai (\<lambda>env sv x. case memory_History (now env) w i (aMemory x) of (r, s) \<Rightarrow> (r, x\<lparr>aMemory := s\<rparr>))"

definition extractCmd :: "string \<Rightarrow> Memory \<Rightarrow> (string + int \<times> int) aicmd"
  where "extractCmd w mem = do {
    c \<leftarrow> Complete extractSystemPrompt (mContent mem);
    ai (\<lambda>env sv x. case Extract c w (mID mem) (aGraph x) of (e, g) \<Rightarrow> (e, x\<lparr>aGraph := g\<rparr>))
  }"

definition relatedCmd :: "string \<Rightarrow> string \<Rightarrow> int \<Rightarrow> RelatedNode list aicmd"
  where "relatedCmd w i hops = ai (\<lambda>env sv x. (Related (svEdges sv) w i hops (aGraph x), x))"

section \<open>CACHE.SEMANTIC\<close>

record semOpts =
  smModel :: string
  smTemp :: string
  smTTL :: duration
  smCost :: float64
  smThreshold :: float64

definition semDefaults :: semOpts
  where "semDefaults =
    \<lparr>smModel = ''default'', smTemp = ''0'', smTTL = 0, smCost = f64_zero, smThreshold = f64_of_rat (85 / 100)\<rparr>"

fun semanticSetOpts :: "string list \<Rightarrow> semOpts \<Rightarrow> string + semOpts" where
  "semanticSetOpts [] p = Inr p"
| "semanticSetOpts [_] p = Inl ErrSyntaxMsg"
| "semanticSetOpts (k # v # rest) p =
    (let u = to_upper k in
     if u = ''MODEL'' then semanticSetOpts rest (p\<lparr>smModel := v\<rparr>)
     else if u = ''TEMP'' then
       (case ParseFloat v of None \<Rightarrow> Inl ErrNotFloatMsg | Some _ \<Rightarrow> semanticSetOpts rest (p\<lparr>smTemp := v\<rparr>))
     else if u = ''TTL'' then
       (case ttlArg v of None \<Rightarrow> Inl ErrNotIntegerMsg | Some ttl \<Rightarrow> semanticSetOpts rest (p\<lparr>smTTL := ttl\<rparr>))
     else if u = ''COST'' then
       (case parseCostArg v of Inl err \<Rightarrow> Inl err | Inr c \<Rightarrow> semanticSetOpts rest (p\<lparr>smCost := c\<rparr>))
     else Inl ErrSyntaxMsg)"

fun semanticGetOpts :: "string list \<Rightarrow> semOpts \<Rightarrow> string + semOpts" where
  "semanticGetOpts [] p = Inr p"
| "semanticGetOpts [_] p = Inl ErrSyntaxMsg"
| "semanticGetOpts (k # v # rest) p =
    (let u = to_upper k in
     if u = ''MODEL'' then semanticGetOpts rest (p\<lparr>smModel := v\<rparr>)
     else if u = ''TEMP'' then
       (case ParseFloat v of None \<Rightarrow> Inl ErrNotFloatMsg | Some _ \<Rightarrow> semanticGetOpts rest (p\<lparr>smTemp := v\<rparr>))
     else if u = ''THRESHOLD'' then
       (case ParseFloat v of None \<Rightarrow> Inl ErrNotFloatMsg | Some t \<Rightarrow> semanticGetOpts rest (p\<lparr>smThreshold := t\<rparr>))
     else Inl ErrSyntaxMsg)"

definition handleCacheSemanticSet :: AIHandler
  where "handleCacheSemanticSet args =
    (if length args < 4 then ret (Err (ErrWrongNumberOfArgs ''cache.semantic''))
     else
       (case semanticSetOpts (drop 4 args) semDefaults of
          Inl msg \<Rightarrow> ret (Err msg)
        | Inr p \<Rightarrow> do {
            r \<leftarrow> semanticSetCmd (args ! 2) (smModel p) (smTemp p) (args ! 3) (smTTL p) (smCost p);
            ret (case r of Inl err \<Rightarrow> Err (''ERR '' @ err) | Inr _ \<Rightarrow> OK)
          }))"

definition handleCacheSemanticGet :: AIHandler
  where "handleCacheSemanticGet args =
    (if length args < 3 then ret (Err (ErrWrongNumberOfArgs ''cache.semantic''))
     else
       (case semanticGetOpts (drop 3 args) semDefaults of
          Inl msg \<Rightarrow> ret (Err msg)
        | Inr p \<Rightarrow> do {
            r \<leftarrow> semanticGetCmd (args ! 2) (smModel p) (smTemp p) (smThreshold p);
            (case r of
               Inl err \<Rightarrow> ret (Err (''ERR '' @ err))
             | Inr None \<Rightarrow> do { meter SemanticCacheMiss; ret NullBulk }
             | Inr (Some (response, cost)) \<Rightarrow> do {
                 meter SemanticCacheHit;
                 (if f64_lt f64_zero cost then track (RecordCacheHitSavings ''semantic'' (args ! 2) cost) else ret ());
                 ret (BulkString response)
               })
          }))"

definition handleCacheSemantic :: AIHandler
  where "handleCacheSemantic args =
    (if to_upper (args ! 1) = ''SET'' then handleCacheSemanticSet args
     else if to_upper (args ! 1) = ''GET'' then handleCacheSemanticGet args
     else ret (Err ErrSyntaxMsg))"

section \<open>CACHE.PROMPT\<close>

fun promptSetOpts :: "string list \<Rightarrow> duration \<Rightarrow> float64 \<Rightarrow> string + duration \<times> float64" where
  "promptSetOpts [] ttl cost = Inr (ttl, cost)"
| "promptSetOpts [_] ttl cost = Inl ErrSyntaxMsg"
| "promptSetOpts (k # v # rest) ttl cost =
    (let u = to_upper k in
     if u = ''TTL'' then
       (case ttlArg v of None \<Rightarrow> Inl ErrNotIntegerMsg | Some t \<Rightarrow> promptSetOpts rest t cost)
     else if u = ''COST'' then
       (case parseCostArg v of Inl err \<Rightarrow> Inl err | Inr c \<Rightarrow> promptSetOpts rest ttl c)
     else Inl ErrSyntaxMsg)"

definition handleCachePromptSet :: AIHandler
  where "handleCachePromptSet args =
    (if length args < 6 then ret (Err (ErrWrongNumberOfArgs ''cache.prompt''))
     else
       (case promptSetOpts (drop 6 args) 0 f64_zero of
          Inl msg \<Rightarrow> ret (Err msg)
        | Inr (ttl, cost) \<Rightarrow>
            (case TemplateKey (args ! 2) (args ! 3) (args ! 4) of
               None \<Rightarrow> ret (Err ErrInvalidJSONMsg)
             | Some key \<Rightarrow> do {
                 promptSetCmd key (args ! 5) ttl cost;
                 ret OK
               })))"

definition handleCachePromptGet :: AIHandler
  where "handleCachePromptGet args =
    (if length args \<noteq> 5 then ret (Err (ErrWrongNumberOfArgs ''cache.prompt''))
     else
       (case TemplateKey (args ! 2) (args ! 3) (args ! 4) of
          None \<Rightarrow> ret (Err ErrInvalidJSONMsg)
        | Some key \<Rightarrow> do {
            r \<leftarrow> promptGetCmd key;
            (case r of
               None \<Rightarrow> do { meter PromptCacheMiss; ret NullBulk }
             | Some (response, cost) \<Rightarrow> do {
                 meter PromptCacheHit;
                 (if f64_lt f64_zero cost then track (RecordCacheHitSavings ''prompt'' (args ! 2) cost) else ret ());
                 ret (BulkString response)
               })
          }))"

definition handleCachePrompt :: AIHandler
  where "handleCachePrompt args =
    (if to_upper (args ! 1) = ''SET'' then handleCachePromptSet args
     else if to_upper (args ! 1) = ''GET'' then handleCachePromptGet args
     else ret (Err ErrSyntaxMsg))"

section \<open>TOOL.CACHE\<close>

fun toolSetOpts :: "string list \<Rightarrow> duration \<Rightarrow> string + duration" where
  "toolSetOpts [] ttl = Inr ttl"
| "toolSetOpts [_] ttl = Inl ErrSyntaxMsg"
| "toolSetOpts (k # v # rest) ttl =
    (if to_upper k = ''TTL''
     then (case ttlArg v of None \<Rightarrow> Inl ErrNotIntegerMsg | Some t \<Rightarrow> toolSetOpts rest t)
     else Inl ErrSyntaxMsg)"

definition handleToolCacheSet :: AIHandler
  where "handleToolCacheSet args =
    (if length args < 5 then ret (Err (ErrWrongNumberOfArgs ''tool.cache''))
     else
       (case toolSetOpts (drop 5 args) 0 of
          Inl msg \<Rightarrow> ret (Err msg)
        | Inr ttl \<Rightarrow>
            (case ToolKey (args ! 2) (args ! 3) of
               None \<Rightarrow> ret (Err ErrInvalidToolArgsJSONMsg)
             | Some key \<Rightarrow> do {
                 toolSetCmd key (args ! 4) ttl;
                 ret OK
               })))"

definition handleToolCacheGet :: AIHandler
  where "handleToolCacheGet args =
    (if length args \<noteq> 4 then ret (Err (ErrWrongNumberOfArgs ''tool.cache''))
     else
       (case ToolKey (args ! 2) (args ! 3) of
          None \<Rightarrow> ret (Err ErrInvalidToolArgsJSONMsg)
        | Some key \<Rightarrow> do {
            r \<leftarrow> toolGetCmd key;
            (case r of
               None \<Rightarrow> do { meter ToolCacheMiss; ret NullBulk }
             | Some result \<Rightarrow> do { meter ToolCacheHit; ret (BulkString result) })
          }))"

definition handleToolCache :: AIHandler
  where "handleToolCache args =
    (if to_upper (args ! 1) = ''SET'' then handleToolCacheSet args
     else if to_upper (args ! 1) = ''GET'' then handleToolCacheGet args
     else ret (Err ErrSyntaxMsg))"

section \<open>Vectors\<close>

definition parseMetric :: "string \<Rightarrow> DistanceMetric option"
  where "parseMetric s =
    (let u = to_upper s in
     if u = ''COSINE'' then Some MCosine else if u = ''DOT'' then Some MDot
     else if u = ''EUCLIDEAN'' then Some MEuclidean else None)"

fun upsertOpts :: "string list \<Rightarrow> (string, string) fmap \<Rightarrow> string \<Rightarrow> string + (string, string) fmap \<times> string" where
  "upsertOpts [] metadata txt = Inr (metadata, txt)"
| "upsertOpts (k # rest) metadata txt =
    (let u = to_upper k in
     if u = ''METADATA'' then
       (case rest of
          [] \<Rightarrow> Inl ErrSyntaxMsg
        | v # rest' \<Rightarrow>
            (case parseMetadataJSON v of
               None \<Rightarrow> Inl ErrInvalidMetadataJSONMsg | Some m \<Rightarrow> upsertOpts rest' m txt))
     else if u = ''TEXT'' then (case rest of [] \<Rightarrow> Inl ErrSyntaxMsg | v # rest' \<Rightarrow> upsertOpts rest' metadata v)
     else Inl ErrSyntaxMsg)"

definition handleVectorUpsert :: AIHandler
  where "handleVectorUpsert args =
    authorized (args ! 1)
      (case parseVectorJSON (args ! 3) of
         None \<Rightarrow> ret (Err ErrInvalidVectorJSONMsg)
       | Some v \<Rightarrow>
           (case upsertOpts (drop 4 args) fmempty [] of
              Inl msg \<Rightarrow> ret (Err msg)
            | Inr (metadata, txt) \<Rightarrow> do {
                vectorUpsertCmd (args ! 1) (args ! 2) v metadata txt;
                ret OK
              }))"

record vsOpts =
  vsK :: int
  vsMetric :: DistanceMetric
  vsFilter :: "(string, string) fmap"
  vsHybrid :: "HybridOpts option"
  vsScores :: bool

definition vsDefaults :: vsOpts
  where "vsDefaults = \<lparr>vsK = 10, vsMetric = MCosine, vsFilter = fmempty, vsHybrid = None, vsScores = False\<rparr>"

fun vectorSearchOpts :: "string list \<Rightarrow> vsOpts \<Rightarrow> string + vsOpts" where
  "vectorSearchOpts [] p = Inr p"
| "vectorSearchOpts (k # rest) p =
    (let u = to_upper k in
     if u = ''K'' then
       (case rest of
          [] \<Rightarrow> Inl ErrSyntaxMsg
        | n # rest' \<Rightarrow>
            (case Atoi n of None \<Rightarrow> Inl ErrNotIntegerMsg | Some i \<Rightarrow> vectorSearchOpts rest' (p\<lparr>vsK := i\<rparr>)))
     else if u = ''METRIC'' then
       (case rest of
          [] \<Rightarrow> Inl ErrSyntaxMsg
        | m # rest' \<Rightarrow>
            (case parseMetric m of None \<Rightarrow> Inl ErrSyntaxMsg | Some d \<Rightarrow> vectorSearchOpts rest' (p\<lparr>vsMetric := d\<rparr>)))
     else if u = ''FILTER'' then
       (case rest of
          a # b # rest' \<Rightarrow> vectorSearchOpts rest' (p\<lparr>vsFilter := fmupd a b (vsFilter p)\<rparr>)
        | _ \<Rightarrow> Inl ErrSyntaxMsg)
     else if u = ''HYBRID'' then
       (case rest of
          [] \<Rightarrow> Inl ErrSyntaxMsg
        | q # rest' \<Rightarrow>
            (case rest' of
               [] \<Rightarrow> Inr (p\<lparr>vsHybrid := Some \<lparr>QueryText = q, Alpha = Fin False (1 / 2)\<rparr>\<rparr>)
             | b # rest2 \<Rightarrow>
                 if to_upper b = ''ALPHA'' then
                   (case rest2 of
                      [] \<Rightarrow> Inl ErrSyntaxMsg
                    | a # rest3 \<Rightarrow>
                        (case ParseFloat a of
                           None \<Rightarrow> Inl ErrNotFloatMsg
                         | Some f \<Rightarrow> vectorSearchOpts rest3 (p\<lparr>vsHybrid := Some \<lparr>QueryText = q, Alpha = f\<rparr>\<rparr>)))
                 else vectorSearchOpts rest' (p\<lparr>vsHybrid := Some \<lparr>QueryText = q, Alpha = Fin False (1 / 2)\<rparr>\<rparr>)))
     else if u = ''WITHSCORES'' then vectorSearchOpts rest (p\<lparr>vsScores := True\<rparr>)
     else Inl ErrSyntaxMsg)"

definition resultsReply :: "bool \<Rightarrow> Result list \<Rightarrow> Reply"
  where "resultsReply withScores results =
    ArraySlice (concat (map (\<lambda>r. BulkString (rID r) #
      (if withScores then [BulkString (formatFloat (rScore r))] else [])) results))"

definition handleVectorSearch :: AIHandler
  where "handleVectorSearch args =
    authorized (args ! 1)
      (case parseVectorJSON (args ! 2) of
         None \<Rightarrow> ret (Err ErrInvalidVectorJSONMsg)
       | Some v \<Rightarrow>
           (case vectorSearchOpts (drop 3 args) vsDefaults of
              Inl msg \<Rightarrow> ret (Err msg)
            | Inr p \<Rightarrow> do {
                results \<leftarrow> vectorSearchCmd (args ! 1) v (vsK p) (vsMetric p) (vsFilter p) (vsHybrid p);
                meter VectorSearchPerformed;
                ret (resultsReply (vsScores p) results)
              }))"

definition handleVectorDelete :: AIHandler
  where "handleVectorDelete args =
    authorized (args ! 1) (do {
      found \<leftarrow> vectorDeleteCmd (args ! 1) (args ! 2);
      ret (Integer (if found then 1 else 0))
    })"

section \<open>Memory\<close>

record putOpts =
  poID :: string
  poWorkspace :: string
  poKind :: MemKind
  poMetadata :: "(string, string) fmap"
  poTTL :: duration

definition putDefaults :: putOpts
  where "putDefaults = \<lparr>poID = [], poWorkspace = ''default'', poKind = LongTerm, poMetadata = fmempty, poTTL = 0\<rparr>"

fun memoryPutOpts :: "bool \<Rightarrow> string list \<Rightarrow> putOpts \<Rightarrow> string + putOpts" where \<comment> \<open>with or without the option ID\<close>
  "memoryPutOpts withID [] p = Inr p"
| "memoryPutOpts withID [_] p = Inl ErrSyntaxMsg"
| "memoryPutOpts withID (k # v # rest) p =
    (let u = to_upper k in
     if withID \<and> u = ''ID'' then memoryPutOpts withID rest (p\<lparr>poID := v\<rparr>)
     else if u = ''WORKSPACE'' then memoryPutOpts withID rest (p\<lparr>poWorkspace := v\<rparr>)
     else if u = ''KIND'' then
       (case ParseKind v of None \<Rightarrow> Inl ErrSyntaxMsg | Some kd \<Rightarrow> memoryPutOpts withID rest (p\<lparr>poKind := kd\<rparr>))
     else if u = ''METADATA'' then
       (case parseMetadataJSON v of
          None \<Rightarrow> Inl ErrInvalidMetadataJSONMsg | Some m \<Rightarrow> memoryPutOpts withID rest (p\<lparr>poMetadata := m\<rparr>))
     else if u = ''TTL'' then
       (case ttlArg v of None \<Rightarrow> Inl ErrNotIntegerMsg | Some ttl \<Rightarrow> memoryPutOpts withID rest (p\<lparr>poTTL := ttl\<rparr>))
     else Inl ErrSyntaxMsg)"

definition argMemory :: "string \<Rightarrow> string \<Rightarrow> putOpts \<Rightarrow> Memory"
  where "argMemory agent txt p =
    \<lparr>mID = poID p, mAgentID = agent, mWorkspaceID = poWorkspace p, mKind = poKind p, mContent = txt, mEmbedding = [],
     mMetadata = poMetadata p, mCreatedAt = zero_time, mVersion = 0, mExpiresAt = None\<rparr>"

definition storeMemory :: "bool \<Rightarrow> AIHandler" \<comment> \<open>the common body of MEMORY.PUT and AGENT.REMEMBER\<close>
  where "storeMemory withID args =
    (case memoryPutOpts withID (drop 3 args) putDefaults of
       Inl msg \<Rightarrow> ret (Err msg)
     | Inr p \<Rightarrow>
         authorized (poWorkspace p) (do {
           r \<leftarrow> putMemory (argMemory (args ! 1) (args ! 2) p) (poTTL p);
           (case r of
              Inl err \<Rightarrow> ret (Err (''ERR '' @ err))
            | Inr storedID \<Rightarrow> do { meter MemoryWrite; ret (BulkString storedID) })
         }))"

definition handleMemoryPut :: AIHandler where "handleMemoryPut args = storeMemory True args"

definition memoryFieldsReply :: "(instant \<Rightarrow> int) \<Rightarrow> Memory \<Rightarrow> Reply list"
  where "memoryFieldsReply zone m =
    [BulkString ''id'', BulkString (mID m),
     BulkString ''agent_id'', BulkString (mAgentID m),
     BulkString ''kind'', BulkString (MemKind_String (mKind m)),
     BulkString ''content'', BulkString (mContent m),
     BulkString ''metadata'', BulkString (MarshalStringMap (mMetadata m)),
     BulkString ''created_at'', BulkString (RFC3339 (zone (mCreatedAt m)) (mCreatedAt m)),
     BulkString ''version'', BulkString (Itoa (mVersion m))]"

definition handleMemoryGet :: AIHandler
  where "handleMemoryGet args =
    authorized (args ! 1) (do {
      r \<leftarrow> getMemory (args ! 1) (args ! 2);
      meter MemoryRead;
      zone \<leftarrow> ext_of aZone;
      ret (case r of None \<Rightarrow> NullArray | Some m \<Rightarrow> ArraySlice (memoryFieldsReply zone m))
    })"

record findOpts =
  foScope :: string \<comment> \<open>the option AGENT of MEMORY.SEARCH, WORKSPACE of AGENT.RECALL\<close>
  foKind :: "MemKind option"
  foK :: int
  foThreshold :: "float64 option"
  foScores :: bool

fun memorySearchOpts :: "string \<Rightarrow> string list \<Rightarrow> findOpts \<Rightarrow> string + findOpts" where
  "memorySearchOpts scope [] p = Inr p"
| "memorySearchOpts scope (k # rest) p =
    (let u = to_upper k in
     if u = scope then (case rest of [] \<Rightarrow> Inl ErrSyntaxMsg | v # rest' \<Rightarrow> memorySearchOpts scope rest' (p\<lparr>foScope := v\<rparr>))
     else if u = ''KIND'' then
       (case rest of
          [] \<Rightarrow> Inl ErrSyntaxMsg
        | v # rest' \<Rightarrow>
            (case ParseKind v of None \<Rightarrow> Inl ErrSyntaxMsg | Some kd \<Rightarrow> memorySearchOpts scope rest' (p\<lparr>foKind := Some kd\<rparr>)))
     else if u = ''K'' then
       (case rest of
          [] \<Rightarrow> Inl ErrSyntaxMsg
        | v # rest' \<Rightarrow>
            (case Atoi v of None \<Rightarrow> Inl ErrNotIntegerMsg | Some n \<Rightarrow> memorySearchOpts scope rest' (p\<lparr>foK := n\<rparr>)))
     else if u = ''THRESHOLD'' then
       (case rest of
          [] \<Rightarrow> Inl ErrSyntaxMsg
        | v # rest' \<Rightarrow>
            (case ParseFloat v of
               None \<Rightarrow> Inl ErrNotFloatMsg | Some t \<Rightarrow> memorySearchOpts scope rest' (p\<lparr>foThreshold := Some t\<rparr>)))
     else if u = ''WITHSCORES'' then memorySearchOpts scope rest (p\<lparr>foScores := True\<rparr>)
     else Inl ErrSyntaxMsg)"

definition findMemories :: "string \<Rightarrow> string \<Rightarrow> string \<Rightarrow> findOpts \<Rightarrow> Reply aicmd"
  where "findMemories w query agent p = do {
    r \<leftarrow> searchMemory w query \<lparr>soAgentID = agent, soKind = foKind p, soK = foK p, soThreshold = foThreshold p\<rparr>;
    (case r of
       Inl err \<Rightarrow> ret (Err (''ERR '' @ err))
     | Inr results \<Rightarrow> do { meter MemoryRead; ret (resultsReply (foScores p) results) })
  }"

definition handleMemorySearch :: AIHandler
  where "handleMemorySearch args =
    authorized (args ! 1)
      (case memorySearchOpts ''AGENT'' (drop 3 args)
              \<lparr>foScope = [], foKind = None, foK = 10, foThreshold = None, foScores = False\<rparr> of
         Inl msg \<Rightarrow> ret (Err msg)
       | Inr p \<Rightarrow> findMemories (args ! 1) (args ! 2) (foScope p) p)"

definition historyLimit :: "string list \<Rightarrow> string + int"
  where "historyLimit args =
    (if length args > 3 then
       (if length args \<noteq> 5 \<or> map upper_char (args ! 3) \<noteq> ''LIMIT'' then Inl ErrSyntaxMsg
        else (case Atoi (args ! 4) of None \<Rightarrow> Inl ErrNotIntegerMsg | Some n \<Rightarrow> Inr n))
     else Inr 0)"

definition mostRecent :: "int \<Rightarrow> Memory list \<Rightarrow> Memory list"
  where "mostRecent limit vs =
    (if limit > 0 \<and> int (length vs) > limit then drop (length vs - nat limit) vs else vs)"

definition handleMemoryHistory :: AIHandler
  where "handleMemoryHistory args =
    authorized (args ! 1)
      (case historyLimit args of
         Inl msg \<Rightarrow> ret (Err msg)
       | Inr limit \<Rightarrow> do {
           versions \<leftarrow> memoryHistoryCmd (args ! 1) (args ! 2);
           meter MemoryRead;
           zone \<leftarrow> ext_of aZone;
           (if versions = [] then ret NullArray
            else
              ret (ArraySlice (map (\<lambda>m. ArraySlice (memoryFieldsReply zone m)) (mostRecent limit versions))))
         })"

section \<open>Agents, summaries and the graph\<close>

definition handleAgentRemember :: AIHandler where "handleAgentRemember args = storeMemory False args"

definition handleAgentRecall :: AIHandler
  where "handleAgentRecall args =
    (case memorySearchOpts ''WORKSPACE'' (drop 3 args)
            \<lparr>foScope = ''default'', foKind = None, foK = 10, foThreshold = None, foScores = False\<rparr> of
       Inl msg \<Rightarrow> ret (Err msg)
     | Inr p \<Rightarrow> authorized (foScope p) (findMemories (foScope p) (args ! 2) (args ! 1) p))"

record sumOpts =
  suWorkspace :: string
  suKind :: MemKind
  suThreshold :: float64

fun summaryOpts :: "string list \<Rightarrow> sumOpts \<Rightarrow> string + sumOpts" where
  "summaryOpts [] p = Inr p"
| "summaryOpts [_] p = Inl ErrSyntaxMsg"
| "summaryOpts (k # v # rest) p =
    (let u = to_upper k in
     if u = ''WORKSPACE'' then summaryOpts rest (p\<lparr>suWorkspace := v\<rparr>)
     else if u = ''KIND'' then
       (case ParseKind v of None \<Rightarrow> Inl ErrSyntaxMsg | Some kd \<Rightarrow> summaryOpts rest (p\<lparr>suKind := kd\<rparr>))
     else if u = ''DEDUP_THRESHOLD'' then
       (case ParseFloat v of None \<Rightarrow> Inl ErrNotFloatMsg | Some t \<Rightarrow> summaryOpts rest (p\<lparr>suThreshold := t\<rparr>))
     else Inl ErrSyntaxMsg)"

text \<open>
  \<^verbatim>\<open>Consolidator.Consolidate\<close> calls the completion provider when there is something to summarise,
  and the embedding provider when that succeeded; the counters of both calls follow.
\<close>

definition noteComplete :: "string + string \<times> int \<Rightarrow> unit aicmd"
  where "noteComplete r = do {
    meter (CompletionCallFinished (isl r) \<circ> CompletionCallStarted);
    name \<leftarrow> ext_of aCompleteName;
    (case r of Inl _ \<Rightarrow> ret () | Inr (_, n) \<Rightarrow> if n > 0 then track (RecordCompletionUsage name n) else ret ())
  }"

definition noteEmbed :: "string + vec \<times> int \<Rightarrow> unit aicmd"
  where "noteEmbed r = do {
    meter (EmbeddingCallFinished (isl r) \<circ> EmbeddingCallStarted);
    usage \<leftarrow> ext_of aUsage;
    name \<leftarrow> ext_of aEmbedName;
    (case r of
       Inl _ \<Rightarrow> ret ()
     | Inr (_, n) \<Rightarrow> if usage \<and> n > 0 then track (RecordEmbeddingUsage name n) else ret ())
  }"

definition consolidateCmd :: "string \<Rightarrow> string \<Rightarrow> MemKind \<Rightarrow> float64 \<Rightarrow> (string + ConsolidateResult) aicmd"
  where "consolidateCmd w agent kind threshold = do {
    (r, llm, emb) \<leftarrow> ai (\<lambda>env sv x.
      let ms = fst (memory_List env w \<lparr>loAgentID = agent, loKind = Some kind\<rparr> (aMemory x));
          th = (if f64_le threshold f64_zero then DefaultDedupThreshold else threshold);
          llm = (if ms = [] then None else Some (svComplete sv summarySystemPrompt (userPromptOf (dedupe ms th))));
          emb = (case llm of Some (Inr (s, _)) \<Rightarrow> if w = [] then None else Some (svEmbed sv s) | _ \<Rightarrow> None)
      in case Consolidate env (svLater sv) (\<lambda>s. map_sum (\<lambda>e. e) fst (svEmbed sv s)) (svComplete sv) (svRand sv)
                w agent kind threshold (aMemory x) of
           (r, s) \<Rightarrow> ((r, llm, emb), x\<lparr>aMemory := s\<rparr>));
    (case llm of None \<Rightarrow> ret () | Some c \<Rightarrow> noteComplete c);
    (case emb of None \<Rightarrow> ret () | Some e \<Rightarrow> noteEmbed e);
    ret r
  }"

definition handleSummaryCreate :: AIHandler
  where "handleSummaryCreate args =
    (case summaryOpts (drop 2 args) \<lparr>suWorkspace = ''default'', suKind = Episodic, suThreshold = f64_zero\<rparr> of
       Inl msg \<Rightarrow> ret (Err msg)
     | Inr p \<Rightarrow> do {
         r \<leftarrow> consolidateCmd (suWorkspace p) (args ! 1) (suKind p) (suThreshold p);
         (case r of
            Inl err \<Rightarrow> ret (Err (''ERR '' @ err))
          | Inr result \<Rightarrow> do {
              meter ConsolidationPerformed;
              meter (MemoriesDeduped (int64 (SourceCount result - DedupedCount result)));
              ret (if SourceCount result = 0 then NullBulk else BulkString (SummaryID result))
            })
       })"

definition handleGraphExtract :: AIHandler
  where "handleGraphExtract args =
    authorized (args ! 1) (do {
      r \<leftarrow> getMemory (args ! 1) (args ! 2);
      (case r of
         None \<Rightarrow> ret (Err ErrNoSuchMemoryMsg)
       | Some mem \<Rightarrow> do {
           e \<leftarrow> extractCmd (args ! 1) mem;
           (case e of
              Inl err \<Rightarrow> ret (Err (''ERR '' @ err))
            | Inr (entities, relations) \<Rightarrow> do {
                meter GraphExtractionPerformed;
                meter (EntitiesExtracted entities);
                meter (RelationsExtracted relations);
                ret (ArraySlice [Integer entities, Integer relations])
              })
         })
    })"

fun relatedOpts :: "string list \<Rightarrow> int \<Rightarrow> string + int" where
  "relatedOpts [] hops = Inr hops"
| "relatedOpts [_] hops = Inl ErrSyntaxMsg"
| "relatedOpts (k # v # rest) hops =
    (if to_upper k = ''DEPTH''
     then (case Atoi v of
             None \<Rightarrow> Inl ErrNotIntegerMsg
           | Some n \<Rightarrow> if n \<le> 0 then Inl ErrSyntaxMsg else relatedOpts rest n)
     else Inl ErrSyntaxMsg)"

definition handleGraphRelated :: AIHandler
  where "handleGraphRelated args =
    authorized (args ! 1)
      (case relatedOpts (drop 3 args) 1 of
         Inl msg \<Rightarrow> ret (Err msg)
       | Inr hops \<Rightarrow> do {
           related \<leftarrow> relatedCmd (args ! 1) (args ! 2) hops;
           ret (ArraySlice (map (\<lambda>r. BulkString (nID (rnNode r))) related))
         })"

section \<open>The handlers by name\<close>

definition aiHandler :: "string \<Rightarrow> AIHandler"
  where "aiHandler name =
    (if name = ''CACHE.SEMANTIC'' then handleCacheSemantic
     else if name = ''CACHE.PROMPT'' then handleCachePrompt
     else if name = ''TOOL.CACHE'' then handleToolCache
     else if name = ''VECTOR.UPSERT'' then handleVectorUpsert
     else if name = ''VECTOR.SEARCH'' then handleVectorSearch
     else if name = ''VECTOR.DELETE'' then handleVectorDelete
     else if name = ''MEMORY.PUT'' then handleMemoryPut
     else if name = ''MEMORY.GET'' then handleMemoryGet
     else if name = ''MEMORY.SEARCH'' then handleMemorySearch
     else if name = ''MEMORY.HISTORY'' then handleMemoryHistory
     else if name = ''AGENT.REMEMBER'' then handleAgentRemember
     else if name = ''AGENT.RECALL'' then handleAgentRecall
     else if name = ''SUMMARY.CREATE'' then handleSummaryCreate
     else if name = ''GRAPH.EXTRACT'' then handleGraphExtract
     else if name = ''GRAPH.RELATED'' then handleGraphRelated
     else (\<lambda>args. ret NoReply))"

end
