(* ===== verification/AIIsolation.thy ===== *)
theory AIIsolation
  imports AIHandlers Isolation
begin

text \<open>
  What the handlers for language-model applications keep. \<open>ai_contract J K W\<close> is the contract of the
  stores: every operation they offer keeps \<open>J\<close>, when called in a workspace of \<open>W\<close> and in an
  environment that satisfies \<open>K\<close>; under it every handler keeps \<open>J\<close> on a connection that is
  authorized for workspaces of \<open>W\<close> only. Three instances: nothing at all, which leaves that
  the handlers do not touch the connection, the engine and the broker (\<open>ext_ok\<close>); the content of
  the other workspaces (\<open>ai_view\<close>); and the invariants of the stores (\<open>ai_ok\<close>).
\<close>

section \<open>The parts of the state that belong to a workspace\<close>

definition mem_view :: "string \<Rightarrow> MemoryStore \<Rightarrow> (string, Memory) fmap \<times> (string \<Rightarrow> Memory list) \<times> (string, vecEntry) fmap"
  where "mem_view w s = (records_of w s, (\<lambda>i. history_of w i s), vector_ns w (msVec s))"

definition ai_view :: "string \<Rightarrow> AIState \<Rightarrow> _"
  where "ai_view w x = (vector_ns w (aVector x), mem_view w (aMemory x), fmlookup (aGraph x) w)"

lemma mem_view_evict [simp]: "w' \<noteq> w \<Longrightarrow> mem_view w' (evictLocked w i s) = mem_view w' s"
  by (simp add: mem_view_def)

lemma mem_view_Put [simp]: "w' \<noteq> mWorkspaceID m \<Longrightarrow> mem_view w' (snd (memory_Put t p rnd m ttl s)) = mem_view w' s"
proof (cases "\<exists>v i. mWorkspaceID m \<noteq> [] \<and> p (mContent m) = Inr v \<and> (if mID m = [] then newID rnd else Inr (mID m)) = Inr i")
  case True
  assume "w' \<noteq> mWorkspaceID m"
  moreover from True obtain v i where v: "mWorkspaceID m \<noteq> []" "p (mContent m) = Inr v"
    "(if mID m = [] then newID rnd else Inr (mID m)) = Inr i" by blast
  ultimately show ?thesis
    using Put_result(2-4) [of m p v rnd i, OF v, where s = s and t = t and ttl = ttl]
    by (auto simp: mem_view_def fun_eq_iff split: option.splits)
next
  case False
  then show ?thesis by (auto simp: memory_Put_def split: sum.splits)
qed

lemma mem_view_Get [simp]: "w' \<noteq> w \<Longrightarrow> mem_view w' (snd (memory_Get t w i s)) = mem_view w' s"
  by (simp add: memory_Get_alt split: option.splits)

lemma mem_view_History [simp]: "w' \<noteq> w \<Longrightarrow> mem_view w' (snd (memory_History t w i s)) = mem_view w' s"
  by (simp add: memory_History_alt split: option.splits)

lemma mem_view_collect: "w' \<noteq> w \<Longrightarrow> mem_view w' (snd (searchCollect t w th rs s)) = mem_view w' s"
  by (induction rs arbitrary: s) (auto simp: split_beta split: option.split)

lemma mem_view_Search [simp]: "w' \<noteq> w \<Longrightarrow> mem_view w' (snd (memory_Search env p w q opts s)) = mem_view w' s"
  by (auto simp: memory_Search_def mem_view_collect split_beta split: sum.split)

lemma mem_view_listLoop: "w' \<noteq> w \<Longrightarrow> mem_view w' (snd (listLoop t w opts is s)) = mem_view w' s"
  by (induction "is" arbitrary: s) (simp_all add: split_beta split: option.split)

lemma mem_view_List [simp]: "w' \<noteq> w \<Longrightarrow> mem_view w' (snd (memory_List env w opts s)) = mem_view w' s"
  by (simp add: memory_List_def mem_view_listLoop split: option.splits)

section \<open>Computations that keep a property of the stores\<close>

definition calm :: "(AIState \<Rightarrow> bool) \<Rightarrow> (goenv \<Rightarrow> bool) \<Rightarrow> string set \<Rightarrow> AIState Session \<Rightarrow> bool"
  where "calm J K W se \<longleftrightarrow>
    J (dExt (deps se)) \<and> (\<forall>n. K (dEnv (deps se) n)) \<and> (\<forall>w. authorizedForWorkspace se w \<longrightarrow> w \<in> W)"

definition framed :: "'x Session \<Rightarrow> 'x Session \<Rightarrow> bool"
  where "framed se se' \<longleftrightarrow> client se' = client se \<and> dEngine (deps se') = dEngine (deps se) \<and>
     dAuth (deps se') = dAuth (deps se) \<and> dPubSub (deps se') = dPubSub (deps se) \<and>
     dEnv (deps se') = dEnv (deps se) \<and> dCalls (deps se) \<le> dCalls (deps se')"

definition aiKeeps :: "(AIState \<Rightarrow> bool) \<Rightarrow> (goenv \<Rightarrow> bool) \<Rightarrow> string set \<Rightarrow> 'a aicmd \<Rightarrow> bool"
  where "aiKeeps J K W m \<longleftrightarrow>
    (\<forall>se. calm J K W se \<longrightarrow> framed se (snd (run_state m se)) \<and> J (dExt (deps (snd (run_state m se)))))"

named_theorems ai_intros \<comment> \<open>computations that keep a property of the stores\<close>

lemma calm_framed: "calm J K W se \<Longrightarrow> framed se se' \<Longrightarrow> J (dExt (deps se')) \<Longrightarrow> calm J K W se'"
  by (simp add: calm_def framed_def authorizedForWorkspace_def)

lemma framed_trans: "framed a b \<Longrightarrow> framed b c \<Longrightarrow> framed a c"
  by (simp add: framed_def)

lemma aiKeeps_bind [ai_intros]:
  assumes "aiKeeps J K W m" "\<And>x. aiKeeps J K W (f x)"
  shows "aiKeeps J K W (m \<bind> f)"
  using assms unfolding aiKeeps_def by (simp add: split_beta) (blast intro: calm_framed framed_trans)

lemma aiKeeps_ret [ai_intros]: "aiKeeps J K W (ret x)" "aiKeeps J K W (asks f)" "aiKeeps J K W (meter g)"
  by (simp_all add: aiKeeps_def framed_def calm_def meter_def)

lemma aiKeeps_ai:
  assumes "\<And>env sv x. K env \<Longrightarrow> J x \<Longrightarrow> J (snd (f env sv x))"
  shows "aiKeeps J K W (ai f)"
  using assms by (simp add: aiKeeps_def framed_def calm_def ai_def Let_def split_beta)

lemma aiKeeps_splits [ai_intros]:
  "(b \<Longrightarrow> aiKeeps J K W m) \<Longrightarrow> (\<not> b \<Longrightarrow> aiKeeps J K W n) \<Longrightarrow> aiKeeps J K W (if b then m else n)"
  "(x = None \<Longrightarrow> aiKeeps J K W m) \<Longrightarrow> (\<And>a. x = Some a \<Longrightarrow> aiKeeps J K W (g a)) \<Longrightarrow>
     aiKeeps J K W (case x of None \<Rightarrow> m | Some a \<Rightarrow> g a)"
  "(\<And>a. y = Inl a \<Longrightarrow> aiKeeps J K W (h a)) \<Longrightarrow> (\<And>b. y = Inr b \<Longrightarrow> aiKeeps J K W (k b)) \<Longrightarrow>
     aiKeeps J K W (case y of Inl a \<Rightarrow> h a | Inr b \<Rightarrow> k b)"
  "(\<And>a b. z = (a, b) \<Longrightarrow> aiKeeps J K W (l a b)) \<Longrightarrow> aiKeeps J K W (case z of (a, b) \<Rightarrow> l a b)"
  by (auto split: option.splits sum.splits prod.splits)

lemma aiKeeps_authorized [ai_intros]:
  "(w \<in> W \<Longrightarrow> aiKeeps J K W m) \<Longrightarrow> aiKeeps J K W (authorized w m)"
  unfolding aiKeeps_def authorized_def by (auto simp: calm_def framed_def)

lemma extCmd_aiKeeps: "aiKeeps (\<lambda>_. True) (\<lambda>_. True) UNIV m \<Longrightarrow> extCmd m"
  by (simp add: aiKeeps_def calm_def framed_def extCmd_def Let_def)

section \<open>The contract of the stores and their clients\<close>

locale ai_contract =
  fixes J :: "AIState \<Rightarrow> bool" and K :: "goenv \<Rightarrow> bool" and W :: "string set"
  assumes semantic: "J x \<Longrightarrow> J (x\<lparr>aSemantic := c\<rparr>)"
    and prompt: "J x \<Longrightarrow> J (x\<lparr>aPrompt := p\<rparr>)"
    and tool: "J x \<Longrightarrow> J (x\<lparr>aTool := u\<rparr>)"
    and usage: "J x \<Longrightarrow> J (x\<lparr>aTracker := RecordEmbeddingUsage name n (aTracker x)\<rparr>)"
      "J x \<Longrightarrow> J (x\<lparr>aTracker := RecordCompletionUsage name n (aTracker x)\<rparr>)"
    and savings: "J x \<Longrightarrow> f64_lt f64_zero cost \<Longrightarrow> J (x\<lparr>aTracker := RecordCacheHitSavings ty q cost (aTracker x)\<rparr>)"
    and upsert: "w \<in> W \<Longrightarrow> J x \<Longrightarrow> J (x\<lparr>aVector := vector_Upsert w i v md txt (aVector x)\<rparr>)"
    and delete: "w \<in> W \<Longrightarrow> J x \<Longrightarrow> J (x\<lparr>aVector := snd (vector_Delete w i (aVector x))\<rparr>)"
    and memory_put: "mWorkspaceID m \<in> W \<Longrightarrow> J x \<Longrightarrow> J (x\<lparr>aMemory := snd (memory_Put t prov rnd m ttl (aMemory x))\<rparr>)"
    and memory_get: "w \<in> W \<Longrightarrow> J x \<Longrightarrow> J (x\<lparr>aMemory := snd (memory_Get t w i (aMemory x))\<rparr>)"
    and memory_history: "w \<in> W \<Longrightarrow> J x \<Longrightarrow> J (x\<lparr>aMemory := snd (memory_History t w i (aMemory x))\<rparr>)"
    and memory_search: "w \<in> W \<Longrightarrow> K env \<Longrightarrow> J x \<Longrightarrow> J (x\<lparr>aMemory := snd (memory_Search env prov w q opts (aMemory x))\<rparr>)"
    and consolidate: "w \<in> W \<Longrightarrow> K env \<Longrightarrow> J x \<Longrightarrow>
      J (x\<lparr>aMemory := snd (Consolidate env t prov llm rnd w agent kind th (aMemory x))\<rparr>)"
    and graph_extract: "w \<in> W \<Longrightarrow> J x \<Longrightarrow> J (x\<lparr>aGraph := snd (Extract c' w i (aGraph x))\<rparr>)"
begin

lemmas contract = semantic prompt tool usage savings upsert delete memory_put memory_get memory_history memory_search
  consolidate graph_extract

lemma track_usage [ai_intros]:
  "aiKeeps J K W (track (RecordEmbeddingUsage name n))" "aiKeeps J K W (track (RecordCompletionUsage name n))"
  unfolding track_def by (rule aiKeeps_ai, simp add: contract)+

lemma track_savings [ai_intros]:
  "f64_lt f64_zero cost \<Longrightarrow> aiKeeps J K W (track (RecordCacheHitSavings ty q cost))"
  unfolding track_def by (rule aiKeeps_ai) (simp add: contract)

lemma providers [ai_intros]: "aiKeeps J K W (EmbedOne t)" "aiKeeps J K W (Complete a b)"
  "aiKeeps J K W (noteComplete r)" "aiKeeps J K W (noteEmbed e)"
  unfolding EmbedOne_def EmbedBatchWithUsage_def instrumented_Embed_def Complete_def noteComplete_def noteEmbed_def
  by (intro ai_intros aiKeeps_ai; simp)+

lemma calls [ai_intros]:
  "aiKeeps J K W (semanticSetCmd q md tp resp ttl cost)" "aiKeeps J K W (semanticGetCmd q md tp th)"
  "aiKeeps J K W (promptSetCmd key resp ttl cost)" "aiKeeps J K W (promptGetCmd key)"
  "aiKeeps J K W (toolSetCmd key resp ttl)" "aiKeeps J K W (toolGetCmd key)"
  "aiKeeps J K W (vectorSearchCmd w v n metric flt hybrid)" "aiKeeps J K W (relatedCmd w i hops)"
  unfolding semanticSetCmd_def semanticGetCmd_def promptSetCmd_def promptGetCmd_def toolSetCmd_def toolGetCmd_def
    vectorSearchCmd_def relatedCmd_def
  by (intro ai_intros aiKeeps_ai; simp add: contract split_beta)+

lemma calls_in [ai_intros]:
  assumes "w \<in> W"
  shows "aiKeeps J K W (vectorUpsertCmd w i v md txt)" "aiKeeps J K W (vectorDeleteCmd w i)"
    "aiKeeps J K W (getMemory w i)" "aiKeeps J K W (searchMemory w q opts)" "aiKeeps J K W (memoryHistoryCmd w i)"
    "aiKeeps J K W (extractCmd w mem)" "aiKeeps J K W (consolidateCmd w agent kind th)"
  unfolding vectorUpsertCmd_def vectorDeleteCmd_def getMemory_def searchMemory_def memoryHistoryCmd_def extractCmd_def
    consolidateCmd_def
  by (intro ai_intros aiKeeps_ai; simp add: assms contract split_beta Let_def)+

lemma putMemory [ai_intros]: "mWorkspaceID m \<in> W \<Longrightarrow> aiKeeps J K W (putMemory m ttl)"
  unfolding putMemory_def by (intro ai_intros aiKeeps_ai; simp add: contract split_beta)

lemma caches: "aiKeeps J K W (handleCacheSemantic args)" "aiKeeps J K W (handleCachePrompt args)"
  "aiKeeps J K W (handleToolCache args)"
  unfolding handleCacheSemantic_def handleCacheSemanticSet_def handleCacheSemanticGet_def
    handleCachePrompt_def handleCachePromptSet_def handleCachePromptGet_def
    handleToolCache_def handleToolCacheSet_def handleToolCacheGet_def
  by (intro ai_intros; simp)+

lemma vectors: "aiKeeps J K W (handleVectorUpsert args)" "aiKeeps J K W (handleVectorSearch args)"
  "aiKeeps J K W (handleVectorDelete args)"
  unfolding handleVectorUpsert_def handleVectorSearch_def handleVectorDelete_def
  by (intro ai_intros; simp)+

lemma memories: "aiKeeps J K W (storeMemory b args)" "aiKeeps J K W (handleMemoryGet args)"
  "aiKeeps J K W (handleMemorySearch args)" "aiKeeps J K W (handleMemoryHistory args)" "aiKeeps J K W (handleAgentRecall args)"
  unfolding storeMemory_def handleMemoryGet_def handleMemorySearch_def handleMemoryHistory_def handleAgentRecall_def
    findMemories_def
  by (intro ai_intros; simp add: argMemory_def)+

lemma graphs: "aiKeeps J K W (handleGraphExtract args)" "aiKeeps J K W (handleGraphRelated args)"
  unfolding handleGraphExtract_def handleGraphRelated_def
  by (intro ai_intros; simp)+

lemma summaries: "W = UNIV \<Longrightarrow> aiKeeps J K W (handleSummaryCreate args)"
  unfolding handleSummaryCreate_def by (intro ai_intros; simp)

lemma handlers: "name \<noteq> ''SUMMARY.CREATE'' \<or> W = UNIV \<Longrightarrow> aiKeeps J K W (aiHandler name args)"
proof -
  assume "name \<noteq> ''SUMMARY.CREATE'' \<or> W = UNIV"
  then have s: "name = ''SUMMARY.CREATE'' \<Longrightarrow> aiKeeps J K W (handleSummaryCreate args)" using summaries by blast
  show ?thesis
    unfolding aiHandler_def handleMemoryPut_def handleAgentRemember_def
    by (simp add: caches vectors memories graphs s aiKeeps_ret)
qed

text \<open>On a connection that may use workspaces of \<open>W\<close> only.\<close>

lemma handlers_keep:
  assumes "MultiWorkspace a \<or> W = UNIV" "\<forall>env. env_ok env \<longrightarrow> K env"
    and "\<forall>args. args \<noteq> [] \<and> E args \<longrightarrow> to_upper (hd args) \<noteq> ''SUMMARY.CREATE'' \<or> W = UNIV"
  shows "ext_keeps J E W a aiHandler"
  unfolding ext_keeps_def
proof (intro allI impI)
  fix args and se :: "AIState Session"
  assume se: "args \<noteq> [] \<and> E args \<and> Workspace (client se) \<in> W \<and> dAuth (deps se) = a \<and> (\<forall>n. env_ok (dEnv (deps se) n)) \<and> J (dExt (deps se))"
  then have "calm J K W se" using assms(1,2) by (auto simp: calm_def authorizedForWorkspace_def)
  moreover have "aiKeeps J K W (aiHandler (to_upper (hd args)) args)" using handlers se assms(3) by blast
  ultimately show "J (dExt (deps (snd (run_state (aiHandler (to_upper (hd args)) args) se))))"
    by (simp add: aiKeeps_def)
qed

end

section \<open>The instances\<close>

interpretation anything: ai_contract "\<lambda>_. True" "\<lambda>_. True" UNIV
  by unfold_locales simp_all

lemma ext_ok_aiHandler: "ext_ok aiHandler"
  unfolding ext_ok_def using anything.handlers by (blast intro: extCmd_aiKeeps)

lemma mem_view_Consolidate [simp]:
  assumes "w' \<noteq> w"
  shows "mem_view w' (snd (Consolidate env t p llm rnd w agent kind th s)) = mem_view w' s"
proof -
  obtain ms s1 where l: "memory_List env w \<lparr>loAgentID = agent, loKind = Some kind\<rparr> s = (ms, s1)" by fastforce
  have s1: "mem_view w' s1 = mem_view w' s"
    using mem_view_List [OF assms, of env "\<lparr>loAgentID = agent, loKind = Some kind\<rparr>" s] l by simp
  have put: "mem_view w' (snd (memory_Put t p rnd (summaryMemory w agent kind a b c) 0 s1)) = mem_view w' s" for a b c
    using mem_view_Put [of w' "summaryMemory w agent kind a b c"] assms s1 by (simp add: summaryMemory_def)
  show ?thesis
    unfolding Consolidate_def l Let_def using s1 put
    by (auto split: sum.splits prod.splits) (metis snd_conv)+
qed


interpretation elsewhere: ai_contract "\<lambda>x. \<forall>w. w \<notin> W \<longrightarrow> ai_view w x = ai_view w x0" "\<lambda>_. True" W
  for W and x0
  by unfold_locales (simp_all add: ai_view_def,
    (metis vector_ns_Upsert vector_ns_Delete mem_view_Put mem_view_Get mem_view_History mem_view_Search mem_view_Consolidate Extract_other)+)

definition ai_ok :: "AIState \<Rightarrow> bool"
  where "ai_ok x \<longleftrightarrow> mem_ok (aMemory x) \<and> graph_ok (aGraph x) \<and> top_ok (aTracker x)"

lemma top_ok_usage:
  "top_ok (RecordEmbeddingUsage name n t) = top_ok t" "top_ok (RecordCompletionUsage name n t) = top_ok t"
  by (simp_all add: top_ok_def RecordEmbeddingUsage_def RecordCompletionUsage_def)

interpretation stores: ai_contract ai_ok env_ok UNIV
  by unfold_locales (auto simp: ai_ok_def top_ok_usage intro: inv_intros)

end
