(* ===== verification/ServerProperties.thy ===== *)
theory ServerProperties
  imports ConnectionProperties AIProperties AIIsolation
begin

text \<open>
  The properties of the whole server, with the handlers for language-model applications in place:
  what every connection keeps, workspace isolation and its one gap, and the commands of the caches,
  of agent memory and of the graph from their arguments to their replies.
\<close>

section \<open>Whole connections\<close>

text \<open>
  Whatever bytes a client sends, serving its connection to the end keeps the invariants of the
  store, of the broker, of agent memory, of the graph and of the cost tracker, and leaves the broker
  with no channel and no subscription of the connection.
\<close>

theorem connection_keeps_invariants:
  assumes "store_wf (dEngine d)" "ps_wf (dPubSub d)" "\<forall>n. env_ok (dEnv d n)" "ai_ok (dExt d)"
  shows "let d' = deps (snd (run_state (HandleConn aiHandler inp) (accepted i d)))
    in store_wf (dEngine d') \<and> same_config (dEngine d) (dEngine d') \<and> ps_wf (dPubSub d') \<and> dAuth d' = dAuth d \<and>
       ai_ok (dExt d') \<and> fmlookup (subChs (dPubSub d')) i = None \<and>
       (\<forall>ch. i |\<notin>| subscribersOf ch (channels (dPubSub d')) \<and> i |\<notin>| subscribersOf ch (patterns (dPubSub d')))"
proof -
  have "ext_keeps ai_ok (\<lambda>_. True) UNIV (dAuth d) aiHandler" by (rule stores.handlers_keep) simp_all
  note final = connection_final [where J = ai_ok and E = "\<lambda>_. True" and W = UNIV and ext = aiHandler and inp = inp,
      OF assms(2,3) _ assms(4) _ _ ext_ok_aiHandler this, simplified, of i]
  show ?thesis
    using final served_wf [OF _ assms(1,3)] no_channel_no_subscription
    by (auto simp: Let_def conn_inv_def served_def [of _ d])
qed

definition freshAI :: AIState \<comment> \<open>empty stores and providers that answer every call\<close>
  where "freshAI = \<lparr>aSemantic = semantic_New, aPrompt = NewPromptCache, aTool = toolcache_New, aVector = vector_New,
    aMemory = memory_New, aGraph = graph_New, aTracker = tracker_New,
    aServices = (\<lambda>n. \<lparr>svEmbed = (\<lambda>t. Inr ([f64_one], 1)), svComplete = (\<lambda>a b. Inr (''sum'', 1)), svRand = Inr [n + 1],
       svEdges = (\<lambda>_ es. es), svLater = 20 + int n\<rparr>),
    aUsage = True, aEmbedName = ''e'', aCompleteName = ''c'', aUni = (\<lambda>_. []), aQuote = (\<lambda>s. s), aZone = (\<lambda>_. 0)\<rparr>"

definition aiServer :: "Authenticator \<Rightarrow> AIState Deps"
  where "aiServer a = \<lparr>dEngine = demo, dAuth = a, dMetrics = NewMetrics, dPubSub = NewPubSub, dExt = freshAI,
    dEnv = (\<lambda>n. env_at (20 + int n)), dCalls = 0\<rparr>"

lemma aiServer_simps [simp]:
  "dEngine (aiServer a) = demo" "dAuth (aiServer a) = a" "dExt (aiServer a) = freshAI" "ps_wf (dPubSub (aiServer a))"
  "\<forall>n. env_ok (dEnv (aiServer a) n)" "dEnv (aiServer a) n = env_at (20 + int n)" "dCalls (aiServer a) = 0"
  by (simp_all add: aiServer_def ps_wf_ops)

lemma ai_ok_fresh: "ai_ok freshAI"
  by (auto simp: ai_ok_def freshAI_def intro: inv_intros)

theorem connection_keeps_invariants_witness:
  "let d' = deps (snd (run_state (HandleConn aiHandler (encodeCommand [''SUBSCRIBE'', ''news'']))
       (accepted 1 (aiServer (auth_New [])))))
   in store_wf (dEngine d') \<and> ai_ok (dExt d') \<and> 1 |\<notin>| subscribersOf ''news'' (channels (dPubSub d'))"
  using connection_keeps_invariants [of "aiServer (auth_New [])" "encodeCommand [''SUBSCRIBE'', ''news'']" 1] demo_wf ai_ok_fresh
  by (simp add: Let_def)

definition sent :: "string \<Rightarrow> string set" \<comment> \<open>the names of the commands in an input\<close>
  where "sent inp = (\<lambda>args. to_upper (hd args)) ` {args \<in> set (commandsOf inp). args \<noteq> []}"

text \<open>
  C5. Workspace isolation: on a server with one password per workspace, a connection that does not
  send SUMMARY.CREATE changes nothing in a workspace whose password does not occur among the arguments
  of the commands it sends: neither its keys nor its vectors, memories, histories and graph, whatever
  else it sends, transactions included; only when the store has an entry cap may a key of that
  workspace be gone, evicted by an insert. Workspace names hold no NUL.
\<close>

theorem connection_isolated:
  assumes "MultiWorkspace (dAuth d)" "store_wf (dEngine d)" "ps_wf (dPubSub d)" "\<forall>n. env_ok (dEnv d n)"
    and "ws \<notin> presented (dAuth d) inp" "''SUMMARY.CREATE'' \<notin> sent inp"
    and "CHR 0x00 \<notin> set ws" "\<forall>w \<in> presented (dAuth d) inp. CHR 0x00 \<notin> set w"
  shows "let d' = deps (snd (run_state (HandleConn aiHandler inp) (accepted i d)))
    in (sraw (dEngine d') (nsKey ws k) = sraw (dEngine d) (nsKey ws k) \<or>
         0 < maxEntries (dEngine d) \<and> sraw (dEngine d') (nsKey ws k) = None) \<and>
       ai_view ws (dExt d') = ai_view ws (dExt d)"
proof -
  let ?W = "presented (dAuth d) inp"
  let ?E = "\<lambda>args. args \<noteq> [] \<longrightarrow> to_upper (hd args) \<noteq> ''SUMMARY.CREATE''"
  let ?J = "\<lambda>x. \<forall>w. w \<notin> ?W \<longrightarrow> ai_view w x = ai_view w (dExt d)"
  have E: "\<forall>args \<in> set (commandsOf inp). ?E args" using assms(6) by (force simp: sent_def)
  have K: "ext_keeps ?J ?E ?W (dAuth d) aiHandler" by (rule elsewhere.handlers_keep) (use assms(1) in auto)
  have "conn_inv ?J ?E (RegisterAll aiHandler (\<lambda>args. ret NoReply)) ?W d i
      (snd (run_state (HandleConn aiHandler inp) (accepted i d)))"
    by (rule connection_final(1) [OF assms(3,4) disjI1 [OF assms(1)] _ subset_refl E ext_ok_aiHandler K]) simp
  then have final: "served ?W d (deps (snd (run_state (HandleConn aiHandler inp) (accepted i d))))"
      "?J (dExt (deps (snd (run_state (HandleConn aiHandler inp) (accepted i d)))))"
    by (simp_all add: conn_inv_def)
  have "\<forall>w \<in> ?W. \<not> hasPrefix (nsKey ws k) (nsKey w [])"
    using assms(5,7,8) nsKey_inject [OF assms(7), of _ k] by (auto simp: hasPrefix_nsKey)
  with final assms(5) show ?thesis using served_other [OF final(1) assms(2,4)] by (simp add: spared_def Let_def)
qed

definition wipe :: string \<comment> \<open>log in to the first workspace and flush\<close>
  where "wipe = encodeCommand [''AUTH'', ''pa''] @ encodeCommand [''FLUSHALL'']"

lemma commandsOf_wipe: "commandsOf wipe = [[''AUTH'', ''pa''], [''FLUSHALL'']]"
proof -
  have "ReadCommand wipe = Command [''AUTH'', ''pa''] (encodeCommand [''FLUSHALL''])"
    unfolding wipe_def by (rule ReadCommand_encodeCommand) (simp_all add: arg_ok_def)
  moreover have "ReadCommand (encodeCommand [''FLUSHALL'']) = Command [''FLUSHALL''] []"
    using ReadCommand_encodeCommand [of "[''FLUSHALL'']" "[]"] by (simp add: arg_ok_def)
  moreover have "commandsOf [] = []" by (subst commandsOf.simps) (simp add: ReadCommand_def)
  ultimately show ?thesis by (subst commandsOf.simps, simp) (subst commandsOf.simps, simp)
qed

theorem connection_isolated_witness:
  "let d' = deps (snd (run_state (HandleConn aiHandler wipe) (accepted 1 (aiServer tenants))))
   in sraw (dEngine d') (nsKey ''w'' ''a'') = sraw demo (nsKey ''w'' ''a'') \<and> ai_view ''w'' (dExt d') = ai_view ''w'' freshAI"
proof -
  have "presented tenants wipe = {''A''}"
    by (auto simp: presented_def commandsOf_wipe grants_def tenants_def WorkspaceForPassword_last)
  moreover have "to_upper ''AUTH'' = ''AUTH''" "to_upper ''FLUSHALL'' = ''FLUSHALL''" by code_simp+
  then have "''SUMMARY.CREATE'' \<notin> sent wipe" by (auto simp: sent_def commandsOf_wipe simp del: to_upper.simps)
  moreover have "MultiWorkspace tenants" by (simp add: tenants_def MultiWorkspace_def NewMultiWorkspace_def)
  ultimately show ?thesis
    using connection_isolated [of "aiServer tenants" "''w''" wipe 1 "''a''"] demo_wf demo_config by simp
qed

section \<open>The gap in the isolation\<close>

lemma run_meter [simp]: "run_state (meter f) se = ((), se\<lparr>deps := (deps se)\<lparr>dMetrics := f (dMetrics (deps se))\<rparr>\<rparr>)"
  by (simp add: meter_def)

lemma notes_keep_memory [simp]:
  "aMemory (dExt (deps (snd (run_state (noteComplete r) se)))) = aMemory (dExt (deps se))"
  "aMemory (dExt (deps (snd (run_state (noteEmbed e) se)))) = aMemory (dExt (deps se))"
  by (auto simp: noteComplete_def noteEmbed_def track_def ai_def Let_def split: sum.split)

text \<open>
  C11. SUMMARY.CREATE does not check its workspace argument: a connection that may not read a memory
  of workspace \<open>w\<close>, and is told so by MEMORY.GET, can have the memories of any agent of \<open>w\<close> summarised,
  and the summary is stored in \<open>w\<close> and its identifier returned.
\<close>

theorem summary_crosses_workspaces:
  fixes se :: "AIState Session" and w agent :: string
  defines "x \<equiv> dExt (deps se)" and "env \<equiv> dEnv (deps se) (dCalls (deps se))"
    and "sv \<equiv> aServices (dExt (deps se)) (dCalls (deps se))"
    and "res \<equiv> run_state (handleSummaryCreate [''SUMMARY.CREATE'', agent, ''WORKSPACE'', w]) se"
  assumes "\<not> authorizedForWorkspace se w" "w \<noteq> []" "env_ok env"
    and "live_rec (now env) w (aMemory x) i = Some m" "mAgentID m = agent" "mKind m = Episodic"
    and "\<forall>prompt. svComplete sv summarySystemPrompt prompt = Inr (summary, k)"
    and "svEmbed sv summary = Inr (v, k')" "svRand sv = Inr bytes"
  shows "fst (run_state (handleMemoryGet [''MEMORY.GET'', w, i]) se) = Err (ErrWorkspaceNotAuthorized (aQuote x) w) \<and>
    fst res = BulkString (hex_encode bytes) \<and>
    (\<exists>r. fmlookup (records_of w (aMemory (dExt (deps (snd res))))) (hex_encode bytes) = Some r \<and> mContent r = summary)"
proof -
  let ?opts = "\<lparr>loAgentID = agent, loKind = Some Episodic\<rparr>"
  obtain ms s1 where l: "memory_List env w ?opts (aMemory x) = (ms, s1)" by fastforce
  have "m \<in> set ms" using memory_List_result(1) [OF assms(7), of w ?opts "aMemory x"] l assms(8-10) by (auto simp: listed_def)
  then have ms: "ms \<noteq> []" by auto
  define reps where "reps = dedupe ms DefaultDedupThreshold"
  define sm where "sm = summaryMemory w agent Episodic summary (int (length ms)) (int (length reps))"
  let ?prov = "\<lambda>s. map_sum (\<lambda>e. e) fst (svEmbed sv s)"
  have sm: "mWorkspaceID sm \<noteq> []" "?prov (mContent sm) = Inr v" "(if mID sm = [] then newID (svRand sv) else Inr (mID sm)) = Inr (hex_encode bytes)"
    and w: "mWorkspaceID sm = w"
    using assms(6,12,13) by (simp_all add: sm_def summaryMemory_def newID_def)
  note put = Put_result(1,2) [of sm ?prov v "svRand sv", OF sm, where t = "svLater sv" and ttl = 0 and s = s1, unfolded w]
  obtain s2 where s2: "memory_Put (svLater sv) ?prov (svRand sv) sm 0 s1 = (Inr (hex_encode bytes), s2)"
    using put(1) by (metis prod.collapse)
  have c: "Consolidate env (svLater sv) ?prov (svComplete sv) (svRand sv) w agent Episodic f64_zero (aMemory x) =
      (Inr \<lparr>SummaryID = hex_encode bytes, SourceCount = int (length ms), DedupedCount = int (length reps)\<rparr>, s2)"
    using ms assms(11) s2 by (simp add: Consolidate_def l Let_def f64_le_def reps_def [symmetric] sm_def)
  have r: "fmlookup (records_of w s2) (hex_encode bytes) = Some (newVersion (svLater sv) v (hex_encode bytes) sm 0 (fmlookup (records_of w s1) (hex_encode bytes)))"
    using put(2) [of w] s2 by simp
  have up: "to_upper ''WORKSPACE'' = ''WORKSPACE''" by code_simp
  have run: "fst res = BulkString (hex_encode bytes) \<and> aMemory (dExt (deps (snd res))) = s2"
    unfolding res_def handleSummaryCreate_def consolidateCmd_def
    using ms assms(11,12) l
    by (simp add: up split_beta del: to_upper.simps)
      (simp add: ai_def Let_def c [unfolded x_def env_def sv_def] x_def env_def sv_def split_beta)
  have "fst (run_state (handleMemoryGet [''MEMORY.GET'', w, i]) se) = Err (ErrWorkspaceNotAuthorized (aQuote x) w)"
    using assms(5) by (simp add: handleMemoryGet_def authorized_def x_def)
  with run r show ?thesis by (simp add: newVersion_def sm_def summaryMemory_def)
qed

definition trespasser :: "AIState Session" \<comment> \<open>logged in to workspace A; there is a memory in workspace w\<close>
  where "trespasser = \<lparr>client = (NewClientState 1)\<lparr>Authenticated := True, Workspace := ''A''\<rparr>,
    deps = (aiServer tenants)\<lparr>dExt := freshAI\<lparr>aMemory := demoPut 1 ''x'' ''a'' 0 memory_New\<rparr>\<rparr>\<rparr>"

theorem summary_crosses_workspaces_witness:
  "fst (run_state (handleSummaryCreate [''SUMMARY.CREATE'', ''ag'', ''WORKSPACE'', ''w'']) trespasser) = BulkString (hex_encode [1])"
proof -
  have s: "dExt (deps trespasser) = freshAI\<lparr>aMemory := demoPut 1 ''x'' ''a'' 0 memory_New\<rparr>" "dCalls (deps trespasser) = 0"
      "dEnv (deps trespasser) 0 = env_at 20" "\<not> authorizedForWorkspace trespasser ''w''"
    by (simp_all add: trespasser_def authorizedForWorkspace_def tenants_def MultiWorkspace_def NewMultiWorkspace_def)
  let ?m = "newVersion 1 [f64_one] ''x'' (demoMemory ''x'' ''a'') 0 None"
  have m: "fmlookup (records_of ''w'' (demoPut 1 ''x'' ''a'' 0 memory_New)) ''x'' = Some ?m"
    by (simp add: demoPut_def demoMemory_def demoEmbed_def memory_Put_def newVersion_def Let_def memory_New_def records_of_def)
  have "live_rec 20 ''w'' (demoPut 1 ''x'' ''a'' 0 memory_New) ''x'' = Some ?m"
    unfolding live_rec_def m by (simp add: memory_expired_def newVersion_def deadline_def)
  moreover have "mAgentID ?m = ''ag''" "mKind ?m = Episodic" by (simp_all add: newVersion_def demoMemory_def)
  ultimately show ?thesis
    using summary_crosses_workspaces [of trespasser "''w''" "''x''" ?m "''ag''" "''sum''" 1 "[f64_one]" 1 "[1]"] s
    by (simp add: freshAI_def)
qed

section \<open>Commands from their arguments to their replies\<close>

text \<open>
  C14. The metadata field of MEMORY.GET and MEMORY.HISTORY is a JSON text from which the METADATA option
  reads back exactly the metadata of the memory, when its keys and values are UTF-8.
\<close>

theorem metadata_round_trip:
  assumes "\<forall>k v. fmlookup (mMetadata m) k = Some v \<longrightarrow> utf8 (bytesOf k) \<and> utf8 (bytesOf v)"
  shows "\<exists>j. memoryFieldsReply zone m ! 9 = BulkString j \<and> parseMetadataJSON j = Some (mMetadata m)"
  using metadata_read_back [OF assms] by (intro exI [of _ "MarshalStringMap (mMetadata m)"]) (simp add: memoryFieldsReply_def)

lemma utf8_ascii: "list_all (\<lambda>b. b < 128) bs \<Longrightarrow> utf8 bs"
proof -
  assume a: "list_all (\<lambda>b. b < 128) bs"
  then have "concat (map encodeRune bs) = bs" by (induction bs) (auto simp: encodeRune_def)
  moreover have "list_all scalar bs" using a by (auto simp: list_all_iff scalar_def)
  ultimately show ?thesis unfolding utf8_def by metis
qed

theorem metadata_round_trip_witness:
  "\<exists>j. memoryFieldsReply (\<lambda>_. 0) ((demoMemory ''x'' ''a'')\<lparr>mMetadata := fmupd ''k'' ''v'' fmempty\<rparr>) ! 9 = BulkString j \<and>
     parseMetadataJSON j = Some (fmupd ''k'' ''v'' fmempty)"
proof -
  have "utf8 (bytesOf ''k'')" "utf8 (bytesOf ''v'')" by (rule utf8_ascii, code_simp)+
  then show ?thesis
    using metadata_round_trip [of "(demoMemory ''x'' ''a'')\<lparr>mMetadata := fmupd ''k'' ''v'' fmempty\<rparr>" "\<lambda>_. 0"] by simp
qed

text \<open>
  C13. A response stored with CACHE.PROMPT SET or TOOL.CACHE SET and no time to live is found by GET
  with the same variables or arguments, in whatever order the fields of the JSON object are written.
\<close>

theorem cached_calls_hit:
  assumes "raw_ok maxNestingDepth (RObj fs)" "mset fs = mset gs" "distinct (map fst fs)"
  shows "(\<forall>se se'. run_state (handleCachePrompt [''CACHE.PROMPT'', ''SET'', tmpl, render (RObj fs), model, response]) se = (OK, se') \<longrightarrow>
      fst (run_state (handleCachePrompt [''CACHE.PROMPT'', ''GET'', tmpl, render (RObj gs), model]) se') = BulkString response) \<and>
    (\<forall>se se'. run_state (handleToolCache [''TOOL.CACHE'', ''SET'', tool, render (RObj fs), result]) se = (OK, se') \<longrightarrow>
      fst (run_state (handleToolCache [''TOOL.CACHE'', ''GET'', tool, render (RObj gs)]) se') = BulkString result)"
proof -
  have up: "to_upper ''SET'' = ''SET''" "to_upper ''GET'' = ''GET''" by code_simp+
  note k = TemplateKey_perm [OF assms, of tmpl model] ToolKey_perm [OF assms, of tool]
  show ?thesis
    by (auto simp: handleCachePrompt_def handleCachePromptSet_def handleCachePromptGet_def promptSetCmd_def promptGetCmd_def
        handleToolCache_def handleToolCacheSet_def handleToolCacheGet_def toolSetCmd_def toolGetCmd_def ai_def Let_def meter_def
        PromptCache_Set_def PromptCache_Get_def ToolCache_Set_def ToolCache_Get_def toolRead_def deadline_def expiredAt_def
        up k simp del: to_upper.simps render.simps split: option.splits)
qed

definition demoFields :: "(string \<times> jraw) list"
  where "demoFields = [(''a'', RNull), (''b'', RBool True)]"

lemma demoFields_ok: "raw_ok maxNestingDepth (RObj demoFields)" "decodeAny (RObj demoFields) = Some (JObj [(''a'', JNull), (''b'', JBool True)])"
proof -
  have "utf8 (bytesOf ''a'')" "utf8 (bytesOf ''b'')" by (rule utf8_ascii, code_simp)+
  then show "raw_ok maxNestingDepth (RObj demoFields)" by (simp add: demoFields_def maxNestingDepth_def)
  show "decodeAny (RObj demoFields) = Some (JObj [(''a'', JNull), (''b'', JBool True)])" by code_simp
qed

theorem cached_calls_hit_witness:
  "fst (run_state (do {
      handleCachePrompt [''CACHE.PROMPT'', ''SET'', ''t'', render (RObj demoFields), ''m'', ''r''];
      handleCachePrompt [''CACHE.PROMPT'', ''GET'', ''t'', render (RObj (rev demoFields)), ''m'']
    }) (accepted 1 (aiServer (auth_New [])))) = BulkString ''r''"
proof -
  have "TemplateKey ''t'' (render (RObj demoFields)) ''m'' \<noteq> None"
    using parse_render [OF demoFields_ok(1)] demoFields_ok(2)
    by (simp add: TemplateKey_def UnmarshalMap_def UnmarshalAny_def del: render.simps decodeAny.simps)
  moreover have up: "to_upper ''SET'' = ''SET''" by code_simp
  ultimately have "fst (run_state (handleCachePrompt [''CACHE.PROMPT'', ''SET'', ''t'', render (RObj demoFields), ''m'', ''r'']) se) = OK" for se
    by (auto simp: handleCachePrompt_def handleCachePromptSet_def promptSetCmd_def ai_def Let_def up
        simp del: to_upper.simps render.simps)
  then have "run_state (handleCachePrompt [''CACHE.PROMPT'', ''SET'', ''t'', render (RObj demoFields), ''m'', ''r'']) se =
      (OK, snd (run_state (handleCachePrompt [''CACHE.PROMPT'', ''SET'', ''t'', render (RObj demoFields), ''m'', ''r'']) se))" for se
    by (metis prod.collapse)
  moreover have "distinct (map fst demoFields)" by (simp add: demoFields_def)
  ultimately show ?thesis
    using conjunct1 [OF cached_calls_hit [OF demoFields_ok(1), of "rev demoFields" "''t''" "''m''" "''r''"]]
    by (simp add: split_beta del: render.simps)
qed

text \<open>
  Numbers in the arguments of a tool call are read as binary64, so that two different large integers
  give the same key: the cached result of a call for user 9007199254740993 is served for user
  9007199254740992.
\<close>

theorem tool_key_collides:
  "ToolKey name (render (RObj [(''id'', RNum ''9007199254740993'')])) = ToolKey name (render (RObj [(''id'', RNum ''9007199254740992'')])) \<and>
   ToolKey name (render (RObj [(''id'', RNum ''9007199254740993'')])) \<noteq> None"
proof -
  have ok: "raw_ok maxNestingDepth (RObj [(''id'', RNum s)])" if "number_ok s" for s
    using that utf8_ascii [of "bytesOf ''id''"] by (simp add: maxNestingDepth_def)
  have n: "number_ok ''9007199254740993''" "number_ok ''9007199254740992''" unfolding number_ok_def by code_simp+
  have p: "ParseFloat ''9007199254740993'' = Some (Fin False 9007199254740992)" "ParseFloat ''9007199254740992'' = Some (Fin False 9007199254740992)"
    by (simp_all add: ParseFloat_def parseNumber_def parseExp_def is_digit_def hex_val_def digit_val_def Let_def lowerASCII_def
        less_eq_char_def round_odd)
  show ?thesis
    using parse_render [OF ok [OF n(1)]] parse_render [OF ok [OF n(2)]] p
    by (simp add: ToolKey_def UnmarshalAny_def sequence_Some del: render.simps)
qed

text \<open>
  With the mock completion provider GRAPH.EXTRACT extracts nothing: its answer, whatever the
  content of the memory, is not JSON, so the graph stays as it is and the reply counts are zero.
\<close>

theorem mock_extracts_nothing:
  "Extract (map_sum (\<lambda>e. e) fst (mock_Complete extractSystemPrompt txt)) w i g = (Inr (0, 0), g)"
proof -
  have p: "bytesOf mockPrefix = 91 # 109 # map byte (drop 2 mockPrefix)" by code_simp
  have l: "lexAll (109 # bs) = None" for bs
    by (subst lexAll.simps) (simp add: is_ws_def lexToken_def punct_def is_dig_def word_def)
  have "lexAll (91 # 109 # bs) = None" for bs
    by (subst lexAll.simps) (simp add: is_ws_def lexToken_def punct_def l)
  then have "parseRaw (mockPrefix @ s) = None" for s
    by (simp add: parseRaw_def bytesOf_def p [unfolded bytesOf_def])
  then show ?thesis by (simp add: mock_Complete_def Extract_def UnmarshalExtraction_def)
qed

text \<open>
  A TTL option whose nanoseconds wrap to a non-positive number stores an entry that never
  expires: the prompt and the tool cache answer with it at every later time, and a memory gets no
  deadline.
\<close>

theorem ttl_overflow_never_expires:
  assumes "ParseInt s = Some secs" "0 < secs" "int64 (secs * Second) \<le> 0"
  shows "\<exists>ttl. ttlArg s = Some ttl \<and> deadline t ttl = None \<and>
    (\<forall>u. fst (PromptCache_Get u key (PromptCache_Set t key response ttl cost c)) = Some (response, cost)) \<and>
    (\<forall>u u'. fst (ToolCache_Get u u' key (ToolCache_Set t key response ttl d)) = Some response)"
  using assms
  by (auto simp: ttlArg_def deadline_def PromptCache_Get_def PromptCache_Set_def ToolCache_Get_def ToolCache_Set_def
      toolRead_def Let_def)

theorem ttl_overflow_never_expires_witness:
  "\<exists>ttl. ttlArg (FormatInt 9223372037) = Some ttl \<and> deadline 5 ttl = None"
proof -
  have n: "ParseInt (FormatInt 9223372037) = Some 9223372037" by (rule ParseInt_FormatInt) (simp add: is_int64_def)
  have neg: "int64 (9223372037 * Second) \<le> 0" by code_simp
  show ?thesis
    using ttl_overflow_never_expires [OF n _ neg, of 5 "''k''" "''r''" f64_zero NewPromptCache toolcache_New] by auto
qed

end
