(* ===== verification/Trim.thy ===== *)
theory Trim
  imports Json
begin

text \<open>
  Splitting and trimming of strings as Go's \<^verbatim>\<open>strings\<close> package does it: \<^verbatim>\<open>TrimSpace\<close>,
  \<^verbatim>\<open>Trim\<close> with a set of ASCII characters, \<^verbatim>\<open>Split\<close> and \<^verbatim>\<open>Cut\<close> at one character.
\<close>

definition utf8Spaces :: "string list" \<comment> \<open>the encodings of the white space that \<^verbatim>\<open>strings.TrimSpace\<close> trims\<close>
  where "utf8Spaces = map (\<lambda>r. str (encodeRune r))
    ([9, 10, 11, 12, 13, 32, 0x85, 0xA0, 0x1680] @ [0x2000..<0x200B] @ [0x2028, 0x2029, 0x202F, 0x205F, 0x3000])"

function trimPrefixes :: "string list \<Rightarrow> string \<Rightarrow> string" where
  "trimPrefixes ps s =
    (case find (\<lambda>p. p \<noteq> [] \<and> take (length p) s = p) ps of
       None \<Rightarrow> s | Some p \<Rightarrow> trimPrefixes ps (drop (length p) s))"
  by pat_completeness auto
termination
proof (relation "measure (length \<circ> snd)", simp)
  fix ps s p
  assume "find (\<lambda>p. p \<noteq> [] \<and> take (length p) s = p) ps = Some p"
  then have "p \<noteq> []" "take (length p) s = p" by (auto simp: find_Some_iff)
  then have "s \<noteq> []" by auto
  with \<open>p \<noteq> []\<close> show "((ps, drop (length p) s), ps, s) \<in> measure (length \<circ> snd)" by simp
qed

definition TrimSpace :: "string \<Rightarrow> string"
  where "TrimSpace s = rev (trimPrefixes (map rev utf8Spaces) (rev (trimPrefixes utf8Spaces s)))"

definition Trim :: "char set \<Rightarrow> string \<Rightarrow> string"
  where "Trim cutset s = rev (dropWhile (\<lambda>c. c \<in> cutset) (rev (dropWhile (\<lambda>c. c \<in> cutset) s)))"

fun Split :: "char \<Rightarrow> string \<Rightarrow> string list" where
  "Split sep [] = [[]]"
| "Split sep (c # s) =
    (if c = sep then [] # Split sep s
     else case Split sep s of [] \<Rightarrow> [[c]] | p # ps \<Rightarrow> (c # p) # ps)"

fun Cut :: "char \<Rightarrow> string \<Rightarrow> (string \<times> string) option" where
  "Cut sep [] = None"
| "Cut sep (c # s) = (if c = sep then Some ([], s) else map_option (apfst (Cons c)) (Cut sep s))"

fun Join :: "char \<Rightarrow> string list \<Rightarrow> string" where
  "Join sep [] = []"
| "Join sep [p] = p"
| "Join sep (p # ps) = p @ sep # Join sep ps"

lemma Split_nonempty [simp]: "Split sep s \<noteq> []"
  by (induction s) (auto split: list.splits)

lemma Split_plain: "sep \<notin> set p \<Longrightarrow> Split sep p = [p]"
  by (induction p) auto

lemma Split_append: "sep \<notin> set p \<Longrightarrow> Split sep (p @ sep # s) = p # Split sep s"
  by (induction p) auto

lemma Split_Join: "ps \<noteq> [] \<Longrightarrow> \<forall>p\<in>set ps. sep \<notin> set p \<Longrightarrow> Split sep (Join sep ps) = ps"
  by (induction sep ps rule: Join.induct) (simp_all add: Split_plain Split_append)

lemma Join_Split: "Join sep (Split sep s) = s"
proof (induction s)
  case (Cons c s)
  obtain p ps where "Split sep s = p # ps" by (cases "Split sep s") auto
  with Cons show ?case by (cases ps) auto
qed simp

lemma Cut_append: "sep \<notin> set p \<Longrightarrow> Cut sep (p @ sep # s) = Some (p, s)"
  by (induction p) auto

lemma Cut_Some: "Cut sep s = Some (p, r) \<Longrightarrow> s = p @ sep # r \<and> sep \<notin> set p"
  by (induction s arbitrary: p) (auto split: if_splits)

end
