(* ===== verification/MCPTools.thy ===== *)
theory MCPTools
  imports AIIsolation Trim
begin

text \<open>
  The tools of the MCP server (\<^verbatim>\<open>internal/mcp/server.go\<close>): every tool as a computation over the same
  stores, metrics and tracker as the commands. The protocol, the transport and the decoding of the
  inputs are a third-party library; a tool takes its decoded input, a record, and returns its output
  or an error. Error values stand for the texts, which a client does not parse.
\<close>

datatype mcpError =
    BadTemp string | NegativeCost float64 | BadVariablesJSON | BadArgsJSON | UnknownMetric string
  | UnknownKind string | NoSuchMemory string string | ToolFailed string

type_synonym 'a tool = "(mcpError + 'a) aicmd"

section \<open>Shared parsing\<close>

definition mcp_parseMetric :: "string \<Rightarrow> mcpError + DistanceMetric"
  where "mcp_parseMetric s =
    (let u = to_upper (TrimSpace s) in
     if u = [] \<or> u = ''COSINE'' then Inr MCosine
     else if u = ''DOT'' then Inr MDot
     else if u = ''EUCLIDEAN'' then Inr MEuclidean
     else Inl (UnknownMetric s))"

definition ttlFromSeconds :: "int \<Rightarrow> duration" \<comment> \<open>the product wraps at 64 bits\<close>
  where "ttlFromSeconds secs = (if secs > 0 then int64 (secs * Second) else 0)"

definition orDefault :: "string \<Rightarrow> string \<Rightarrow> string" where "orDefault s d = (if s = [] then d else s)"

definition mcp_temp :: "string \<Rightarrow> mcpError + string"
  where "mcp_temp t =
    (if t = [] then Inr ''0'' else case ParseFloat t of None \<Rightarrow> Inl (BadTemp t) | Some _ \<Rightarrow> Inr t)"

definition mcp_kind :: "MemKind \<Rightarrow> string \<Rightarrow> mcpError + MemKind"
  where "mcp_kind d s =
    (if s = [] then Inr d else case ParseKind s of None \<Rightarrow> Inl (UnknownKind s) | Some k \<Rightarrow> Inr k)"

abbreviation passOn :: "string + 'a \<Rightarrow> mcpError + 'a" where "passOn \<equiv> map_sum ToolFailed (\<lambda>x. x)"

section \<open>The caches\<close>

record CacheSemanticSetInput =
  cssPrompt :: string
  cssResponse :: string
  cssModel :: string
  cssTemp :: string
  cssTTLSeconds :: int
  cssCost :: float64

definition cacheSemanticSet :: "CacheSemanticSetInput \<Rightarrow> unit tool"
  where "cacheSemanticSet inp = do {
    meter (MCPCallRecorded ''cache_semantic_set'');
    (case mcp_temp (cssTemp inp) of
       Inl e \<Rightarrow> ret (Inl e)
     | Inr temp \<Rightarrow>
         if f64_lt (cssCost inp) f64_zero then ret (Inl (NegativeCost (cssCost inp)))
         else do {
           r \<leftarrow> semanticSetCmd (cssPrompt inp) (orDefault (cssModel inp) ''default'') temp (cssResponse inp)
                  (ttlFromSeconds (cssTTLSeconds inp)) (cssCost inp);
           ret (passOn r)
         })
  }"

record CacheSemanticGetInput =
  csgPrompt :: string
  csgModel :: string
  csgTemp :: string
  csgThreshold :: "float64 option"

definition cacheSemanticGet :: "CacheSemanticGetInput \<Rightarrow> string option tool" \<comment> \<open>\<open>None\<close> when not found\<close>
  where "cacheSemanticGet inp = do {
    meter (MCPCallRecorded ''cache_semantic_get'');
    (case mcp_temp (csgTemp inp) of
       Inl e \<Rightarrow> ret (Inl e)
     | Inr temp \<Rightarrow> do {
         r \<leftarrow> semanticGetCmd (csgPrompt inp) (orDefault (csgModel inp) ''default'') temp
                (case csgThreshold inp of None \<Rightarrow> f64_of_rat (85 / 100) | Some t \<Rightarrow> t);
         (case r of
            Inl err \<Rightarrow> ret (Inl (ToolFailed err))
          | Inr None \<Rightarrow> do { meter SemanticCacheMiss; ret (Inr None) }
          | Inr (Some (response, cost)) \<Rightarrow> do {
              meter SemanticCacheHit;
              (if f64_lt f64_zero cost then track (RecordCacheHitSavings ''semantic'' (csgPrompt inp) cost) else ret ());
              ret (Inr (Some response))
            })
       })
  }"

record CachePromptSetInput =
  cpsTemplate :: string
  cpsVariablesJSON :: string
  cpsModel :: string
  cpsResponse :: string
  cpsTTLSeconds :: int
  cpsCost :: float64

definition cachePromptSet :: "CachePromptSetInput \<Rightarrow> unit tool"
  where "cachePromptSet inp = do {
    meter (MCPCallRecorded ''cache_prompt_set'');
    (if f64_lt (cpsCost inp) f64_zero then ret (Inl (NegativeCost (cpsCost inp)))
     else
       (case TemplateKey (cpsTemplate inp) (cpsVariablesJSON inp) (cpsModel inp) of
          None \<Rightarrow> ret (Inl BadVariablesJSON)
        | Some key \<Rightarrow> do {
            promptSetCmd key (cpsResponse inp) (ttlFromSeconds (cpsTTLSeconds inp)) (cpsCost inp);
            ret (Inr ())
          }))
  }"

record CachePromptGetInput =
  cpgTemplate :: string
  cpgVariablesJSON :: string
  cpgModel :: string

definition cachePromptGet :: "CachePromptGetInput \<Rightarrow> string option tool"
  where "cachePromptGet inp = do {
    meter (MCPCallRecorded ''cache_prompt_get'');
    (case TemplateKey (cpgTemplate inp) (cpgVariablesJSON inp) (cpgModel inp) of
       None \<Rightarrow> ret (Inl BadVariablesJSON)
     | Some key \<Rightarrow> do {
         r \<leftarrow> promptGetCmd key;
         (case r of
            None \<Rightarrow> do { meter PromptCacheMiss; ret (Inr None) }
          | Some (response, cost) \<Rightarrow> do {
              meter PromptCacheHit;
              (if f64_lt f64_zero cost then track (RecordCacheHitSavings ''prompt'' (cpgTemplate inp) cost) else ret ());
              ret (Inr (Some response))
            })
       })
  }"

record ToolCacheSetInput =
  tcsToolName :: string
  tcsArgsJSON :: string
  tcsResult :: string
  tcsTTLSeconds :: int

definition toolCacheSet :: "ToolCacheSetInput \<Rightarrow> unit tool"
  where "toolCacheSet inp = do {
    meter (MCPCallRecorded ''tool_cache_set'');
    (case ToolKey (tcsToolName inp) (tcsArgsJSON inp) of
       None \<Rightarrow> ret (Inl BadArgsJSON)
     | Some key \<Rightarrow> do { toolSetCmd key (tcsResult inp) (ttlFromSeconds (tcsTTLSeconds inp)); ret (Inr ()) })
  }"

record ToolCacheGetInput =
  tcgToolName :: string
  tcgArgsJSON :: string

definition toolCacheGet :: "ToolCacheGetInput \<Rightarrow> string option tool"
  where "toolCacheGet inp = do {
    meter (MCPCallRecorded ''tool_cache_get'');
    (case ToolKey (tcgToolName inp) (tcgArgsJSON inp) of
       None \<Rightarrow> ret (Inl BadArgsJSON)
     | Some key \<Rightarrow> do {
         r \<leftarrow> toolGetCmd key;
         meter (if r = None then ToolCacheMiss else ToolCacheHit);
         ret (Inr r)
       })
  }"

section \<open>Vectors\<close>

record StoreVectorInput =
  svNamespace :: string
  svID :: string
  svVector :: vec
  svMetadata :: "(string, string) fmap"
  svText :: string

definition storeVector :: "StoreVectorInput \<Rightarrow> unit tool"
  where "storeVector inp = do {
    meter (MCPCallRecorded ''store_vector'');
    vectorUpsertCmd (svNamespace inp) (svID inp) (svVector inp) (svMetadata inp) (svText inp);
    ret (Inr ())
  }"

record FindSimilarInput =
  fsNamespace :: string
  fsVector :: vec
  fsK :: "int option"
  fsMetric :: string
  fsFilter :: "(string, string) fmap"

definition findSimilar :: "FindSimilarInput \<Rightarrow> Result list tool"
  where "findSimilar inp = do {
    meter (MCPCallRecorded ''find_similar'');
    (case mcp_parseMetric (fsMetric inp) of
       Inl e \<Rightarrow> ret (Inl e)
     | Inr metric \<Rightarrow> do {
         results \<leftarrow> vectorSearchCmd (fsNamespace inp) (fsVector inp) (case fsK inp of None \<Rightarrow> 10 | Some k \<Rightarrow> k) metric
                      (fsFilter inp) None;
         meter VectorSearchPerformed;
         ret (Inr results)
       })
  }"

record DeleteVectorInput =
  dvNamespace :: string
  dvID :: string

definition deleteVector :: "DeleteVectorInput \<Rightarrow> bool tool"
  where "deleteVector inp = do {
    meter (MCPCallRecorded ''delete_vector'');
    deleted \<leftarrow> vectorDeleteCmd (dvNamespace inp) (dvID inp);
    ret (Inr deleted)
  }"

section \<open>Memory\<close>

record RememberInput =
  reAgentID :: string
  reContent :: string
  reWorkspace :: string
  reKind :: string
  reMetadata :: "(string, string) fmap"
  reTTLSeconds :: int

definition remember :: "RememberInput \<Rightarrow> string tool"
  where "remember inp = do {
    meter (MCPCallRecorded ''remember'');
    (case mcp_kind LongTerm (reKind inp) of
       Inl e \<Rightarrow> ret (Inl e)
     | Inr kind \<Rightarrow> do {
         r \<leftarrow> putMemory (argMemory (reAgentID inp) (reContent inp)
                \<lparr>poID = [], poWorkspace = orDefault (reWorkspace inp) ''default'', poKind = kind,
                 poMetadata = reMetadata inp, poTTL = ttlFromSeconds (reTTLSeconds inp)\<rparr>)
                (ttlFromSeconds (reTTLSeconds inp));
         (case r of
            Inl err \<Rightarrow> ret (Inl (ToolFailed err))
          | Inr storedID \<Rightarrow> do { meter MemoryWrite; ret (Inr storedID) })
       })
  }"

record RecallInput =
  rcAgentID :: string
  rcQuery :: string
  rcWorkspace :: string
  rcKind :: string
  rcK :: int
  rcThreshold :: "float64 option"

definition recall :: "RecallInput \<Rightarrow> Result list tool"
  where "recall inp = do {
    meter (MCPCallRecorded ''recall'');
    (case (if rcKind inp = [] then Inr None else map_sum (\<lambda>e. e) Some (mcp_kind LongTerm (rcKind inp))) of
       Inl e \<Rightarrow> ret (Inl e)
     | Inr kind \<Rightarrow> do {
         r \<leftarrow> searchMemory (orDefault (rcWorkspace inp) ''default'') (rcQuery inp)
                \<lparr>soAgentID = rcAgentID inp, soKind = kind, soK = (if rcK inp \<noteq> 0 then rcK inp else 10),
                 soThreshold = rcThreshold inp\<rparr>;
         (case r of
            Inl err \<Rightarrow> ret (Inl (ToolFailed err))
          | Inr results \<Rightarrow> do { meter MemoryRead; ret (Inr results) })
       })
  }"

record MemoryHistoryInput =
  mhWorkspace :: string
  mhID :: string
  mhLimit :: int

record MemoryVersion =
  mvID :: string
  mvAgentID :: string
  mvKind :: string
  mvContent :: string
  mvMetadata :: "(string, string) fmap"
  mvCreatedAt :: string
  mvVersion :: int

definition memoryVersion :: "(instant \<Rightarrow> int) \<Rightarrow> Memory \<Rightarrow> MemoryVersion"
  where "memoryVersion zone m =
    \<lparr>mvID = mID m, mvAgentID = mAgentID m, mvKind = MemKind_String (mKind m), mvContent = mContent m,
     mvMetadata = mMetadata m, mvCreatedAt = RFC3339 (zone (mCreatedAt m)) (mCreatedAt m), mvVersion = mVersion m\<rparr>"

definition memoryHistory :: "MemoryHistoryInput \<Rightarrow> MemoryVersion list tool"
  where "memoryHistory inp = do {
    meter (MCPCallRecorded ''memory_history'');
    vs \<leftarrow> memoryHistoryCmd (orDefault (mhWorkspace inp) ''default'') (mhID inp);
    meter MemoryRead;
    zone \<leftarrow> ext_of aZone;
    ret (Inr (map (memoryVersion zone) (mostRecent (mhLimit inp) vs)))
  }"

section \<open>Consolidation and the graph\<close>

record ConsolidateInput =
  coAgentID :: string
  coWorkspace :: string
  coKind :: string
  coDedupThreshold :: float64

definition mcp_consolidate :: "ConsolidateInput \<Rightarrow> ConsolidateResult tool"
  where "mcp_consolidate inp = do {
    meter (MCPCallRecorded ''consolidate'');
    (case mcp_kind Episodic (coKind inp) of
       Inl e \<Rightarrow> ret (Inl e)
     | Inr kind \<Rightarrow> do {
         r \<leftarrow> consolidateCmd (orDefault (coWorkspace inp) ''default'') (coAgentID inp) kind (coDedupThreshold inp);
         (case r of
            Inl err \<Rightarrow> ret (Inl (ToolFailed err))
          | Inr result \<Rightarrow> do {
              meter ConsolidationPerformed;
              meter (MemoriesDeduped (int64 (SourceCount result - DedupedCount result)));
              ret (Inr result)
            })
       })
  }"

record ExtractEntitiesInput =
  eeWorkspace :: string
  eeMemoryID :: string

definition extractEntities :: "ExtractEntitiesInput \<Rightarrow> (int \<times> int) tool"
  where "extractEntities inp = do {
    meter (MCPCallRecorded ''extract_entities'');
    let w = orDefault (eeWorkspace inp) ''default'';
    r \<leftarrow> getMemory w (eeMemoryID inp);
    (case r of
       None \<Rightarrow> ret (Inl (NoSuchMemory (eeMemoryID inp) w))
     | Some mem \<Rightarrow> do {
         e \<leftarrow> extractCmd w mem;
         (case e of
            Inl err \<Rightarrow> ret (Inl (ToolFailed err))
          | Inr (entities, relations) \<Rightarrow> do {
              meter GraphExtractionPerformed;
              meter (EntitiesExtracted entities);
              meter (RelationsExtracted relations);
              ret (Inr (entities, relations))
            })
       })
  }"

record FindRelatedInput =
  frWorkspace :: string
  frNodeID :: string
  frDepth :: int

record FindRelatedMatch =
  fmID :: string
  fmLabel :: string
  fmHops :: int

definition findRelated :: "FindRelatedInput \<Rightarrow> FindRelatedMatch list tool"
  where "findRelated inp = do {
    meter (MCPCallRecorded ''find_related'');
    related \<leftarrow> relatedCmd (orDefault (frWorkspace inp) ''default'') (frNodeID inp) (if frDepth inp \<le> 0 then 1 else frDepth inp);
    ret (Inr (map (\<lambda>r. \<lparr>fmID = nID (rnNode r), fmLabel = nLabel (rnNode r), fmHops = Hops r\<rparr>) related))
  }"

section \<open>The registered tools\<close>

datatype mcpCall =
    CallCacheSemanticSet CacheSemanticSetInput
  | CallCacheSemanticGet CacheSemanticGetInput
  | CallCachePromptSet CachePromptSetInput
  | CallCachePromptGet CachePromptGetInput
  | CallToolCacheSet ToolCacheSetInput
  | CallToolCacheGet ToolCacheGetInput
  | CallStoreVector StoreVectorInput
  | CallFindSimilar FindSimilarInput
  | CallDeleteVector DeleteVectorInput
  | CallRemember RememberInput
  | CallRecall RecallInput
  | CallMemoryHistory MemoryHistoryInput
  | CallConsolidate ConsolidateInput
  | CallExtractEntities ExtractEntitiesInput
  | CallFindRelated FindRelatedInput

fun runTool :: "mcpCall \<Rightarrow> unit aicmd" where
  "runTool (CallCacheSemanticSet inp) = do { cacheSemanticSet inp; ret () }"
| "runTool (CallCacheSemanticGet inp) = do { cacheSemanticGet inp; ret () }"
| "runTool (CallCachePromptSet inp) = do { cachePromptSet inp; ret () }"
| "runTool (CallCachePromptGet inp) = do { cachePromptGet inp; ret () }"
| "runTool (CallToolCacheSet inp) = do { toolCacheSet inp; ret () }"
| "runTool (CallToolCacheGet inp) = do { toolCacheGet inp; ret () }"
| "runTool (CallStoreVector inp) = do { storeVector inp; ret () }"
| "runTool (CallFindSimilar inp) = do { findSimilar inp; ret () }"
| "runTool (CallDeleteVector inp) = do { deleteVector inp; ret () }"
| "runTool (CallRemember inp) = do { remember inp; ret () }"
| "runTool (CallRecall inp) = do { recall inp; ret () }"
| "runTool (CallMemoryHistory inp) = do { memoryHistory inp; ret () }"
| "runTool (CallConsolidate inp) = do { mcp_consolidate inp; ret () }"
| "runTool (CallExtractEntities inp) = do { extractEntities inp; ret () }"
| "runTool (CallFindRelated inp) = do { findRelated inp; ret () }"

lemma aiKeeps_Let [ai_intros]: "aiKeeps J K W (f a) \<Longrightarrow> aiKeeps J K W (let x = a in f x)"
  by simp

text \<open>Tools are clients of the stores like the handlers, without a check of the workspace.\<close>

context ai_contract
begin

lemma tools:
  assumes "W = UNIV"
  shows "aiKeeps J K W (runTool c)"
proof -
  have [simp]: "w \<in> W" for w using assms by simp
  show ?thesis
    by (cases c; simp only: runTool.simps cacheSemanticSet_def cacheSemanticGet_def cachePromptSet_def cachePromptGet_def toolCacheSet_def toolCacheGet_def storeVector_def findSimilar_def deleteVector_def remember_def recall_def memoryHistory_def mcp_consolidate_def extractEntities_def findRelated_def;
        intro ai_intros; simp)
qed

end

end
