(* ===== verification/FrontDoors.thy ===== *)
theory FrontDoors
  imports MCPTools
begin

text \<open>
  The two front doors of the server, RESP commands and MCP tools, over the same stores. \<open>agree w R m n\<close>
  is a simulation: from states that differ in the metrics only, where the connection that runs \<open>n\<close> may
  use workspace \<open>w\<close>, the results of \<open>m\<close> and \<open>n\<close> are related by \<open>R\<close> and the states still differ in the
  metrics only. A tool call thus has the same effect on the stores as the command it mirrors.
\<close>

definition linked :: "string \<Rightarrow> AIState Session \<Rightarrow> AIState Session \<Rightarrow> bool"
  where "linked w a b \<longleftrightarrow> client a = client b \<and> dEngine (deps a) = dEngine (deps b) \<and> dAuth (deps a) = dAuth (deps b) \<and>
    dPubSub (deps a) = dPubSub (deps b) \<and> dExt (deps a) = dExt (deps b) \<and> dEnv (deps a) = dEnv (deps b) \<and>
    dCalls (deps a) = dCalls (deps b) \<and> authorizedForWorkspace b w"

definition agree :: "string \<Rightarrow> ('a \<Rightarrow> 'b \<Rightarrow> bool) \<Rightarrow> 'a aicmd \<Rightarrow> 'b aicmd \<Rightarrow> bool"
  where "agree w R m n \<longleftrightarrow>
    (\<forall>a b. linked w a b \<longrightarrow>
       R (fst (run_state m a)) (fst (run_state n b)) \<and> linked w (snd (run_state m a)) (snd (run_state n b)))"

named_theorems agree_intros

lemma agree_ret [agree_intros]: "R x y \<Longrightarrow> agree w R (ret x) (ret y)"
  by (simp add: agree_def)

lemma agree_bind:
  assumes "agree w R m n" "\<And>x y. R x y \<Longrightarrow> agree w S (f x) (g y)"
  shows "agree w S (m \<bind> f) (n \<bind> g)"
  using assms unfolding agree_def by (simp add: split_beta)

lemma agree_eq [agree_intros]:
  assumes "agree w (=) m n" "\<And>x. agree w S (f x) (g x)"
  shows "agree w S (m \<bind> f) (n \<bind> g)"
  by (rule agree_bind [OF assms(1)]) (simp add: assms(2))

lemma agree_meter:
  "agree w R m n \<Longrightarrow> agree w R (do { meter f; m }) n"
  "agree w R m n \<Longrightarrow> agree w R m (do { meter f; n })"
  unfolding agree_def meter_def by (simp_all add: linked_def authorizedForWorkspace_def)

lemma agree_meters [agree_intros]: "agree w (=) (meter f) (meter g)"
  by (simp add: agree_def meter_def linked_def authorizedForWorkspace_def)

lemma agree_ai [agree_intros]: "agree w (=) (ai f) (ai f)"
  by (simp add: agree_def ai_def linked_def authorizedForWorkspace_def Let_def split_beta)

lemma agree_asks [agree_intros]: "agree w (=) (ext_of f) (ext_of f)"
  by (simp add: agree_def linked_def)

lemma agree_authorized: "agree w R m n \<Longrightarrow> agree w R m (authorized w n)"
  by (simp add: agree_def authorized_def linked_def)

lemma agree_splits [agree_intros]:
  "(b \<Longrightarrow> agree w R m m') \<Longrightarrow> (\<not> b \<Longrightarrow> agree w R n n') \<Longrightarrow> agree w R (if b then m else n) (if b then m' else n')"
  "(x = None \<Longrightarrow> agree w R m m') \<Longrightarrow> (\<And>a. x = Some a \<Longrightarrow> agree w R (g a) (g' a)) \<Longrightarrow>
     agree w R (case x of None \<Rightarrow> m | Some a \<Rightarrow> g a) (case x of None \<Rightarrow> m' | Some a \<Rightarrow> g' a)"
  "(\<And>a. y = Inl a \<Longrightarrow> agree w R (h a) (h' a)) \<Longrightarrow> (\<And>b. y = Inr b \<Longrightarrow> agree w R (k b) (k' b)) \<Longrightarrow>
     agree w R (case y of Inl a \<Rightarrow> h a | Inr b \<Rightarrow> k b) (case y of Inl a \<Rightarrow> h' a | Inr b \<Rightarrow> k' b)"
  "(\<And>a b. z = (a, b) \<Longrightarrow> agree w R (l a b) (l' a b)) \<Longrightarrow> agree w R (case z of (a, b) \<Rightarrow> l a b) (case z of (a, b) \<Rightarrow> l' a b)"
  by (auto split: option.splits sum.splits prod.splits)

lemma agree_calls [agree_intros]:
  "agree w (=) (EmbedOne t) (EmbedOne t)" "agree w (=) (Complete p q) (Complete p q)"
  "agree w (=) (noteComplete r) (noteComplete r)" "agree w (=) (noteEmbed e) (noteEmbed e)"
  "agree w (=) (track f) (track f)"
  unfolding EmbedOne_def EmbedBatchWithUsage_def instrumented_Embed_def Complete_def noteComplete_def noteEmbed_def track_def
  by (intro agree_intros refl)+

lemma agree_stores [agree_intros]:
  "agree w (=) (semanticSetCmd a b c d e f) (semanticSetCmd a b c d e f)" "agree w (=) (semanticGetCmd a b c f) (semanticGetCmd a b c f)"
  "agree w (=) (promptSetCmd key a e f) (promptSetCmd key a e f)" "agree w (=) (promptGetCmd key) (promptGetCmd key)"
  "agree w (=) (toolSetCmd key a e) (toolSetCmd key a e)" "agree w (=) (toolGetCmd key) (toolGetCmd key)"
  "agree w (=) (vectorUpsertCmd ns i v md txt) (vectorUpsertCmd ns i v md txt)"
  "agree w (=) (vectorSearchCmd ns v k mt flt hy) (vectorSearchCmd ns v k mt flt hy)"
  "agree w (=) (vectorDeleteCmd ns i) (vectorDeleteCmd ns i)" "agree w (=) (putMemory m ttl) (putMemory m ttl)"
  "agree w (=) (getMemory ws i) (getMemory ws i)" "agree w (=) (searchMemory ws q opts) (searchMemory ws q opts)"
  "agree w (=) (memoryHistoryCmd ws i) (memoryHistoryCmd ws i)" "agree w (=) (extractCmd ws mem) (extractCmd ws mem)"
  "agree w (=) (relatedCmd ws i h) (relatedCmd ws i h)" "agree w (=) (consolidateCmd ws ag kd th) (consolidateCmd ws ag kd th)"
  unfolding semanticSetCmd_def semanticGetCmd_def promptSetCmd_def promptGetCmd_def toolSetCmd_def toolGetCmd_def vectorUpsertCmd_def
    vectorSearchCmd_def vectorDeleteCmd_def putMemory_def getMemory_def searchMemory_def memoryHistoryCmd_def extractCmd_def
    relatedCmd_def consolidateCmd_def
  by (intro agree_intros refl)+

section \<open>What a tool returns, as the reply of a command\<close>

fun errorReply :: "mcpError \<Rightarrow> Reply" where
  "errorReply BadVariablesJSON = Err ErrInvalidJSONMsg"
| "errorReply BadArgsJSON = Err ErrInvalidToolArgsJSONMsg"
| "errorReply (NoSuchMemory _ _) = Err ErrNoSuchMemoryMsg"
| "errorReply (BadTemp _) = Err ErrNotFloatMsg"
| "errorReply (NegativeCost _) = Err ErrCostNegativeMsg"
| "errorReply (UnknownMetric _) = Err ErrSyntaxMsg"
| "errorReply (UnknownKind _) = Err ErrSyntaxMsg"
| "errorReply (ToolFailed err) = Err (''ERR '' @ err)"

definition replyAs :: "('a \<Rightarrow> Reply) \<Rightarrow> 'a tool \<Rightarrow> Reply aicmd"
  where "replyAs f m = do { r \<leftarrow> m; ret (case r of Inl e \<Rightarrow> errorReply e | Inr x \<Rightarrow> f x) }"

definition bulkOr :: "string option \<Rightarrow> Reply" where "bulkOr x = (case x of None \<Rightarrow> NullBulk | Some s \<Rightarrow> BulkString s)"

definition versionReply :: "MemoryVersion \<Rightarrow> Reply" \<comment> \<open>the fields of MEMORY.HISTORY\<close>
  where "versionReply v = ArraySlice
    [BulkString ''id'', BulkString (mvID v), BulkString ''agent_id'', BulkString (mvAgentID v),
     BulkString ''kind'', BulkString (mvKind v), BulkString ''content'', BulkString (mvContent v),
     BulkString ''metadata'', BulkString (MarshalStringMap (mvMetadata v)),
     BulkString ''created_at'', BulkString (mvCreatedAt v), BulkString ''version'', BulkString (Itoa (mvVersion v))]"

fun asCommand :: "mcpCall \<Rightarrow> Reply aicmd" where \<comment> \<open>the tool, with its result as a reply\<close>
  "asCommand (CallCacheSemanticSet inp) = replyAs (\<lambda>_. OK) (cacheSemanticSet inp)"
| "asCommand (CallCacheSemanticGet inp) = replyAs bulkOr (cacheSemanticGet inp)"
| "asCommand (CallCachePromptSet inp) = replyAs (\<lambda>_. OK) (cachePromptSet inp)"
| "asCommand (CallCachePromptGet inp) = replyAs bulkOr (cachePromptGet inp)"
| "asCommand (CallToolCacheSet inp) = replyAs (\<lambda>_. OK) (toolCacheSet inp)"
| "asCommand (CallToolCacheGet inp) = replyAs bulkOr (toolCacheGet inp)"
| "asCommand (CallStoreVector inp) = replyAs (\<lambda>_. OK) (storeVector inp)"
| "asCommand (CallFindSimilar inp) = replyAs (resultsReply True) (findSimilar inp)"
| "asCommand (CallDeleteVector inp) = replyAs (\<lambda>b. Integer (if b then 1 else 0)) (deleteVector inp)"
| "asCommand (CallRemember inp) = replyAs BulkString (remember inp)"
| "asCommand (CallRecall inp) = replyAs (resultsReply True) (recall inp)"
| "asCommand (CallMemoryHistory inp) =
    replyAs (\<lambda>vs. if vs = [] then NullArray else ArraySlice (map versionReply vs)) (memoryHistory inp)"
| "asCommand (CallConsolidate inp) =
    replyAs (\<lambda>r. if SourceCount r = 0 then NullBulk else BulkString (SummaryID r)) (mcp_consolidate inp)"
| "asCommand (CallExtractEntities inp) = replyAs (\<lambda>(e, r). ArraySlice [Integer e, Integer r]) (extractEntities inp)"
| "asCommand (CallFindRelated inp) = replyAs (\<lambda>ms. ArraySlice (map (\<lambda>m. BulkString (fmID m)) ms)) (findRelated inp)"

section \<open>The command that a tool call mirrors\<close>

text \<open>
  \<open>mirrors c w cmd\<close>: the command \<open>cmd\<close> says what the tool call \<open>c\<close> says, and is a command on workspace
  \<open>w\<close> when it is one on a workspace at all. All options are written out, a missing one with the default
  of the tool; numbers, vectors and metadata appear as texts that the server reads as the values of the
  tool's input. Where the front doors differ, the command says what the tool makes of its input: the
  metric of \<^verbatim>\<open>find_similar\<close> is trimmed, and a depth of \<^verbatim>\<open>find_related\<close> that is not positive is 1
  (GRAPH.RELATED refuses it).
\<close>

abbreviation workspaceOr :: "string \<Rightarrow> string" where "workspaceOr w \<equiv> orDefault w ''default''"

abbreviation filterArgs :: "(string, string) fmap \<Rightarrow> string list"
  where "filterArgs m \<equiv> concat (map (\<lambda>k. [''FILTER'', k, the (fmlookup m k)]) (fkeys m))"

abbreviation optArg :: "string \<Rightarrow> bool \<Rightarrow> string \<Rightarrow> string list" \<comment> \<open>an option that may be left out\<close>
  where "optArg name given v \<equiv> (if given then [name, v] else [])"

inductive mirrors :: "mcpCall \<Rightarrow> string \<Rightarrow> string list \<Rightarrow> bool" where
  semantic_set: "is_int64 (cssTTLSeconds i) \<Longrightarrow> ParseFloat ct = Some (cssCost i) \<Longrightarrow>
    mirrors (CallCacheSemanticSet i) w [''CACHE.SEMANTIC'', ''SET'', cssPrompt i, cssResponse i, ''MODEL'', orDefault (cssModel i) ''default'',
      ''TEMP'', orDefault (cssTemp i) ''0'', ''TTL'', FormatInt (cssTTLSeconds i), ''COST'', ct]"
| semantic_get: "(\<And>x. csgThreshold i = Some x \<Longrightarrow> ParseFloat tt = Some x) \<Longrightarrow>
    mirrors (CallCacheSemanticGet i) w ([''CACHE.SEMANTIC'', ''GET'', csgPrompt i, ''MODEL'', orDefault (csgModel i) ''default'',
      ''TEMP'', orDefault (csgTemp i) ''0''] @ optArg ''THRESHOLD'' (csgThreshold i \<noteq> None) tt)"
| prompt_set: "is_int64 (cpsTTLSeconds i) \<Longrightarrow> ParseFloat ct = Some (cpsCost i) \<Longrightarrow>
    mirrors (CallCachePromptSet i) w [''CACHE.PROMPT'', ''SET'', cpsTemplate i, cpsVariablesJSON i, cpsModel i, cpsResponse i,
      ''TTL'', FormatInt (cpsTTLSeconds i), ''COST'', ct]"
| prompt_get: "mirrors (CallCachePromptGet i) w [''CACHE.PROMPT'', ''GET'', cpgTemplate i, cpgVariablesJSON i, cpgModel i]"
| tool_set: "is_int64 (tcsTTLSeconds i) \<Longrightarrow>
    mirrors (CallToolCacheSet i) w [''TOOL.CACHE'', ''SET'', tcsToolName i, tcsArgsJSON i, tcsResult i, ''TTL'', FormatInt (tcsTTLSeconds i)]"
| tool_get: "mirrors (CallToolCacheGet i) w [''TOOL.CACHE'', ''GET'', tcgToolName i, tcgArgsJSON i]"
| store_vector: "parseVectorJSON vj = Some (svVector i) \<Longrightarrow> parseMetadataJSON mj = Some (svMetadata i) \<Longrightarrow>
    mirrors (CallStoreVector i) (svNamespace i) [''VECTOR.UPSERT'', svNamespace i, svID i, vj, ''METADATA'', mj, ''TEXT'', svText i]"
| find_similar: "parseVectorJSON vj = Some (fsVector i) \<Longrightarrow> k = (case fsK i of None \<Rightarrow> 10 | Some n \<Rightarrow> n) \<Longrightarrow> is_int64 k \<Longrightarrow>
    mirrors (CallFindSimilar i) (fsNamespace i) ([''VECTOR.SEARCH'', fsNamespace i, vj, ''K'', FormatInt k,
      ''METRIC'', orDefault (TrimSpace (fsMetric i)) ''COSINE''] @ filterArgs (fsFilter i) @ [''WITHSCORES''])"
| delete_vector: "mirrors (CallDeleteVector i) (dvNamespace i) [''VECTOR.DELETE'', dvNamespace i, dvID i]"
| remember: "is_int64 (reTTLSeconds i) \<Longrightarrow> parseMetadataJSON mj = Some (reMetadata i) \<Longrightarrow>
    mirrors (CallRemember i) (workspaceOr (reWorkspace i)) [''AGENT.REMEMBER'', reAgentID i, reContent i,
      ''WORKSPACE'', workspaceOr (reWorkspace i), ''KIND'', orDefault (reKind i) (MemKind_String LongTerm),
      ''METADATA'', mj, ''TTL'', FormatInt (reTTLSeconds i)]"
| recall: "is_int64 (rcK i) \<Longrightarrow> (\<And>x. rcThreshold i = Some x \<Longrightarrow> ParseFloat tt = Some x) \<Longrightarrow>
    mirrors (CallRecall i) (workspaceOr (rcWorkspace i)) ([''AGENT.RECALL'', rcAgentID i, rcQuery i, ''WORKSPACE'', workspaceOr (rcWorkspace i)] @
      optArg ''KIND'' (rcKind i \<noteq> []) (rcKind i) @ [''K'', FormatInt (if rcK i \<noteq> 0 then rcK i else 10)] @
      optArg ''THRESHOLD'' (rcThreshold i \<noteq> None) tt @ [''WITHSCORES''])"
| memory_history: "is_int64 (mhLimit i) \<Longrightarrow>
    mirrors (CallMemoryHistory i) (workspaceOr (mhWorkspace i)) [''MEMORY.HISTORY'', workspaceOr (mhWorkspace i), mhID i,
      ''LIMIT'', FormatInt (mhLimit i)]"
| consolidate: "ParseFloat tt = Some (coDedupThreshold i) \<Longrightarrow>
    mirrors (CallConsolidate i) (workspaceOr (coWorkspace i)) [''SUMMARY.CREATE'', coAgentID i, ''WORKSPACE'', workspaceOr (coWorkspace i),
      ''KIND'', orDefault (coKind i) (MemKind_String Episodic), ''DEDUP_THRESHOLD'', tt]"
| extract_entities: "mirrors (CallExtractEntities i) (workspaceOr (eeWorkspace i)) [''GRAPH.EXTRACT'', workspaceOr (eeWorkspace i), eeMemoryID i]"
| find_related: "is_int64 (frDepth i) \<Longrightarrow>
    mirrors (CallFindRelated i) (workspaceOr (frWorkspace i)) [''GRAPH.RELATED'', workspaceOr (frWorkspace i), frNodeID i,
      ''DEPTH'', FormatInt (if frDepth i \<le> 0 then 1 else frDepth i)]"

section \<open>Agreement\<close>

lemma option_names:
  "to_upper ''SET'' = ''SET''" "to_upper ''GET'' = ''GET''" "to_upper ''MODEL'' = ''MODEL''" "to_upper ''TEMP'' = ''TEMP''"
  "to_upper ''TTL'' = ''TTL''" "to_upper ''COST'' = ''COST''" "to_upper ''THRESHOLD'' = ''THRESHOLD''"
  "to_upper ''METADATA'' = ''METADATA''" "to_upper ''TEXT'' = ''TEXT''" "to_upper ''K'' = ''K''" "to_upper ''METRIC'' = ''METRIC''"
  "to_upper ''FILTER'' = ''FILTER''" "to_upper ''WITHSCORES'' = ''WITHSCORES''" "to_upper ''WORKSPACE'' = ''WORKSPACE''"
  "to_upper ''KIND'' = ''KIND''" "to_upper ''DEPTH'' = ''DEPTH''" "to_upper ''DEDUP_THRESHOLD'' = ''DEDUP_THRESHOLD''"
  "map upper_char ''LIMIT'' = ''LIMIT''" "to_upper ''COSINE'' = ''COSINE''"
  by code_simp+

lemma ttlArg_print: "is_int64 n \<Longrightarrow> ttlArg (FormatInt n) = Some (ttlFromSeconds n)"
  by (simp add: ttlArg_def ttlFromSeconds_def ParseInt_FormatInt)

lemma default_texts: "ParseFloat ''0'' \<noteq> None" "ParseKind (MemKind_String LongTerm) = Some LongTerm"
  "ParseKind (MemKind_String Episodic) = Some Episodic"
  by code_simp+

lemma agree_replyAs:
  assumes "agree w (\<lambda>r reply. reply = (case r of Inl e \<Rightarrow> errorReply e | Inr x \<Rightarrow> f x)) m n"
  shows "agree w (=) (replyAs f m) n"
  using assms by (auto simp: agree_def replyAs_def split_beta)

text \<open>Handlers and tools make the same calls; what differs is the counting.\<close>

lemmas agree_search = agree_replyAs agree_meter agree_authorized agree_intros

lemma to_upper_Nil [simp]: "to_upper s = [] \<longleftrightarrow> s = []"
  by (cases s rule: to_upper.cases) auto

lemma metric_mirror:
  "parseMetric (orDefault (TrimSpace m) ''COSINE'') = (case mcp_parseMetric m of Inl _ \<Rightarrow> None | Inr d \<Rightarrow> Some d)"
  "mcp_parseMetric m = Inl e \<Longrightarrow> errorReply e = Err ErrSyntaxMsg"
  by (auto simp: parseMetric_def mcp_parseMetric_def orDefault_def Let_def option_names simp del: to_upper.simps split: if_splits)

lemma filters_mirror:
  "vectorSearchOpts (concat (map (\<lambda>k. [''FILTER'', k, the (fmlookup m k)]) ks) @ rest) p =
    vectorSearchOpts rest (p\<lparr>vsFilter := fold (\<lambda>k. fmupd k (the (fmlookup m k))) ks (vsFilter p)\<rparr>)"
  by (induction ks arbitrary: p) (simp_all add: option_names Let_def del: to_upper.simps)

lemma fold_fkeys: "fold (\<lambda>k. fmupd k (the (fmlookup m k))) (fkeys m) fmempty = m"
proof (rule fmap_ext)
  have "fmlookup (fold (\<lambda>k. fmupd k (the (fmlookup m k))) ks f) x = (if x \<in> set ks then Some (the (fmlookup m x)) else fmlookup f x)" for ks f x
    by (induction ks arbitrary: f) auto
  moreover have "x \<in> set (fkeys m) \<longleftrightarrow> fmlookup m x \<noteq> None" for x by (auto simp: fmdom'_lookup)
  ultimately show "fmlookup (fold (\<lambda>k. fmupd k (the (fmlookup m k))) (fkeys m) fmempty) x = fmlookup m x" for x
    by (cases "fmlookup m x") auto
qed

lemma temp_mirror:
  "mcp_temp t = (case ParseFloat (orDefault t ''0'') of None \<Rightarrow> Inl (BadTemp t) | Some _ \<Rightarrow> Inr (orDefault t ''0''))"
  using default_texts(1) by (cases "t = []") (auto simp: mcp_temp_def orDefault_def split: option.split)

lemma kind_mirror:
  assumes "ParseKind (MemKind_String d) = Some d"
  shows "mcp_kind d k = (case ParseKind (orDefault k (MemKind_String d)) of None \<Rightarrow> Inl (UnknownKind k) | Some kd \<Rightarrow> Inr kd)"
  using assms by (cases "k = []") (auto simp: mcp_kind_def orDefault_def split: option.split)

lemma semantic_set_agrees:
  assumes "is_int64 (cssTTLSeconds i)" "ParseFloat ct = Some (cssCost i)"
  shows "agree w (=) (asCommand (CallCacheSemanticSet i)) (handleCacheSemantic [''CACHE.SEMANTIC'', ''SET'', cssPrompt i, cssResponse i,
    ''MODEL'', orDefault (cssModel i) ''default'', ''TEMP'', orDefault (cssTemp i) ''0'', ''TTL'', FormatInt (cssTTLSeconds i), ''COST'', ct])"
  using assms
  by (cases "ParseFloat (orDefault (cssTemp i) ''0'')";
      simp add: cacheSemanticSet_def handleCacheSemantic_def handleCacheSemanticSet_def option_names temp_mirror ttlArg_print
        parseCostArg_def semDefaults_def del: to_upper.simps; intro conjI impI agree_search; simp split: sum.split)

lemma semantic_get_agrees:
  assumes "\<And>x. csgThreshold i = Some x \<Longrightarrow> ParseFloat tt = Some x"
  shows "agree w (=) (asCommand (CallCacheSemanticGet i)) (handleCacheSemantic ([''CACHE.SEMANTIC'', ''GET'', csgPrompt i,
    ''MODEL'', orDefault (csgModel i) ''default'', ''TEMP'', orDefault (csgTemp i) ''0''] @ optArg ''THRESHOLD'' (csgThreshold i \<noteq> None) tt))"
  using assms
  by (cases "ParseFloat (orDefault (csgTemp i) ''0'')"; cases "csgThreshold i";
      simp add: cacheSemanticGet_def handleCacheSemantic_def handleCacheSemanticGet_def option_names temp_mirror
        semDefaults_def del: to_upper.simps; intro conjI impI agree_search; simp add: bulkOr_def agree_calls)

lemma prompt_set_agrees:
  assumes "is_int64 (cpsTTLSeconds i)" "ParseFloat ct = Some (cpsCost i)"
  shows "agree w (=) (asCommand (CallCachePromptSet i)) (handleCachePrompt [''CACHE.PROMPT'', ''SET'', cpsTemplate i, cpsVariablesJSON i,
    cpsModel i, cpsResponse i, ''TTL'', FormatInt (cpsTTLSeconds i), ''COST'', ct])"
  using assms
  by (simp add: cachePromptSet_def handleCachePrompt_def handleCachePromptSet_def option_names ttlArg_print parseCostArg_def del: to_upper.simps)
    (intro conjI impI agree_search; simp add: agree_stores)

lemma prompt_get_agrees:
  "agree w (=) (asCommand (CallCachePromptGet i)) (handleCachePrompt [''CACHE.PROMPT'', ''GET'', cpgTemplate i, cpgVariablesJSON i, cpgModel i])"
  by (simp add: cachePromptGet_def handleCachePrompt_def handleCachePromptGet_def option_names del: to_upper.simps)
    (intro agree_search; simp add: bulkOr_def agree_calls)

lemma tool_set_agrees:
  assumes "is_int64 (tcsTTLSeconds i)"
  shows "agree w (=) (asCommand (CallToolCacheSet i)) (handleToolCache [''TOOL.CACHE'', ''SET'', tcsToolName i, tcsArgsJSON i, tcsResult i,
    ''TTL'', FormatInt (tcsTTLSeconds i)])"
  using assms
  by (simp add: toolCacheSet_def handleToolCache_def handleToolCacheSet_def option_names ttlArg_print del: to_upper.simps)
    (intro agree_search; simp add: agree_stores)

lemma tool_get_agrees:
  "agree w (=) (asCommand (CallToolCacheGet i)) (handleToolCache [''TOOL.CACHE'', ''GET'', tcgToolName i, tcgArgsJSON i])"
proof -
  have m: "agree w (\<lambda>x reply. reply = (case x of Inl e \<Rightarrow> errorReply e | Inr x \<Rightarrow> bulkOr x))
      (do { meter (if r = None then ToolCacheMiss else ToolCacheHit); ret (Inr r) })
      (case r of None \<Rightarrow> do { meter ToolCacheMiss; ret NullBulk } | Some s \<Rightarrow> do { meter ToolCacheHit; ret (BulkString s) })" for r
    by (cases r; simp; intro agree_intros; simp add: bulkOr_def)
  show ?thesis
    by (simp add: toolCacheGet_def handleToolCache_def handleToolCacheGet_def option_names del: to_upper.simps)
      (intro agree_replyAs agree_meter(1) agree_splits agree_eq [OF agree_stores(6)] m agree_ret; simp)
qed

lemma store_vector_agrees:
  assumes "parseVectorJSON vj = Some (svVector i)" "parseMetadataJSON mj = Some (svMetadata i)"
  shows "agree (svNamespace i) (=) (asCommand (CallStoreVector i))
    (handleVectorUpsert [''VECTOR.UPSERT'', svNamespace i, svID i, vj, ''METADATA'', mj, ''TEXT'', svText i])"
  using assms
  by (simp add: storeVector_def handleVectorUpsert_def option_names del: to_upper.simps) (intro agree_search; simp)

lemma find_similar_agrees:
  assumes "parseVectorJSON vj = Some (fsVector i)" "k = (case fsK i of None \<Rightarrow> 10 | Some n \<Rightarrow> n)" "is_int64 k"
  shows "agree (fsNamespace i) (=) (asCommand (CallFindSimilar i)) (handleVectorSearch ([''VECTOR.SEARCH'', fsNamespace i, vj, ''K'', FormatInt k,
    ''METRIC'', orDefault (TrimSpace (fsMetric i)) ''COSINE''] @ filterArgs (fsFilter i) @ [''WITHSCORES'']))"
proof (cases "mcp_parseMetric (fsMetric i)")
  case (Inl e)
  with assms metric_mirror(1) [of "fsMetric i"] metric_mirror(2) [OF Inl] show ?thesis
    by (simp add: findSimilar_def handleVectorSearch_def option_names ParseInt_FormatInt del: to_upper.simps) (intro agree_search; simp)
next
  case (Inr d)
  with assms metric_mirror(1) [of "fsMetric i"] show ?thesis
    by (simp add: findSimilar_def handleVectorSearch_def option_names ParseInt_FormatInt filters_mirror fold_fkeys vsDefaults_def del: to_upper.simps)
      (intro agree_search; simp)
qed

lemma delete_agrees:
  "agree (dvNamespace i) (=) (asCommand (CallDeleteVector i)) (handleVectorDelete [''VECTOR.DELETE'', dvNamespace i, dvID i])"
  by (simp add: deleteVector_def handleVectorDelete_def) (intro agree_search; simp)

lemma remember_agrees:
  assumes "is_int64 (reTTLSeconds i)" "parseMetadataJSON mj = Some (reMetadata i)"
  shows "agree (workspaceOr (reWorkspace i)) (=) (asCommand (CallRemember i)) (handleAgentRemember [''AGENT.REMEMBER'', reAgentID i, reContent i,
    ''WORKSPACE'', workspaceOr (reWorkspace i), ''KIND'', orDefault (reKind i) (MemKind_String LongTerm),
    ''METADATA'', mj, ''TTL'', FormatInt (reTTLSeconds i)])"
  using assms
  by (cases "ParseKind (orDefault (reKind i) (MemKind_String LongTerm))";
      simp add: remember_def handleAgentRemember_def storeMemory_def option_names kind_mirror [OF default_texts(2)] ttlArg_print
        putDefaults_def argMemory_def del: to_upper.simps; intro agree_search; simp)

lemma recall_agrees:
  assumes "is_int64 (rcK i)" "\<And>x. rcThreshold i = Some x \<Longrightarrow> ParseFloat tt = Some x"
  shows "agree (workspaceOr (rcWorkspace i)) (=) (asCommand (CallRecall i)) (handleAgentRecall ([''AGENT.RECALL'', rcAgentID i, rcQuery i,
    ''WORKSPACE'', workspaceOr (rcWorkspace i)] @ optArg ''KIND'' (rcKind i \<noteq> []) (rcKind i) @
    [''K'', FormatInt (if rcK i \<noteq> 0 then rcK i else 10)] @ optArg ''THRESHOLD'' (rcThreshold i \<noteq> None) tt @ [''WITHSCORES'']))"
proof -
  have k: "ParseInt (FormatInt (if rcK i \<noteq> 0 then rcK i else 10)) = Some (if rcK i \<noteq> 0 then rcK i else 10)"
    using assms(1) by (intro ParseInt_FormatInt) (simp add: is_int64_def)
  have t: "case rcThreshold i of None \<Rightarrow> True | Some x \<Rightarrow> ParseFloat tt = Some x" using assms(2) by (cases "rcThreshold i") auto
  show ?thesis
    using t
    by (cases "rcKind i = []"; cases "ParseKind (rcKind i)"; cases "rcThreshold i";
        simp add: recall_def handleAgentRecall_def findMemories_def option_names mcp_kind_def k del: to_upper.simps;
        intro conjI impI agree_search; simp)
qed

lemma memory_history_agrees:
  assumes "is_int64 (mhLimit i)"
  shows "agree (workspaceOr (mhWorkspace i)) (=) (asCommand (CallMemoryHistory i)) (handleMemoryHistory
    [''MEMORY.HISTORY'', workspaceOr (mhWorkspace i), mhID i, ''LIMIT'', FormatInt (mhLimit i)])"
proof -
  have e: "mostRecent n vs = [] \<longleftrightarrow> vs = []" for n vs by (auto simp: mostRecent_def)
  have v: "versionReply (memoryVersion zone m) = ArraySlice (memoryFieldsReply zone m)" for zone m
    by (simp add: versionReply_def memoryVersion_def memoryFieldsReply_def)
  have u: "upper_char CHR ''L'' = CHR ''L''" "upper_char CHR ''I'' = CHR ''I''" "upper_char CHR ''M'' = CHR ''M''" "upper_char CHR ''T'' = CHR ''T''"
    by code_simp+
  show ?thesis
    using assms
    by (simp add: memoryHistory_def handleMemoryHistory_def historyLimit_def u ParseInt_FormatInt)
      (intro agree_search; simp add: agree_def e v comp_def)
qed

lemma consolidate_agrees:
  assumes "ParseFloat tt = Some (coDedupThreshold i)"
  shows "agree (workspaceOr (coWorkspace i)) (=) (asCommand (CallConsolidate i)) (handleSummaryCreate [''SUMMARY.CREATE'', coAgentID i,
    ''WORKSPACE'', workspaceOr (coWorkspace i), ''KIND'', orDefault (coKind i) (MemKind_String Episodic), ''DEDUP_THRESHOLD'', tt])"
  using assms
  by (cases "ParseKind (orDefault (coKind i) (MemKind_String Episodic))";
      simp add: mcp_consolidate_def handleSummaryCreate_def option_names kind_mirror [OF default_texts(3)] del: to_upper.simps;
      intro agree_search; simp)

lemma extract_agrees:
  "agree (workspaceOr (eeWorkspace i)) (=) (asCommand (CallExtractEntities i))
    (handleGraphExtract [''GRAPH.EXTRACT'', workspaceOr (eeWorkspace i), eeMemoryID i])"
  by (simp add: extractEntities_def handleGraphExtract_def Let_def) (intro agree_search; simp add: agree_stores)

lemma related_agrees:
  assumes "is_int64 (frDepth i)"
  shows "agree (workspaceOr (frWorkspace i)) (=) (asCommand (CallFindRelated i)) (handleGraphRelated [''GRAPH.RELATED'',
    workspaceOr (frWorkspace i), frNodeID i, ''DEPTH'', FormatInt (if frDepth i \<le> 0 then 1 else frDepth i)])"
proof -
  have k: "ParseInt (FormatInt (if frDepth i \<le> 0 then 1 else frDepth i)) = Some (if frDepth i \<le> 0 then 1 else frDepth i)"
    using assms by (intro ParseInt_FormatInt) (simp add: is_int64_def)
  show ?thesis
    by (simp add: findRelated_def handleGraphRelated_def option_names k del: to_upper.simps)
      (intro conjI impI agree_search; simp add: comp_def)
qed

lemmas tools_agree = semantic_set_agrees semantic_get_agrees prompt_set_agrees prompt_get_agrees tool_set_agrees tool_get_agrees
  store_vector_agrees find_similar_agrees delete_agrees remember_agrees recall_agrees memory_history_agrees consolidate_agrees
  extract_agrees related_agrees

lemma mirrors_agree:
  assumes "mirrors c w cmd"
  shows "agree w (=) (asCommand c) (aiHandler (hd cmd) cmd)"
  using assms
proof cases
  case (recall i tt)
  then show ?thesis using recall_agrees [of i tt] by (simp add: aiHandler_def del: asCommand.simps)
next
  case (find_similar vj i k)
  then show ?thesis using find_similar_agrees [of vj i k] by (simp add: aiHandler_def del: asCommand.simps)
next
  case (semantic_get i tt)
  then show ?thesis using semantic_get_agrees [of i tt] by (simp add: aiHandler_def del: asCommand.simps)
qed (simp_all add: aiHandler_def tools_agree del: asCommand.simps MemKind_String.simps)

end
