(* ===== verification/Config.thy ===== *)
theory Config
  imports Trim Auth Eviction Strconv "HOL-Library.Finite_Map"
begin

unbundle bit_operations_syntax

text \<open>
  Start-up configuration: \<^verbatim>\<open>cmd/cachepotd/main.go\<close> (the \<^verbatim>\<open>.env\<close> file, environment variables and
  command-line flags, with the part of Go's \<^verbatim>\<open>flag\<close> package they use) and
  \<^verbatim>\<open>internal/server/config.go\<close>. The process environment is a finite map; the outcome of
  \<^verbatim>\<open>flag.Parse\<close> that ends the process, for help or a wrong argument, is an error value.
\<close>

section \<open>The .env file\<close>

type_synonym environ = "(string, string) fmap"

definition Getenv :: "environ \<Rightarrow> string \<Rightarrow> string"
  where "Getenv e k = (case fmlookup e k of None \<Rightarrow> [] | Some v \<Rightarrow> v)"

definition Setenv :: "string \<Rightarrow> string \<Rightarrow> environ \<Rightarrow> environ" \<comment> \<open>refused for an empty name, or \<open>=\<close> or NUL in the name, or NUL in the value\<close>
  where "Setenv k v e =
    (if k = [] \<or> CHR ''='' \<in> set k \<or> CHR 0x00 \<in> set k \<or> CHR 0x00 \<in> set v then e else fmupd k v e)"

definition dotEnvLine :: "string \<Rightarrow> environ \<Rightarrow> environ"
  where "dotEnvLine raw e =
    (let line = TrimSpace raw in
     if line = [] \<or> hd line = CHR ''#'' then e
     else
       (case Cut (CHR ''='') line of
          None \<Rightarrow> e
        | Some (k, v) \<Rightarrow>
            let key = TrimSpace k; val = Trim {CHR 0x22, CHR 0x27} (TrimSpace v)
            in if key = [] then e
               else if fmlookup e key = None then Setenv key val e else e))"

definition loadDotEnv :: "string option \<Rightarrow> environ \<Rightarrow> environ" \<comment> \<open>\<open>None\<close>: the file cannot be read\<close>
  where "loadDotEnv file e =
    (case file of None \<Rightarrow> e | Some txt \<Rightarrow> fold dotEnvLine (Split (CHR 0x0A) txt) e)"

section \<open>Workspace credentials\<close>

fun credentialParts :: "string list \<Rightarrow> string + Credential list" where
  "credentialParts [] = Inr []"
| "credentialParts (part # parts) =
    (case Cut (CHR '':'') part of
       None \<Rightarrow> Inl part
     | Some (w, pw) \<Rightarrow>
         if w = [] \<or> pw = [] then Inl part
         else map_sum (\<lambda>e. e) (Cons \<lparr>credWorkspace = w, credPassword = pw\<rparr>) (credentialParts parts))"

definition parseWorkspaceCredentials :: "string \<Rightarrow> string + Credential list"
  where "parseWorkspaceCredentials s = (if s = [] then Inr [] else credentialParts (Split (CHR '','') s))"

section \<open>Integers of the flag package\<close>

definition lower :: "char \<Rightarrow> char" \<comment> \<open>\<^verbatim>\<open>c | ('x' - 'X')\<close>\<close>
  where "lower c = char_of (of_char c OR (32 :: nat))"

definition alnum_val :: "char \<Rightarrow> nat option"
  where "alnum_val c =
    (if is_digit c then Some (digit_val c)
     else if CHR ''a'' \<le> lower c \<and> lower c \<le> CHR ''z'' then Some (of_char (lower c) - 97 + 10)
     else None)"

fun digitsBase :: "nat \<Rightarrow> string \<Rightarrow> nat \<Rightarrow> nat option" where \<comment> \<open>underscores are skipped\<close>
  "digitsBase b [] n = Some n"
| "digitsBase b (c # s) n =
    (if c = CHR ''_'' then digitsBase b s n
     else case alnum_val c of None \<Rightarrow> None | Some d \<Rightarrow> if d \<ge> b then None else digitsBase b s (b * n + d))"

datatype lastSaw = SawStart | SawDigit | SawUnderscore | SawOther

fun underscoreLoop :: "bool \<Rightarrow> lastSaw \<Rightarrow> string \<Rightarrow> bool" where
  "underscoreLoop hex saw [] \<longleftrightarrow> saw \<noteq> SawUnderscore"
| "underscoreLoop hex saw (c # s) \<longleftrightarrow>
    (if is_digit c \<or> hex \<and> CHR ''a'' \<le> lower c \<and> lower c \<le> CHR ''f'' then underscoreLoop hex SawDigit s
     else if c = CHR ''_'' then saw = SawDigit \<and> underscoreLoop hex SawUnderscore s
     else saw \<noteq> SawUnderscore \<and> underscoreLoop hex SawOther s)"

definition underscoreOK :: "string \<Rightarrow> bool" \<comment> \<open>of a text without sign\<close>
  where "underscoreOK s =
    (if length s \<ge> 2 \<and> hd s = CHR ''0'' \<and> lower (s ! 1) \<in> {CHR ''b'', CHR ''o'', CHR ''x''}
     then underscoreLoop (lower (s ! 1) = CHR ''x'') SawDigit (drop 2 s)
     else underscoreLoop False SawStart s)"

definition parseUint0 :: "string \<Rightarrow> nat option" \<comment> \<open>\<^verbatim>\<open>ParseUint(s, 0, 64)\<close>, before the range check\<close>
  where "parseUint0 s =
    (if s = [] then None
     else
       let (b, body) =
         (if hd s \<noteq> CHR ''0'' then (10, s)
          else if length s \<ge> 3 \<and> lower (s ! 1) = CHR ''b'' then (2, drop 2 s)
          else if length s \<ge> 3 \<and> lower (s ! 1) = CHR ''o'' then (8, drop 2 s)
          else if length s \<ge> 3 \<and> lower (s ! 1) = CHR ''x'' then (16, drop 2 s)
          else (8, tl s))
       in case digitsBase b body 0 of
            None \<Rightarrow> None
          | Some n \<Rightarrow> if CHR ''_'' \<in> set body \<and> \<not> underscoreOK s then None else Some n)"

definition parseInt0 :: "string \<Rightarrow> int option" \<comment> \<open>\<^verbatim>\<open>ParseInt(s, 0, 64)\<close>\<close>
  where "parseInt0 s =
    (let neg = (s \<noteq> [] \<and> hd s = CHR ''-'');
         body = (if s \<noteq> [] \<and> (hd s = CHR ''-'' \<or> hd s = CHR ''+'') then tl s else s)
     in case parseUint0 body of
          None \<Rightarrow> None
        | Some n \<Rightarrow> let v = (if neg then - int n else int n) in if is_int64 v then Some v else None)"

section \<open>Flags\<close>

datatype flagVal = FInt int | FStr string

type_synonym flags = "(string, flagVal) fmap"

datatype flagError = HelpRequested | BadSyntax string | NotDefined string | NeedsArgument string | InvalidValue string string

fun setFlag :: "flagVal \<Rightarrow> string \<Rightarrow> flagVal option" where \<comment> \<open>\<^verbatim>\<open>Value.Set\<close>\<close>
  "setFlag (FInt _) s = map_option FInt (parseInt0 s)"
| "setFlag (FStr _) s = Some (FStr s)"

definition splitFlag :: "string \<Rightarrow> string \<times> string option" \<comment> \<open>the name, and the value after an equals sign that is not the first character\<close>
  where "splitFlag name =
    (case Cut (CHR ''='') (tl name) of None \<Rightarrow> (name, None) | Some (n, v) \<Rightarrow> (hd name # n, Some v))"

function parseFlags :: "string list \<Rightarrow> flags \<Rightarrow> flagError + flags" where
  "parseFlags [] f = Inr f"
| "parseFlags (s # args) f =
    (if length s < 2 \<or> hd s \<noteq> CHR ''-'' \<or> s = ''--'' then Inr f
     else
       let name = (if s ! 1 = CHR ''-'' then drop 2 s else tl s) in
       if name = [] \<or> hd name = CHR ''-'' \<or> hd name = CHR ''='' then Inl (BadSyntax s)
       else
         (case splitFlag name of
            (n, val) \<Rightarrow>
              (case fmlookup f n of
                 None \<Rightarrow> Inl (if n = ''help'' \<or> n = ''h'' then HelpRequested else NotDefined n)
               | Some fv \<Rightarrow>
                   (case (val, args) of
                      (Some v, _) \<Rightarrow>
                        (case setFlag fv v of None \<Rightarrow> Inl (InvalidValue v n) | Some fv' \<Rightarrow> parseFlags args (fmupd n fv' f))
                    | (None, v # args') \<Rightarrow>
                        (case setFlag fv v of None \<Rightarrow> Inl (InvalidValue v n) | Some fv' \<Rightarrow> parseFlags args' (fmupd n fv' f))
                    | (None, []) \<Rightarrow> Inl (NeedsArgument n)))))"
  by pat_completeness auto
termination by (relation "measure (length \<circ> fst)") auto

section \<open>Configuration\<close>

record Config =
  cfgPort :: int
  cfgPassword :: string
  cfgWorkspaceCredentials :: "Credential list"
  cfgMaxConnections :: int
  cfgEmbedProvider :: string
  cfgOpenAIAPIKey :: string
  cfgOpenAIAPIBase :: string
  cfgCompletionProvider :: string
  cfgOpenAICompletionModel :: string
  cfgMCPPort :: int
  cfgMaxEntries :: int
  cfgEvictionPolicy :: string

definition DefaultPort :: int where "DefaultPort = 6380"
definition DefaultMaxConnections :: int where "DefaultMaxConnections = 10000"
definition DefaultEmbedProvider :: string where "DefaultEmbedProvider = ''mock''"
definition DefaultCompletionProvider :: string where "DefaultCompletionProvider = ''mock''"
definition DefaultOpenAICompletionModel :: string where "DefaultOpenAICompletionModel = ''gpt-4o-mini''"
definition DefaultMCPPort :: int where "DefaultMCPPort = 6381"
definition DefaultMaxEntries :: int where "DefaultMaxEntries = 0"
definition DefaultEvictionPolicy :: string where "DefaultEvictionPolicy = ''lru''"

definition DefaultConfig :: Config
  where "DefaultConfig =
    \<lparr>cfgPort = DefaultPort, cfgPassword = [], cfgWorkspaceCredentials = [], cfgMaxConnections = DefaultMaxConnections,
     cfgEmbedProvider = DefaultEmbedProvider, cfgOpenAIAPIKey = [], cfgOpenAIAPIBase = [],
     cfgCompletionProvider = DefaultCompletionProvider, cfgOpenAICompletionModel = DefaultOpenAICompletionModel,
     cfgMCPPort = DefaultMCPPort, cfgMaxEntries = DefaultMaxEntries, cfgEvictionPolicy = DefaultEvictionPolicy\<rparr>"

definition envInt :: "environ \<Rightarrow> string \<Rightarrow> int \<Rightarrow> int" \<comment> \<open>the default when unset, empty or not a number\<close>
  where "envInt e k d = (if Getenv e k = [] then d else case Atoi (Getenv e k) of None \<Rightarrow> d | Some n \<Rightarrow> n)"

definition envStr :: "environ \<Rightarrow> string \<Rightarrow> string \<Rightarrow> string"
  where "envStr e k d = (if Getenv e k = [] then d else Getenv e k)"

definition flagDefaults :: "environ \<Rightarrow> flags"
  where "flagDefaults e = fmap_of_list
    [(''port'', FInt (envInt e ''CACHEPOT_PORT'' DefaultPort)),
     (''password'', FStr []),
     (''workspace-credentials'', FStr []),
     (''max-connections'', FInt (envInt e ''CACHEPOT_MAX_CONNECTIONS'' DefaultMaxConnections)),
     (''embed-provider'', FStr (envStr e ''CACHEPOT_EMBED_PROVIDER'' DefaultEmbedProvider)),
     (''openai-api-key'', FStr []),
     (''openai-api-base'', FStr (Getenv e ''OPENAI_API_BASE'')),
     (''completion-provider'', FStr (envStr e ''CACHEPOT_COMPLETION_PROVIDER'' DefaultCompletionProvider)),
     (''openai-completion-model'', FStr (envStr e ''OPENAI_COMPLETION_MODEL'' DefaultOpenAICompletionModel)),
     (''mcp-port'', FInt (envInt e ''CACHEPOT_MCP_PORT'' DefaultMCPPort)),
     (''max-entries'', FInt (envInt e ''CACHEPOT_MAX_ENTRIES'' DefaultMaxEntries)),
     (''eviction-policy'', FStr (envStr e ''CACHEPOT_EVICTION_POLICY'' DefaultEvictionPolicy))]"

definition intFlag :: "flags \<Rightarrow> string \<Rightarrow> int"
  where "intFlag f n = (case fmlookup f n of Some (FInt i) \<Rightarrow> i | _ \<Rightarrow> 0)"

definition strFlag :: "flags \<Rightarrow> string \<Rightarrow> string"
  where "strFlag f n = (case fmlookup f n of Some (FStr s) \<Rightarrow> s | _ \<Rightarrow> [])"

definition secretFlag :: "environ \<Rightarrow> flags \<Rightarrow> string \<Rightarrow> string \<Rightarrow> string" \<comment> \<open>the flag, or the environment when it is empty\<close>
  where "secretFlag e f n k = (if strFlag f n = [] then Getenv e k else strFlag f n)"

datatype configError = FlagError flagError | BadCredential string

definition parseConfig :: "environ \<Rightarrow> string list \<Rightarrow> configError + Config"
  where "parseConfig e args =
    (case parseFlags args (flagDefaults e) of
       Inl err \<Rightarrow> Inl (FlagError err)
     | Inr f \<Rightarrow>
         (case parseWorkspaceCredentials (secretFlag e f ''workspace-credentials'' ''CACHEPOT_WORKSPACE_CREDENTIALS'') of
            Inl part \<Rightarrow> Inl (BadCredential part)
          | Inr creds \<Rightarrow> Inr
              \<lparr>cfgPort = intFlag f ''port'', cfgPassword = secretFlag e f ''password'' ''CACHEPOT_PASSWORD'',
               cfgWorkspaceCredentials = creds, cfgMaxConnections = intFlag f ''max-connections'',
               cfgEmbedProvider = strFlag f ''embed-provider'',
               cfgOpenAIAPIKey = secretFlag e f ''openai-api-key'' ''OPENAI_API_KEY'',
               cfgOpenAIAPIBase = strFlag f ''openai-api-base'', cfgCompletionProvider = strFlag f ''completion-provider'',
               cfgOpenAICompletionModel = strFlag f ''openai-completion-model'', cfgMCPPort = intFlag f ''mcp-port'',
               cfgMaxEntries = intFlag f ''max-entries'', cfgEvictionPolicy = strFlag f ''eviction-policy''\<rparr>))"

section \<open>What the sources of the configuration are worth\<close>

text \<open>A variable of the real environment is never overridden by the file.\<close>

lemma dotEnvLine_keeps: "fmlookup e k = Some v \<Longrightarrow> fmlookup (dotEnvLine l e) k = Some v"
  by (auto simp: dotEnvLine_def Setenv_def Let_def split: option.splits)

lemma loadDotEnv_keeps: "fmlookup e k = Some v \<Longrightarrow> fmlookup (loadDotEnv file e) k = Some v"
proof -
  have "fmlookup e k = Some v \<Longrightarrow> fmlookup (fold dotEnvLine ls e) k = Some v" for ls
    by (induction ls arbitrary: e) (simp_all add: dotEnvLine_keeps)
  then show "fmlookup e k = Some v \<Longrightarrow> ?thesis" by (auto simp: loadDotEnv_def split: option.split)
qed

text \<open>Credentials written in the documented form are read back.\<close>

definition credText :: "Credential \<Rightarrow> string"
  where "credText c = credWorkspace c @ CHR '':'' # credPassword c"

definition cred_ok :: "Credential \<Rightarrow> bool"
  where "cred_ok c \<longleftrightarrow> credWorkspace c \<noteq> [] \<and> credPassword c \<noteq> [] \<and> CHR '':'' \<notin> set (credWorkspace c) \<and>
    CHR '','' \<notin> set (credWorkspace c) \<and> CHR '','' \<notin> set (credPassword c)"

lemma credentialParts_text: "\<forall>c\<in>set cs. cred_ok c \<Longrightarrow> credentialParts (map credText cs) = Inr cs"
  by (induction cs) (auto simp: cred_ok_def credText_def Cut_append)

lemma parse_credentials: 
  assumes "cs \<noteq> []" "\<forall>c\<in>set cs. cred_ok c"
  shows "parseWorkspaceCredentials (Join (CHR '','') (map credText cs)) = Inr cs"
proof -
  have "Join (CHR '','') (map credText cs) \<noteq> []"
    using assms by (cases cs; cases "tl cs") (auto simp: cred_ok_def credText_def)
  moreover have "\<forall>p\<in>set (map credText cs). CHR '','' \<notin> set p"
    using assms(2) by (auto simp: cred_ok_def credText_def)
  ultimately show ?thesis
    using assms by (simp add: parseWorkspaceCredentials_def Split_Join credentialParts_text)
qed

text \<open>And whatever is accepted grants a non-empty workspace for a non-empty password.\<close>

lemma credentialParts_ok: "credentialParts ps = Inr cs \<Longrightarrow>
    map credText cs = ps \<and> (\<forall>c\<in>set cs. credWorkspace c \<noteq> [] \<and> credPassword c \<noteq> [])"
proof (induction ps arbitrary: cs)
  case (Cons p ps)
  then obtain w pw cs' where c: "Cut (CHR '':'') p = Some (w, pw)" "w \<noteq> []" "pw \<noteq> []"
      "credentialParts ps = Inr cs'" "cs = \<lparr>credWorkspace = w, credPassword = pw\<rparr> # cs'"
    by (cases "credentialParts ps") (auto split: option.splits if_splits)
  with Cons.IH [OF c(4)] Cut_Some [OF c(1)] show ?case by (simp add: credText_def)
qed simp

lemma parse_credentials_ok:
  "parseWorkspaceCredentials s = Inr cs \<Longrightarrow> s \<noteq> [] \<Longrightarrow> Join (CHR '','') (map credText cs) = s \<and>
    (\<forall>c\<in>set cs. credWorkspace c \<noteq> [] \<and> credPassword c \<noteq> [])"
  using credentialParts_ok [of "Split (CHR '','') s" cs] Join_Split [of "CHR '',''" s]
  by (auto simp: parseWorkspaceCredentials_def)

end
