(* ===== verification/Providers.thy ===== *)
theory Providers
  imports AIState JsonRoundtrip
begin

text \<open>
  The providers of embeddings and completions: the clients of OpenAI-compatible services
  (\<^verbatim>\<open>embed/openai.go\<close>, \<^verbatim>\<open>llm/openai.go\<close>) and the mocks (\<^verbatim>\<open>embed/mock.go\<close>, \<^verbatim>\<open>llm/mock.go\<close>).

  What an exchange over HTTP brings is an argument: the function \<open>http\<close> from requests to outcomes.
  So is the generator behind the mock embedding: \<open>rnd seed i\<close> is the \<open>i\<close>-th \<^verbatim>\<open>Float64()\<close> of the
  source seeded with \<open>seed\<close>. An error is a constructor with the arguments of its text.
\<close>

section \<open>HTTP\<close>

record httpReq = \<comment> \<open>a POST of JSON\<close>
  reqURL :: string
  reqAuth :: string \<comment> \<open>the header \<^verbatim>\<open>Authorization\<close>\<close>
  reqBody :: string

datatype httpOutcome = NoRequest string | SendFailed string | ReadFailed string | Response int string \<comment> \<open>status and body\<close>

type_synonym http = "httpReq \<Rightarrow> httpOutcome"

datatype clientError =
    BuildRequest string | RequestFailed string | ReadResponse string | BadStatus int string | BadBody string
  | APIError string | WrongCount int int | IndexOutOfRange int int | NoChoices

definition maxOpenAIErrorBodySnippet :: nat where "maxOpenAIErrorBodySnippet = 500"

definition snippetOf :: "string \<Rightarrow> string"
  where "snippetOf body =
    (if length body > maxOpenAIErrorBodySnippet then take maxOpenAIErrorBodySnippet body @ ''...(truncated)'' else body)"

definition exchange :: "http \<Rightarrow> httpReq \<Rightarrow> clientError + string" \<comment> \<open>to the body of a response with status 200\<close>
  where "exchange http req =
    (case http req of
       NoRequest e \<Rightarrow> Inl (BuildRequest e)
     | SendFailed e \<Rightarrow> Inl (RequestFailed e)
     | ReadFailed e \<Rightarrow> Inl (ReadResponse e)
     | Response status body \<Rightarrow> if status \<noteq> 200 then Inl (BadStatus status (snippetOf body)) else Inr body)"

definition trimSlashes :: "string \<Rightarrow> string" \<comment> \<open>\<^verbatim>\<open>strings.TrimRight(s, "/")\<close>\<close>
  where "trimSlashes s = rev (dropWhile (\<lambda>c. c = CHR ''/'') (rev s))"

definition defaultOpenAIAPIBase :: string where "defaultOpenAIAPIBase = ''https://api.openai.com/v1''"

record openAIProvider =
  opKey :: string
  opModel :: string
  opURL :: string

definition newProvider :: "string \<Rightarrow> string \<Rightarrow> string \<Rightarrow> string \<Rightarrow> string \<Rightarrow> openAIProvider"
  where "newProvider dflt path key model base =
    \<lparr>opKey = key, opModel = (if model = [] then dflt else model),
     opURL = trimSlashes (if base = [] then defaultOpenAIAPIBase else base) @ path\<rparr>"

definition embed_NewOpenAI :: "string \<Rightarrow> string \<Rightarrow> string \<Rightarrow> openAIProvider"
  where "embed_NewOpenAI = newProvider ''text-embedding-3-small'' ''/embeddings''"

definition llm_NewOpenAI :: "string \<Rightarrow> string \<Rightarrow> string \<Rightarrow> openAIProvider"
  where "llm_NewOpenAI = newProvider ''gpt-4o-mini'' ''/chat/completions''"

definition openAIModelDimensions :: "string \<Rightarrow> int"
  where "openAIModelDimensions model = (if model = ''text-embedding-3-large'' then 3072 else 1536)"

definition request :: "openAIProvider \<Rightarrow> string \<Rightarrow> httpReq"
  where "request p body = \<lparr>reqURL = opURL p, reqAuth = ''Bearer '' @ opKey p, reqBody = body\<rparr>"

section \<open>Decoding\<close>

fun decodeInt :: "int \<Rightarrow> jraw \<Rightarrow> int option" where \<comment> \<open>into an \<^verbatim>\<open>int\<close>, over the old value\<close>
  "decodeInt old (RNum s) = ParseInt s"
| "decodeInt old RNull = Some old"
| "decodeInt old _ = None"

definition ParseFloat32 :: "string \<Rightarrow> float64 option" \<comment> \<open>\<^verbatim>\<open>ParseFloat(s, 32)\<close> of a JSON number\<close>
  where "ParseFloat32 s =
    (let neg = (s \<noteq> [] \<and> hd s = CHR ''-'') in
     case parseNumber (if neg then tl s else s) of
       None \<Rightarrow> None
     | Some q \<Rightarrow> if 2 powi 128 \<le> round_mag32 q then None else Some (Fin neg (round_mag32 q)))"

fun decodeFloat32 :: "float64 \<Rightarrow> jraw \<Rightarrow> float64 option" where
  "decodeFloat32 old (RNum s) = ParseFloat32 s"
| "decodeFloat32 old RNull = Some old"
| "decodeFloat32 old _ = None"

fun decodePtr :: "('a \<Rightarrow> jraw \<Rightarrow> 'a option) \<Rightarrow> 'a \<Rightarrow> 'a option \<Rightarrow> jraw \<Rightarrow> 'a option option" where \<comment> \<open>into a pointer: null makes it nil\<close>
  "decodePtr dec zero old RNull = Some None"
| "decodePtr dec zero old v = map_option Some (dec (case old of None \<Rightarrow> zero | Some a \<Rightarrow> a) v)"

fun oneField :: "string \<Rightarrow> ('a \<Rightarrow> jraw \<Rightarrow> 'a option) \<Rightarrow> (string \<times> jraw) list \<Rightarrow> 'a \<Rightarrow> 'a option" where \<comment> \<open>a struct with one field\<close>
  "oneField name dec [] a = Some a"
| "oneField name dec ((k, v) # fs) a =
    (if isField name k then (case dec a v of None \<Rightarrow> None | Some b \<Rightarrow> oneField name dec fs b) else oneField name dec fs a)"

definition decodeUsage :: "int \<Rightarrow> jraw \<Rightarrow> int option"
  where "decodeUsage = decodeStruct (oneField ''total_tokens'' decodeInt)"

definition decodeError :: "string option \<Rightarrow> jraw \<Rightarrow> string option option"
  where "decodeError = decodePtr (decodeStruct (oneField ''message'' decodeStr)) []"

record embEntry =
  emEmbedding :: "float64 slice"
  emIndex :: int

definition zeroEmb :: embEntry where "zeroEmb = \<lparr>emEmbedding = ([], 0), emIndex = 0\<rparr>"

fun embFields :: "(string \<times> jraw) list \<Rightarrow> embEntry \<Rightarrow> embEntry option" where
  "embFields [] e = Some e"
| "embFields ((k, v) # fs) e =
    (if isField ''embedding'' k
     then (case decodeSlice decodeFloat32 f64_zero (emEmbedding e) v of
             None \<Rightarrow> None | Some s \<Rightarrow> embFields fs (e\<lparr>emEmbedding := s\<rparr>))
     else if isField ''index'' k
     then (case decodeInt (emIndex e) v of None \<Rightarrow> None | Some n \<Rightarrow> embFields fs (e\<lparr>emIndex := n\<rparr>))
     else embFields fs e)"

record openAIEmbeddingResponse =
  erData :: "embEntry slice"
  erTokens :: int
  erError :: "string option"

fun embResponseFields :: "(string \<times> jraw) list \<Rightarrow> openAIEmbeddingResponse \<Rightarrow> openAIEmbeddingResponse option" where
  "embResponseFields [] r = Some r"
| "embResponseFields ((k, v) # fs) r =
    (if isField ''data'' k
     then (case decodeSlice (decodeStruct embFields) zeroEmb (erData r) v of
             None \<Rightarrow> None | Some s \<Rightarrow> embResponseFields fs (r\<lparr>erData := s\<rparr>))
     else if isField ''usage'' k
     then (case decodeUsage (erTokens r) v of None \<Rightarrow> None | Some n \<Rightarrow> embResponseFields fs (r\<lparr>erTokens := n\<rparr>))
     else if isField ''error'' k
     then (case decodeError (erError r) v of None \<Rightarrow> None | Some e \<Rightarrow> embResponseFields fs (r\<lparr>erError := e\<rparr>))
     else embResponseFields fs r)"

definition UnmarshalEmbeddings :: "string \<Rightarrow> openAIEmbeddingResponse option"
  where "UnmarshalEmbeddings s =
    (case parseRaw s of
       None \<Rightarrow> None
     | Some v \<Rightarrow> decodeStruct embResponseFields \<lparr>erData = ([], 0), erTokens = 0, erError = None\<rparr> v)"

record openAIChatResponse =
  crChoices :: "string slice" \<comment> \<open>the content of the message of each choice\<close>
  crTokens :: int
  crError :: "string option"

definition decodeChoice :: "string \<Rightarrow> jraw \<Rightarrow> string option"
  where "decodeChoice = decodeStruct (oneField ''message'' (decodeStruct (oneField ''content'' decodeStr)))"

fun chatResponseFields :: "(string \<times> jraw) list \<Rightarrow> openAIChatResponse \<Rightarrow> openAIChatResponse option" where
  "chatResponseFields [] r = Some r"
| "chatResponseFields ((k, v) # fs) r =
    (if isField ''choices'' k
     then (case decodeSlice decodeChoice [] (crChoices r) v of
             None \<Rightarrow> None | Some s \<Rightarrow> chatResponseFields fs (r\<lparr>crChoices := s\<rparr>))
     else if isField ''usage'' k
     then (case decodeUsage (crTokens r) v of None \<Rightarrow> None | Some n \<Rightarrow> chatResponseFields fs (r\<lparr>crTokens := n\<rparr>))
     else if isField ''error'' k
     then (case decodeError (crError r) v of None \<Rightarrow> None | Some e \<Rightarrow> chatResponseFields fs (r\<lparr>crError := e\<rparr>))
     else chatResponseFields fs r)"

definition UnmarshalChat :: "string \<Rightarrow> openAIChatResponse option"
  where "UnmarshalChat s =
    (case parseRaw s of
       None \<Rightarrow> None
     | Some v \<Rightarrow> decodeStruct chatResponseFields \<lparr>crChoices = ([], 0), crTokens = 0, crError = None\<rparr> v)"

section \<open>The clients\<close>

definition embeddingRequest :: "string \<Rightarrow> string list \<Rightarrow> json"
  where "embeddingRequest model texts = JObj [(''model'', JStr model), (''input'', JArr (map JStr texts))]"

fun placeAll :: "embEntry list \<Rightarrow> vec list \<Rightarrow> clientError + vec list" where \<comment> \<open>the loop over the entries of a response\<close>
  "placeAll [] out = Inr out"
| "placeAll (d # ds) out =
    (if emIndex d < 0 \<or> emIndex d \<ge> int (length out) then Inl (IndexOutOfRange (emIndex d) (int (length out)))
     else placeAll ds (out[nat (emIndex d) := elems (emEmbedding d)]))"

definition openai_EmbedBatchWithUsage :: "http \<Rightarrow> openAIProvider \<Rightarrow> string list \<Rightarrow> clientError + vec list \<times> int"
  where "openai_EmbedBatchWithUsage http p texts =
    (if texts = [] then Inr ([], 0)
     else
       (case exchange http (request p (Marshal (embeddingRequest (opModel p) texts))) of
          Inl e \<Rightarrow> Inl e
        | Inr body \<Rightarrow>
            (case UnmarshalEmbeddings body of
               None \<Rightarrow> Inl (BadBody body)
             | Some r \<Rightarrow>
                 (case erError r of
                    Some msg \<Rightarrow> Inl (APIError msg)
                  | None \<Rightarrow>
                      if length (elems (erData r)) \<noteq> length texts
                      then Inl (WrongCount (int (length texts)) (int (length (elems (erData r)))))
                      else map_sum (\<lambda>e. e) (\<lambda>out. (out, erTokens r)) (placeAll (elems (erData r)) (replicate (length texts) []))))))"

definition openai_EmbedBatch :: "http \<Rightarrow> openAIProvider \<Rightarrow> string list \<Rightarrow> clientError + vec list"
  where "openai_EmbedBatch http p texts = map_sum (\<lambda>e. e) fst (openai_EmbedBatchWithUsage http p texts)"

definition openai_Embed :: "http \<Rightarrow> openAIProvider \<Rightarrow> string \<Rightarrow> clientError + vec"
  where "openai_Embed http p text = map_sum (\<lambda>e. e) hd (openai_EmbedBatch http p [text])"

definition chatMessage :: "string \<Rightarrow> string \<Rightarrow> json"
  where "chatMessage role txt = JObj [(''role'', JStr role), (''content'', JStr txt)]"

definition chatRequest :: "string \<Rightarrow> string \<Rightarrow> string \<Rightarrow> json"
  where "chatRequest model sys usr =
    JObj [(''model'', JStr model), (''messages'', JArr [chatMessage ''system'' sys, chatMessage ''user'' usr])]"

definition openai_Complete :: "http \<Rightarrow> openAIProvider \<Rightarrow> string \<Rightarrow> string \<Rightarrow> clientError + string \<times> int"
  where "openai_Complete http p sys usr =
    (case exchange http (request p (Marshal (chatRequest (opModel p) sys usr))) of
       Inl e \<Rightarrow> Inl e
     | Inr body \<Rightarrow>
         (case UnmarshalChat body of
            None \<Rightarrow> Inl (BadBody body)
          | Some r \<Rightarrow>
              (case crError r of
                 Some msg \<Rightarrow> Inl (APIError msg)
               | None \<Rightarrow>
                   (case elems (crChoices r) of [] \<Rightarrow> Inl NoChoices | c # cs \<Rightarrow> Inr (c, crTokens r)))))"

section \<open>The mocks\<close>

definition fnvSeed :: "string \<Rightarrow> int" \<comment> \<open>FNV-1a with 64 bits, read as a signed number\<close>
  where "fnvSeed s = sint (fold (\<lambda>c h. xor h (of_char c) * 1099511628211) s (14695981039346656037 :: 64 word))"

definition addSeededVector :: "(int \<Rightarrow> nat \<Rightarrow> float64) \<Rightarrow> int \<Rightarrow> float64 \<Rightarrow> vec \<Rightarrow> vec"
  where "addSeededVector rnd seed wt dst =
    map (\<lambda>(i, x). f64_add x (f64_mul wt (f64_sub (f64_mul (rnd seed i) (f64_of_int 2)) f64_one))) (enumerate 0 dst)"

definition l2NormalizeToFloat32 :: "vec \<Rightarrow> vec"
  where "l2NormalizeToFloat32 v =
    (let norm = f64_sqrt (fold (\<lambda>x sumSq. f64_add sumSq (f64_mul x x)) v f64_zero)
     in if f64_eq norm f64_zero then map (\<lambda>_. f64_zero) v else map (\<lambda>x. float32 (f64_div x norm)) v)"

definition mockWords :: "(string \<Rightarrow> string list) \<Rightarrow> string \<Rightarrow> string list"
  where "mockWords uni text =
    (let ws = (if ascii text then ascii_fields [] (to_lower text) else uni text)
     in if ws = [] then [[CHR 0x00] @ ''empty'' @ [CHR 0x00]] else ws)"

definition deterministicEmbedding :: "(int \<Rightarrow> nat \<Rightarrow> float64) \<Rightarrow> (string \<Rightarrow> string list) \<Rightarrow> string \<Rightarrow> nat \<Rightarrow> vec"
  where "deterministicEmbedding rnd uni text dims =
    (let words = mockWords uni text;
         vec = fold (\<lambda>w. addSeededVector rnd (fnvSeed (''w:'' @ w)) f64_one) words (replicate dims f64_zero);
         avg = map (\<lambda>x. f64_div x (f64_of_int (int (length words)))) vec
     in l2NormalizeToFloat32 (addSeededVector rnd (fnvSeed (''raw:'' @ text)) (f64_of_rat (1 / 20)) avg))"

definition NewMock :: "int \<Rightarrow> nat" \<comment> \<open>the provider is its number of dimensions\<close>
  where "NewMock dims = (if dims \<le> 0 then 8 else nat dims)"

text \<open>On a context that has been cancelled, with its error, or not.\<close>

definition mock_Embed :: "string option \<Rightarrow> (int \<Rightarrow> nat \<Rightarrow> float64) \<Rightarrow> (string \<Rightarrow> string list) \<Rightarrow> nat \<Rightarrow> string \<Rightarrow> string + vec"
  where "mock_Embed ctxErr rnd uni dims text =
    (case ctxErr of Some e \<Rightarrow> Inl e | None \<Rightarrow> Inr (deterministicEmbedding rnd uni text dims))"

fun mock_EmbedBatch :: "string option \<Rightarrow> (int \<Rightarrow> nat \<Rightarrow> float64) \<Rightarrow> (string \<Rightarrow> string list) \<Rightarrow> nat \<Rightarrow> string list \<Rightarrow> string + vec list" where
  "mock_EmbedBatch ctxErr rnd uni dims [] = Inr []"
| "mock_EmbedBatch ctxErr rnd uni dims (t # ts) =
    (case mock_Embed ctxErr rnd uni dims t of
       Inl e \<Rightarrow> Inl e
     | Inr v \<Rightarrow> map_sum id ((#) v) (mock_EmbedBatch ctxErr rnd uni dims ts))"

definition mockComplete :: "string option \<Rightarrow> string \<Rightarrow> string \<Rightarrow> string + string \<times> int"
  where "mockComplete ctxErr sys usr = (case ctxErr of Some e \<Rightarrow> Inl e | None \<Rightarrow> mock_Complete sys usr)"

lemma length_mock: "length (deterministicEmbedding rnd uni text dims) = dims"
proof -
  have add: "length (addSeededVector rnd seed wt v) = length v" for seed wt v by (simp add: addSeededVector_def)
  have "length (fold (\<lambda>w. addSeededVector rnd (fnvSeed (''w:'' @ w)) f64_one) ws v) = length v" for ws v
    by (induction ws arbitrary: v) (simp_all add: add)
  then show ?thesis by (simp add: deterministicEmbedding_def l2NormalizeToFloat32_def Let_def add)
qed

section \<open>Responses\<close>

lemma placeAll_ok:
  assumes "\<forall>d\<in>set ds. 0 \<le> emIndex d \<and> emIndex d < int (length out)"
  shows "\<exists>out'. placeAll ds out = Inr out' \<and> length out' = length out \<and>
    (\<forall>i. (\<forall>d\<in>set ds. emIndex d \<noteq> int i) \<longrightarrow> out' ! i = out ! i)"
  using assms
proof (induction ds arbitrary: out)
  case (Cons d ds)
  let ?out = "out[nat (emIndex d) := elems (emEmbedding d)]"
  obtain out' where o: "placeAll ds ?out = Inr out'" "length out' = length ?out"
      "\<forall>i. (\<forall>d\<in>set ds. emIndex d \<noteq> int i) \<longrightarrow> out' ! i = ?out ! i"
    using Cons.IH [of ?out] Cons.prems by auto
  have "out' ! i = out ! i" if "\<forall>e\<in>set (d # ds). emIndex e \<noteq> int i" for i
  proof -
    have "nat (emIndex d) \<noteq> i" using that Cons.prems by auto
    with o(3) that show ?thesis by simp
  qed
  with o Cons.prems show ?case by auto
qed simp

lemma placeAll_range:
  "placeAll ds out = Inr out' \<Longrightarrow> d \<in> set ds \<Longrightarrow> 0 \<le> emIndex d \<and> emIndex d < int (length out)"
  by (induction ds arbitrary: out) (fastforce split: if_splits)+

lemma placeAll_distinct:
  assumes "distinct (map emIndex ds)" "placeAll ds out = Inr out'" "d \<in> set ds"
  shows "out' ! nat (emIndex d) = elems (emEmbedding d)"
  using assms
proof (induction ds arbitrary: out)
  case (Cons e ds)
  let ?out = "out[nat (emIndex e) := elems (emEmbedding e)]"
  have e: "0 \<le> emIndex e" "emIndex e < int (length out)" "placeAll ds ?out = Inr out'"
    using Cons.prems(2) by (auto split: if_splits)
  show ?case
  proof (cases "d \<in> set ds")
    case True
    with Cons.IH [OF _ e(3)] Cons.prems(1) show ?thesis by simp
  next
    case False
    then have d: "d = e" using Cons.prems(3) by simp
    have r: "\<forall>x\<in>set ds. 0 \<le> emIndex x \<and> emIndex x < int (length ?out)" using placeAll_range [OF e(3)] by blast
    have "\<forall>x\<in>set ds. emIndex x \<noteq> int (nat (emIndex e))" using Cons.prems(1) e(1) by (auto simp: image_iff)
    with placeAll_ok [OF r] e show ?thesis by (auto simp: d)
  qed
qed simp

text \<open>The requests are JSON texts that say what was asked.\<close>

lemma embeddingRequest_render:
  "Marshal (embeddingRequest m ts) = render (RObj [(''model'', RStr m), (''input'', RArr (map RStr ts))])"
  by (simp add: embeddingRequest_def comp_def)

lemma chatRequest_render:
  "Marshal (chatRequest m a b) = render (RObj [(''model'', RStr m), (''messages'', RArr
     [RObj [(''role'', RStr ''system''), (''content'', RStr a)], RObj [(''role'', RStr ''user''), (''content'', RStr b)]])])"
  by (simp add: chatRequest_def chatMessage_def)

end
