(* ===== verification/System.thy ===== *)
theory System
  imports ConnectionProperties MCPTools Config Reaper Providers
begin

text \<open>
  The whole server (\<^verbatim>\<open>internal/server/server.go\<close>): what start-up builds from a configuration, and its
  life as a sequence of events. An event is an accepted connection, one command of one connection, the
  end of a connection, a published message that a forwarder writes, a call of an MCP tool, or a tick of
  the reaper; every interleaving of whole commands of all clients is a list of events.

  Logging and shutdown do not touch the modelled state. \<open>world\<close> is what the process meets outside:
  whether its ports can be bound, the clock and the order of map iterations, exchanges over HTTP,
  randomness, and the few library functions that \<open>AIState\<close> and \<open>Providers\<close> take as arguments.
\<close>

section \<open>Start-up\<close>

datatype startError =
    UnknownEvictionPolicy string | UnknownEmbedProvider string | EmbedNeedsKey
  | UnknownCompletionProvider string | CompletionNeedsKey | AmbiguousAuth
  | ListenFailed int string \<comment> \<open>the port and the error\<close>

datatype providerChoice = MockProvider | OpenAIProvider string string string \<comment> \<open>key, model and base URL\<close>

definition buildEmbedProvider :: "Config \<Rightarrow> startError + providerChoice"
  where "buildEmbedProvider cfg =
    (let p = to_lower (cfgEmbedProvider cfg) in
     if p = [] \<or> p = ''mock'' then Inr MockProvider
     else if p = ''openai'' then
       (if cfgOpenAIAPIKey cfg = [] then Inl EmbedNeedsKey else Inr (OpenAIProvider (cfgOpenAIAPIKey cfg) [] (cfgOpenAIAPIBase cfg)))
     else Inl (UnknownEmbedProvider (cfgEmbedProvider cfg)))"

definition buildCompletionProvider :: "Config \<Rightarrow> startError + providerChoice"
  where "buildCompletionProvider cfg =
    (let p = to_lower (cfgCompletionProvider cfg) in
     if p = [] \<or> p = ''mock'' then Inr MockProvider
     else if p = ''openai'' then
       (if cfgOpenAIAPIKey cfg = [] then Inl CompletionNeedsKey
        else Inr (OpenAIProvider (cfgOpenAIAPIKey cfg) (cfgOpenAICompletionModel cfg) (cfgOpenAIAPIBase cfg)))
     else Inl (UnknownCompletionProvider (cfgCompletionProvider cfg)))"

definition buildAuthenticator :: "Config \<Rightarrow> startError + Authenticator"
  where "buildAuthenticator cfg =
    (if cfgWorkspaceCredentials cfg \<noteq> [] \<and> cfgPassword cfg \<noteq> [] then Inl AmbiguousAuth
     else if cfgWorkspaceCredentials cfg \<noteq> [] then Inr (NewMultiWorkspace (cfgWorkspaceCredentials cfg))
     else Inr (auth_New (cfgPassword cfg)))"

definition buildEvictionPolicy :: "Config \<Rightarrow> startError + policy"
  where "buildEvictionPolicy cfg =
    (let p = to_lower (cfgEvictionPolicy cfg) in
     if p = [] \<or> p = ''lru'' then Inr LRU_Score
     else if p = ''weighted'' then Inr (Weighted_Score DefaultWeights)
     else Inl (UnknownEvictionPolicy (cfgEvictionPolicy cfg)))"

record world =
  wListen :: "nat \<Rightarrow> int \<Rightarrow> string option" \<comment> \<open>the error of the first and the second \<^verbatim>\<open>net.Listen\<close>, on a port\<close>
  wEnv :: "nat \<Rightarrow> goenv"
  wHTTP :: "nat \<Rightarrow> http" \<comment> \<open>exchanges with remote services\<close>
  wErr :: "clientError \<Rightarrow> string" \<comment> \<open>the text of an error\<close>
  wCtx :: "nat \<Rightarrow> string option" \<comment> \<open>whether the context of a call is cancelled\<close>
  wFloat64 :: "int \<Rightarrow> nat \<Rightarrow> float64" \<comment> \<open>the generator behind the mock embedding\<close>
  wRandom :: "nat \<Rightarrow> string + nat list" \<comment> \<open>random bytes, for identifiers\<close>
  wEdges :: "nat \<Rightarrow> int \<Rightarrow> edgeKey list \<Rightarrow> edgeKey list" \<comment> \<open>map orders of a graph traversal\<close>
  wLater :: "nat \<Rightarrow> instant"
  wUni :: "string \<Rightarrow> string list"
  wQuote :: "string \<Rightarrow> string"
  wZone :: "instant \<Rightarrow> int"

fun embedService :: "world \<Rightarrow> nat \<Rightarrow> providerChoice \<Rightarrow> string \<Rightarrow> string + vec \<times> int" where \<comment> \<open>\<^verbatim>\<open>Embed\<close>, or \<^verbatim>\<open>EmbedBatchWithUsage\<close> of one text\<close>
  "embedService wd n MockProvider text =
    map_sum (\<lambda>e. e) (\<lambda>v. (v, 0)) (mock_Embed (wCtx wd n) (wFloat64 wd) (wUni wd) (NewMock 0) text)"
| "embedService wd n (OpenAIProvider key model base) text =
    map_sum (wErr wd) (\<lambda>(vs, ntok). (hd vs, ntok))
      (openai_EmbedBatchWithUsage (wHTTP wd n) (embed_NewOpenAI key model base) [text])"

fun completeService :: "world \<Rightarrow> nat \<Rightarrow> providerChoice \<Rightarrow> string \<Rightarrow> string \<Rightarrow> string + string \<times> int" where
  "completeService wd n MockProvider sys usr = mockComplete (wCtx wd n) sys usr"
| "completeService wd n (OpenAIProvider key model base) sys usr =
    map_sum (wErr wd) (\<lambda>r. r) (openai_Complete (wHTTP wd n) (llm_NewOpenAI key model base) sys usr)"

fun providerName :: "(string \<Rightarrow> string \<Rightarrow> string \<Rightarrow> openAIProvider) \<Rightarrow> providerChoice \<Rightarrow> string" where \<comment> \<open>\<^verbatim>\<open>Name()\<close>\<close>
  "providerName new MockProvider = ''mock''"
| "providerName new (OpenAIProvider key model base) = ''openai:'' @ opModel (new key model base)"

definition newAIState :: "providerChoice \<Rightarrow> providerChoice \<Rightarrow> world \<Rightarrow> AIState"
  where "newAIState emb completion wd =
    \<lparr>aSemantic = semantic_New, aPrompt = NewPromptCache, aTool = toolcache_New, aVector = vector_New,
     aMemory = memory_New, aGraph = graph_New, aTracker = tracker_New,
     aServices = (\<lambda>n. \<lparr>svEmbed = embedService wd n emb, svComplete = completeService wd n completion, svRand = wRandom wd n,
       svEdges = wEdges wd n, svLater = wLater wd n\<rparr>),
     aUsage = (emb \<noteq> MockProvider), aEmbedName = providerName embed_NewOpenAI emb,
     aCompleteName = providerName llm_NewOpenAI completion,
     aUni = wUni wd, aQuote = wQuote wd, aZone = wZone wd\<rparr>"

record System =
  sysDeps :: "AIState Deps"
  sysClients :: "(nat, ClientState) fmap" \<comment> \<open>the open connections\<close>
  sysMax :: int \<comment> \<open>the number of connection slots\<close>
  sysMCP :: bool \<comment> \<open>whether the MCP listener runs\<close>

definition server_run :: "Config \<Rightarrow> world \<Rightarrow> startError + System" \<comment> \<open>up to the loop that accepts connections\<close>
  where "server_run cfg wd =
    (case buildEvictionPolicy cfg of
       Inl e \<Rightarrow> Inl e
     | Inr pol \<Rightarrow>
         (case buildEmbedProvider cfg of
            Inl e \<Rightarrow> Inl e
          | Inr emb \<Rightarrow>
              (case buildCompletionProvider cfg of
                 Inl e \<Rightarrow> Inl e
               | Inr completion \<Rightarrow>
                   (case buildAuthenticator cfg of
                      Inl e \<Rightarrow> Inl e
                    | Inr a \<Rightarrow>
                        (case (if cfgMCPPort cfg \<noteq> 0 then wListen wd 1 (cfgMCPPort cfg) else None) of
                           Some err \<Rightarrow> Inl (ListenFailed (cfgMCPPort cfg) err)
                         | None \<Rightarrow> Inr
                             \<lparr>sysDeps =
                                \<lparr>dEngine = newStore 32 [WithMaxEntries (cfgMaxEntries cfg), WithEvictionPolicy (Some pol)],
                                 dAuth = a, dMetrics = NewMetrics, dPubSub = NewPubSub,
                                 dExt = newAIState emb completion wd, dEnv = wEnv wd, dCalls = 0\<rparr>,
                              sysClients = fmempty,
                              sysMax = (if cfgMaxConnections cfg \<le> 0 then DefaultMaxConnections else cfgMaxConnections cfg),
                              sysMCP = (cfgMCPPort cfg \<noteq> 0)\<rparr>)))))"

definition startServer :: "Config \<Rightarrow> world \<Rightarrow> startError + System"
  where "startServer cfg wd =
    (case wListen wd 0 (cfgPort cfg) of
       Some err \<Rightarrow> Inl (ListenFailed (cfgPort cfg) err)
     | None \<Rightarrow> server_run cfg wd)"

section \<open>Events\<close>

datatype event =
    Connect nat \<comment> \<open>a connection is accepted, under a number of its own\<close>
  | Serve nat "string list" \<comment> \<open>one turn of the loop of a connection\<close>
  | Hangup nat \<comment> \<open>the loop of a connection ends\<close>
  | CallTool mcpCall
  | Sweep \<comment> \<open>a tick of the reaper\<close>
  | Forward nat \<comment> \<open>the forwarder of a connection writes the next published message\<close>

definition onDeps :: "(AIState Deps \<Rightarrow> AIState Deps) \<Rightarrow> System \<Rightarrow> System"
  where "onDeps f s = s\<lparr>sysDeps := f (sysDeps s)\<rparr>"

definition slotsTaken :: "System \<Rightarrow> int" where "slotsTaken s = int (fcard (fmdom (sysClients s)))"

definition onConnect :: "nat \<Rightarrow> System \<Rightarrow> System" \<comment> \<open>a slot, or the rejection\<close>
  where "onConnect i s =
    (if fmlookup (sysClients s) i \<noteq> None then s
     else if slotsTaken s < sysMax s
     then (onDeps (\<lambda>d. d\<lparr>dMetrics := ConnectionOpened (dMetrics d)\<rparr>) s)\<lparr>sysClients := fmupd i (NewClientState i) (sysClients s)\<rparr>
     else onDeps (\<lambda>d. d\<lparr>dMetrics := ConnectionRejected (dMetrics d)\<rparr>) s)"

definition onHangup :: "nat \<Rightarrow> System \<Rightarrow> System" \<comment> \<open>the deferred clean-up, and the slot is free\<close>
  where "onHangup i s =
    (case fmlookup (sysClients s) i of
       None \<Rightarrow> s
     | Some c \<Rightarrow>
         let se = snd (run_state (do { cleanupSubscriptions; metric ConnectionClosed }) \<lparr>client = c, deps = sysDeps s\<rparr>)
         in s\<lparr>sysDeps := deps se, sysClients := fmdrop i (sysClients s)\<rparr>)"

definition onServe :: "nat \<Rightarrow> string list \<Rightarrow> System \<Rightarrow> System"
  where "onServe i args s =
    (case fmlookup (sysClients s) i of
       None \<Rightarrow> s
     | Some c \<Rightarrow>
         if args = [] then s
         else
           let se = snd (run_state (serveCommand aiHandler args) \<lparr>client = c, deps = sysDeps s\<rparr>);
               s' = s\<lparr>sysDeps := deps se, sysClients := fmupd i (client se) (sysClients s)\<rparr>
           in if Quit (client se) then onHangup i s' else s')"

definition onTool :: "mcpCall \<Rightarrow> System \<Rightarrow> System"
  where "onTool c s =
    (if sysMCP s then onDeps (\<lambda>d. deps (snd (run_state (runTool c) \<lparr>client = NewClientState 0, deps = d\<rparr>))) s else s)"

definition onSweep :: "System \<Rightarrow> System" \<comment> \<open>the reaper that the store starts\<close>
  where "onSweep = onDeps (\<lambda>d.
    d\<lparr>dEngine := tick NumShards SweepShard (newReaper (100 * Millisecond) 20) (\<lambda>i. dEnv d (dCalls d + i)) (dEngine d),
      dCalls := dCalls d + nat (NumShards (dEngine d))\<rparr>)"

definition onForward :: "nat \<Rightarrow> System \<Rightarrow> System"
  where "onForward i = onDeps (\<lambda>d. d\<lparr>dPubSub := snd (forward i (dPubSub d))\<rparr>)"

fun sysDo :: "event \<Rightarrow> System \<Rightarrow> System" where
  "sysDo (Connect i) s = onConnect i s"
| "sysDo (Serve i args) s = onServe i args s"
| "sysDo (Hangup i) s = onHangup i s"
| "sysDo (CallTool c) s = onTool c s"
| "sysDo Sweep s = onSweep s"
| "sysDo (Forward i) s = onForward i s"

definition sysRun :: "event list \<Rightarrow> System \<Rightarrow> System" where "sysRun es s = fold sysDo es s"

section \<open>The invariant\<close>

text \<open>
  \<open>sys_inv J E W\<close>: the stores are well formed and satisfy \<open>J\<close>; the open connections hold at most the
  slots there are, may use workspaces of \<open>W\<close> only and have queued commands of \<open>E\<close> only; and the broker
  has buffers of open connections only. \<open>drift W\<close>: outside \<open>W\<close> a key keeps its value and its expiry, or it
  is gone because it had expired or, in a store with an entry cap, was evicted.
\<close>

definition table :: "AIState Registry" where "table = RegisterAll aiHandler (\<lambda>args. ret NoReply)"

definition sys_inv :: "(AIState \<Rightarrow> bool) \<Rightarrow> (string list \<Rightarrow> bool) \<Rightarrow> string set \<Rightarrow> System \<Rightarrow> bool"
  where "sys_inv J E W s \<longleftrightarrow>
    (let d = sysDeps s in store_wf (dEngine d) \<and> ps_wf (dPubSub d) \<and> J (dExt d) \<and> (\<forall>n. env_ok (dEnv d n)) \<and>
       (MultiWorkspace (dAuth d) \<or> W = UNIV) \<and> fmdom (subChs (dPubSub d)) |\<subseteq>| fmdom (sysClients s) \<and>
       (\<forall>i c. fmlookup (sysClients s) i = Some c \<longrightarrow> clientId c = i \<and> cleared E table W (dAuth d) c)) \<and>
    slotsTaken s \<le> sysMax s"

definition faded :: "AIState Deps \<Rightarrow> cell option \<Rightarrow> cell option \<Rightarrow> bool"
  where "faded d x y \<longleftrightarrow> y = x \<or> y = None \<and> ((\<exists>n. live (now (dEnv d n)) x = None) \<or> 0 < maxEntries (dEngine d))"

definition drift :: "string set \<Rightarrow> AIState Deps \<Rightarrow> AIState Deps \<Rightarrow> bool"
  where "drift W d d' \<longleftrightarrow> dAuth d' = dAuth d \<and> dEnv d' = dEnv d \<and> same_config (dEngine d) (dEngine d') \<and>
    (\<forall>ck. (\<forall>ws\<in>W. \<not> hasPrefix ck (nsKey ws [])) \<longrightarrow> faded d (sraw (dEngine d) ck) (sraw (dEngine d') ck))"

lemma faded_trans: "faded d x y \<Longrightarrow> faded d y z \<Longrightarrow> faded d x z"
  by (auto simp: faded_def)

lemma drift_trans: "drift W a b \<Longrightarrow> drift W b c \<Longrightarrow> drift W a c"
proof -
  assume a: "drift W a b" and b: "drift W b c"
  then have f: "faded b = faded a" by (simp add: drift_def faded_def fun_eq_iff same_config_def)
  from a b show ?thesis unfolding drift_def f same_config_def by (auto intro: faded_trans)
qed

lemma drift_idle: "dAuth d' = dAuth d \<Longrightarrow> dEnv d' = dEnv d \<Longrightarrow> dEngine d' = dEngine d \<Longrightarrow> drift W d d'"
  by (simp add: drift_def faded_def same_config_def)

lemma drift_served:
  assumes "served W d d'" "store_wf (dEngine d)" "\<forall>n. env_ok (dEnv d n)"
  shows "drift W d d'"
proof -
  have "dAuth d' = dAuth d \<and> dEnv d' = dEnv d" using assms(1) by (simp add: served_def)
  with served_wf [OF assms] served_other [OF assms] show ?thesis by (auto simp: drift_def faded_def spared_def)
qed

lemma sweeps_fade:
  assumes "store_wf s" "\<forall>i. env_ok (envs i)" "m \<le> length (shards s)"
  shows "let s' = fold (\<lambda>i st. snd (SweepShard (envs i) i n st)) [0..<m] s
    in store_wf s' \<and> same_config s s' \<and> (sraw s' ck = sraw s ck \<or> sraw s' ck = None \<and> (\<exists>i. live (now (envs i)) (sraw s ck) = None))"
  using assms(3)
proof (induction m)
  case 0
  with assms show ?case by (simp add: same_config_def)
next
  case (Suc m)
  define s1 where "s1 = fold (\<lambda>i st. snd (SweepShard (envs i) i n st)) [0..<m] s"
  have IH: "store_wf s1" "same_config s s1"
      "sraw s1 ck = sraw s ck \<or> sraw s1 ck = None \<and> (\<exists>i. live (now (envs i)) (sraw s ck) = None)"
    using Suc by (simp_all add: s1_def Let_def)
  have m: "m < length (shards s1)" using IH(2) Suc.prems by (simp add: same_config_def)
  have e: "env_ok (envs m)" using assms(2) by simp
  obtain ks where ks: "\<And>k. entry (snd (SweepShard (envs m) m n s1)) k = (if k \<in> set ks then None else entry s1 k)"
      "sstep (set ks) 1 {} s1 (snd (SweepShard (envs m) m n s1))"
    by (rule SweepShard_effect [OF IH(1) e m, of n]) blast
  let ?s2 = "snd (SweepShard (envs m) m n s1)"
  have s2: "store_wf ?s2" "same_config s ?s2" using ks(2) IH(2) same_config_trans by (auto simp: sstep_def)
  have "live (now (envs m)) (sraw ?s2 ck) = live (now (envs m)) (sraw s1 ck)"
    using sweep_refines [OF IH(1) e, of m n] m by (auto simp: view_def dest: fun_cong)
  moreover have "sraw ?s2 ck = sraw s1 ck \<or> sraw ?s2 ck = None"
    using sstep_sraw [OF ks(2), of ck] ks(1) [of ck] by (auto simp: sraw_def raw_def entry_def)
  ultimately have "sraw ?s2 ck = sraw s ck \<or> sraw ?s2 ck = None \<and> (\<exists>i. live (now (envs i)) (sraw s ck) = None)"
    using IH(3) by (metis live_None)
  with s2 show ?case by (simp add: s1_def Let_def)
qed

lemma sweep_drift:
  assumes "store_wf (dEngine (sysDeps s))" "\<forall>n. env_ok (dEnv (sysDeps s) n)"
  shows "store_wf (dEngine (sysDeps (onSweep s)))" "drift W (sysDeps s) (sysDeps (onSweep s))"
proof -
  let ?e = "dEngine (sysDeps s)" and ?n = "sampleSize (newReaper (100 * Millisecond) 20)"
  let ?envs = "\<lambda>i. dEnv (sysDeps s) (dCalls (sysDeps s) + i)"
  let ?e' = "fold (\<lambda>i st. snd (SweepShard (?envs i) i ?n st)) [0..<length (shards ?e)] ?e"
  have f: "store_wf ?e' \<and> same_config ?e ?e' \<and> (sraw ?e' ck = sraw ?e ck \<or> sraw ?e' ck = None \<and> (\<exists>i. live (now (?envs i)) (sraw ?e ck) = None))" for ck
    using sweeps_fade [OF assms(1), of ?envs "length (shards ?e)" ?n ck] assms(2) by (simp add: Let_def)
  have "nat (n_shards ?e) = length (shards ?e)" using assms(1) by (simp add: store_wf_def)
  then have sw: "dEngine (sysDeps (onSweep s)) = ?e'" "dAuth (sysDeps (onSweep s)) = dAuth (sysDeps s)" "dEnv (sysDeps (onSweep s)) = dEnv (sysDeps s)"
    by (simp_all add: onSweep_def onDeps_def tick_def NumShards_def)
  show "store_wf (dEngine (sysDeps (onSweep s)))" using f sw by simp
  have "faded (sysDeps s) (sraw ?e ck) (sraw ?e' ck)" for ck using f [of ck] unfolding faded_def by blast
  then show "drift W (sysDeps s) (sysDeps (onSweep s))" using f by (simp add: drift_def sw)
qed

lemma sys_inv_drop:
  assumes "sys_inv J E W s" "sys_inv J E W (s\<lparr>sysDeps := d, sysClients := fmupd i c (sysClients s)\<rparr>)"
    and none: "fmlookup (subChs (dPubSub d)) i = None"
  shows "sys_inv J E W (s\<lparr>sysDeps := d, sysClients := fmdrop i (sysClients s)\<rparr>)"
proof -
  have "fmdom (subChs (dPubSub d)) |\<subseteq>| finsert i (fmdom (sysClients s))" "i |\<notin>| fmdom (subChs (dPubSub d))"
    using assms(2) none by (simp_all add: sys_inv_def Let_def fmdom_notI)
  then have "fmdom (subChs (dPubSub d)) |\<subseteq>| fmdom (fmdrop i (sysClients s))" by auto
  moreover have "fcard (fmdom (fmdrop i (sysClients s))) \<le> fcard (fmdom (sysClients s))"
    by (rule fcard_mono) auto
  moreover have "clientId c' = j \<and> cleared E table W (dAuth d) c'" if "fmlookup (fmdrop i (sysClients s)) j = Some c'" for j c'
  proof -
    have "fmlookup (fmupd i c (sysClients s)) j = Some c'" using that by (simp split: if_splits)
    moreover have "\<forall>j c'. fmlookup (fmupd i c (sysClients s)) j = Some c' \<longrightarrow> clientId c' = j \<and> cleared E table W (dAuth d) c'"
      using assms(2) by (simp del: fmupd_lookup add: sys_inv_def Let_def)
    ultimately show ?thesis by blast
  qed
  moreover have "slotsTaken s \<le> sysMax s" using assms(1) by (simp add: sys_inv_def)
  moreover have "store_wf (dEngine d) \<and> ps_wf (dPubSub d) \<and> J (dExt d) \<and> (\<forall>n. env_ok (dEnv d n)) \<and>
      (MultiWorkspace (dAuth d) \<or> W = UNIV)"
    using assms(2) by (simp add: sys_inv_def Let_def)
  ultimately show ?thesis
    unfolding sys_inv_def Let_def slotsTaken_def by (intro conjI allI impI) simp_all
qed

fun allowed :: "(string list \<Rightarrow> bool) \<Rightarrow> string set \<Rightarrow> Authenticator \<Rightarrow> event \<Rightarrow> bool" where
  "allowed E W a (Serve i args) \<longleftrightarrow> E args \<and> grants a args \<subseteq> W"
| "allowed E W a (CallTool c) \<longleftrightarrow> W = UNIV"
| "allowed E W a _ \<longleftrightarrow> True"

section \<open>Every event keeps it\<close>

locale system_contract = ai_contract +
  fixes E :: "string list \<Rightarrow> bool"
  assumes env_K: "env_ok env \<Longrightarrow> K env"
    and commands: "args \<noteq> [] \<Longrightarrow> E args \<Longrightarrow> to_upper (hd args) \<noteq> ''SUMMARY.CREATE'' \<or> W = UNIV"
begin

lemma client_start:
  assumes "sys_inv J E W s" "fmlookup (sysClients s) i = Some c"
  shows "conn_inv J E table W (sysDeps s) i \<lparr>client = c, deps = sysDeps s\<rparr>"
  using assms by (auto simp: sys_inv_def conn_inv_def Let_def)

text \<open>A computation of connection \<open>i\<close> that keeps the invariant of connections keeps that of the system.\<close>

lemma client_step:
  assumes "sys_inv J E W s" "fmlookup (sysClients s) i = Some c" "keeps (conn_inv J E table W (sysDeps s) i) m"
  defines "se \<equiv> snd (run_state m \<lparr>client = c, deps = sysDeps s\<rparr>)"
  shows "sys_inv J E W (s\<lparr>sysDeps := deps se, sysClients := fmupd i (client se) (sysClients s)\<rparr>)"
    and "conn_inv J E table W (sysDeps s) i se" "drift W (sysDeps s) (deps se)"
proof -
  show inv: "conn_inv J E table W (sysDeps s) i se"
    unfolding se_def by (rule keepsD [where I = "conn_inv J E table W (sysDeps s) i", OF assms(3) client_start [OF assms(1,2)]])
  then have sv: "served W (sysDeps s) (deps se)" by (simp add: conn_inv_def)
  then have same: "dAuth (deps se) = dAuth (sysDeps s)" "dEnv (deps se) = dEnv (sysDeps s)" by (simp_all add: served_def)
  have wf: "store_wf (dEngine (sysDeps s))" "\<forall>n. env_ok (dEnv (sysDeps s) n)" using assms(1) by (auto simp: sys_inv_def Let_def)
  then show "drift W (sysDeps s) (deps se)" using sv by (intro drift_served)
  have i: "i |\<in>| fmdom (sysClients s)" using assms(2) by (rule fmdomI)
  then have "fmdom (subChs (dPubSub (deps se))) |\<subseteq>| fmdom (sysClients s)"
    using inv assms(1) by (auto simp: conn_inv_def sys_inv_def Let_def)
  then show "sys_inv J E W (s\<lparr>sysDeps := deps se, sysClients := fmupd i (client se) (sysClients s)\<rparr>)"
    using served_wf [OF sv wf] assms(1) inv i same
    by (auto simp: sys_inv_def slotsTaken_def conn_inv_def Let_def finsert_absorb)
qed

lemma serve_keeps:
  assumes "MultiWorkspace (dAuth d) \<or> W = UNIV" "E args" "grants (dAuth d) args \<subseteq> W"
  shows "keeps (conn_inv J E table W d i) (serveCommand aiHandler args)"
  unfolding table_def
  by (rule serveCommand_guarded [where E = E, OF assms(3,2) ext_ok_aiHandler handlers_keep [OF assms(1)]])
    (use env_K commands in auto)

lemma hangup_step:
  assumes "sys_inv J E W s"
  shows "sys_inv J E W (onHangup i s) \<and> drift W (sysDeps s) (sysDeps (onHangup i s))"
proof (cases "fmlookup (sysClients s) i")
  case (Some c)
  let ?m = "do { cleanupSubscriptions; metric ConnectionClosed }"
  define se where "se = snd (run_state ?m \<lparr>client = c, deps = sysDeps s\<rparr>)"
  have "keeps (conn_inv J E table W (sysDeps s) i) ?m" by (intro keeps_intros)
  note st = client_step [OF assms Some this, folded se_def]
  have "clientId c = i" "ps_wf (dPubSub (sysDeps s))" "\<forall>n. env_ok (dEnv (sysDeps s) n)"
    using assms Some by (auto simp: sys_inv_def Let_def)
  then have "fmlookup (subChs (dPubSub (deps se))) i = None"
    using cleanup_leaves [of "\<lparr>client = c, deps = sysDeps s\<rparr>"] by (simp add: se_def split_beta)
  then have "sys_inv J E W (s\<lparr>sysDeps := deps se, sysClients := fmdrop i (sysClients s)\<rparr>)"
    by (rule sys_inv_drop [OF assms st(1)])
  with Some st(3) show ?thesis by (simp add: onHangup_def Let_def se_def)
qed (use assms in \<open>simp add: onHangup_def drift_idle\<close>)

lemma serve_step:
  assumes "sys_inv J E W s" "E args" "grants (dAuth (sysDeps s)) args \<subseteq> W"
  shows "sys_inv J E W (onServe i args s) \<and> drift W (sysDeps s) (sysDeps (onServe i args s))"
proof (cases "fmlookup (sysClients s) i")
  case (Some c)
  have "MultiWorkspace (dAuth (sysDeps s)) \<or> W = UNIV" using assms(1) by (simp add: sys_inv_def Let_def)
  note st = client_step [OF assms(1) Some serve_keeps [OF this assms(2,3)]]
  from st(1,3) hangup_step [OF st(1), of i] Some assms(1) show ?thesis
    by (auto simp: onServe_def Let_def drift_idle intro: drift_trans)
qed (use assms in \<open>simp add: onServe_def drift_idle\<close>)

lemma tool_step:
  assumes "sys_inv J E W s" "W = UNIV"
  shows "sys_inv J E W (onTool c s) \<and> drift W (sysDeps s) (sysDeps (onTool c s))"
proof -
  let ?se = "\<lparr>client = NewClientState 0, deps = sysDeps s\<rparr>"
  have "calm J K W ?se" using assms env_K by (simp add: calm_def sys_inv_def Let_def)
  then have "framed ?se (snd (run_state (runTool c) ?se))" "J (dExt (deps (snd (run_state (runTool c) ?se))))"
    using tools [OF assms(2), of c] by (auto simp: aiKeeps_def)
  with assms show ?thesis
    by (auto simp: onTool_def onDeps_def sys_inv_def slotsTaken_def framed_def Let_def drift_idle)
qed

lemma sweep_step:
  assumes "sys_inv J E W s"
  shows "sys_inv J E W (onSweep s) \<and> drift W (sysDeps s) (sysDeps (onSweep s))"
  using sweep_drift(1) [of s] sweep_drift(2) [of s W] assms
  by (simp add: sys_inv_def Let_def) (simp add: onSweep_def onDeps_def slotsTaken_def)

lemma forward_step:
  assumes "sys_inv J E W s"
  shows "sys_inv J E W (onForward i s) \<and> drift W (sysDeps s) (sysDeps (onForward i s))"
proof -
  have "fmdom (subChs (snd (forward i p))) = fmdom (subChs p)" for p
    by (auto simp: forward_def fmdom_notI finsert_absorb dest: fmdomI split: option.split list.split)
  with assms show ?thesis
    by (auto simp: onForward_def onDeps_def sys_inv_def slotsTaken_def Let_def drift_idle intro: ps_wf_forward)
qed

lemma connect_step:
  assumes "sys_inv J E W s"
  shows "sys_inv J E W (onConnect i s) \<and> drift W (sysDeps s) (sysDeps (onConnect i s))"
proof (cases "fmlookup (sysClients s) i \<noteq> None \<or> \<not> slotsTaken s < sysMax s")
  case True
  with assms show ?thesis by (auto simp: onConnect_def onDeps_def sys_inv_def slotsTaken_def Let_def drift_idle)
next
  case False
  then have "i |\<notin>| fmdom (sysClients s)" by (simp add: fmdom_notI)
  then have "fcard (finsert i (fmdom (sysClients s))) = Suc (fcard (fmdom (sysClients s)))"
    by (simp add: fcard_finsert_disjoint)
  with False assms show ?thesis
    by (auto simp: onConnect_def onDeps_def sys_inv_def slotsTaken_def NewClientState_def cleared_def Let_def drift_idle)
qed

lemma event_step:
  assumes "sys_inv J E W s" "allowed E W (dAuth (sysDeps s)) e"
  shows "sys_inv J E W (sysDo e s) \<and> drift W (sysDeps s) (sysDeps (sysDo e s))"
  using assms tool_step by (cases e) (simp_all add: connect_step serve_step hangup_step sweep_step forward_step)

lemma events:
  "sys_inv J E W s \<Longrightarrow> \<forall>e\<in>set es. allowed E W (dAuth (sysDeps s)) e \<Longrightarrow>
    sys_inv J E W (sysRun es s) \<and> drift W (sysDeps s) (sysDeps (sysRun es s))"
  unfolding sysRun_def
proof (induction es arbitrary: s)
  case (Cons e es)
  from Cons.prems event_step [of s e] have st: "sys_inv J E W (sysDo e s)" "drift W (sysDeps s) (sysDeps (sysDo e s))"
    by simp_all
  then have "dAuth (sysDeps (sysDo e s)) = dAuth (sysDeps s)" by (simp add: drift_def)
  with Cons st show ?case by (auto intro: drift_trans)
qed (simp add: drift_idle)

end

section \<open>The instances\<close>

definition sys_ok :: "System \<Rightarrow> bool" where "sys_ok = sys_inv ai_ok (\<lambda>_. True) UNIV"

interpretation whole: system_contract ai_ok env_ok UNIV "\<lambda>_. True"
  by unfold_locales simp_all

definition noSummary :: "string list \<Rightarrow> bool"
  where "noSummary args \<longleftrightarrow> args = [] \<or> to_upper (hd args) \<noteq> ''SUMMARY.CREATE''"

interpretation apart: system_contract "\<lambda>x. \<forall>w. w \<notin> W \<longrightarrow> ai_view w x = ai_view w x0" "\<lambda>_. True" W noSummary
  for W and x0
  by unfold_locales (simp_all add: noSummary_def)

lemma all_allowed: "allowed (\<lambda>_. True) UNIV a e"
  by (cases e) simp_all

lemma sys_run:
  assumes "sys_ok s"
  shows sys_ok_run: "sys_ok (sysRun es s)" and sys_run_drift: "drift UNIV (sysDeps s) (sysDeps (sysRun es s))"
  using whole.events [OF assms [unfolded sys_ok_def], of es] all_allowed by (auto simp: sys_ok_def)

lemma sys_ok_start:
  assumes "startServer cfg wd = Inr s" "\<forall>n. env_ok (wEnv wd n)"
  shows "sys_ok s"
proof -
  have ps: "ps_wf NewPubSub" "subChs NewPubSub = fmempty" by (simp_all add: ps_wf_ops) (simp add: NewPubSub_def)
  have ai: "ai_ok (newAIState p q wd)" for p q by (auto simp: ai_ok_def newAIState_def intro: inv_intros)
  from assms ps ai show ?thesis
    by (auto simp: startServer_def server_run_def sys_ok_def sys_inv_def slotsTaken_def newStore_wf Let_def DefaultMaxConnections_def fcard_fempty
        split: sum.splits option.splits if_splits)
qed

end
