(* ===== verification/SystemProperties.thy ===== *)
theory SystemProperties
  imports ServerProperties FrontDoors System
begin

text \<open>
  The properties of the whole process: start-up from its configuration, what every interleaving of
  connections, tool calls and sweeps keeps, workspace isolation across all of them, and the agreement
  of the two front doors.
\<close>

section \<open>Configuration and start-up\<close>

definition startable :: "Config \<Rightarrow> bool" \<comment> \<open>the settings pass the checks of start-up\<close>
  where "startable cfg \<longleftrightarrow>
    to_lower (cfgEvictionPolicy cfg) \<in> {[], ''lru'', ''weighted''} \<and>
    (to_lower (cfgEmbedProvider cfg) \<in> {[], ''mock''} \<or> to_lower (cfgEmbedProvider cfg) = ''openai'' \<and> cfgOpenAIAPIKey cfg \<noteq> []) \<and>
    (to_lower (cfgCompletionProvider cfg) \<in> {[], ''mock''} \<or>
       to_lower (cfgCompletionProvider cfg) = ''openai'' \<and> cfgOpenAIAPIKey cfg \<noteq> []) \<and>
    (cfgWorkspaceCredentials cfg = [] \<or> cfgPassword cfg = [])"

lemma starts:
  assumes "startable cfg" "wListen wd 0 (cfgPort cfg) = None" "cfgMCPPort cfg = 0 \<or> wListen wd 1 (cfgMCPPort cfg) = None"
  shows "\<exists>s. startServer cfg wd = Inr s"
proof -
  from assms(1) have "to_lower (cfgEvictionPolicy cfg) = [] \<or> to_lower (cfgEvictionPolicy cfg) = ''lru'' \<or> to_lower (cfgEvictionPolicy cfg) = ''weighted''"
    by (simp add: startable_def)
  then have "\<exists>x. buildEvictionPolicy cfg = Inr x" by (elim disjE) (simp_all add: buildEvictionPolicy_def)
  moreover from assms(1) have "to_lower (cfgEmbedProvider cfg) = [] \<or> to_lower (cfgEmbedProvider cfg) = ''mock'' \<or>
      to_lower (cfgEmbedProvider cfg) = ''openai'' \<and> cfgOpenAIAPIKey cfg \<noteq> []"
    by (simp add: startable_def)
  then have "\<exists>x. buildEmbedProvider cfg = Inr x" by (elim disjE) (simp_all add: buildEmbedProvider_def)
  moreover from assms(1) have "to_lower (cfgCompletionProvider cfg) = [] \<or> to_lower (cfgCompletionProvider cfg) = ''mock'' \<or>
      to_lower (cfgCompletionProvider cfg) = ''openai'' \<and> cfgOpenAIAPIKey cfg \<noteq> []"
    by (simp add: startable_def)
  then have "\<exists>x. buildCompletionProvider cfg = Inr x" by (elim disjE) (simp_all add: buildCompletionProvider_def)
  moreover have "\<exists>x. buildAuthenticator cfg = Inr x" using assms(1) by (simp add: startable_def buildAuthenticator_def)
  ultimately obtain p e c a where "buildEvictionPolicy cfg = Inr p" "buildEmbedProvider cfg = Inr e"
      "buildCompletionProvider cfg = Inr c" "buildAuthenticator cfg = Inr a" by blast
  then show ?thesis using assms(2,3) by (cases "cfgMCPPort cfg = 0") (simp_all add: startServer_def server_run_def)
qed

lemma defaults_known: "startable (DefaultConfig\<lparr>cfgWorkspaceCredentials := cs\<rparr>)"
proof -
  have "to_lower ''lru'' = ''lru''" "to_lower ''mock'' = ''mock''" by code_simp+
  then show ?thesis
    by (simp add: startable_def DefaultConfig_def DefaultEvictionPolicy_def DefaultEmbedProvider_def DefaultCompletionProvider_def
        del: to_lower.simps)
qed

text \<open>One flag with its value, among those of the table.\<close>

lemma parse_one_flag:
  assumes "fmlookup f n = Some (FStr d)" "splitFlag n = (n, None)" "n \<noteq> []" "hd n \<noteq> CHR ''-''" "hd n \<noteq> CHR ''=''"
  shows "parseFlags [''--'' @ n, v] f = Inr (fmupd n (FStr v) f)"
  using assms by simp

lemma credentials_flag:
  assumes "txt \<noteq> []" "parseWorkspaceCredentials txt = Inr cs"
  shows "\<exists>cfg. parseConfig e [''--workspace-credentials'', txt] = Inr cfg \<and> cfgWorkspaceCredentials cfg = cs \<and>
    (e = fmempty \<longrightarrow> cfg = DefaultConfig\<lparr>cfgWorkspaceCredentials := cs\<rparr>)"
proof -
  have "splitFlag ''workspace-credentials'' = (''workspace-credentials'', None)" by code_simp
  moreover have "fmlookup (flagDefaults e) ''workspace-credentials'' = Some (FStr [])"
    by (simp add: flagDefaults_def fmlookup_of_list)
  ultimately have "parseFlags [''--workspace-credentials'', txt] (flagDefaults e) =
      Inr (fmupd ''workspace-credentials'' (FStr txt) (flagDefaults e))"
    using parse_one_flag [of "flagDefaults e" "''workspace-credentials''"] by simp
  then show ?thesis
    using assms
    by (simp add: parseConfig_def secretFlag_def strFlag_def)
      (simp add: DefaultConfig_def intFlag_def flagDefaults_def fmlookup_of_list envInt_def envStr_def Getenv_def)
qed

text \<open>
  C12. Credentials written in the documented form and passed on the command line are read back, whatever
  the environment. A server that starts with them grants a password the workspace of the last credential
  that lists it, and accepts no password that is not listed. With an empty environment, when its two
  ports can be bound, the server starts.
\<close>

theorem credentials_round_trip:
  assumes "cs \<noteq> []" "\<forall>c\<in>set cs. cred_ok c"
  shows "\<exists>cfg. parseConfig e [''--workspace-credentials'', Join (CHR '','') (map credText cs)] = Inr cfg \<and>
    cfgWorkspaceCredentials cfg = cs \<and>
    (\<forall>wd s. startServer cfg wd = Inr s \<longrightarrow> MultiWorkspace (dAuth (sysDeps s)) \<and>
       (\<forall>pw. WorkspaceForPassword (dAuth (sysDeps s)) pw = map_option credWorkspace (find (\<lambda>c. credPassword c = pw) (rev cs))) \<and>
       (\<forall>pw. Check (dAuth (sysDeps s)) pw \<longleftrightarrow> pw \<in> credPassword ` set cs)) \<and>
    (\<forall>wd. e = fmempty \<and> wListen wd 0 DefaultPort = None \<and> wListen wd 1 DefaultMCPPort = None \<longrightarrow> (\<exists>s. startServer cfg wd = Inr s))"
proof -
  note p = parse_credentials [OF assms]
  then have "Join (CHR '','') (map credText cs) \<noteq> []" using assms(1) by (auto simp: parseWorkspaceCredentials_def)
  from credentials_flag [OF this p] obtain cfg where
    cfg: "parseConfig e [''--workspace-credentials'', Join (CHR '','') (map credText cs)] = Inr cfg"
      "cfgWorkspaceCredentials cfg = cs" "e = fmempty \<longrightarrow> cfg = DefaultConfig\<lparr>cfgWorkspaceCredentials := cs\<rparr>" by blast
  have a: "dAuth (sysDeps s) = NewMultiWorkspace cs" if "startServer cfg wd = Inr s" for wd s
    using that assms(1) cfg(2)
    by (auto simp: startServer_def server_run_def buildAuthenticator_def split: sum.splits if_splits option.splits)
  have m: "MultiWorkspace (NewMultiWorkspace cs)" by (simp add: MultiWorkspace_def NewMultiWorkspace_def)
  have "Check (NewMultiWorkspace cs) pw \<longleftrightarrow> pw \<in> credPassword ` set cs" for pw
    by (auto simp: Check_workspace [OF m] WorkspaceForPassword_last find_None_iff)
  moreover have "\<exists>s. startServer cfg wd = Inr s"
    if "e = fmempty \<and> wListen wd 0 DefaultPort = None \<and> wListen wd 1 DefaultMCPPort = None" for wd
    using that cfg(3) defaults_known [of cs] by (intro starts) (auto simp: DefaultConfig_def)
  ultimately show ?thesis using cfg(1,2) a m by (auto simp: WorkspaceForPassword_last)
qed

definition demoWorld :: world
  where "demoWorld = \<lparr>wListen = (\<lambda>_ _. None), wEnv = (\<lambda>n. env_at (20 + int n)), wHTTP = (\<lambda>_ _. SendFailed ''offline''), wErr = (\<lambda>_. ''error''),
    wCtx = (\<lambda>_. None), wFloat64 = (\<lambda>_ _. f64_zero), wRandom = (\<lambda>n. Inr [n]), wEdges = (\<lambda>_ _ es. es), wLater = (\<lambda>n. 20 + int n),
    wUni = (\<lambda>_. []), wQuote = (\<lambda>s. s), wZone = (\<lambda>_. 0)\<rparr>"

definition demoCreds :: "Credential list"
  where "demoCreds = [\<lparr>credWorkspace = ''A'', credPassword = ''pa''\<rparr>, \<lparr>credWorkspace = ''w'', credPassword = ''p:w''\<rparr>]"

theorem credentials_round_trip_witness:
  "\<exists>cfg s. parseConfig fmempty [''--workspace-credentials'', ''A:pa,w:p:w''] = Inr cfg \<and> startServer cfg demoWorld = Inr s \<and>
     WorkspaceForPassword (dAuth (sysDeps s)) ''p:w'' = Some ''w'' \<and> \<not> Check (dAuth (sysDeps s)) ''w''"
proof -
  have "demoCreds \<noteq> []" "\<forall>c\<in>set demoCreds. cred_ok c" by (simp_all add: demoCreds_def cred_ok_def)
  from credentials_round_trip [OF this, of fmempty] obtain cfg s where
    "parseConfig fmempty [''--workspace-credentials'', Join (CHR '','') (map credText demoCreds)] = Inr cfg"
    "startServer cfg demoWorld = Inr s" "WorkspaceForPassword (dAuth (sysDeps s)) ''p:w'' = Some ''w''"
    "\<not> Check (dAuth (sysDeps s)) ''w''"
    by (fastforce simp: demoWorld_def demoCreds_def)
  moreover have "Join (CHR '','') (map credText demoCreds) = ''A:pa,w:p:w''" by (simp add: demoCreds_def credText_def)
  ultimately show ?thesis by (intro exI [of _ cfg] exI [of _ s]) simp
qed

text \<open>
  C38. Precedence: a password on the command line is used whatever the environment and the \<^verbatim>\<open>.env\<close> file
  say, and without one the variable of the real environment is used, even when it is empty, whatever
  the file says; workspace credentials, if there are any, have to be well formed.
\<close>

theorem configuration_precedence:
  assumes "pw \<noteq> []" "fmlookup e ''CACHEPOT_PASSWORD'' = Some v"
    and "parseWorkspaceCredentials (Getenv (loadDotEnv file e) ''CACHEPOT_WORKSPACE_CREDENTIALS'') = Inr cs"
  shows "(\<exists>cfg. parseConfig (loadDotEnv file e) [''--password'', pw] = Inr cfg \<and> cfgPassword cfg = pw) \<and>
    (\<exists>cfg. parseConfig (loadDotEnv file e) [] = Inr cfg \<and> cfgPassword cfg = v)"
proof -
  let ?e = "loadDotEnv file e"
  have "splitFlag ''password'' = (''password'', None)" by code_simp
  moreover have d: "fmlookup (flagDefaults ?e) ''password'' = Some (FStr [])" "fmlookup (flagDefaults ?e) ''workspace-credentials'' = Some (FStr [])"
    by (simp_all add: flagDefaults_def fmlookup_of_list)
  ultimately have "parseFlags [''--password'', pw] (flagDefaults ?e) = Inr (fmupd ''password'' (FStr pw) (flagDefaults ?e))"
    using parse_one_flag [of "flagDefaults ?e" "''password''"] by simp
  moreover have "Getenv ?e ''CACHEPOT_PASSWORD'' = v" using loadDotEnv_keeps [OF assms(2)] by (simp add: Getenv_def)
  ultimately show ?thesis
    using assms(1,3) d by (simp add: parseConfig_def secretFlag_def strFlag_def)
qed

theorem configuration_precedence_witness:
  "\<exists>cfg. parseConfig (loadDotEnv (Some ''CACHEPOT_PASSWORD=f'')
       (fmupd ''CACHEPOT_WORKSPACE_CREDENTIALS'' [] (fmupd ''CACHEPOT_PASSWORD'' ''v'' fmempty))) [] = Inr cfg \<and> cfgPassword cfg = ''v''"
proof -
  let ?e = "fmupd ''CACHEPOT_WORKSPACE_CREDENTIALS'' [] (fmupd ''CACHEPOT_PASSWORD'' ''v'' fmempty)"
  have "parseWorkspaceCredentials (Getenv (loadDotEnv (Some ''CACHEPOT_PASSWORD=f'') ?e) ''CACHEPOT_WORKSPACE_CREDENTIALS'') = Inr []"
    using loadDotEnv_keeps [of ?e "''CACHEPOT_WORKSPACE_CREDENTIALS''" "[]"] by (simp add: Getenv_def parseWorkspaceCredentials_def)
  then show ?thesis
    using configuration_precedence [of "''x''" ?e "''v''" "Some ''CACHEPOT_PASSWORD=f''" "[]"] by simp
qed

section \<open>Every interleaving\<close>

text \<open>
  C3. From start-up on, whatever the clients send, in whatever order the commands of all connections,
  the calls of MCP tools, hang-ups, deliveries of published messages and sweeps of the reaper are
  executed: the store, the broker, agent
  memory, the graph and the cost tracker satisfy their invariants, the connections hold no more than
  the configured slots, and only open connections have subscriptions or message buffers.
\<close>

theorem system_invariant:
  assumes "startServer cfg wd = Inr s" "\<forall>n. env_ok (wEnv wd n)"
  shows "let s' = sysRun es s; d = sysDeps s'
    in store_wf (dEngine d) \<and> ps_wf (dPubSub d) \<and> ai_ok (dExt d) \<and> dAuth d = dAuth (sysDeps s) \<and>
       slotsTaken s' \<le> sysMax s' \<and>
       (\<forall>i. fmlookup (sysClients s') i = None \<longrightarrow> fmlookup (subChs (dPubSub d)) i = None \<and>
         (\<forall>ch. i |\<notin>| subscribersOf ch (channels (dPubSub d)) \<and> i |\<notin>| subscribersOf ch (patterns (dPubSub d))))"
proof -
  have ok: "sys_ok (sysRun es s)" using sys_ok_run [OF sys_ok_start [OF assms]] .
  then have "fmdom (subChs (dPubSub (sysDeps (sysRun es s)))) |\<subseteq>| fmdom (sysClients (sysRun es s))"
    by (simp add: sys_ok_def sys_inv_def Let_def)
  then have none: "fmlookup (subChs (dPubSub (sysDeps (sysRun es s)))) i = None" if "fmlookup (sysClients (sysRun es s)) i = None" for i
    using that by (metis fmdomE fmdom_notD fmdom_notI fsubsetD)
  have "dAuth (sysDeps (sysRun es s)) = dAuth (sysDeps s)"
    using sys_run_drift [OF sys_ok_start [OF assms]] by (simp add: drift_def)
  with ok none no_channel_no_subscription show ?thesis
    by (simp add: sys_ok_def sys_inv_def Let_def)
qed

theorem system_invariant_witness:
  "\<exists>s. startServer DefaultConfig demoWorld = Inr s \<and>
     slotsTaken (sysRun [Connect 1, Serve 1 [''SUBSCRIBE'', ''c''], Connect 2, Forward 1, Hangup 1, Sweep] s) \<le> sysMax (sysRun [Connect 1, Serve 1 [''SUBSCRIBE'', ''c''], Connect 2, Forward 1, Hangup 1, Sweep] s)"
proof -
  obtain s where "startServer DefaultConfig demoWorld = Inr s"
    using starts [of DefaultConfig demoWorld] defaults_known [of "[]"] by (auto simp: DefaultConfig_def demoWorld_def)
  moreover have "\<forall>n. env_ok (wEnv demoWorld n)" by (simp add: demoWorld_def)
  ultimately show ?thesis
    using system_invariant [of DefaultConfig demoWorld s] by (auto simp: Let_def)
qed

text \<open>
  C4. Workspace isolation across all connections: on a server with one password per workspace, while
  every connection is in a workspace of \<open>W\<close> or not logged in, presents only passwords of \<open>W\<close>, does not
  send SUMMARY.CREATE, and no MCP tool is called, a workspace outside \<open>W\<close> keeps its vectors, memories,
  histories and graph, and each of its keys keeps its value and expiry or is gone: because it had expired
  at a reading of the clock or, when the server has an entry cap, because an insert evicted it. Workspace
  names hold no NUL.
\<close>

theorem system_isolated:
  assumes "sys_ok s" "MultiWorkspace (dAuth (sysDeps s))"
    and "\<forall>i c. fmlookup (sysClients s) i = Some c \<longrightarrow> cleared noSummary table W (dAuth (sysDeps s)) c"
    and "\<forall>e\<in>set es. allowed noSummary W (dAuth (sysDeps s)) e"
    and "ws \<notin> W" "CHR 0x00 \<notin> set ws" "\<forall>w\<in>W. CHR 0x00 \<notin> set w"
  shows "let d = sysDeps s; d' = sysDeps (sysRun es s); x = sraw (dEngine d) (nsKey ws k); y = sraw (dEngine d') (nsKey ws k)
    in ai_view ws (dExt d') = ai_view ws (dExt d) \<and>
       (y = x \<or> y = None \<and> ((\<exists>n. live (now (dEnv d n)) x = None) \<or> 0 < maxEntries (dEngine d)))"
proof -
  let ?J = "\<lambda>x. \<forall>w. w \<notin> W \<longrightarrow> ai_view w x = ai_view w (dExt (sysDeps s))"
  have "sys_inv ?J noSummary W s" using assms(1-3) by (simp add: sys_ok_def sys_inv_def Let_def)
  from apart.events [OF this assms(4)] have run: "?J (dExt (sysDeps (sysRun es s)))" "drift W (sysDeps s) (sysDeps (sysRun es s))"
    by (auto simp: sys_inv_def Let_def)
  have "\<forall>w\<in>W. \<not> hasPrefix (nsKey ws k) (nsKey w [])"
    using assms(5-7) nsKey_inject [OF assms(6), of _ k] by (auto simp: hasPrefix_nsKey)
  with run assms(5) show ?thesis by (simp add: drift_def faded_def Let_def)
qed

definition twoTenants :: System \<comment> \<open>keys of workspace w, a client of A\<close>
  where "twoTenants = \<lparr>sysDeps = aiServer tenants, sysClients = fmempty, sysMax = 10, sysMCP = True\<rparr>"

theorem system_isolated_witness:
  "let y = sraw (dEngine (sysDeps (sysRun [Connect 1, Serve 1 [''AUTH'', ''pa''], Serve 1 [''FLUSHALL''], Sweep] twoTenants))) (nsKey ''w'' ''a'')
   in y = sraw demo (nsKey ''w'' ''a'') \<or> y = None \<and> (\<exists>n. live (20 + int n) (sraw demo (nsKey ''w'' ''a'')) = None)"
proof -
  let ?es = "[Connect 1, Serve 1 [''AUTH'', ''pa''], Serve 1 [''FLUSHALL''], Sweep]"
  have "MultiWorkspace tenants" by (simp add: tenants_def MultiWorkspace_def NewMultiWorkspace_def)
  moreover have "sys_ok twoTenants"
  proof -
    have "subChs (dPubSub (aiServer tenants)) = fmempty" by (simp add: aiServer_def NewPubSub_def)
    then show ?thesis
      using demo_wf ai_ok_fresh by (simp add: sys_ok_def sys_inv_def twoTenants_def Let_def slotsTaken_def fcard_fempty)
  qed
  moreover have "to_upper ''AUTH'' = ''AUTH''" "to_upper ''FLUSHALL'' = ''FLUSHALL''" by code_simp+
  then have "\<forall>e\<in>set ?es. allowed noSummary {''A''} tenants e"
    by (auto simp: noSummary_def grants_def tenants_def WorkspaceForPassword_last simp del: to_upper.simps)
  ultimately show ?thesis
    using system_isolated [of twoTenants "{''A''}" ?es "''w''" "''a''"] demo_config
    by (simp add: twoTenants_def Let_def)
qed

section \<open>The front doors\<close>

text \<open>
  C10. For each of the fifteen MCP tools, a call and the RESP command that says the same (\<open>mirrors\<close>), on
  equal states: the reply of the command is what the tool returns, errors included, and both leave the
  same caches, vectors, memories, graph and cost tracker; they may differ in the counters. The connection
  of the command has to be authorized for the workspace; a tool call is not checked.
\<close>

theorem front_doors_agree:
  assumes "mirrors c w cmd" "linked w a b"
  shows "fst (run_state (asCommand c) a) = fst (run_state (aiHandler (hd cmd) cmd) b) \<and>
    linked w (snd (run_state (asCommand c) a)) (snd (run_state (aiHandler (hd cmd) cmd) b))"
  using mirrors_agree [OF assms(1)] assms(2) by (simp add: agree_def)

theorem front_doors_agree_witness:
  "let d = accepted 1 (aiServer (auth_New []))
   in aMemory (dExt (deps (snd (run_state (asCommand (CallRemember \<lparr>reAgentID = ''ag'', reContent = ''hi'', reWorkspace = ''w'', reKind = [],
          reMetadata = fmempty, reTTLSeconds = 5\<rparr>)) d)))) =
      aMemory (dExt (deps (snd (run_state (aiHandler ''AGENT.REMEMBER'' [''AGENT.REMEMBER'', ''ag'', ''hi'', ''WORKSPACE'', ''w'',
          ''KIND'', ''long_term'', ''METADATA'', ''{}'', ''TTL'', FormatInt 5]) d))))"
proof -
  let ?d = "accepted 1 (aiServer (auth_New []))"
  have l: "linked ''w'' ?d ?d"
    by (simp add: linked_def accepted_def authorizedForWorkspace_def auth_New_def MultiWorkspace_def)
  have j: "parseMetadataJSON ''{}'' = Some fmempty" by code_simp
  have "mirrors (CallRemember \<lparr>reAgentID = ''ag'', reContent = ''hi'', reWorkspace = ''w'', reKind = [], reMetadata = fmempty, reTTLSeconds = 5\<rparr>) ''w''
    [''AGENT.REMEMBER'', ''ag'', ''hi'', ''WORKSPACE'', ''w'', ''KIND'', ''long_term'', ''METADATA'', ''{}'', ''TTL'', FormatInt 5]"
    using mirrors.remember [of "\<lparr>reAgentID = ''ag'', reContent = ''hi'', reWorkspace = ''w'', reKind = [], reMetadata = fmempty, reTTLSeconds = 5\<rparr>" "''{}''"] j
    by (simp add: orDefault_def is_int64_def)
  from front_doors_agree [OF this l] show ?thesis by (simp add: linked_def Let_def)
qed

end
