(* ===== verification/TypeProperties.thy ===== *)
theory TypeProperties
  imports StorageProperties
begin

text \<open>
  The type discipline of the engine. A key has the kind of the value it holds; every call on a key
  either works on all kinds or requires one (\<open>requires\<close>).
\<close>

fun kindOf :: "avalue \<Rightarrow> Kind" where
  "kindOf VNone = KindNone"
| "kindOf (VString _) = KindString"
| "kindOf (VHash _) = KindHash"
| "kindOf (VList _) = KindList"
| "kindOf (VSet _) = KindSet"
| "kindOf (VZSet _) = KindZSet"

fun requires :: "keyOp \<Rightarrow> Kind option" where
  "requires OGet = Some KindString"
| "requires (OSet _ opts) = (if GetOld opts then Some KindString else None)"
| "requires ODel = None"
| "requires (OExpire _) = None"
| "requires OTTL = None"
| "requires OPersist = None"
| "requires (OHSet _) = Some KindHash"
| "requires (OHGet _) = Some KindHash"
| "requires OHGetAll = Some KindHash"
| "requires (OHDel _) = Some KindHash"
| "requires (OHExists _) = Some KindHash"
| "requires OHKeys = Some KindHash"
| "requires OHVals = Some KindHash"
| "requires OHLen = Some KindHash"
| "requires (OHMGet _) = Some KindHash"
| "requires (OHIncrBy _ _) = Some KindHash"
| "requires (OLPush _) = Some KindList"
| "requires (ORPush _) = Some KindList"
| "requires OLPop = Some KindList"
| "requires ORPop = Some KindList"
| "requires (OLRange _ _) = Some KindList"
| "requires OLLen = Some KindList"
| "requires (OLIndex _) = Some KindList"
| "requires (OLSet _ _) = Some KindList"
| "requires (OLRem _ _) = Some KindList"
| "requires (OSAdd _) = Some KindSet"
| "requires (OSRem _) = Some KindSet"
| "requires OSMembers = Some KindSet"
| "requires (OSIsMember _) = Some KindSet"
| "requires OSCard = Some KindSet"
| "requires (OZAdd _) = Some KindZSet"
| "requires (OZRem _) = Some KindZSet"
| "requires (OZRange _ _) = Some KindZSet"
| "requires (OZRevRange _ _) = Some KindZSet"
| "requires (OZScore _) = Some KindZSet"
| "requires (OZRank _) = Some KindZSet"
| "requires OZCard = Some KindZSet"
| "requires (OZIncrBy _ _) = Some KindZSet"
| "requires (OZRangeByScore _ _) = Some KindZSet"

fun rejected :: "result \<Rightarrow> bool" where \<comment> \<open>the call returned the wrong-type error\<close>
  "rejected (RVal r) = (r = Inl ErrWrongType)"
| "rejected (RSet r) = (r = Inl ErrWrongType)"
| "rejected (RInt r) = (r = Inl ErrWrongType)"
| "rejected (RTest r) = (r = Inl ErrWrongType)"
| "rejected (RMap r) = (r = Inl ErrWrongType)"
| "rejected (RStrings r) = (r = Inl ErrWrongType)"
| "rejected (RVals r) = (r = Inl ErrWrongType)"
| "rejected (RList r) = (r = Inl ErrWrongType)"
| "rejected (RErr r) = (r = Inl ErrWrongType)"
| "rejected (RMembers r) = (r = Inl ErrWrongType)"
| "rejected (RScore r) = (r = Inl ErrWrongType)"
| "rejected (RRank r) = (r = Inl ErrWrongType)"
| "rejected (RFloat r) = (r = Inl ErrWrongType)"
| "rejected _ = False"

lemmas cell_defs = cGet_def cSet_def cDel_def cExpire_def cTTL_def cPersist_def
  cHSet_def cHGet_def cHGetAll_def cHDel_def cHExists_def cHKeys_def cHVals_def cHLen_def cHMGet_def cHIncrBy_def
  cPush_def cLPush_def cRPush_def cLPop_def cRPop_def cLRange_def cLLen_def cLIndex_def cLSet_def cLRem_def
  cSAdd_def cSRem_def cSMembers_def cSIsMember_def cSCard_def
  cZAdd_def cZRem_def cZRange_def cZRevRange_def cZScore_def cZRank_def cZCard_def cZIncrBy_def cZRangeByScore_def
  chash_def clist_def cset_def czset_def or_new_def drop_if_def Let_def

lemma cell_rejects:
  "rejected (fst (cellKey env op (Some (v, x)))) \<longleftrightarrow> (\<exists>kd. requires op = Some kd \<and> kindOf v \<noteq> kd)"
  by (cases op; cases v; simp add: cell_defs split: option.splits)

lemma cell_rejected: "rejected (fst (cellKey env op (Some (v, x)))) \<Longrightarrow> snd (cellKey env op (Some (v, x))) = Some (v, x)"
  unfolding cell_rejects by (cases op; cases v; simp add: cell_defs split: if_splits)

lemma cell_kind:
  assumes "snd (cellKey env op (Some (v, x))) = Some (v', x')" "\<forall>b opts. op \<noteq> OSet b opts"
  shows "kindOf v' = kindOf v"
  using assms by (cases op; cases v; auto simp: cell_defs split: option.splits if_splits)

lemma Type_kind:
  "Type env ws k s = (case live (now env) (sraw s (nsKey ws k)) of None \<Rightarrow> ([], False) | Some (v, _) \<Rightarrow> (Kind_String (kindOf v), True))"
  unfolding Type_eq by (auto split: option.split avalue.split)

lemma Kind_String_inject: "Kind_String a = Kind_String b \<longleftrightarrow> a = b"
  by (cases a; cases b) simp_all

lemma live_cases: "live t c = None \<or> live t c = c"
  by (cases c) (auto simp: live_def split: option.splits)

text \<open>The calls of the engine that may put a value of another kind under a key.\<close>

fun replaces :: "string \<Rightarrow> engineOp \<Rightarrow> bool" where
  "replaces ck (KeyOp ws k (OSet _ _)) \<longleftrightarrow> nsKey ws k = ck"
| "replaces ck (ORename ws old new) \<longleftrightarrow> nsKey ws new = ck"
| "replaces ck _ \<longleftrightarrow> False"

lemma Rename_cell:
  assumes "store_wf s" "nsKey ws new \<noteq> ck"
  shows "sraw (snd (Rename env ws old new s)) ck \<in> {sraw s ck, None}"
proof (cases "live (now env) (sraw s (nsKey ws old))")
  case None
  with sstep_sraw [of "{nsKey ws old}" 1 "{}" s "snd (Rename env ws old new s)" ck] Rename_absent [OF assms(1) None, of new]
  show ?thesis by (cases "ck = nsKey ws old") auto
next
  case (Some c)
  then obtain e where "entry s (nsKey ws old) = Some e" "\<not> expired e (now env)"
    by (cases "entry s (nsKey ws old)") (auto simp: sraw_entry live_acell split: if_splits)
  then show ?thesis using Rename_present(2) [OF assms(1), of ws old _ env new ck] assms(2) by (auto simp: sraw_entry)
qed

lemma exec_cell:
  assumes wf: "store_wf s" and env: "env_ok env" and other: "\<not> replaces ck op"
  shows "sraw (snd (exec env op s)) ck \<in> {sraw s ck, None} \<or>
    (\<exists>kop. (\<forall>b opts. kop \<noteq> OSet b opts) \<and> sraw (snd (exec env op s)) ck = snd (cellKey env kop (live (now env) (sraw s ck))))"
proof (cases op)
  case (KeyOp ws k kop)
  have i: "implements (nsKey ws k) (now env) 4 (max_evict s) (cellKey env kop) s (execKey env ws k kop s)"
    by (rule keyOp_implements [OF wf env])
  show ?thesis
  proof (cases "nsKey ws k = ck")
    case True
    moreover from this KeyOp other have "\<forall>b opts. kop \<noteq> OSet b opts" by auto
    ultimately show ?thesis using i KeyOp by (auto simp: implements_def)
  next
    case False
    obtain V where "sstep {nsKey ws k} 4 V s (snd (execKey env ws k kop s))" using i by (auto simp: implements_def)
    with sstep_sraw [OF this, of ck] False KeyOp show ?thesis by simp
  qed
next
  case (ODels ws ks)
  then show ?thesis
    using sstep_sraw [OF Del_step [OF wf, of ws ks env], of ck] Del_result [OF wf, of env ws ks]
    by (cases "ck \<in> nsKey ws ` set ks") (auto simp: sraw_entry)
next
  case (ORename ws old new)
  then show ?thesis using Rename_cell [OF wf, of ws new ck env old] other by simp
next
  case (OFlushDB ws)
  then show ?thesis using FlushDB_step(2) [OF wf env, of ws ck] by (simp add: sraw_entry)
next
  case (OSweep i n)
  show ?thesis
  proof (cases "i < length (shards s)")
    case True
    obtain ks where "\<And>k. entry (snd (SweepShard env i n s)) k = (if k \<in> set ks then None else entry s k)"
      by (rule SweepShard_effect [OF wf env True, of n]) blast
    with True OSweep show ?thesis by (simp add: sraw_entry)
  qed (use OSweep in simp)
next
  case (OSInter ws ks)
  then show ?thesis using SInter_reply [OF wf env, of ws ks] by (simp add: set_reply_def live_same_def)
next
  case (OSUnion ws ks)
  then show ?thesis using SUnion_reply [OF wf, of env ws ks] by (simp add: set_reply_def live_same_def)
next
  case (OSDiff ws ks)
  then show ?thesis using SDiff_reply [OF wf env, of ws ks] by (simp add: set_reply_def live_same_def)
qed simp_all

text \<open>
  C9. The type discipline: when TYPE reports a kind for a key, a call on that one key is refused with
  the wrong-type error exactly if it requires another kind, and a refused call changes nothing that
  can be seen of the key. After any call of the engine the key is of the same kind or gone, unless the
  call is a SET of the key or a RENAME onto it.
\<close>

theorem type_discipline:
  assumes "store_wf s" "env_ok env" "Type env ws k s = (name, True)"
  shows "(let (r, s') = execKey env ws k op s
    in (rejected r \<longleftrightarrow> (\<exists>kd. requires op = Some kd \<and> Kind_String kd \<noteq> name)) \<and>
       (rejected r \<longrightarrow> live (now env) (sraw s' (nsKey ws k)) = live (now env) (sraw s (nsKey ws k)))) \<and>
    (\<not> replaces (nsKey ws k) call \<longrightarrow> Type env ws k (snd (exec env call s)) \<in> {(name, True), ([], False)})"
proof -
  let ?ck = "nsKey ws k"
  obtain v x where v: "live (now env) (sraw s ?ck) = Some (v, x)" "name = Kind_String (kindOf v)"
    using assms(3) by (auto simp: Type_kind split: option.splits)
  obtain r s' where e: "execKey env ws k op s = (r, s')" by fastforce
  have i: "r = fst (cellKey env op (Some (v, x)))" "sraw s' ?ck = snd (cellKey env op (Some (v, x)))"
    using keyOp_implements [OF assms(1,2), of ws k op] e v(1) by (simp_all add: implements_def)
  have idem: "live (now env) (Some (v, x)) = Some (v, x)" using v(1) live_cases [of "now env" "sraw s ?ck"] by auto
  have kind: "kindOf a = kindOf v" if "Some (a, b) = snd (cellKey env kop (Some (v, x)))" "\<forall>b opts. kop \<noteq> OSet b opts" for a b kop
    using cell_kind [OF that(1) [symmetric] that(2)] .
  have "Type env ws k (snd (exec env call s)) \<in> {(name, True), ([], False)}" if other: "\<not> replaces ?ck call"
    using exec_cell [OF assms(1,2) other] live_cases [of "now env" "sraw (snd (exec env call s)) ?ck"] v
    by (auto simp: Type_kind kind split: option.split)
  with e i v idem cell_rejects [of env op v x] cell_rejected [of env op v x] show ?thesis
    by (auto simp: Kind_String_inject)
qed

theorem type_discipline_witness:
  "rejected (fst (execKey (env_at 12) ''w'' ''b'' OLPop demo)) \<and>
   Type (env_at 12) ''w'' ''b'' (snd (exec (env_at 12) (ORename ''w'' ''b'' ''c'') demo)) \<in> {(''set'', True), ([], False)}"
proof -
  have "Type (env_at 12) ''w'' ''b'' demo = (''set'', True)" by code_simp
  from type_discipline [OF demo_wf _ this, of OLPop "ORename ''w'' ''b'' ''c''"] show ?thesis by (simp add: split_beta)
qed

end
