(* ===== verification/ProviderProperties.thy ===== *)
theory ProviderProperties
  imports ServerProperties Providers
begin

text \<open>
  The clients of OpenAI-compatible services: what they send, and what they make of the answers.
\<close>

text \<open>
  C39. A batch of texts is embedded in order: when the service answers with one entry for every text,
  in whatever order, the call returns at every position the embedding of the entry with that index, and the
  tokens reported. Whatever the service answers, a call that succeeds returns one vector for every text.
\<close>

theorem embeddings_in_order:
  fixes http :: http
  assumes "http (request p (Marshal (embeddingRequest (opModel p) texts))) = Response 200 body" "texts \<noteq> []"
    and "UnmarshalEmbeddings body = Some r" "erError r = None"
    and "mset (map emIndex (elems (erData r))) = mset (map int [0..<length texts])"
  shows "(\<exists>out. openai_EmbedBatchWithUsage http p texts = Inr (out, erTokens r) \<and>
      (\<forall>d\<in>set (elems (erData r)). out ! nat (emIndex d) = elems (emEmbedding d))) \<and>
    (\<forall>http' texts' out k. openai_EmbedBatchWithUsage http' p texts' = Inr (out, k) \<longrightarrow> length out = length texts')"
proof -
  let ?ds = "elems (erData r)"
  have n: "length ?ds = length texts" using assms(5) mset_eq_length by fastforce
  have dist: "distinct (map emIndex ?ds)" using mset_eq_imp_distinct_iff [OF assms(5)] by (simp add: distinct_map)
  have "set (map emIndex ?ds) = int ` {..<length texts}" using mset_eq_setD [OF assms(5)] by (simp add: lessThan_atLeast0)
  then have "emIndex d \<in> int ` {..<length texts}" if "d \<in> set ?ds" for d using that by auto
  then have range: "\<forall>d\<in>set ?ds. 0 \<le> emIndex d \<and> emIndex d < int (length (replicate (length texts) ([] :: vec)))" by fastforce
  obtain out where out: "placeAll ?ds (replicate (length texts) []) = Inr out"
    using placeAll_ok [OF range] by blast
  have run: "openai_EmbedBatchWithUsage http p texts = Inr (out, erTokens r)"
    using assms n out by (simp add: openai_EmbedBatchWithUsage_def exchange_def)
  have len: "length out' = length ts" if "openai_EmbedBatchWithUsage h p ts = Inr (out', k)" for h ts out' k
  proof (cases "ts = []")
    case False
    with that obtain ds where "placeAll ds (replicate (length ts) []) = Inr out'"
      by (auto simp: openai_EmbedBatchWithUsage_def map_sum_def split: sum.splits option.splits if_splits)
    with placeAll_ok [of ds "replicate (length ts) []"] placeAll_range [of ds "replicate (length ts) []" out'] show ?thesis by auto
  qed (use that in \<open>simp add: openai_EmbedBatchWithUsage_def\<close>)
  show ?thesis using run placeAll_distinct [OF dist out] len by blast
qed

text \<open>A service that answers in another order, or answers an index twice.\<close>

definition answer :: "string \<Rightarrow> string \<Rightarrow> jraw"
  where "answer i j = RObj [(''data'', RArr
    [RObj [(''index'', RNum i), (''embedding'', RArr [RNum ''1''])],
     RObj [(''index'', RNum j), (''embedding'', RArr [RNum ''2''])]]),
   (''usage'', RObj [(''total_tokens'', RNum ''5'')])]"

lemma answer_ok: "number_ok i \<Longrightarrow> number_ok j \<Longrightarrow> raw_ok maxNestingDepth (answer i j)"
proof -
  have "utf8 (bytesOf ''index'')" "utf8 (bytesOf ''embedding'')" "utf8 (bytesOf ''data'')" "utf8 (bytesOf ''usage'')"
    "utf8 (bytesOf ''total_tokens'')"
    by (rule utf8_ascii, code_simp)+
  moreover have "number_ok ''1''" "number_ok ''2''" "number_ok ''5''" unfolding number_ok_def by code_simp+
  ultimately show "number_ok i \<Longrightarrow> number_ok j \<Longrightarrow> ?thesis" by (simp add: answer_def maxNestingDepth_def)
qed

lemma answer_read:
  "UnmarshalEmbeddings (render (answer ''1'' ''0'')) =
    Some \<lparr>erData = ([\<lparr>emEmbedding = ([Fin False 1], 1), emIndex = 1\<rparr>, \<lparr>emEmbedding = ([Fin False 2], 1), emIndex = 0\<rparr>], 2),
      erTokens = 5, erError = None\<rparr>"
  "UnmarshalEmbeddings (render (answer ''0'' ''0'')) =
    Some \<lparr>erData = ([\<lparr>emEmbedding = ([Fin False 1], 1), emIndex = 0\<rparr>, \<lparr>emEmbedding = ([Fin False 2], 1), emIndex = 0\<rparr>], 2),
      erTokens = 5, erError = None\<rparr>"
proof -
  have "number_ok ''0''" "number_ok ''1''" unfolding number_ok_def by code_simp+
  note ok = answer_ok [OF this(2,1)] answer_ok [OF this(1,1)]
  show "UnmarshalEmbeddings (render (answer ''1'' ''0'')) =
    Some \<lparr>erData = ([\<lparr>emEmbedding = ([Fin False 1], 1), emIndex = 1\<rparr>, \<lparr>emEmbedding = ([Fin False 2], 1), emIndex = 0\<rparr>], 2),
      erTokens = 5, erError = None\<rparr>"
    unfolding UnmarshalEmbeddings_def parse_render [OF ok(1)] option.case by code_simp
  show "UnmarshalEmbeddings (render (answer ''0'' ''0'')) =
    Some \<lparr>erData = ([\<lparr>emEmbedding = ([Fin False 1], 1), emIndex = 0\<rparr>, \<lparr>emEmbedding = ([Fin False 2], 1), emIndex = 0\<rparr>], 2),
      erTokens = 5, erError = None\<rparr>"
    unfolding UnmarshalEmbeddings_def parse_render [OF ok(2)] option.case by code_simp
qed

theorem embeddings_in_order_witness:
  "\<exists>out. openai_EmbedBatchWithUsage (\<lambda>_. Response 200 (render (answer ''1'' ''0''))) (embed_NewOpenAI ''key'' [] []) [''a'', ''b''] =
     Inr (out, 5) \<and> out ! 0 = [Fin False 2] \<and> out ! 1 = [Fin False 1]"
  using embeddings_in_order [of "\<lambda>_. Response 200 (render (answer ''1'' ''0''))" "embed_NewOpenAI ''key'' [] []" "[''a'', ''b'']", OF refl _ answer_read(1)]
  by (auto simp: elems_def)

text \<open>
  A response that gives one index twice passes the checks, and the text whose index is missing gets an
  empty vector instead of an error.
\<close>

theorem duplicate_index_passes:
  "openai_EmbedBatchWithUsage (\<lambda>_. Response 200 (render (answer ''0'' ''0''))) p [''a'', ''b''] = Inr ([[Fin False 2], []], 5)"
  using answer_read(2) by (simp add: openai_EmbedBatchWithUsage_def exchange_def elems_def)

text \<open>What the clients send reads as the model, the texts and the prompts they were given.\<close>

lemma requests_read_back:
  assumes "utf8 (bytesOf m)"
  shows "\<forall>t\<in>set ts. utf8 (bytesOf t) \<Longrightarrow>
      UnmarshalAny (Marshal (embeddingRequest m ts)) = Some (JObj [(''input'', JArr (map JStr ts)), (''model'', JStr m)])"
    and "utf8 (bytesOf a) \<Longrightarrow> utf8 (bytesOf b) \<Longrightarrow>
      UnmarshalAny (Marshal (chatRequest m a b)) = Some (JObj [(''messages'', JArr
        [JObj [(''content'', JStr a), (''role'', JStr ''system'')], JObj [(''content'', JStr b), (''role'', JStr ''user'')]]), (''model'', JStr m)])"
proof -
  have u: "utf8 (bytesOf ''model'')" "utf8 (bytesOf ''input'')" "utf8 (bytesOf ''messages'')" "utf8 (bytesOf ''role'')"
    "utf8 (bytesOf ''content'')" "utf8 (bytesOf ''system'')" "utf8 (bytesOf ''user'')"
    by (rule utf8_ascii, code_simp)+
  have o: "(''model'' :: string) > ''input''" "(''model'' :: string) > ''messages''" "(''role'' :: string) > ''content''" by code_simp+
  show "UnmarshalAny (Marshal (embeddingRequest m ts)) = Some (JObj [(''input'', JArr (map JStr ts)), (''model'', JStr m)])"
    if "\<forall>t\<in>set ts. utf8 (bytesOf t)"
  proof -
    have "raw_ok maxNestingDepth (RObj [(''model'', RStr m), (''input'', RArr (map RStr ts))])"
      using assms that u by (simp add: maxNestingDepth_def)
    moreover have "sequence (map (\<lambda>t. Some (JStr t)) ts) = Some (map JStr ts)" by (simp add: sequence_Some comp_def)
    ultimately show ?thesis
      using o unfolding UnmarshalAny_def embeddingRequest_render
      by (simp add: parse_render comp_def objectOf_def del: render.simps)
  qed
  show "UnmarshalAny (Marshal (chatRequest m a b)) = Some (JObj [(''messages'', JArr
        [JObj [(''content'', JStr a), (''role'', JStr ''system'')], JObj [(''content'', JStr b), (''role'', JStr ''user'')]]), (''model'', JStr m)])"
    if "utf8 (bytesOf a)" "utf8 (bytesOf b)"
  proof -
    have "raw_ok maxNestingDepth (RObj [(''model'', RStr m), (''messages'', RArr
       [RObj [(''role'', RStr ''system''), (''content'', RStr a)], RObj [(''role'', RStr ''user''), (''content'', RStr b)]])])"
      using assms that u by (simp add: maxNestingDepth_def)
    then show ?thesis
      using o unfolding UnmarshalAny_def chatRequest_render by (simp add: parse_render objectOf_def del: render.simps)
  qed
qed

end
