(* ===== verification/Endpoints.thy ===== *)
theory Endpoints
  imports AIState
begin

text \<open>
  The HTTP endpoints of \<^verbatim>\<open>internal/observability/http.go\<close>: the bodies of \<^verbatim>\<open>/metrics\<close> (Prometheus
  text) and \<^verbatim>\<open>/stats\<close> (JSON), and the data that the dashboard shows. The rendering of the dashboard by
  \<^verbatim>\<open>html/template\<close> is not modelled. \<open>uq\<close> is \<^verbatim>\<open>strconv.Quote\<close> of texts that are not ASCII.
\<close>

section \<open>Prometheus text\<close>

abbreviation nl :: string where "nl \<equiv> [CHR 0x0A]"

definition quoted :: "(string \<Rightarrow> string) \<Rightarrow> string \<Rightarrow> string" \<comment> \<open>the verb \<^verbatim>\<open>%q\<close>\<close>
  where "quoted uq s = (if list_all (\<lambda>c. byte c < 128) s then dq @ concat (map quoteChar s) @ dq else uq s)"

definition sample :: "string \<Rightarrow> string \<Rightarrow> string \<Rightarrow> int \<Rightarrow> string"
  where "sample kind name help v =
    ''# HELP '' @ name @ '' '' @ help @ nl @ ''# TYPE '' @ name @ '' '' @ kind @ nl @ name @ '' '' @ Itoa v @ nl"

abbreviation counter :: "string \<Rightarrow> string \<Rightarrow> int \<Rightarrow> string" where "counter \<equiv> sample ''counter''"
abbreviation gauge :: "string \<Rightarrow> string \<Rightarrow> int \<Rightarrow> string" where "gauge \<equiv> sample ''gauge''"

definition familyHead :: "string \<Rightarrow> string \<Rightarrow> string \<Rightarrow> string"
  where "familyHead kind name help = ''# HELP '' @ name @ '' '' @ help @ nl @ ''# TYPE '' @ name @ '' '' @ kind @ nl"

definition labelled :: "(string \<Rightarrow> string) \<Rightarrow> string \<Rightarrow> string \<Rightarrow> string \<Rightarrow> string \<Rightarrow> string"
  where "labelled uq name label l v = name @ ''{'' @ label @ ''='' @ quoted uq l @ ''} '' @ v @ nl"

definition seconds :: "int \<Rightarrow> string" \<comment> \<open>the verb \<^verbatim>\<open>%g\<close> on \<^verbatim>\<open>float64(n)/1e9\<close>\<close>
  where "seconds n = FormatFloat (f64_div (f64_of_int n) (f64_of_int 1000000000))"

definition scalarSamples :: "Snapshot \<Rightarrow> string list" \<comment> \<open>up to the calls by tool\<close>
  where "scalarSamples snap =
    [counter ''cachepot_connections_total'' ''Total accepted connections.'' (ConnectionsTotal snap),
     gauge ''cachepot_connections_active'' ''Currently open connections.'' (ConnectionsActive snap),
     counter ''cachepot_connections_rejected_total'' ''Connections rejected (max-connections reached).'' (ConnectionsRejected snap),
     counter ''cachepot_commands_total'' ''Total dispatched RESP commands.'' (CommandsTotal snap),
     counter ''cachepot_errors_total'' ''Total error replies sent to clients.'' (ErrorsTotal snap),
     counter ''cachepot_semantic_cache_hits_total'' ''CACHE.SEMANTIC GET hits.'' (CacheStats.Hits (SemanticCache snap)),
     counter ''cachepot_semantic_cache_misses_total'' ''CACHE.SEMANTIC GET misses.'' (Misses (SemanticCache snap)),
     counter ''cachepot_prompt_cache_hits_total'' ''CACHE.PROMPT GET hits.'' (CacheStats.Hits (PromptCache snap)),
     counter ''cachepot_prompt_cache_misses_total'' ''CACHE.PROMPT GET misses.'' (Misses (PromptCache snap)),
     counter ''cachepot_tool_cache_hits_total'' ''TOOL.CACHE GET hits.'' (CacheStats.Hits (ToolCache snap)),
     counter ''cachepot_tool_cache_misses_total'' ''TOOL.CACHE GET misses.'' (Misses (ToolCache snap)),
     counter ''cachepot_vector_searches_total'' ''VECTOR.SEARCH invocations.'' (VectorSearchesTotal snap),
     counter ''cachepot_memory_reads_total'' ''Agent-memory reads (MEMORY.GET/SEARCH, AGENT.RECALL).'' (MemoryReadsTotal snap),
     counter ''cachepot_memory_writes_total'' ''Agent-memory writes (MEMORY.PUT, AGENT.REMEMBER).'' (MemoryWritesTotal snap),
     counter ''cachepot_evictions_total'' ''Keys evicted by the maxmemory-style bounded-size trigger.'' (EvictionsTotal snap),
     counter ''cachepot_consolidations_total'' ''SUMMARY.CREATE/consolidate invocations.'' (ConsolidationsTotal snap),
     counter ''cachepot_memories_deduped_total''
       ''Source memories dropped as near-duplicates during consolidation's dedup pass (excluded from summarization input, never deleted from the store).''
       (MemoriesDedupedTotal snap),
     counter ''cachepot_graph_extractions_total'' ''GRAPH.EXTRACT/extract_entities invocations.'' (GraphExtractionsTotal snap),
     counter ''cachepot_entities_extracted_total''
       ''Entities added to the knowledge graph across all extractions (0 whenever the CompletionProvider's response wasn't valid JSON, e.g. the mock provider).''
       (EntitiesExtractedTotal snap),
     counter ''cachepot_relations_extracted_total'' ''Relations added to the knowledge graph across all extractions.'' (RelationsExtractedTotal snap),
     counter ''cachepot_mcp_calls_total'' ''Total MCP tool invocations.'' (MCPCallsTotal snap)]"

definition callSamples :: "Snapshot \<Rightarrow> string list" \<comment> \<open>between the calls by tool and the latencies\<close>
  where "callSamples snap =
    [counter ''cachepot_embedding_calls_total'' ''Total embedding-provider calls issued.'' (EmbeddingCallsTotal snap),
     counter ''cachepot_embedding_calls_errors_total'' ''Embedding-provider calls that returned an error.'' (EmbeddingCallsErrors snap),
     gauge ''cachepot_embedding_calls_in_flight'' ''Embedding-provider calls currently in flight.'' (EmbeddingCallsInFlight snap),
     counter ''cachepot_completion_calls_total'' ''Total completion-provider calls issued.'' (CompletionCallsTotal snap),
     counter ''cachepot_completion_calls_errors_total'' ''Completion-provider calls that returned an error.'' (CompletionCallsErrors snap),
     gauge ''cachepot_completion_calls_in_flight'' ''Completion-provider calls currently in flight.'' (CompletionCallsInFlight snap)]"

definition MetricsHandler :: "(string \<Rightarrow> string) \<Rightarrow> goenv \<Rightarrow> goenv \<Rightarrow> Metrics \<Rightarrow> string"
  where "MetricsHandler uq env env' m =
    (let snap = takeSnapshot env m; lat = Latency snap in
     concat (scalarSamples snap) @
     familyHead ''counter'' ''cachepot_mcp_calls_by_tool_total'' ''Total MCP tool invocations, by tool name.'' @
     concat (map (\<lambda>t. labelled uq ''cachepot_mcp_calls_by_tool_total'' ''tool'' t (Itoa (the (fmlookup (MCPCallsByTool snap) t))))
       (range_keys env' (MCPCallsByTool snap))) @
     concat (callSamples snap) @
     familyHead ''gauge'' ''cachepot_command_latency_avg_seconds'' ''Average command latency, by command family.'' @
     concat (map (\<lambda>l. labelled uq ''cachepot_command_latency_avg_seconds'' ''family'' (lFamily l) (seconds (AvgNanos l))) lat) @
     familyHead ''gauge'' ''cachepot_command_latency_max_seconds'' ''Maximum observed command latency, by command family.'' @
     concat (map (\<lambda>l. labelled uq ''cachepot_command_latency_max_seconds'' ''family'' (lFamily l) (seconds (MaxNanos l))) lat) @
     familyHead ''counter'' ''cachepot_commands_by_family_total'' ''Total commands dispatched, by command family.'' @
     concat (map (\<lambda>l. labelled uq ''cachepot_commands_by_family_total'' ''family'' (lFamily l) (Itoa (lCount l))) lat))"

section \<open>JSON\<close>

text \<open>Values as the encoder sees them; an infinity or a NaN is an error.\<close>

datatype jdoc = DInt int | DFloat float64 | DBool bool | DStr string | DArr "jdoc list" | DObj "(string \<times> jdoc) list"

fun encodeDoc :: "jdoc \<Rightarrow> string option" where
  "encodeDoc (DInt n) = Some (Itoa n)"
| "encodeDoc (DFloat x) = (case x of Fin s q \<Rightarrow> Some (marshalNum x) | _ \<Rightarrow> None)"
| "encodeDoc (DBool b) = Some (if b then ''true'' else ''false'')"
| "encodeDoc (DStr s) = Some (marshalString s)"
| "encodeDoc (DArr ds) = map_option (\<lambda>xs. ''['' @ commas xs @ '']'') (sequence (map encodeDoc ds))"
| "encodeDoc (DObj fs) =
    map_option (\<lambda>xs. ''{'' @ commas xs @ ''}'')
      (sequence (map (\<lambda>(k, d). map_option (\<lambda>x. marshalString k @ '':'' @ x) (encodeDoc d)) fs))"

definition mapDoc :: "('v \<Rightarrow> jdoc) \<Rightarrow> (string, 'v) fmap \<Rightarrow> jdoc" \<comment> \<open>a Go map, in key order\<close>
  where "mapDoc f m = DObj (map (\<lambda>k. (k, f (the (fmlookup m k)))) (fkeys m))"

definition statsCacheFrom :: "CacheStats \<Rightarrow> jdoc"
  where "statsCacheFrom c =
    DObj [(''hits'', DInt (CacheStats.Hits c)), (''misses'', DInt (Misses c)), (''hit_rate'', DFloat (HitRate c))]"

definition statsModelUsage :: "ModelUsage \<Rightarrow> jdoc"
  where "statsModelUsage u =
    DObj [(''tokens'', DInt (Tokens u)), (''cost_usd'', DFloat (CostUSD u)), (''pricing_known'', DBool (PricingKnown u))]"

definition statsExpensiveEntry :: "ExpensiveEntry \<Rightarrow> jdoc"
  where "statsExpensiveEntry e =
    DObj [(''cache_type'', DStr (CacheType e)), (''prompt'', DStr (Prompt e)), (''cost_usd'', DFloat (Cost e)),
      (''hits'', DInt (ExpensiveEntry.Hits e))]"

definition statsAnalyticsFrom :: "TrackerSnapshot \<Rightarrow> jdoc"
  where "statsAnalyticsFrom snap =
    DObj [(''embedding_by_model'', mapDoc statsModelUsage (EmbeddingByModel snap)),
      (''completion_by_model'', mapDoc statsModelUsage (CompletionByModel snap)),
      (''money_saved_total_usd'', DFloat (MoneySavedTotalUSD snap)),
      (''top_expensive_entries'', DArr (map statsExpensiveEntry (TopExpensiveEntries snap)))]"

definition latencyDoc :: "LatencyStats \<Rightarrow> jdoc" \<comment> \<open>a struct without tags\<close>
  where "latencyDoc l =
    DObj [(''Family'', DStr (lFamily l)), (''Count'', DInt (lCount l)), (''AvgNanos'', DInt (AvgNanos l)), (''MaxNanos'', DInt (MaxNanos l))]"

definition statsResponse :: "Snapshot \<Rightarrow> TrackerSnapshot \<Rightarrow> jdoc"
  where "statsResponse snap an =
    DObj [(''connections'', DObj [(''total'', DInt (ConnectionsTotal snap)), (''active'', DInt (ConnectionsActive snap)),
        (''rejected'', DInt (ConnectionsRejected snap))]),
      (''commands_total'', DInt (CommandsTotal snap)),
      (''errors_total'', DInt (ErrorsTotal snap)),
      (''caches'', DObj [(''prompt_cache'', statsCacheFrom (PromptCache snap)), (''semantic_cache'', statsCacheFrom (SemanticCache snap)),
        (''tool_cache'', statsCacheFrom (ToolCache snap))]),
      (''vector_searches_total'', DInt (VectorSearchesTotal snap)),
      (''memory_reads_total'', DInt (MemoryReadsTotal snap)),
      (''memory_writes_total'', DInt (MemoryWritesTotal snap)),
      (''evictions_total'', DInt (EvictionsTotal snap)),
      (''consolidations_total'', DInt (ConsolidationsTotal snap)),
      (''memories_deduped_total'', DInt (MemoriesDedupedTotal snap)),
      (''graph_extractions_total'', DInt (GraphExtractionsTotal snap)),
      (''entities_extracted_total'', DInt (EntitiesExtractedTotal snap)),
      (''relations_extracted_total'', DInt (RelationsExtractedTotal snap)),
      (''mcp'', DObj [(''calls_total'', DInt (MCPCallsTotal snap)), (''calls_by_tool'', mapDoc DInt (MCPCallsByTool snap))]),
      (''embedding'', DObj [(''calls_total'', DInt (EmbeddingCallsTotal snap)), (''calls_errors'', DInt (EmbeddingCallsErrors snap)),
        (''calls_in_flight'', DInt (EmbeddingCallsInFlight snap))]),
      (''completion'', DObj [(''calls_total'', DInt (CompletionCallsTotal snap)), (''calls_errors'', DInt (CompletionCallsErrors snap)),
        (''calls_in_flight'', DInt (CompletionCallsInFlight snap))]),
      (''latency_by_family'', DArr (map latencyDoc (Latency snap))),
      (''analytics'', statsAnalyticsFrom an)]"

definition StatsHandler :: "goenv \<Rightarrow> Metrics \<Rightarrow> Tracker \<Rightarrow> string" \<comment> \<open>nothing is written when the encoder fails\<close>
  where "StatsHandler env m t =
    (case encodeDoc (statsResponse (takeSnapshot env m) (tracker_Snapshot t)) of None \<Rightarrow> [] | Some s \<Rightarrow> s @ nl)"

section \<open>The dashboard\<close>

record dashboardCacheRow =
  dcName :: string
  dcHits :: int
  dcMisses :: int
  dcHitRate :: float64

record dashboardView =
  dvConnections :: "int \<times> int \<times> int"
  dvCommandsTotal :: int
  dvErrorsTotal :: int
  dvCaches :: "dashboardCacheRow list"
  dvLatency :: "LatencyStats list"
  dvModels :: "(string \<times> ModelUsage) list"
  dvMoneySavedUSD :: float64
  dvTopEntries :: "ExpensiveEntry list"

definition cacheRow :: "string \<Rightarrow> CacheStats \<Rightarrow> dashboardCacheRow"
  where "cacheRow name c = \<lparr>dcName = name, dcHits = CacheStats.Hits c, dcMisses = Misses c, dcHitRate = HitRate c\<rparr>"

definition buildDashboardView :: "goenv \<Rightarrow> Snapshot \<Rightarrow> TrackerSnapshot \<Rightarrow> dashboardView"
  where "buildDashboardView env snap an =
    \<lparr>dvConnections = (ConnectionsTotal snap, ConnectionsActive snap, ConnectionsRejected snap),
     dvCommandsTotal = CommandsTotal snap, dvErrorsTotal = ErrorsTotal snap,
     dvCaches = [cacheRow ''semantic_cache'' (SemanticCache snap), cacheRow ''prompt_cache'' (PromptCache snap),
       cacheRow ''tool_cache'' (ToolCache snap)],
     dvLatency = insertionSort (\<lambda>a b. lFamily a < lFamily b) (Latency snap),
     dvModels = insertionSort (\<lambda>a b. fst a < fst b)
       (map (\<lambda>k. (k, the (fmlookup (EmbeddingByModel an) k))) (range_keys env (EmbeddingByModel an))),
     dvMoneySavedUSD = MoneySavedTotalUSD an, dvTopEntries = TopExpensiveEntries an\<rparr>"

end
