(* ===== verification/EndpointProperties.thy ===== *)
theory EndpointProperties
  imports ServerProperties Endpoints
begin

text \<open>
  What the HTTP endpoints show: the shape of the Prometheus text, the independence of the dashboard from
  map iteration, and the effect of an infinite cost on the statistics.
\<close>

section \<open>Lines of the Prometheus text\<close>

abbreviation newline :: char where "newline \<equiv> CHR 0x0A"

definition oneLine :: "string \<Rightarrow> bool" where "oneLine s \<longleftrightarrow> newline \<notin> set s"

lemma count_lines [simp]:
  "count_list (s @ t) newline = count_list s newline + count_list t newline"
  "oneLine s \<Longrightarrow> count_list s newline = 0"
  by (simp_all add: oneLine_def count_notin)

lemma oneLine_simps [simp]:
  "oneLine []" "oneLine (s @ t) \<longleftrightarrow> oneLine s \<and> oneLine t" "oneLine (c # s) \<longleftrightarrow> c \<noteq> newline \<and> oneLine s"
  "oneLine (concat ss) \<longleftrightarrow> (\<forall>s\<in>set ss. oneLine s)"
  by (auto simp: oneLine_def)

lemma oneLine_quoteChar: "oneLine (quoteChar c)"
proof -
  have "hex_digit n \<noteq> newline" if "n < 16" for n
    using that by (auto simp: hex_digit_def char_of_eq_iff take_bit_eq_mod)
  then have "oneLine (hex_encode [b])" if "b < 128" for b using that by (simp add: hex_encode_def)
  moreover have "byte c \<noteq> 10 \<Longrightarrow> c \<noteq> newline" by auto
  ultimately show ?thesis by (auto simp: quoteChar_def Let_def)
qed

lemma oneLine_quoted [simp]: "\<forall>s. oneLine (uq s) \<Longrightarrow> oneLine (quoted uq l)"
  by (auto simp: quoted_def oneLine_quoteChar dq_def)

lemma oneLine_digits: "list_all is_digit s \<Longrightarrow> oneLine s"
  by (auto simp: oneLine_def list_all_iff is_digit_def less_eq_char_def)

lemma oneLine_nat [simp]: "oneLine (format_nat n)"
  using format_nat_digits oneLine_digits by blast

lemma oneLine_Itoa [simp]: "oneLine (Itoa n)"
  by (simp add: FormatInt_def)

text \<open>
  A label that a client chose, like the family of an unknown command, cannot start a line of its own:
  every sample is one line.
\<close>

lemma labelled_line:
  assumes "\<forall>s. oneLine (uq s)" "oneLine name" "oneLine label" "oneLine v"
  shows "labelled uq name label l v = butlast (labelled uq name label l v) @ [newline] \<and> oneLine (butlast (labelled uq name label l v))"
  using assms by (simp add: labelled_def butlast_append)

section \<open>The dashboard\<close>

lemma latency_families: "lFamily (latencyStats lat f) = f"
  by (simp add: latencyStats_def split: option.split)

lemma range_keys_mset: "env_ok e \<Longrightarrow> env_ok e' \<Longrightarrow> mset (range_keys e f) = mset (range_keys e' f)"
  by (intro set_eq_iff_mset_eq_distinct [THEN iffD1]) simp_all

text \<open>
  The dashboard does not depend on the order in which Go iterates its maps: rows of latencies and of
  models come sorted by name, each once.
\<close>

theorem dashboard_deterministic:
  assumes "env_ok e1" "env_ok e2" "env_ok e3" "env_ok e4"
  shows "buildDashboardView e1 (takeSnapshot e2 m) an = buildDashboardView e3 (takeSnapshot e4 m) an \<and>
    sorted_wrt (<) (map lFamily (dvLatency (buildDashboardView e1 (takeSnapshot e2 m) an))) \<and>
    set (map lFamily (dvLatency (buildDashboardView e1 (takeSnapshot e2 m) an))) = fmdom' (latency m) \<and>
    sorted_wrt (<) (map fst (dvModels (buildDashboardView e1 (takeSnapshot e2 m) an))) \<and>
    set (dvModels (buildDashboardView e1 (takeSnapshot e2 m) an)) =
      {(k, u). fmlookup (EmbeddingByModel an) k = Some u}"
proof -
  let ?lat = "\<lambda>e. map (latencyStats (latency m)) (range_keys e (latency m))"
  let ?mod = "\<lambda>e. map (\<lambda>k. (k, the (fmlookup (EmbeddingByModel an) k))) (range_keys e (EmbeddingByModel an))"
  have inj: "inj_on (latencyStats (latency m)) A" for A by (metis inj_onI latency_families)
  have injm: "inj_on (\<lambda>k. (k, the (fmlookup (EmbeddingByModel an) k))) A" for A by (auto simp: inj_on_def)
  have dl: "distinct (?lat e)" "distinct (?mod e)" if "env_ok e" for e
    using that by (simp_all add: distinct_map inj injm)
  have ol: "orders (\<lambda>a b. lFamily a < lFamily b) (set (?lat e))" for e
    unfolding orders_def by (auto simp: latency_families) (metis linorder_neqE)
  have om: "orders (\<lambda>a b. fst a < fst b) (set (?mod e))" for e
    by (auto simp: orders_def)
  have lat: "insertionSort (\<lambda>a b. lFamily a < lFamily b) (?lat e2) = insertionSort (\<lambda>a b. lFamily a < lFamily b) (?lat e4)"
    by (rule insertionSort_cong_mset [OF ol dl(1) [OF assms(2)]]) (simp add: range_keys_mset [OF assms(2,4)])
  have mods: "insertionSort (\<lambda>a b. fst a < fst b) (?mod e1) = insertionSort (\<lambda>a b. fst a < fst b) (?mod e3)"
    by (rule insertionSort_cong_mset [OF om dl(2) [OF assms(1)]]) (simp add: range_keys_mset [OF assms(1,3)])
  have "sorted_wrt (\<lambda>a b. lFamily a < lFamily b) (insertionSort (\<lambda>a b. lFamily a < lFamily b) (?lat e2))"
    "sorted_wrt (\<lambda>a b. fst a < fst b) (insertionSort (\<lambda>a b. fst a < fst b) (?mod e1))"
    using insertionSort_sorted [OF ol dl(1) [OF assms(2)]] insertionSort_sorted [OF om dl(2) [OF assms(1)]] by simp_all
  moreover have "lFamily ` latencyStats (latency m) ` fmdom' (latency m) = fmdom' (latency m)"
    by (simp add: image_image latency_families)
  moreover have "(\<lambda>k. (k, the (fmlookup (EmbeddingByModel an) k))) ` fmdom' (EmbeddingByModel an) =
      {(k, u). fmlookup (EmbeddingByModel an) k = Some u}"
    by (force simp: fmlookup_dom'_iff)
  ultimately show ?thesis
    using lat mods assms by (simp add: buildDashboardView_def takeSnapshot_def sorted_wrt_map)
qed

theorem dashboard_deterministic_witness:
  "buildDashboardView (env_at 1) (takeSnapshot (env_at 1) NewMetrics) (tracker_Snapshot tracker_New) =
   buildDashboardView \<lparr>now = 2, order = rev\<rparr> (takeSnapshot \<lparr>now = 2, order = rev\<rparr> NewMetrics) (tracker_Snapshot tracker_New)"
proof -
  have "env_ok \<lparr>now = 2, order = rev\<rparr>" by (simp add: env_ok_def)
  then show ?thesis
    using dashboard_deterministic [of "env_at 1" "env_at 1" "\<lparr>now = 2, order = rev\<rparr>" "\<lparr>now = 2, order = rev\<rparr>"] by simp
qed

section \<open>Statistics\<close>

lemma encode_None: "None \<in> (\<lambda>d. encodeDoc (snd d)) ` set fs \<Longrightarrow> encodeDoc (DObj fs) = None"
  by (force simp: sequence_None image_iff split_beta)

lemma stats_not_finite:
  assumes "\<nexists>s q. moneySavedTotalUSD t = Fin s q"
  shows "StatsHandler env m t = []"
proof -
  have "encodeDoc (DFloat (moneySavedTotalUSD t)) = None" using assms by (cases "moneySavedTotalUSD t") auto
  then have "encodeDoc (statsAnalyticsFrom (tracker_Snapshot t)) = None"
    unfolding statsAnalyticsFrom_def by (intro encode_None) (simp add: tracker_Snapshot_def)
  then have "encodeDoc (statsResponse s (tracker_Snapshot t)) = None" for s
    unfolding statsResponse_def by (intro encode_None) simp
  then show ?thesis by (simp add: StatsHandler_def)
qed

text \<open>
  C40. A cost of \<open>inf\<close> is accepted, and one hit on the entry makes \<^verbatim>\<open>/stats\<close> answer with an empty body:
  JSON has no infinity, and the error of the encoder is dropped.
\<close>

theorem infinite_cost_empties_stats:
  assumes "run_state (handleCachePrompt [''CACHE.PROMPT'', ''SET'', tmpl, vars, model, response, ''COST'', ''inf'']) se = (OK, se')"
    and "run_state (handleCachePrompt [''CACHE.PROMPT'', ''GET'', tmpl, vars, model]) se' = (r, se'')"
  shows "r = BulkString response \<and> StatsHandler env (dMetrics (deps se'')) (aTracker (dExt (deps se''))) = []"
proof -
  have up: "to_upper ''SET'' = ''SET''" "to_upper ''GET'' = ''GET''" "to_upper ''COST'' = ''COST''" by code_simp+
  have c: "parseCostArg ''inf'' = Inr (Inf False)" by code_simp
  have add: "\<nexists>s q. f64_add x (Inf False) = Fin s q" for x by (cases x) auto
  have pos: "f64_lt f64_zero (Inf False)" "\<not> f64_le (Inf False) f64_zero" by code_simp+
  have rec: "moneySavedTotalUSD (RecordCacheHitSavings ty p (Inf False) t) \<noteq> Fin s q" for ty p t s q
    using add [of "moneySavedTotalUSD t"] pos by (auto simp: RecordCacheHitSavings_def Let_def split: option.splits)
  obtain key where key: "TemplateKey tmpl vars model = Some key"
    using assms(1) by (cases "TemplateKey tmpl vars model")
      (auto simp: handleCachePrompt_def handleCachePromptSet_def up c numeral_eq_Suc simp del: to_upper.simps split: sum.splits)
  show ?thesis
    using assms
    by (auto simp: handleCachePrompt_def handleCachePromptSet_def handleCachePromptGet_def promptSetCmd_def promptGetCmd_def ai_def Let_def
        meter_def track_def PromptCache_Set_def PromptCache_Get_def deadline_def expiredAt_def up c key pos rec simp del: to_upper.simps
        intro!: stats_not_finite)
qed

theorem infinite_cost_empties_stats_witness:
  "\<exists>se' se''. run_state (handleCachePrompt [''CACHE.PROMPT'', ''SET'', ''t'', render (RObj demoFields), ''m'', ''r'', ''COST'', ''inf''])
      (accepted 1 (aiServer (auth_New []))) = (OK, se') \<and>
    run_state (handleCachePrompt [''CACHE.PROMPT'', ''GET'', ''t'', render (RObj demoFields), ''m'']) se' = (BulkString ''r'', se'') \<and>
    StatsHandler (env_at 1) (dMetrics (deps se'')) (aTracker (dExt (deps se''))) = []"
proof -
  let ?set = "run_state (handleCachePrompt [''CACHE.PROMPT'', ''SET'', ''t'', render (RObj demoFields), ''m'', ''r'', ''COST'', ''inf''])
    (accepted 1 (aiServer (auth_New [])))"
  let ?get = "run_state (handleCachePrompt [''CACHE.PROMPT'', ''GET'', ''t'', render (RObj demoFields), ''m''])"
  have up: "to_upper ''SET'' = ''SET''" "to_upper ''COST'' = ''COST''" by code_simp+
  have c: "parseCostArg ''inf'' = Inr (Inf False)" by code_simp
  have "TemplateKey ''t'' (render (RObj demoFields)) ''m'' \<noteq> None"
    using parse_render [OF demoFields_ok(1)] demoFields_ok(2)
    by (simp add: TemplateKey_def UnmarshalMap_def UnmarshalAny_def del: render.simps decodeAny.simps)
  then have "fst ?set = OK"
    by (auto simp: handleCachePrompt_def handleCachePromptSet_def promptSetCmd_def ai_def Let_def up c
        simp del: to_upper.simps render.simps)
  then have set: "?set = (OK, snd ?set)" by (metis prod.collapse)
  have get: "?get (snd ?set) = (fst (?get (snd ?set)), snd (?get (snd ?set)))" by simp
  show ?thesis using set get infinite_cost_empties_stats [OF set get] by (metis (no_types))
qed

end
