(* ===== verification/Spec2Isabelle.thy ===== *)
theory Spec2Isabelle
  imports SystemProperties TypeProperties ProviderProperties EndpointProperties
begin

text \<open>
  A verification development for Cache-Pot, a Redis-compatible cache server with caches for
  language-model applications, written in Go. Paths are relative to \<^verbatim>\<open>src/\<close>.

  \<^bold>\<open>The program.\<close> A client connection (\<^verbatim>\<open>internal/server/resp/conn.go\<close>) reads commands in the
  RESP protocol (\<^verbatim>\<open>types.go\<close>), hands each to the dispatcher (\<^verbatim>\<open>dispatch.go\<close>), which checks
  authentication, queues inside MULTI, checks the number of arguments and calls a handler
  (\<^verbatim>\<open>handlers_*.go\<close>). Handlers call the storage engine (\<^verbatim>\<open>internal/storage\<close>,
  \<^verbatim>\<open>internal/storage/memstore\<close>), the publish/subscribe broker (\<^verbatim>\<open>pubsub.go\<close>), the metrics
  (\<^verbatim>\<open>internal/observability/metrics.go\<close>) and the stores for language-model applications: semantic, prompt
  and tool caches, vectors, agent memory, the knowledge graph. A second front door offers these
  stores as MCP tools (\<^verbatim>\<open>internal/mcp\<close>). The process (\<^verbatim>\<open>cmd/cachepotd\<close>, \<^verbatim>\<open>internal/server\<close>) reads its
  configuration, builds the one set of stores and serves connections and tool calls. A reaper (\<^verbatim>\<open>internal/storage/ttl\<close>) removes expired
  keys in the background, and a policy (\<^verbatim>\<open>internal/eviction\<close>) chooses what to evict when the store
  has an entry cap.

  \<^bold>\<open>Conventions\<close> (\<open>Prelude\<close>). Go's 64-bit integers are \<open>int\<close> with \<open>int64\<close> written out where a
  computation can leave the range; \<^verbatim>\<open>uint64\<close> and the hash are words. A byte slice is \<open>None\<close> (nil)
  or \<open>Some\<close> its bytes. A Go map is a finite map; the order of a \<^verbatim>\<open>range\<close> loop and the reading of
  the clock are parts of an environment \<open>goenv\<close>, an argument of every operation that depends on
  them, and every theorem holds for all of them (\<open>env_ok\<close>: the order is a permutation). Floats are
  IEEE binary64 with rounding to nearest even (\<open>Float64\<close>). Errors are values of a sum type, and a
  panic is a result.

  \<^bold>\<open>Storage.\<close> \<open>Eviction\<close>: signals and the two policies. \<open>Glob\<close>: the pattern matcher and the
  declarative relation \<open>matches\<close> that it decides. \<open>Strconv\<close>: integers in decimal. \<open>Shard\<close>: entries and
  one shard (\<^verbatim>\<open>types.go\<close>, \<^verbatim>\<open>shard.go\<close>), its invariant, and \<open>lstep\<close>, what a locked operation
  may do. \<open>Store\<close>, \<open>StoreHash\<close>, \<open>StoreList\<close>, \<open>StoreSet\<close>, \<open>StoreZSet\<close>: the operations of
  \<^verbatim>\<open>store.go\<close>, each with a lemma \<open>implements\<close>: it acts on its key as a function on the live cell
  and changes no other key, up to one eviction. \<open>Keyspace\<close>: KEYS and SCAN. \<open>Engine\<close>: the interface of
  \<^verbatim>\<open>engine.go\<close> as a data type of calls, runs of calls, reachable stores. \<open>Refinement\<close>: the abstract
  map and the simulation. \<open>Capacity\<close>: what the entry cap bounds. \<open>Reaper\<close>: ticks, with a
  reading of the clock for every shard, against the locale \<open>sweepable\<close> that the store interprets.

  \<^bold>\<open>Server.\<close> \<open>Auth\<close>: passwords and workspaces. \<open>Resp\<close>: reading commands and writing replies, with
  a client's decoder for the round trips. \<open>PubSub\<close>, \<open>Metrics\<close>. \<open>Session\<close>: dependencies, connection
  state, the state monad of handlers, and \<open>served\<close>, which says that a computation made only engine
  calls in given workspaces. \<open>DataHandlers\<close>, \<open>Strfloat\<close> and \<open>ZSetHandlers\<close>, \<open>ConnHandlers\<close>: the
  handlers. \<open>Dispatch\<close>: the command table with all 93 registrations and \<open>Handle\<close>. \<open>Isolation\<close>: the
  invariant of a connection and that every command keeps it. \<open>Connection\<close>: the loop from the first
  byte to the clean-up.

  \<^bold>\<open>Stores for language-model applications.\<close> \<open>Vector\<close>: similarity and the flat vector index
  (\<^verbatim>\<open>internal/embed/similarity.go\<close>, \<^verbatim>\<open>internal/vector\<close>). \<open>Caches\<close>: the semantic, prompt and tool
  caches (\<^verbatim>\<open>internal/semantic\<close>, \<^verbatim>\<open>internal/toolcache\<close>), the latter two against the locale
  \<open>expiring_cache\<close>. \<open>Memory\<close>: agent memory with versions and expiry (\<^verbatim>\<open>internal/memory\<close>).
  \<open>Consolidate\<close>: deduplication and summaries (\<^verbatim>\<open>internal/consolidate\<close>). \<open>Graph\<close>: the knowledge graph
  and its traversal (\<^verbatim>\<open>internal/graph\<close>). \<open>Analytics\<close>: the cost tracker (\<^verbatim>\<open>internal/analytics\<close>).
  \<open>SortSlice\<close>: \<^verbatim>\<open>sort.Slice\<close>. \<open>Json\<close>: decoding and encoding as \<^verbatim>\<open>encoding/json\<close> does it, as far as the code
  uses it, with \<open>JsonRoundtrip\<close>. \<open>Keys\<close>: cache keys from JSON arguments, vectors and metadata. \<open>Extract\<close>:
  entities and relations from the answer of a model (\<^verbatim>\<open>internal/graph/extract.go\<close>). \<open>AIState\<close>: the stores as one
  state, calls of the providers with their instrumentation. \<open>AIHandlers\<close>: the handlers
  (\<^verbatim>\<open>handlers_semantic.go\<close>, \<^verbatim>\<open>handlers_toolcache.go\<close>, \<^verbatim>\<open>handlers_vector.go\<close>, \<^verbatim>\<open>handlers_memory.go\<close>,
  \<^verbatim>\<open>handlers_agent.go\<close>, \<^verbatim>\<open>handlers_consolidate.go\<close>, \<^verbatim>\<open>handlers_graph.go\<close>); they instantiate the parameter
  \<open>ext\<close> of the dispatcher. \<open>AIIsolation\<close>: the locale \<open>ai_contract\<close>, the contract of the stores with the
  handlers, and its three instances. What an embedding or completion service answers, random bytes and
  the time zone are parameters (\<open>services\<close>, \<open>aZone\<close>). \<open>Keys\<close> has SHA-256. \<open>Providers\<close>: the clients of
  OpenAI-compatible services and the mocks (\<^verbatim>\<open>internal/embed\<close>, \<^verbatim>\<open>internal/llm\<close>), with the HTTP exchange and the
  generator of \<^verbatim>\<open>math/rand\<close> as parameters. \<open>Endpoints\<close>: the bodies of \<^verbatim>\<open>/metrics\<close> and \<^verbatim>\<open>/stats\<close> and the data of
  the dashboard (\<^verbatim>\<open>internal/observability/http.go\<close>).

  \<^bold>\<open>The process.\<close> \<open>Trim\<close>: splitting and trimming of strings. \<open>Config\<close>: the \<^verbatim>\<open>.env\<close> file, environment and
  flags (\<^verbatim>\<open>cmd/cachepotd/main.go\<close>, \<^verbatim>\<open>internal/server/config.go\<close>). \<open>MCPTools\<close>: the fifteen MCP tools.
  \<open>FrontDoors\<close>: the relation \<open>mirrors\<close> between a tool call and the command that says the same, one rule
  for each tool, and the simulation \<open>agree\<close> between the two. \<open>System\<close>: start-up
  (\<^verbatim>\<open>internal/server/server.go\<close>; whether a port can be bound is a parameter, \<open>wListen\<close>), the process as a
  sequence of events (connections, commands, hang-ups, tool calls, sweeps, deliveries of published
  messages), its invariant and the locale
  \<open>system_contract\<close> with two instances: the invariants of all stores, and the other workspaces.

  \<^bold>\<open>What is shown.\<close> \<open>StorageProperties\<close>: the invariant of reachable stores, the refinement of the
  abstract map, WATCH. \<open>KeyspaceProperties\<close>: KEYS, SCAN, RENAME, FLUSHDB, expiry, eviction, the cap.
  \<open>DataProperties\<close>: sorted sets, set algebra, LREM, the two glob matchers. \<open>CommandProperties\<close>: the
  wire format, authentication, transactions, string commands. \<open>TypeProperties\<close>: which calls a key of
  which kind refuses. \<open>ConnectionProperties\<close>: pipelining, deliveries, statistics. \<open>ServerProperties\<close>:
  invariants of whole connections, workspace isolation and its gap, commands from their JSON arguments
  to their replies. \<open>SystemProperties\<close>: configuration and start-up, the invariants and the isolation
  under every interleaving of events, the agreement of the front doors. \<open>ProviderProperties\<close>: requests
  and responses of the embedding service. \<open>EndpointProperties\<close>: the statistics and the dashboard. \<open>AIProperties\<close>: exact
  search results of the vector index and of agent memory, breadth-first traversal of the graph, the
  invariant and histories of agent memory, the caches, consolidation, the cost tracker. Theorems about
  behaviour that the code probably does not intend (overflow of EXPIRE and INCR, the null reply for
  an empty value, RENAME past the cap, the crash on a huge header, split error replies, unbounded
  latency families, expired memories that hide matches or come back, missed identical prompts, a
  summary across workspaces, colliding tool calls, overflow of TTL, empty vectors from repeated indices,
  statistics emptied by an infinite cost) are stated as what the code does.

  \<^bold>\<open>Fuel and bounds.\<close> The loops are total functions; the only fuel is that of the client's decoder
  \<open>decode\<close> (the nesting depth and length of the reply is enough, \<open>reply_round_trip\<close>) and of the
  client's SCAN iteration \<open>scanAll\<close> (one call more than there are live keys, \<open>scan_complete\<close>). The
  recursion of EXEC through the dispatcher is unrolled twice, which \<open>dispatch_fixpoint\<close> shows to be
  exact. WATCH theorems bound the number of version bumps by the 64-bit counter.

  \<^bold>\<open>Concurrency.\<close> The engine's operations hold the lock of their shard, so a concurrent execution is
  an interleaving of whole operations; the storage theorems quantify over all sequences of calls
  of all clients. The theorems on whole connections take the commands of one connection as one sequence;
  those of \<open>SystemProperties\<close> interleave whole commands of all connections, tool calls and sweeps. Inside
  a command other connections can interfere between its calls of the engine or a store, which is not
  modelled, except for the two critical sections of a tool cache lookup. In particular each of these is
  one step here: SINTER, SUNION and SDIFF, which the code lets take the snapshots of their keys one after
  the other, each with a clock reading of its own; \<open>Consolidate\<close>, which releases the memory store between
  listing, completion and storing; and \<open>Publish\<close>, which sends to the channels after it has released its
  lock. The client's SCAN iteration \<open>scanAll\<close> runs on one store and one clock reading; what SCAN returns
  when keys change between its calls is not stated.

  \<^bold>\<open>Not modelled.\<close> Sockets beyond whether they can be bound, signals, logging and the grace period of shutdown; the MCP
  protocol library, which decodes tool inputs (the tools are modelled on decoded inputs, the text of
  their errors as a constructor with its arguments); the rendering of the dashboard by
  \<^verbatim>\<open>html/template\<close>. Third-party and remote code is a parameter: the HTTP exchange with a provider, the
  generator of \<^verbatim>\<open>math/rand\<close>, random bytes, the time zone and Unicode tables.
\<close>

end
